(* ===== verification/LL_Prelude.thy ===== *)
theory LL_Prelude
  imports Main "HOL-Library.Monad_Syntax"
begin

text \<open>
  Shared vocabulary of the development: Go error values and results, byte strings with the
  string functions of Go's standard library that the program uses, instants, 64-bit integer
  wrap-around, and association lists with the update discipline of Go maps and SQL upserts.
\<close>

named_theorems res_simps "unfolding rules of the result combinators"
named_theorems row_simps "row-level facts about table updates"

section \<open>Errors and results\<close>

text \<open>
  The sentinel values of \<^verbatim>\<open>internal/eventsourcing/errors.go\<close> and the domain packages, the context
  errors of the standard library, wrapped errors as \<^verbatim>\<open>fmt.Errorf\<close> builds them: a text and
  the wrapped errors (none, one, or several \<^verbatim>\<open>%w\<close> verbs), and the \<^verbatim>\<open>RateLimitError\<close> of
  \<^verbatim>\<open>internal/spotify/client.go\<close>: a provider, the delay it asks for and its HTTP status.
\<close>

datatype sentinel =
    ErrConcurrencyConflict
  | ErrAppendIndeterminate
  | ErrStreamNotFound
  | ErrSnapshotNotFound
  | ErrContextDone
  | ErrEmptyArtistName
  | ErrInvalidListStatus
  | ErrInvalidFetchStatus
  | ErrEmptyTitle
  | ErrEmptyArtist
  | ErrInvalidStatus
  | ErrEmptySongTitle
  | ErrQuotaExhausted
  | ErrRateLimited
  | ErrRequestAlreadySucceeded
  | ErrTerminalFailure

datatype gerr = Sentinel sentinel | Errorf string "gerr list" | RateLimitError string int int

primrec errors_is :: "sentinel \<Rightarrow> gerr \<Rightarrow> bool" where
  "errors_is s (Sentinel t) = (s = t)"
| "errors_is s (Errorf m es) = (True \<in> set (map (errors_is s) es))"
| "errors_is s (RateLimitError provider after status) = (s = ErrRateLimited)"

type_synonym 'a res = "gerr + 'a"

abbreviation Ok :: "'a \<Rightarrow> 'a res" where "Ok \<equiv> Inr"
abbreviation Fail :: "gerr \<Rightarrow> 'a res" where "Fail \<equiv> Inl"
abbreviation fail_msg :: "string \<Rightarrow> 'a res" where "fail_msg m \<equiv> Inl (Errorf m [])"

definition bind_res :: "'a res \<Rightarrow> ('a \<Rightarrow> 'b res) \<Rightarrow> 'b res" where
  "bind_res r f = (case r of Inl e \<Rightarrow> Inl e | Inr x \<Rightarrow> f x)"

definition wrap_err :: "string \<Rightarrow> 'a res \<Rightarrow> 'a res" where
  "wrap_err m r = (case r of Inl e \<Rightarrow> Inl (Errorf m [e]) | Inr x \<Rightarrow> Inr x)"

definition of_opt :: "gerr \<Rightarrow> 'a option \<Rightarrow> 'a res" where
  "of_opt e r = (case r of None \<Rightarrow> Inl e | Some x \<Rightarrow> Inr x)"

lemma bind_res_simps [simp, res_simps]:
  "bind_res (Inl e) f = Inl e"
  "bind_res (Inr x) f = f x"
  by (simp_all add: bind_res_def)

lemma wrap_err_simps [simp, res_simps]:
  "wrap_err m (Inl e) = Inl (Errorf m [e])"
  "wrap_err m (Inr x) = Inr x"
  by (simp_all add: wrap_err_def)

lemma of_opt_simps [simp, res_simps]:
  "of_opt e None = Inl e"
  "of_opt e (Some x) = Inr x"
  by (simp_all add: of_opt_def)

lemma bind_res_eq_Inr:
  "bind_res r f = Inr y \<longleftrightarrow> (\<exists>x. r = Inr x \<and> f x = Inr y)"
  by (cases r) auto

lemma wrap_err_eq_Inr [simp, res_simps]: "wrap_err m r = Inr x \<longleftrightarrow> r = Inr x"
  by (cases r) auto

lemma of_opt_eq_Inr [simp, res_simps]: "of_opt e r = Inr x \<longleftrightarrow> r = Some x"
  by (cases r) auto

lemma bind_res_assoc: "bind_res (bind_res r f) g = bind_res r (\<lambda>x. bind_res (f x) g)"
  by (cases r) auto

lemma case_okE:
  assumes "case r of Inl e \<Rightarrow> False | Inr x \<Rightarrow> P x"
  obtains x where "r = Inr x" and "P x"
  using assms by (cases r) auto

text \<open>Folding a fallible step over a list, stopping at the first error (a Go \<^verbatim>\<open>for\<close> loop
  whose body returns on error).\<close>

fun fold_res :: "('s \<Rightarrow> 'x \<Rightarrow> 's res) \<Rightarrow> 's \<Rightarrow> 'x list \<Rightarrow> 's res" where
  "fold_res f s [] = Inr s"
| "fold_res f s (x # xs) = bind_res (f s x) (\<lambda>s'. fold_res f s' xs)"

lemma fold_res_append:
  "fold_res f s (xs @ ys) = bind_res (fold_res f s xs) (\<lambda>s'. fold_res f s' ys)"
  by (induction xs arbitrary: s) (simp_all add: bind_res_assoc)

lemma fold_res_invariant:
  assumes "fold_res f s xs = Inr s'" and "P s"
    and "\<And>s x s'. P s \<Longrightarrow> x \<in> set xs \<Longrightarrow> f s x = Inr s' \<Longrightarrow> P s'"
  shows "P s'"
  using assms
proof (induction xs arbitrary: s)
  case Nil
  then show ?case by simp
next
  case (Cons x xs)
  from Cons.prems(1) obtain s1 where s1: "f s x = Inr s1" and rest: "fold_res f s1 xs = Inr s'"
    by (auto simp: bind_res_eq_Inr)
  have "P s1" using Cons.prems(2,3) s1 by auto
  with rest Cons.prems(3) show ?case by (intro Cons.IH [of s1]) auto
qed

section \<open>64-bit integers and instants\<close>

text \<open>
  Go's \<^verbatim>\<open>int64\<close> and \<^verbatim>\<open>int\<close> values are integers; \<^verbatim>\<open>wrap64\<close> is the two's complement result of
  an arithmetic operation on them. Version counters stay far below the limit and are plain
  integers; arithmetic on values that come from outside wraps.
\<close>

definition wrap64 :: "int \<Rightarrow> int" where
  "wrap64 x = (x + 2 ^ 63) mod 2 ^ 64 - 2 ^ 63"

definition in_int64 :: "int \<Rightarrow> bool" where
  "in_int64 x \<longleftrightarrow> - (2 ^ 63) \<le> x \<and> x < 2 ^ 63"

lemma wrap64_in_range: "in_int64 (wrap64 x)"
  by (simp add: wrap64_def in_int64_def)

lemma wrap64_id: "in_int64 x \<Longrightarrow> wrap64 x = x"
  by (simp add: wrap64_def in_int64_def)

lemma wrap64_add_cancel:
  assumes "in_int64 x"
  shows "wrap64 (y + wrap64 (x - y)) = x"
proof -
  have "(y + wrap64 (x - y) + 2 ^ 63) mod 2 ^ 64 = (y + (x - y + 2 ^ 63) mod 2 ^ 64) mod 2 ^ 64"
    by (simp add: wrap64_def algebra_simps)
  also have "\<dots> = (x + 2 ^ 63) mod 2 ^ 64"
    by (simp add: mod_add_right_eq algebra_simps)
  finally show ?thesis
    using wrap64_id [OF assms] by (simp add: wrap64_def)
qed

text \<open>\<^verbatim>\<open>time.Time\<close> as nanoseconds since the Unix epoch; the zero \<^verbatim>\<open>Time\<close> is 1 January of year 1.\<close>

type_synonym time = int

definition zero_time :: time where "zero_time = - 62135596800 * 10 ^ 9"

definition second :: time where "second = 10 ^ 9"

definition is_zero_time :: "time \<Rightarrow> bool" where "is_zero_time t \<longleftrightarrow> t = zero_time"

section \<open>Byte strings\<close>

text \<open>
  A Go string is a sequence of bytes and is modelled as \<^typ>\<open>string\<close>, one \<^typ>\<open>char\<close> per byte.
  \<open>space_width s\<close> is the number of bytes of the Unicode white-space rune \<open>s\<close> starts with
  (\<^verbatim>\<open>unicode.IsSpace\<close>), 0 when it starts with no such rune; \<open>rspace_width\<close> is the same for the
  last rune of a string given in reverse.
\<close>

abbreviation byte :: "char \<Rightarrow> nat" where "byte \<equiv> of_char"

definition ascii_space :: "char \<Rightarrow> bool" where
  "ascii_space c \<longleftrightarrow> byte c = 32 \<or> (9 \<le> byte c \<and> byte c \<le> 13)"

definition wide_space2 :: "char \<Rightarrow> char \<Rightarrow> bool" where
  "wide_space2 a b \<longleftrightarrow> byte a = 0xC2 \<and> (byte b = 0x85 \<or> byte b = 0xA0)"

definition wide_space3 :: "char \<Rightarrow> char \<Rightarrow> char \<Rightarrow> bool" where
  "wide_space3 a b c \<longleftrightarrow>
     (byte a = 0xE1 \<and> byte b = 0x9A \<and> byte c = 0x80)
   \<or> (byte a = 0xE2 \<and> byte b = 0x80 \<and>
       ((0x80 \<le> byte c \<and> byte c \<le> 0x8A) \<or> byte c = 0xA8 \<or> byte c = 0xA9 \<or> byte c = 0xAF))
   \<or> (byte a = 0xE2 \<and> byte b = 0x81 \<and> byte c = 0x9F)
   \<or> (byte a = 0xE3 \<and> byte b = 0x80 \<and> byte c = 0x80)"

fun space_width :: "string \<Rightarrow> nat" where
  "space_width [] = 0"
| "space_width [a] = (if ascii_space a then 1 else 0)"
| "space_width [a, b] = (if ascii_space a then 1 else if wide_space2 a b then 2 else 0)"
| "space_width (a # b # c # s) =
     (if ascii_space a then 1 else if wide_space2 a b then 2
      else if wide_space3 a b c then 3 else 0)"

fun rspace_width :: "string \<Rightarrow> nat" where
  "rspace_width [] = 0"
| "rspace_width [a] = (if ascii_space a then 1 else 0)"
| "rspace_width [b, a] = (if ascii_space b then 1 else if wide_space2 a b then 2 else 0)"
| "rspace_width (c # b # a # s) =
     (if ascii_space c then 1 else if wide_space2 b c then 2
      else if wide_space3 a b c then 3 else 0)"

text \<open>Cutting white space off the front, for either reading direction.\<close>

function cut_space :: "(string \<Rightarrow> nat) \<Rightarrow> string \<Rightarrow> string" where
  "cut_space w [] = []"
| "cut_space w (a # s) =
     (if w (a # s) = 0 then a # s else cut_space w (drop (w (a # s) - 1) s))"
  by pat_completeness auto
termination by (relation "measure (\<lambda>(w, s). length s)") auto

definition trim_space :: "string \<Rightarrow> string" where
  "trim_space s = rev (cut_space rspace_width (rev (cut_space space_width s)))"

definition blank :: "string \<Rightarrow> bool" where "blank s \<longleftrightarrow> trim_space s = []"

lemma cut_space_suffix: "\<exists>p. s = p @ cut_space w s"
proof (induction w s rule: cut_space.induct)
  case (1 w)
  then show ?case by simp
next
  case (2 w a s)
  show ?case
  proof (cases "w (a # s) = 0")
    case False
    with 2 obtain p where "drop (w (a # s) - 1) s = p @ cut_space w (drop (w (a # s) - 1) s)"
      by blast
    then have "a # s = (a # take (w (a # s) - 1) s @ p) @ cut_space w (a # s)"
      using False by simp
    then show ?thesis by blast
  qed simp
qed

lemma cut_space_no_space: "cut_space w s = [] \<or> w (cut_space w s) = 0"
  by (induction w s rule: cut_space.induct) auto

lemma cut_space_id: "w s = 0 \<Longrightarrow> cut_space w s = s"
  by (cases s) auto

lemma space_width_append: "space_width s \<noteq> 0 \<Longrightarrow> space_width (s @ t) \<noteq> 0"
  by (cases s rule: space_width.cases; cases t rule: space_width.cases; auto split: if_splits)

text \<open>Trimming twice changes nothing more.\<close>

lemma trim_space_idem [simp]: "trim_space (trim_space s) = trim_space s"
proof -
  let ?l = "cut_space space_width s"
  let ?t = "trim_space s"
  obtain p where p: "rev ?l = p @ cut_space rspace_width (rev ?l)"
    using cut_space_suffix by blast
  then have l: "?l = ?t @ rev p"
    unfolding trim_space_def by (metis rev_append rev_rev_ident)
  have "space_width ?t = 0"
  proof (rule ccontr)
    assume "space_width ?t \<noteq> 0"
    then have "space_width ?l \<noteq> 0" using space_width_append l by metis
    with cut_space_no_space [of space_width s] have "?l = []" by blast
    with l \<open>space_width ?t \<noteq> 0\<close> show False by simp
  qed
  then have left: "cut_space space_width ?t = ?t" by (rule cut_space_id)
  have "rev ?t = cut_space rspace_width (rev ?l)" by (simp add: trim_space_def)
  then have "rev ?t = [] \<or> rspace_width (rev ?t) = 0"
    using cut_space_no_space [of rspace_width "rev ?l"] by simp
  then have "cut_space rspace_width (rev ?t) = rev ?t"
    by (auto intro: cut_space_id)
  with left show ?thesis
    by (subst trim_space_def) simp
qed

text \<open>A string that starts with a graphic ASCII character is not blank.\<close>

lemma rspace_width_graphic:
  "33 \<le> byte c \<Longrightarrow> byte c < 127 \<Longrightarrow> rspace_width (s @ [c]) \<le> length s"
  by (cases s rule: rspace_width.cases; cases "tl (tl s)")
    (auto simp: ascii_space_def wide_space2_def wide_space3_def)

lemma cut_space_graphic:
  "33 \<le> byte c \<Longrightarrow> byte c < 127 \<Longrightarrow> cut_space rspace_width (s @ [c]) \<noteq> []"
proof (induction s rule: length_induct)
  case (1 s)
  show ?case
  proof (cases s)
    case Nil
    with 1 show ?thesis using rspace_width_graphic [of c "[]"] by simp
  next
    case (Cons a t)
    let ?w = "rspace_width (a # t @ [c])"
    have "?w \<le> length (a # t)" using rspace_width_graphic [OF "1.prems", of "a # t"] by simp
    then have "drop (?w - 1) (t @ [c]) = drop (?w - 1) t @ [c]" by simp
    moreover have "length (drop (?w - 1) t) < length s" using Cons by simp
    ultimately show ?thesis using 1 Cons by (simp del: rspace_width.simps)
  qed
qed

lemma not_blank_graphic: "33 \<le> byte c \<Longrightarrow> byte c < 127 \<Longrightarrow> \<not> blank (c # s)"
proof -
  assume c: "33 \<le> byte c" "byte c < 127"
  have "space_width (c # s) = 0"
    using c by (cases "c # s" rule: space_width.cases)
      (auto simp: ascii_space_def wide_space2_def wide_space3_def)
  then have "cut_space space_width (c # s) = c # s" by (rule cut_space_id)
  then show ?thesis
    using cut_space_graphic [OF c, of "rev s"] by (simp add: blank_def trim_space_def del: cut_space.simps)
qed

lemma trim_space_Nil [simp]: "trim_space [] = []"
  by (simp add: trim_space_def)

section \<open>Association lists\<close>

text \<open>
  \<open>kv_put k v m\<close> stores a key as an assignment to a Go map or an SQL upsert does: in place when
  the key is present, at the end otherwise.
\<close>

fun kv_put :: "'k \<Rightarrow> 'v \<Rightarrow> ('k \<times> 'v) list \<Rightarrow> ('k \<times> 'v) list" where
  "kv_put k v [] = [(k, v)]"
| "kv_put k v ((k', v') # m) = (if k' = k then (k, v) # m else (k', v') # kv_put k v m)"

lemma map_of_kv_put [simp]: "map_of (kv_put k v m) = (map_of m)(k \<mapsto> v)"
  by (induction m) (auto simp: fun_eq_iff)

lemma keys_kv_put: "set (map fst (kv_put k v m)) = insert k (set (map fst m))"
proof (induction m)
  case (Cons x m)
  then show ?case by (cases x) auto
qed simp

lemma distinct_kv_put: "distinct (map fst m) \<Longrightarrow> distinct (map fst (kv_put k v m))"
proof (induction m)
  case (Cons x m)
  then show ?case by (cases x) (auto simp: keys_kv_put simp del: set_map)
qed simp

text \<open>\<^verbatim>\<open>INSERT ... ON CONFLICT DO NOTHING\<close> and \<^verbatim>\<open>INSERT OR IGNORE\<close>.\<close>

definition insert_ignore :: "'k \<Rightarrow> 'v \<Rightarrow> ('k \<times> 'v) list \<Rightarrow> ('k \<times> 'v) list" where
  "insert_ignore k v m = (if k \<in> fst ` set m then m else m @ [(k, v)])"

lemma map_of_insert_ignore [simp]:
  "map_of (insert_ignore k v m) = (case map_of m k of None \<Rightarrow> (map_of m)(k \<mapsto> v) | Some w \<Rightarrow> map_of m)"
proof (cases "k \<in> fst ` set m")
  case True
  then obtain w where "map_of m k = Some w" by (metis map_of_eq_None_iff not_None_eq)
  with True show ?thesis by (simp add: insert_ignore_def)
next
  case False
  then have "map_of m k = None" by (simp add: map_of_eq_None_iff)
  with False show ?thesis by (auto simp: insert_ignore_def map_add_def fun_eq_iff split: option.splits)
qed

end
