(* ===== verification/Json_Value.thy ===== *)
theory Json_Value
  imports Complex_Main LL_Prelude
begin

text \<open>
  The values the event log stores. RON and JSON are two texts of the same data, so an encoded
  payload is represented by the JSON value it denotes; a RON instant arrives as the object
  \<^verbatim>\<open>{"#utc": ...}\<close> and \<^verbatim>\<open>internal/eventsourcing/event.go\<close> normalises it. The field readers follow
  \<^verbatim>\<open>encoding/json/v2\<close>: a missing or null member gives the zero value, a member of another type is
  an error, unknown members are ignored. \<open>JTime\<close> is a JSON string in RFC 3339 form, identified
  with its instant, and \<open>JFloat\<close> a number with a fraction.
\<close>

datatype json =
    JNull
  | JBool bool
  | JInt int
  | JFloat rat
  | JStr string
  | JTime time
  | JArr "json list"
  | JObj "(string \<times> json) list"

text \<open>The bytes of a payload or metadata column: empty, not RON and not JSON, or a value.\<close>

datatype encoded = NoBytes | Undecodable | Encoded json

section \<open>Instants\<close>

definition utc_key :: string where "utc_key = ''#utc''"

definition ron_time :: "time \<Rightarrow> json" where "ron_time t = JObj [(utc_key, JTime t)]"

text \<open>\<^verbatim>\<open>ronInstant\<close>: the object has one member, and it is the instant marker.\<close>

definition ron_instant :: "(string \<times> json) list \<Rightarrow> json option" where
  "ron_instant m = (case m of [(k, v)] \<Rightarrow> if k = utc_key then Some v else None | _ \<Rightarrow> None)"

text \<open>\<^verbatim>\<open>normalizeRONTimeValues\<close>, \<^verbatim>\<open>normalizeRONTimeObject\<close> and \<^verbatim>\<open>normalizeRONTimeArray\<close>.\<close>

fun normalize_ron_time :: "json \<Rightarrow> json" where
  "normalize_ron_time (JObj m) =
     (case ron_instant m of
        Some v \<Rightarrow> v
      | None \<Rightarrow> JObj (map (\<lambda>kv. (fst kv, normalize_ron_time (snd kv))) m))"
| "normalize_ron_time (JArr vs) = JArr (map normalize_ron_time vs)"
| "normalize_ron_time j = j"

text \<open>
  \<^verbatim>\<open>bytes.Contains(jsonPayload, "\"#utc\"")\<close>: the quoted marker occurs as a member name or as a
  string value.
\<close>

fun mentions_utc :: "json \<Rightarrow> bool" where
  "mentions_utc (JObj m) =
     list_ex (\<lambda>kv. fst kv = utc_key \<or> mentions_utc (snd kv)) m"
| "mentions_utc (JArr vs) = list_ex mentions_utc vs"
| "mentions_utc (JStr s) = (s = utc_key)"
| "mentions_utc j = False"

lemma ron_instant_Some: "ron_instant m = Some v \<longleftrightarrow> m = [(utc_key, v)]"
  by (auto simp: ron_instant_def split: list.splits if_splits)

lemma normalize_no_utc: "\<not> mentions_utc j \<Longrightarrow> normalize_ron_time j = j"
proof (induction j rule: normalize_ron_time.induct)
  case (1 m)
  have no: "ron_instant m = None"
    using 1(2) by (auto simp: ron_instant_def split: list.splits)
  have "map (\<lambda>kv. (fst kv, normalize_ron_time (snd kv))) m = m"
  proof (rule map_idI)
    fix kv assume "kv \<in> set m"
    with 1(1) [OF no this] 1(2) show "(fst kv, normalize_ron_time (snd kv)) = kv"
      by (auto simp: list_ex_iff prod_eq_iff)
  qed
  with no show ?case by simp
next
  case (2 vs)
  then show ?case by (auto simp: list_ex_iff intro!: map_idI)
qed auto

lemma normalize_ron_time_instant [simp]: "normalize_ron_time (ron_time t) = JTime t"
  by (simp add: ron_time_def ron_instant_def)

section \<open>Reading struct fields\<close>

definition jfield :: "(string \<times> json) list \<Rightarrow> string \<Rightarrow> json" where
  "jfield m k = (case map_of m k of None \<Rightarrow> JNull | Some v \<Rightarrow> v)"

fun dec_obj :: "json \<Rightarrow> (string \<times> json) list option" where
  "dec_obj (JObj m) = Some m"
| "dec_obj JNull = Some []"
| "dec_obj j = None"

fun dec_str :: "json \<Rightarrow> string option" where
  "dec_str (JStr s) = Some s"
| "dec_str JNull = Some []"
| "dec_str j = None"

fun dec_int :: "json \<Rightarrow> int option" where
  "dec_int (JInt i) = (if in_int64 i then Some i else None)"
| "dec_int JNull = Some 0"
| "dec_int j = None"

fun dec_bool :: "json \<Rightarrow> bool option" where
  "dec_bool (JBool b) = Some b"
| "dec_bool JNull = Some False"
| "dec_bool j = None"

fun dec_float :: "json \<Rightarrow> rat option" where
  "dec_float (JFloat f) = Some f"
| "dec_float (JInt i) = Some (of_int i)"
| "dec_float JNull = Some 0"
| "dec_float j = None"

fun dec_time :: "json \<Rightarrow> time option" where
  "dec_time (JTime t) = Some t"
| "dec_time JNull = Some zero_time"
| "dec_time j = None"

fun dec_all :: "('j \<Rightarrow> 'a option) \<Rightarrow> 'j list \<Rightarrow> 'a list option" where
  "dec_all d [] = Some []"
| "dec_all d (v # vs) = do { x \<leftarrow> d v; xs \<leftarrow> dec_all d vs; Some (x # xs) }"

fun dec_list :: "(json \<Rightarrow> 'a option) \<Rightarrow> json \<Rightarrow> 'a list option" where
  "dec_list d (JArr vs) = dec_all d vs"
| "dec_list d JNull = Some []"
| "dec_list d j = None"

fun dec_map :: "(json \<Rightarrow> 'a option) \<Rightarrow> json \<Rightarrow> (string \<times> 'a) list option" where
  "dec_map d (JObj m) = dec_all (\<lambda>kv. do { x \<leftarrow> d (snd kv); Some (fst kv, x) }) m"
| "dec_map d JNull = Some []"
| "dec_map d j = None"

definition enc_strs :: "string list \<Rightarrow> json" where "enc_strs ss = JArr (map JStr ss)"

definition enc_ints :: "(string \<times> int) list \<Rightarrow> json" where
  "enc_ints m = JObj (map (\<lambda>kv. (fst kv, JInt (snd kv))) m)"

text \<open>A field tagged \<^verbatim>\<open>omitempty\<close> (or \<^verbatim>\<open>omitzero\<close>).\<close>

definition omit_str :: "string \<Rightarrow> string \<Rightarrow> (string \<times> json) list" where
  "omit_str k s = (if s = [] then [] else [(k, JStr s)])"

definition omit_int :: "string \<Rightarrow> int \<Rightarrow> (string \<times> json) list" where
  "omit_int k i = (if i = 0 then [] else [(k, JInt i)])"

lemma jfield_simps [simp]:
  "jfield [] k = JNull"
  "jfield ((k', v) # m) k = (if k = k' then v else jfield m k)"
  by (auto simp: jfield_def)

lemma jfield_omit [simp]:
  "jfield (omit_str k s @ m) k' = (if k' = k \<and> s \<noteq> [] then JStr s else jfield m k')"
  "jfield (omit_int k i @ m) k' = (if k' = k \<and> i \<noteq> 0 then JInt i else jfield m k')"
  by (auto simp: omit_str_def omit_int_def)

lemma jfield_omit_last [simp]:
  "jfield (omit_str k s) k' = (if k' = k \<and> s \<noteq> [] then JStr s else JNull)"
  "jfield (omit_int k i) k' = (if k' = k \<and> i \<noteq> 0 then JInt i else JNull)"
  by (auto simp: omit_str_def omit_int_def)

lemma dec_all_map:
  "(\<And>x. x \<in> set xs \<Longrightarrow> d (f x) = Some x) \<Longrightarrow> dec_all d (map f xs) = Some xs"
  by (induction xs) auto

lemma dec_list_enc_strs [simp]: "dec_list dec_str (enc_strs ss) = Some ss"
  by (simp add: enc_strs_def dec_all_map)

lemma dec_map_enc_ints [simp]:
  "\<forall>kv\<in>set m. in_int64 (snd kv) \<Longrightarrow> dec_map dec_int (enc_ints m) = Some m"
  unfolding enc_ints_def
  by (simp add: dec_all_map)

lemma normalize_enc_strs [simp]: "normalize_ron_time (enc_strs ss) = enc_strs ss"
  by (simp add: enc_strs_def)

text \<open>Member lists built field by field are normalised field by field.\<close>

definition norm_fields :: "(string \<times> json) list \<Rightarrow> (string \<times> json) list" where
  "norm_fields m = map (\<lambda>kv. (fst kv, normalize_ron_time (snd kv))) m"

lemma norm_fields_simps [simp]:
  "norm_fields [] = []"
  "norm_fields ((k, v) # m) = (k, normalize_ron_time v) # norm_fields m"
  "norm_fields (m @ m') = norm_fields m @ norm_fields m'"
  "norm_fields (omit_str k s) = omit_str k s"
  "norm_fields (omit_int k i) = omit_int k i"
  by (simp_all add: norm_fields_def omit_str_def omit_int_def)

lemma normalize_struct [simp]:
  "k \<noteq> utc_key \<Longrightarrow> normalize_ron_time (JObj ((k, v) # m)) =
     JObj ((k, normalize_ron_time v) # norm_fields m)"
  by (auto simp: ron_instant_def norm_fields_def split: list.splits)

lemma normalize_enc_ints [simp]:
  "utc_key \<notin> fst ` set m \<Longrightarrow> normalize_ron_time (enc_ints m) = enc_ints m"
  by (force simp: enc_ints_def ron_instant_def split: list.splits)

declare normalize_ron_time.simps(1) [simp del]

end
