(* ===== verification/Event_Envelope.thy ===== *)
theory Event_Envelope
  imports Json_Value
begin

text \<open>
  The event envelope (\<^verbatim>\<open>internal/eventsourcing/event.go\<close>), schema versions and upcasters
  (\<^verbatim>\<open>version.go\<close>), correlation metadata (\<^verbatim>\<open>correlation.go\<close>) and the base of every aggregate
  (\<^verbatim>\<open>aggregate.go\<close>). The clock and the generator of event identifiers are passed in as a
  \<open>stamp\<close>; the registry of upcasters, a package variable in the code, is a value.
\<close>

section \<open>Events\<close>

record event =
  ev_id :: string
  ev_global :: int
  ev_stream :: string
  ev_stype :: string
  ev_version :: int
  ev_type :: string
  ev_payload :: encoded
  ev_meta :: encoded
  ev_at :: time

record stamp =
  st_uuid :: string
  st_now :: time

section \<open>Schema versions\<close>

type_synonym migration = "encoded \<Rightarrow> encoded res"

record registry =
  upcasters :: "string \<rightharpoonup> (int \<rightharpoonup> migration)"
  current_versions :: "string \<rightharpoonup> int"

definition empty_registry :: registry where
  "empty_registry = \<lparr>upcasters = Map.empty, current_versions = Map.empty\<rparr>"

definition schema_version_v1 :: int where "schema_version_v1 = 1"

definition current_schema_version :: int where "current_schema_version = schema_version_v1"

definition schema_version_key :: string where "schema_version_key = ''schema_version''"

text \<open>\<^verbatim>\<open>RegisterUpcaster\<close>; a nil migration is \<open>None\<close>.\<close>

definition register_upcaster :: "registry \<Rightarrow> string \<Rightarrow> int \<Rightarrow> migration option \<Rightarrow> registry" where
  "register_upcaster reg et from_v migrate =
     (case migrate of
        None \<Rightarrow> reg
      | Some f \<Rightarrow>
          if et = [] \<or> from_v \<le> 0 then reg
          else (let chain = (case upcasters reg et of None \<Rightarrow> Map.empty | Some c \<Rightarrow> c)
                in reg\<lparr>upcasters := (upcasters reg)(et \<mapsto> chain(from_v \<mapsto> f))\<rparr>))"

definition current_schema_version_for :: "registry \<Rightarrow> string \<Rightarrow> int" where
  "current_schema_version_for reg et =
     (case current_versions reg et of Some v \<Rightarrow> v | None \<Rightarrow> current_schema_version)"

definition set_current_schema_version_for :: "registry \<Rightarrow> string \<Rightarrow> int \<Rightarrow> registry" where
  "set_current_schema_version_for reg et v =
     (if et = [] \<or> v \<le> 0 then reg
      else reg\<lparr>current_versions := (current_versions reg)(et \<mapsto> v)\<rparr>)"

section \<open>Decoding\<close>

text \<open>\<^verbatim>\<open>DecodePayload\<close>, with the reader of the target type as an argument.\<close>

definition decode_payload :: "(json \<Rightarrow> 'a option) \<Rightarrow> encoded \<Rightarrow> 'a res" where
  "decode_payload target p =
     (case p of
        Encoded j \<Rightarrow>
          of_opt (Errorf ''decoding event payload'' [])
            (target (if mentions_utc j then normalize_ron_time j else j))
      | _ \<Rightarrow> fail_msg ''converting RON event payload to JSON'')"

lemma decode_payload_Encoded [simp]:
  "decode_payload target (Encoded j) =
     of_opt (Errorf ''decoding event payload'' []) (target (normalize_ron_time j))"
  by (simp add: decode_payload_def normalize_no_utc)

text \<open>\<^verbatim>\<open>DecodeMetadata\<close>: no bytes give a nil map.\<close>

fun dec_any_map :: "json \<Rightarrow> (string \<times> json) list option option" where
  "dec_any_map (JObj m) = Some (Some m)"
| "dec_any_map JNull = Some None"
| "dec_any_map j = None"

definition decode_metadata :: "encoded \<Rightarrow> (string \<times> json) list option res" where
  "decode_metadata md = (if md = NoBytes then Ok None else decode_payload dec_any_map md)"

text \<open>\<^verbatim>\<open>SchemaVersionOf\<close>: the conversion of a float to \<^verbatim>\<open>int\<close> truncates.\<close>

definition schema_version_of :: "event \<Rightarrow> int" where
  "schema_version_of e =
     (case decode_metadata (ev_meta e) of
        Inr (Some m) \<Rightarrow>
          (case map_of m schema_version_key of
             Some (JInt i) \<Rightarrow> if 0 < i then i else schema_version_v1
           | Some (JFloat f) \<Rightarrow> if 0 < f then \<lfloor>f\<rfloor> else schema_version_v1
           | _ \<Rightarrow> schema_version_v1)
      | _ \<Rightarrow> schema_version_v1)"

text \<open>\<^verbatim>\<open>UpcastPayload\<close>: the loop from the writer version to the current one.\<close>

fun upcast_loop :: "(int \<rightharpoonup> migration) \<Rightarrow> nat \<Rightarrow> int \<Rightarrow> encoded \<Rightarrow> encoded res" where
  "upcast_loop chain 0 v p = Ok p"
| "upcast_loop chain (Suc n) v p =
     (case chain v of
        None \<Rightarrow> fail_msg ''no upcaster''
      | Some migrate \<Rightarrow>
          bind_res (wrap_err ''upcasting'' (migrate p)) (\<lambda>p'. upcast_loop chain n (v + 1) p'))"

definition upcast_payload :: "registry \<Rightarrow> string \<Rightarrow> int \<Rightarrow> encoded \<Rightarrow> encoded res" where
  "upcast_payload reg et from_v p =
     (let target = current_schema_version_for reg et
      in if target \<le> from_v then Ok p
         else upcast_loop (case upcasters reg et of None \<Rightarrow> Map.empty | Some c \<Rightarrow> c)
                (nat (target - from_v)) from_v p)"

definition decode_event_payload :: "registry \<Rightarrow> (json \<Rightarrow> 'a option) \<Rightarrow> event \<Rightarrow> 'a res" where
  "decode_event_payload reg target e =
     bind_res (upcast_payload reg (ev_type e) (schema_version_of e) (ev_payload e))
       (decode_payload target)"

text \<open>
  No production code registers an upcaster or moves a current version, so the aggregates and
  projections of this program decode under the initial registry.
\<close>

abbreviation decode_event :: "(json \<Rightarrow> 'a option) \<Rightarrow> event \<Rightarrow> 'a res" where
  "decode_event \<equiv> decode_event_payload empty_registry"

text \<open>The \<^verbatim>\<open>metadata any\<close> argument of \<^verbatim>\<open>NewEvent\<close>: nil, a (possibly nil) map, anything else.\<close>

datatype meta_arg = MetaNil | MetaMap "(string \<times> json) list option" | MetaOther json

definition stamp_schema_version :: "registry \<Rightarrow> string \<Rightarrow> meta_arg \<Rightarrow> json" where
  "stamp_schema_version reg et md =
     (let v = JInt (current_schema_version_for reg et)
      in case md of
           MetaNil \<Rightarrow> JObj [(schema_version_key, v)]
         | MetaMap None \<Rightarrow> JObj [(schema_version_key, v)]
         | MetaMap (Some m) \<Rightarrow>
             JObj (if schema_version_key \<in> fst ` set m then m else kv_put schema_version_key v m)
         | MetaOther j \<Rightarrow> j)"

text \<open>\<^verbatim>\<open>NewEvent\<close>.\<close>

definition new_event ::
    "stamp \<Rightarrow> string \<Rightarrow> string \<Rightarrow> int \<Rightarrow> string \<Rightarrow> json \<Rightarrow> meta_arg \<Rightarrow> event" where
  "new_event st sid stype v et payload md =
     \<lparr>ev_id = ''evt_'' @ st_uuid st, ev_global = 0, ev_stream = sid, ev_stype = stype,
      ev_version = v, ev_type = et, ev_payload = Encoded payload,
      ev_meta = Encoded (stamp_schema_version empty_registry et md), ev_at = st_now st\<rparr>"

lemma new_event_simps [simp]:
  "ev_id (new_event st sid stype v et payload md) = ''evt_'' @ st_uuid st"
  "ev_global (new_event st sid stype v et payload md) = 0"
  "ev_stream (new_event st sid stype v et payload md) = sid"
  "ev_stype (new_event st sid stype v et payload md) = stype"
  "ev_version (new_event st sid stype v et payload md) = v"
  "ev_type (new_event st sid stype v et payload md) = et"
  "ev_payload (new_event st sid stype v et payload md) = Encoded payload"
  "ev_meta (new_event st sid stype v et payload md) =
     Encoded (stamp_schema_version empty_registry et md)"
  "ev_at (new_event st sid stype v et payload md) = st_now st"
  by (simp_all add: new_event_def)

section \<open>The envelope on the wire\<close>

text \<open>\<^verbatim>\<open>ronValue.MarshalJSON\<close>: bytes that are neither RON nor JSON cannot be embedded.\<close>

fun ron_value_json :: "encoded \<Rightarrow> json res" where
  "ron_value_json (Encoded j) = Ok j"
| "ron_value_json _ = fail_msg ''converting embedded RON value to JSON''"

text \<open>\<^verbatim>\<open>Event.Bytes\<close>.\<close>

definition event_bytes :: "event \<Rightarrow> json res" where
  "event_bytes e =
     wrap_err ''marshaling event envelope as RON''
       (bind_res (ron_value_json (ev_payload e)) (\<lambda>p.
        bind_res (ron_value_json (ev_meta e)) (\<lambda>md.
          Ok (JObj
            [(''id'', JStr (ev_id e)), (''stream_id'', JStr (ev_stream e)),
             (''stream_type'', JStr (ev_stype e)), (''version'', JInt (ev_version e)),
             (''event_type'', JStr (ev_type e)), (''payload'', p), (''metadata'', md),
             (''created_at'', ron_time (ev_at e))]))))"

text \<open>A \<^verbatim>\<open>jsontext.Value\<close> field: absent members leave it empty.\<close>

definition raw_field :: "(string \<times> json) list \<Rightarrow> string \<Rightarrow> encoded" where
  "raw_field m k = (case map_of m k of None \<Rightarrow> NoBytes | Some v \<Rightarrow> Encoded v)"

text \<open>\<^verbatim>\<open>UnmarshalEvent\<close>.\<close>

definition unmarshal_event :: "json \<Rightarrow> event res" where
  "unmarshal_event j =
     bind_res (of_opt (Errorf ''unmarshaling event envelope'' [])
       (do { m \<leftarrow> dec_obj j;
             i \<leftarrow> dec_str (jfield m ''id'');
             sid \<leftarrow> dec_str (jfield m ''stream_id'');
             sty \<leftarrow> dec_str (jfield m ''stream_type'');
             v \<leftarrow> dec_int (jfield m ''version'');
             ety \<leftarrow> dec_str (jfield m ''event_type'');
             Some (m, i, sid, sty, v, ety) }))
       (\<lambda>(m, i, sid, sty, v, ety).
          bind_res (case map_of m ''created_at'' of
                      None \<Rightarrow> fail_msg ''decoding event created_at''
                    | Some c \<Rightarrow> of_opt (Errorf ''decoding event created_at'' [])
                                 (dec_time (normalize_ron_time c)))
            (\<lambda>created.
               Ok \<lparr>ev_id = i, ev_global = 0, ev_stream = sid, ev_stype = sty, ev_version = v,
                   ev_type = ety, ev_payload = raw_field m ''payload'',
                   ev_meta = raw_field m ''metadata'', ev_at = created\<rparr>))"

section \<open>Correlation\<close>

record correlation =
  co_request :: string
  co_batch :: string

definition no_correlation :: correlation where
  "no_correlation = \<lparr>co_request = [], co_batch = []\<rparr>"

text \<open>\<^verbatim>\<open>Correlation.Metadata\<close>; a nil map is \<open>None\<close>.\<close>

definition correlation_metadata ::
    "correlation \<Rightarrow> (string \<times> json) list option \<Rightarrow> (string \<times> json) list option" where
  "correlation_metadata c base =
     (let request_id = trim_space (co_request c); batch_id = trim_space (co_batch c);
          b = (case base of None \<Rightarrow> [] | Some m \<Rightarrow> m)
      in if request_id = [] \<and> batch_id = [] then (if b = [] then None else base)
         else (let m1 = (if request_id \<noteq> [] then kv_put ''request_id'' (JStr request_id) b else b);
                   m2 = (if batch_id \<noteq> [] then kv_put ''batch_id'' (JStr batch_id) m1 else m1)
               in Some m2))"

text \<open>\<^verbatim>\<open>FirstCorrelation\<close>.\<close>

fun first_correlation :: "correlation list \<Rightarrow> correlation" where
  "first_correlation [] = no_correlation"
| "first_correlation (c # cs) =
     (if trim_space (co_request c) \<noteq> [] \<or> trim_space (co_batch c) \<noteq> [] then c
      else first_correlation cs)"

text \<open>\<^verbatim>\<open>RequestIDFromMetadata\<close>.\<close>

definition request_id_from_metadata :: "(string \<times> json) list option \<Rightarrow> string" where
  "request_id_from_metadata meta =
     (case meta of
        None \<Rightarrow> []
      | Some m \<Rightarrow> (case map_of m ''request_id'' of Some (JStr s) \<Rightarrow> trim_space s | _ \<Rightarrow> []))"

text \<open>The request an event was caused by, as its readers compute it.\<close>

definition event_request_id :: "encoded \<Rightarrow> string" where
  "event_request_id md =
     (case decode_metadata md of Inr (Some m) \<Rightarrow> request_id_from_metadata (Some m) | _ \<Rightarrow> [])"

section \<open>Facts about envelopes\<close>

lemma normalize_obj:
  "ron_instant m = None \<Longrightarrow> normalize_ron_time (JObj m) = JObj (norm_fields m)"
  by (simp add: norm_fields_def normalize_ron_time.simps(1))

lemma map_of_norm_fields: "map_of (norm_fields m) k = map_option normalize_ron_time (map_of m k)"
  by (induction m) auto

lemma keys_norm_fields [simp]: "fst ` set (norm_fields m) = fst ` set m"
  by (force simp: norm_fields_def)

lemma current_version_empty [simp]: "current_schema_version_for empty_registry et = 1"
  by (simp add: current_schema_version_for_def empty_registry_def current_schema_version_def
      schema_version_v1_def)

text \<open>Under the initial registry an event of version 1 or later is decoded as it is.\<close>

lemma decode_event_plain:
  "1 \<le> schema_version_of e \<Longrightarrow> decode_event target e = decode_payload target (ev_payload e)"
  by (simp add: decode_event_payload_def upcast_payload_def Let_def)

lemma decode_payload_reads: "decode_payload target p = Ok x \<Longrightarrow> \<exists>j. target j = Some x"
  by (cases p) (auto simp: decode_payload_def split: if_splits)

lemma decode_event_reads: "decode_event_payload reg target e = Ok x \<Longrightarrow> \<exists>j. target j = Some x"
  by (auto simp: decode_event_payload_def bind_res_eq_Inr dest: decode_payload_reads)

lemma decode_event_global [simp]:
  "decode_event target (e\<lparr>ev_global := g\<rparr>) = decode_event target e"
  by (simp add: decode_event_payload_def schema_version_of_def)

definition plain_meta :: "meta_arg \<Rightarrow> bool" where
  "plain_meta md \<longleftrightarrow>
     (case md of
        MetaNil \<Rightarrow> True
      | MetaMap None \<Rightarrow> True
      | MetaMap (Some m) \<Rightarrow> schema_version_key \<notin> fst ` set m
      | MetaOther j \<Rightarrow> False)"

lemma schema_key_not_utc [simp]: "schema_version_key \<noteq> utc_key" "utc_key \<noteq> schema_version_key"
  by (simp_all add: schema_version_key_def utc_key_def)

lemma stamped_map:
  assumes "plain_meta md"
  shows "\<exists>m. stamp_schema_version empty_registry et md = JObj m \<and> ron_instant m = None
           \<and> map_of m schema_version_key = Some (JInt 1)"
  using assms
  by (cases md)
    (force simp: stamp_schema_version_def plain_meta_def ron_instant_def Let_def
      split: option.splits list.splits dest: map_of_SomeD arg_cong [of "kv_put _ _ _" _ "\<lambda>m. map_of m schema_version_key"])+

lemma schema_version_new_event:
  assumes "plain_meta md"
  shows "schema_version_of (new_event st sid stype v et payload md) = 1"
proof -
  obtain m where m: "stamp_schema_version empty_registry et md = JObj m" "ron_instant m = None"
    "map_of m schema_version_key = Some (JInt 1)"
    using stamped_map [OF assms] by blast
  then show ?thesis
    by (simp add: schema_version_of_def decode_metadata_def normalize_obj map_of_norm_fields)
qed

lemma decode_new_event:
  assumes "plain_meta md"
  shows "decode_event target (new_event st sid stype v et payload md) =
           of_opt (Errorf ''decoding event payload'' []) (target (normalize_ron_time payload))"
  using decode_event_plain [of "new_event st sid stype v et payload md" target]
    schema_version_new_event [OF assms] by simp

text \<open>
  The envelope survives the wire: reading back the bytes of an event gives the event, except
  for its position in the SQLite log, which the envelope does not carry.
\<close>

lemma unmarshal_event_bytes:
  assumes "event_bytes e = Ok b" and "in_int64 (ev_version e)"
  shows "unmarshal_event b = Ok (e\<lparr>ev_global := 0\<rparr>)"
proof -
  from assms(1) obtain p md where "ev_payload e = Encoded p" "ev_meta e = Encoded md"
    by (cases "ev_payload e"; cases "ev_meta e") (auto simp: event_bytes_def)
  with assms show ?thesis
    by (auto simp: event_bytes_def unmarshal_event_def raw_field_def)
qed

text \<open>Correlation metadata never carries a schema version, and reads back as the request.\<close>

lemma plain_correlation:
  "schema_version_key \<notin> fst ` set (case base of None \<Rightarrow> [] | Some m \<Rightarrow> m) \<Longrightarrow>
     plain_meta (MetaMap (correlation_metadata c base))"
  by (auto simp: plain_meta_def correlation_metadata_def Let_def schema_version_key_def
      keys_kv_put [unfolded set_map] split: option.splits)

lemma plain_meta_nil [simp]: "plain_meta MetaNil" "plain_meta (MetaMap (correlation_metadata c None))"
  using plain_correlation [of None] by (simp_all add: plain_meta_def)

definition map_entries :: "(string \<times> json) list option \<Rightarrow> (string \<times> json) list" where
  "map_entries m = (case m of None \<Rightarrow> [] | Some x \<Rightarrow> x)"

lemma correlation_metadata_lookup:
  "map_of (map_entries (correlation_metadata c base)) k =
     (if k = ''batch_id'' \<and> trim_space (co_batch c) \<noteq> [] then Some (JStr (trim_space (co_batch c)))
      else if k = ''request_id'' \<and> trim_space (co_request c) \<noteq> []
      then Some (JStr (trim_space (co_request c)))
      else map_of (map_entries base) k)"
  by (auto simp: correlation_metadata_def Let_def map_entries_def split: option.splits)

lemma stamp_entries:
  assumes "map_of (map_entries m) schema_version_key = None"
  shows "stamp_schema_version empty_registry et (MetaMap m) =
           JObj (kv_put schema_version_key (JInt 1) (map_entries m))"
    and "ron_instant (kv_put schema_version_key (JInt 1) (map_entries m)) = None"
proof -
  show "stamp_schema_version empty_registry et (MetaMap m) =
           JObj (kv_put schema_version_key (JInt 1) (map_entries m))"
    using assms by (auto simp: stamp_schema_version_def map_entries_def map_of_eq_None_iff split: option.splits)
  have "map_of (kv_put schema_version_key (JInt 1) (map_entries m)) schema_version_key = Some (JInt 1)"
    by simp
  then show "ron_instant (kv_put schema_version_key (JInt 1) (map_entries m)) = None"
    by (metis map_of_Cons_code(1) map_of_Cons_code(2) not_None_eq option.distinct(1) ron_instant_Some
        schema_key_not_utc(1))
qed

lemma request_of_new_event:
  assumes "map_of (map_entries base) schema_version_key = None" and "map_of (map_entries base) ''request_id'' = None"
  shows "event_request_id (ev_meta (new_event st sid sty v et pl (MetaMap (correlation_metadata c base)))) =
           trim_space (co_request c)"
proof -
  let ?m = "correlation_metadata c base"
  have none: "map_of (map_entries ?m) schema_version_key = None"
    using assms(1) by (simp add: correlation_metadata_lookup) (simp add: schema_version_key_def)
  have "(''request_id'' = schema_version_key) = False" by (simp add: schema_version_key_def)
  then show ?thesis
    using assms(2) none
    by (simp add: stamp_entries [OF none] event_request_id_def decode_metadata_def normalize_obj
        request_id_from_metadata_def map_of_norm_fields correlation_metadata_lookup)
qed

section \<open>The base of an aggregate\<close>

record base_agg =
  ba_id :: string
  ba_stype :: string
  ba_version :: int
  ba_uncommitted :: "event list"

text \<open>
  \<^verbatim>\<open>RecordThat\<close>: build the next event, advance the version, remember the event. The payload of
  this program always encodes, so recording cannot fail.
\<close>

definition record_that ::
    "stamp \<Rightarrow> string \<Rightarrow> json \<Rightarrow> meta_arg \<Rightarrow> 'a base_agg_scheme \<Rightarrow> event \<times> 'a base_agg_scheme" where
  "record_that st et payload md b =
     (let e = new_event st (ba_id b) (ba_stype b) (ba_version b + 1) et payload md
      in (e, b\<lparr>ba_version := ev_version e, ba_uncommitted := ba_uncommitted b @ [e]\<rparr>))"

definition clear_uncommitted :: "'a base_agg_scheme \<Rightarrow> 'a base_agg_scheme" where
  "clear_uncommitted b = b\<lparr>ba_uncommitted := []\<rparr>"

text \<open>The version an aggregate had when it was last loaded or saved, as \<^verbatim>\<open>Save\<close> computes it.\<close>

definition expected_version :: "'a base_agg_scheme \<Rightarrow> int" where
  "expected_version b = ba_version b - int (length (ba_uncommitted b))"

end
