(* ===== verification/Sqlite_Store.thy ===== *)
theory Sqlite_Store
  imports Event_Envelope "HOL-Library.List_Lexorder" "HOL-Library.Char_ord" "HOL-Library.Sublist"
begin

text \<open>
  The SQLite event store (\<^verbatim>\<open>internal/eventsourcing/store.go\<close> and \<^verbatim>\<open>snapshot.go\<close>). The database is a
  record of tables; the \<open>events\<close> table is kept in rowid order, with the rowid of a row in
  \<open>ev_global\<close>. A transaction gets the failure of the database it runs into, if any: it then
  reports that error and changes nothing. Instants survive the text form they are stored in.
\<close>

section \<open>Tables and transactions\<close>

record snapshot =
  sn_stream :: string
  sn_stype :: string
  sn_version :: int
  sn_payload :: encoded
  sn_at :: time

record sqlite =
  sq_events :: "event list"
  sq_outbox :: "(string \<times> time option) list"
  sq_checkpoints :: "(string \<times> int) list"
  sq_snapshots :: "(string \<times> snapshot) list"

definition empty_sqlite :: sqlite where
  "empty_sqlite = \<lparr>sq_events = [], sq_outbox = [], sq_checkpoints = [], sq_snapshots = []\<rparr>"

type_synonym fault = "gerr option"

definition write_tx :: "fault \<Rightarrow> sqlite \<Rightarrow> (sqlite \<Rightarrow> sqlite res) \<Rightarrow> unit res \<times> sqlite" where
  "write_tx fault db body =
     (case fault of
        Some err \<Rightarrow> (Fail err, db)
      | None \<Rightarrow> (case body db of Inl err \<Rightarrow> (Fail err, db) | Inr db' \<Rightarrow> (Ok (), db')))"

definition read_tx :: "string \<Rightarrow> fault \<Rightarrow> 'a res \<Rightarrow> 'a res" where
  "read_tx what fault result =
     wrap_err what (case fault of Some err \<Rightarrow> Fail err | None \<Rightarrow> result)"

section \<open>Appending\<close>

record stream_append =
  sa_stream :: string
  sa_expected :: int
  sa_events :: "event list"

text \<open>\<^verbatim>\<open>validateEventBatch\<close>: its loop, then the function.\<close>

fun validate_loop :: "string \<Rightarrow> string \<Rightarrow> int \<Rightarrow> event list \<Rightarrow> unit res" where
  "validate_loop sid stype want [] = Ok ()"
| "validate_loop sid stype want (e # es) =
     (if ev_id e = [] then fail_msg ''event has an empty ID''
      else if ev_stream e \<noteq> sid then fail_msg ''event belongs to another stream''
      else if ev_stype e \<noteq> stype then fail_msg ''stream has mixed aggregate types''
      else if ev_type e = [] then fail_msg ''event has an empty event type''
      else if ev_version e \<noteq> want then fail_msg ''event has the wrong version''
      else validate_loop sid stype (want + 1) es)"

definition validate_event_batch :: "string \<Rightarrow> int \<Rightarrow> event list \<Rightarrow> unit res" where
  "validate_event_batch sid expected es =
     (if sid = [] then fail_msg ''stream ID cannot be empty''
      else if expected < 0 then fail_msg ''expected version cannot be negative''
      else (case es of
              [] \<Rightarrow> Ok ()
            | e # _ \<Rightarrow>
                if ev_stype e = [] then fail_msg ''event has an empty stream type''
                else validate_loop sid (ev_stype e) (expected + 1) es))"

definition conflict :: "string \<Rightarrow> gerr" where
  "conflict what = Errorf what [Sentinel ErrConcurrencyConflict]"

text \<open>
  The next rowid of a table without \<^verbatim>\<open>AUTOINCREMENT\<close>, and the \<^verbatim>\<open>INSERT\<close> of \<^verbatim>\<open>insertEvent\<close> under
  the constraints of the schema: \<^verbatim>\<open>id\<close> is the primary key and \<^verbatim>\<open>(stream_id, version)\<close> unique.
\<close>

definition next_rowid :: "event list \<Rightarrow> int" where
  "next_rowid rows = (case rows of [] \<Rightarrow> 1 | _ \<Rightarrow> Max (ev_global ` set rows) + 1)"

datatype insert_error = DuplicateId | DuplicateVersion

definition insert_event :: "event list \<Rightarrow> event \<Rightarrow> insert_error + event list" where
  "insert_event rows e =
     (if \<exists>r\<in>set rows. ev_id r = ev_id e then Inl DuplicateId
      else if \<exists>r\<in>set rows. ev_stream r = ev_stream e \<and> ev_version r = ev_version e
      then Inl DuplicateVersion
      else Inr (rows @ [e\<lparr>ev_global := next_rowid rows\<rparr>]))"

definition insert_with ::
    "(insert_error \<Rightarrow> gerr) \<Rightarrow> event list \<Rightarrow> event \<Rightarrow> event list res" where
  "insert_with report rows e =
     (case insert_event rows e of Inr rows' \<Rightarrow> Ok rows' | Inl err \<Rightarrow> Fail (report err))"

definition duplicate_id :: gerr where
  "duplicate_id = Errorf ''UNIQUE constraint failed: events.id'' []"

fun append_error :: "string \<Rightarrow> insert_error \<Rightarrow> gerr" where
  "append_error sid DuplicateVersion = conflict sid"
| "append_error sid DuplicateId = Errorf ''inserting event'' [duplicate_id]"

text \<open>\<^verbatim>\<open>INSERT OR IGNORE INTO outbox\<close>.\<close>

definition enqueue_outbox ::
    "(string \<times> time option) list \<Rightarrow> event \<Rightarrow> (string \<times> time option) list" where
  "enqueue_outbox rows e =
     (if ev_id e \<in> fst ` set rows then rows else rows @ [(ev_id e, None)])"

definition stream_rows :: "event list \<Rightarrow> string \<Rightarrow> event list" where
  "stream_rows rows sid = filter (\<lambda>e. ev_stream e = sid) rows"

text \<open>\<^verbatim>\<open>SELECT version, stream_type ... ORDER BY version DESC LIMIT 1\<close>; (0, "") when no row.\<close>

definition stream_tip :: "event list \<Rightarrow> string \<Rightarrow> int \<times> string" where
  "stream_tip rows sid =
     (case rev (sort_key ev_version (stream_rows rows sid)) of
        [] \<Rightarrow> (0, [])
      | e # _ \<Rightarrow> (ev_version e, ev_stype e))"

text \<open>One iteration of the loop of \<^verbatim>\<open>AppendBatch\<close> inside the transaction.\<close>

definition append_stream :: "sqlite \<Rightarrow> stream_append \<Rightarrow> sqlite res" where
  "append_stream db b =
     (case sa_events b of
        [] \<Rightarrow> Ok db
      | e # _ \<Rightarrow>
          (let (current, stype) = stream_tip (sq_events db) (sa_stream b)
           in if current \<noteq> sa_expected b then Fail (conflict (sa_stream b))
              else if stype \<noteq> [] \<and> stype \<noteq> ev_stype e
              then fail_msg ''stream has another aggregate type''
              else bind_res (fold_res (insert_with (append_error (sa_stream b))) (sq_events db) (sa_events b))
                     (\<lambda>rows. Ok (db\<lparr>sq_events := rows,
                                    sq_outbox := foldl enqueue_outbox (sq_outbox db) (sa_events b)\<rparr>))))"

definition validate_append :: "unit \<Rightarrow> stream_append \<Rightarrow> unit res" where
  "validate_append u b =
     (if sa_events b = [] then Ok ()
      else wrap_err ''validating event batch''
             (validate_event_batch (sa_stream b) (sa_expected b) (sa_events b)))"

definition append_batch :: "fault \<Rightarrow> sqlite \<Rightarrow> stream_append list \<Rightarrow> unit res \<times> sqlite" where
  "append_batch fault db batches =
     (case fold_res validate_append () batches of
        Inl err \<Rightarrow> (Fail err, db)
      | Inr _ \<Rightarrow>
          if \<forall>b\<in>set batches. sa_events b = [] then (Ok (), db)
          else write_tx fault db (\<lambda>tx. fold_res append_stream tx batches))"

definition append_events ::
    "fault \<Rightarrow> sqlite \<Rightarrow> string \<Rightarrow> int \<Rightarrow> event list \<Rightarrow> unit res \<times> sqlite" where
  "append_events fault db sid expected es =
     (if es = [] then (Ok (), db)
      else append_batch fault db [\<lparr>sa_stream = sid, sa_expected = expected, sa_events = es\<rparr>])"

section \<open>Reading\<close>

definition load_events :: "fault \<Rightarrow> sqlite \<Rightarrow> string \<Rightarrow> event list res" where
  "load_events fault db sid =
     read_tx ''loading stream'' fault (Ok (sort_key ev_version (stream_rows (sq_events db) sid)))"

text \<open>\<^verbatim>\<open>LoadAfter\<close> does not select the rowid.\<close>

definition load_after :: "fault \<Rightarrow> sqlite \<Rightarrow> string \<Rightarrow> int \<Rightarrow> event list res" where
  "load_after fault db sid after =
     read_tx ''loading stream'' fault
       (Ok (map (\<lambda>e. e\<lparr>ev_global := 0\<rparr>)
              (sort_key ev_version
                 (filter (\<lambda>e. after < ev_version e) (stream_rows (sq_events db) sid)))))"

text \<open>Stream identifiers in order of their first row.\<close>

fun first_seen :: "'a list \<Rightarrow> 'a list" where
  "first_seen [] = []"
| "first_seen (x # xs) = x # filter (\<lambda>y. y \<noteq> x) (first_seen xs)"

definition stream_info :: "event list \<Rightarrow> string \<Rightarrow> (string \<times> string) res" where
  "stream_info rows sid =
     (case first_seen (map ev_stype (stream_rows rows sid)) of
        [stype] \<Rightarrow> Ok (sid, stype)
      | _ \<Rightarrow> fail_msg ''stream has several aggregate types'')"

definition stream_ids :: "fault \<Rightarrow> sqlite \<Rightarrow> string list res" where
  "stream_ids fault db =
     read_tx ''listing streams'' fault (Ok (first_seen (map ev_stream (sq_events db))))"

definition streams :: "fault \<Rightarrow> sqlite \<Rightarrow> (string \<times> string) list res" where
  "streams fault db =
     read_tx ''listing streams'' fault
       (fold_res (\<lambda>acc sid. bind_res (stream_info (sq_events db) sid) (\<lambda>i. Ok (acc @ [i]))) []
          (first_seen (map ev_stream (sq_events db))))"

definition row_limit :: "int \<Rightarrow> nat" where
  "row_limit n = nat (if n \<le> 0 then 100 else n)"

definition load_from_global_position :: "fault \<Rightarrow> sqlite \<Rightarrow> int \<Rightarrow> int \<Rightarrow> event list res" where
  "load_from_global_position fault db after limit =
     read_tx ''loading events from position'' fault
       (Ok (take (row_limit limit) (filter (\<lambda>e. after < ev_global e) (sq_events db))))"

definition event_count :: "fault \<Rightarrow> sqlite \<Rightarrow> int res" where
  "event_count fault db = read_tx ''counting events'' fault (Ok (int (length (sq_events db))))"

record stream_tip_row =
  tip_stream :: string
  tip_id :: string
  tip_version :: int

definition stream_tips :: "fault \<Rightarrow> sqlite \<Rightarrow> stream_tip_row list res" where
  "stream_tips fault db =
     read_tx ''listing stream tips'' fault
       (Ok (map (\<lambda>e. \<lparr>tip_stream = ev_stream e, tip_id = ev_id e, tip_version = ev_version e\<rparr>)
              (sort_key ev_stream
                 (filter (\<lambda>e. ev_version e =
                               Max (ev_version ` set (stream_rows (sq_events db) (ev_stream e))))
                    (sq_events db)))))"

section \<open>Rewriting a stream\<close>

definition delete_stream :: "sqlite \<Rightarrow> string \<Rightarrow> sqlite" where
  "delete_stream db sid =
     (let gone = ev_id ` set (stream_rows (sq_events db) sid)
      in db\<lparr>sq_events := filter (\<lambda>e. ev_stream e \<noteq> sid) (sq_events db),
            sq_outbox := filter (\<lambda>row. fst row \<notin> gone) (sq_outbox db),
            sq_snapshots := filter (\<lambda>row. fst row \<noteq> sid) (sq_snapshots db)\<rparr>)"

fun replace_error :: "insert_error \<Rightarrow> gerr" where
  "replace_error _ = Errorf ''inserting replacement'' []"

text \<open>
  \<^verbatim>\<open>Replace\<close>; \<open>allowed\<close> is the value \<^verbatim>\<open>1\<close> of \<^verbatim>\<open>LISTENLEDGER_ALLOW_EVENT_REWRITE\<close>. Deleting
  events deletes their outbox rows (\<^verbatim>\<open>ON DELETE CASCADE\<close>).
\<close>

definition replace_stream ::
    "bool \<Rightarrow> fault \<Rightarrow> sqlite \<Rightarrow> string \<Rightarrow> event list \<Rightarrow> unit res \<times> sqlite" where
  "replace_stream allowed fault db sid es =
     (if \<not> allowed then (fail_msg ''refusing to rewrite stream'', db)
      else case wrap_err ''validating replacement stream'' (validate_event_batch sid 0 es) of
             Inl err \<Rightarrow> (Fail err, db)
           | Inr _ \<Rightarrow>
               write_tx fault db (\<lambda>tx.
                 let tx1 = delete_stream tx sid
                 in bind_res (fold_res (insert_with replace_error) (sq_events tx1) es)
                      (\<lambda>rows. Ok (tx1\<lparr>sq_events := rows,
                                      sq_outbox := foldl enqueue_outbox (sq_outbox tx1) es\<rparr>))))"

section \<open>The outbox\<close>

definition is_unpublished :: "(string \<times> time option) list \<Rightarrow> event \<Rightarrow> bool" where
  "is_unpublished outbox e \<longleftrightarrow> map_of outbox (ev_id e) = Some None"

definition unpublished_events :: "fault \<Rightarrow> sqlite \<Rightarrow> int \<Rightarrow> event list res" where
  "unpublished_events fault db limit =
     read_tx ''loading unpublished events'' fault
       (Ok (take (row_limit limit) (filter (is_unpublished (sq_outbox db)) (sq_events db))))"

definition mark_row :: "time \<Rightarrow> string \<Rightarrow> string \<times> time option \<Rightarrow> string \<times> time option" where
  "mark_row now i row = (if fst row = i \<and> snd row = None then (fst row, Some now) else row)"

definition mark_published ::
    "fault \<Rightarrow> time \<Rightarrow> sqlite \<Rightarrow> string list \<Rightarrow> unit res \<times> sqlite" where
  "mark_published fault now db ids =
     (if ids = [] then (Ok (), db)
      else write_tx fault db (\<lambda>tx.
             Ok (tx\<lparr>sq_outbox := foldl (\<lambda>rows i. map (mark_row now i) rows) (sq_outbox tx) ids\<rparr>)))"

definition unpublished_count :: "fault \<Rightarrow> sqlite \<Rightarrow> int res" where
  "unpublished_count fault db =
     read_tx ''counting unpublished events'' fault
       (Ok (int (length (filter (\<lambda>row. snd row = None) (sq_outbox db)))))"

section \<open>Checkpoints and snapshots\<close>

definition get_checkpoint :: "fault \<Rightarrow> sqlite \<Rightarrow> string \<Rightarrow> int res" where
  "get_checkpoint fault db name =
     read_tx ''getting checkpoint'' fault
       (Ok (case map_of (sq_checkpoints db) name of None \<Rightarrow> 0 | Some p \<Rightarrow> p))"

definition save_checkpoint :: "fault \<Rightarrow> sqlite \<Rightarrow> string \<Rightarrow> int \<Rightarrow> unit res \<times> sqlite" where
  "save_checkpoint fault db name pos =
     write_tx fault db (\<lambda>tx. Ok (tx\<lparr>sq_checkpoints := kv_put name pos (sq_checkpoints tx)\<rparr>))"

definition save_snapshot :: "fault \<Rightarrow> time \<Rightarrow> sqlite \<Rightarrow> snapshot \<Rightarrow> unit res \<times> sqlite" where
  "save_snapshot fault now db snap =
     (if sn_stream snap = [] then (fail_msg ''snapshot stream ID cannot be empty'', db)
      else if sn_stype snap = [] then (fail_msg ''snapshot stream type cannot be empty'', db)
      else if sn_version snap \<le> 0 then (fail_msg ''snapshot version must be positive'', db)
      else if sn_payload snap = NoBytes then (fail_msg ''snapshot payload cannot be empty'', db)
      else write_tx fault db (\<lambda>tx.
             let created = (if is_zero_time (sn_at snap) then now else sn_at snap)
             in Ok (tx\<lparr>sq_snapshots :=
                         kv_put (sn_stream snap) (snap\<lparr>sn_at := created\<rparr>) (sq_snapshots tx)\<rparr>)))"

definition load_snapshot :: "fault \<Rightarrow> sqlite \<Rightarrow> string \<Rightarrow> snapshot res" where
  "load_snapshot fault db sid =
     bind_res (read_tx ''loading snapshot'' fault (Ok (map_of (sq_snapshots db) sid)))
       (of_opt (Errorf ''stream'' [Sentinel ErrSnapshotNotFound]))"

section \<open>The invariant of the log\<close>

text \<open>
  Rows are in strictly increasing rowid order from 1, identifiers are unique, the versions of a
  stream count up from 1 in rowid order under one aggregate type, and the outbox has exactly one
  row per event.
\<close>

definition stream_ok :: "event list \<Rightarrow> bool" where
  "stream_ok es \<longleftrightarrow>
     map ev_version es = map int [1..<Suc (length es)]
   \<and> (\<forall>e\<in>set es. ev_stype e = ev_stype (hd es) \<and> ev_stype e \<noteq> [])"

definition log_ok :: "event list \<Rightarrow> bool" where
  "log_ok rows \<longleftrightarrow>
     sorted_wrt (\<lambda>a b. ev_global a < ev_global b) rows
   \<and> (\<forall>e\<in>set rows. 0 < ev_global e \<and> ev_stream e \<noteq> [] \<and> ev_id e \<noteq> [])
   \<and> distinct (map ev_id rows)
   \<and> (\<forall>sid. stream_ok (stream_rows rows sid))"

definition store_inv :: "sqlite \<Rightarrow> bool" where
  "store_inv db \<longleftrightarrow>
     log_ok (sq_events db)
   \<and> map fst (sq_outbox db) = map ev_id (sq_events db)"

text \<open>The history of a stream, the abstract view of the store: events without positions.\<close>

definition history :: "sqlite \<Rightarrow> string \<Rightarrow> event list" where
  "history db sid = map (\<lambda>e. e\<lparr>ev_global := 0\<rparr>) (stream_rows (sq_events db) sid)"

end
