(* ===== verification/Sqlite_Log.thy ===== *)
theory Sqlite_Log
  imports Sqlite_Store
begin

text \<open>
  Facts about the SQLite event store: its writes keep the log well formed, an append adds exactly
  its events at the end of its stream or changes nothing, and what the reads return.
\<close>

section \<open>Well-formed streams\<close>

lemma stream_ok_Nil [simp]: "stream_ok []"
  by (simp add: stream_ok_def)

lemma stream_ok_snoc:
  assumes "stream_ok es" and "ev_version e = int (length es) + 1" and "ev_stype e \<noteq> []"
    and "es \<noteq> [] \<Longrightarrow> ev_stype e = ev_stype (hd es)"
  shows "stream_ok (es @ [e])"
  using assms by (cases es) (auto simp: stream_ok_def)

lemma stream_ok_versions: "stream_ok es \<Longrightarrow> map ev_version es = map int [1..<Suc (length es)]"
  by (simp add: stream_ok_def)

lemma stream_ok_nth: "stream_ok es \<Longrightarrow> i < length es \<Longrightarrow> ev_version (es ! i) = int i + 1"
  by (drule stream_ok_versions, drule arg_cong [of _ _ "\<lambda>l. l ! i"]) (simp del: upt_Suc)

lemma stream_ok_sorted: "stream_ok es \<Longrightarrow> sorted (map ev_version es)"
  by (simp add: stream_ok_def sorted_map sorted_wrt_upt del: upt_Suc)

lemma sort_stream_ok [simp]: "stream_ok es \<Longrightarrow> sort_key ev_version es = es"
  by (simp add: sort_key_id_if_sorted stream_ok_sorted)

lemma stream_ok_last: "stream_ok es \<Longrightarrow> es \<noteq> [] \<Longrightarrow> ev_version (last es) = int (length es)"
  by (cases es rule: rev_cases) (auto simp: stream_ok_def dest: arg_cong [of _ _ last])

lemma stream_ok_version_bounds:
  "stream_ok es \<Longrightarrow> e \<in> set es \<Longrightarrow> 1 \<le> ev_version e \<and> ev_version e \<le> int (length es)"
  by (auto simp: in_set_conv_nth stream_ok_nth)

lemma stream_ok_stype: "stream_ok es \<Longrightarrow> e \<in> set es \<Longrightarrow> ev_stype e = ev_stype (hd es)"
  by (simp add: stream_ok_def)

lemma stream_ok_take: "stream_ok es \<Longrightarrow> stream_ok (take n es)"
proof (cases "n = 0")
  case False
  assume ok: "stream_ok es"
  have "map ev_version (take n es) = map int (take n [1..<Suc (length es)])"
    using stream_ok_versions [OF ok] by (simp add: take_map flip: take_map del: upt_Suc)
  also have "take n [1..<Suc (length es)] = [1..<Suc (length (take n es))]"
    by (simp add: min_def take_upt not_le del: upt_Suc)
  finally show ?thesis
    using ok False by (auto simp: stream_ok_def dest: in_set_takeD simp del: upt_Suc)
qed simp

lemma stream_ok_filter_after:
  assumes "stream_ok es" and "0 \<le> v"
  shows "filter (\<lambda>e. v < ev_version e) es = drop (nat v) es"
  using assms
proof (induction es rule: rev_induct)
  case Nil
  then show ?case by simp
next
  case (snoc e es)
  have "stream_ok es" using stream_ok_take [OF snoc.prems(1), of "length es"] by simp
  moreover have "ev_version e = int (length es) + 1"
    using stream_ok_last [OF snoc.prems(1)] by simp
  ultimately show ?case using snoc by (auto simp: nat_le_iff)
qed

section \<open>Rows of a stream\<close>

lemma stream_rows_simps [simp, row_simps]:
  "stream_rows [] sid = []"
  "stream_rows (rows @ rows') sid = stream_rows rows sid @ stream_rows rows' sid"
  "stream_rows (e # rows) sid =
     (if ev_stream e = sid then e # stream_rows rows sid else stream_rows rows sid)"
  by (simp_all add: stream_rows_def)

lemma set_stream_rows: "set (stream_rows rows sid) = {e \<in> set rows. ev_stream e = sid}"
  by (auto simp: stream_rows_def)

lemma next_rowid_gt: "e \<in> set rows \<Longrightarrow> ev_global e < next_rowid rows"
proof -
  assume e: "e \<in> set rows"
  then have "ev_global e \<le> Max (ev_global ` set rows)" by (intro Max_ge) auto
  with e show ?thesis by (cases rows) (auto simp: next_rowid_def)
qed

lemma next_rowid_pos: "(\<forall>e\<in>set rows. 0 < ev_global e) \<Longrightarrow> 0 < next_rowid rows"
proof (cases rows)
  case (Cons e es)
  assume "\<forall>e\<in>set rows. 0 < ev_global e"
  with Cons have "0 < ev_global e" by simp
  moreover have "ev_global e < next_rowid rows" using Cons by (intro next_rowid_gt) simp
  ultimately show ?thesis by simp
qed (simp add: next_rowid_def)

lemma log_ok_stream: "log_ok rows \<Longrightarrow> stream_ok (stream_rows rows sid)"
  by (simp add: log_ok_def)

lemma stream_tip_ok:
  assumes "log_ok rows"
  shows "stream_tip rows sid =
     (int (length (stream_rows rows sid)),
      case stream_rows rows sid of [] \<Rightarrow> [] | e # _ \<Rightarrow> ev_stype e)"
proof (cases "stream_rows rows sid" rule: rev_cases)
  case (snoc es e)
  note ok = log_ok_stream [OF assms, of sid]
  have "ev_version e = int (length (stream_rows rows sid))"
    using stream_ok_last [OF ok] snoc by simp
  moreover have "ev_stype e = ev_stype (hd (stream_rows rows sid))"
    using stream_ok_stype [OF ok, of e] snoc by simp
  ultimately show ?thesis
    using ok snoc by (simp add: stream_tip_def sort_stream_ok split: list.splits)
qed (simp add: stream_tip_def)

section \<open>Inserting\<close>

text \<open>What an event must be to be the next one of its stream.\<close>

definition next_event :: "event list \<Rightarrow> event \<Rightarrow> bool" where
  "next_event rows e \<longleftrightarrow>
     ev_id e \<noteq> [] \<and> ev_stream e \<noteq> [] \<and> ev_stype e \<noteq> []
   \<and> (\<forall>r\<in>set (stream_rows rows (ev_stream e)). ev_stype r = ev_stype e)
   \<and> ev_version e = int (length (stream_rows rows (ev_stream e))) + 1"

lemma insert_next_event:
  assumes "log_ok rows" and "next_event rows e"
  shows "insert_event rows e =
     (if ev_id e \<in> ev_id ` set rows then Inl DuplicateId
      else Inr (rows @ [e\<lparr>ev_global := next_rowid rows\<rparr>]))"
proof -
  have "ev_version r \<noteq> ev_version e" if "r \<in> set rows" "ev_stream r = ev_stream e" for r
    using stream_ok_version_bounds [OF log_ok_stream [OF assms(1)], of r "ev_stream e"] that assms(2)
    by (simp add: set_stream_rows next_event_def)
  moreover have "(\<exists>r\<in>set rows. ev_id r = ev_id e) \<longleftrightarrow> ev_id e \<in> ev_id ` set rows"
    by (metis image_iff)
  ultimately show ?thesis by (auto simp: insert_event_def)
qed

lemma log_ok_snoc:
  assumes "log_ok rows" and "next_event rows e" and "ev_id e \<notin> ev_id ` set rows"
    and r: "r = e\<lparr>ev_global := next_rowid rows\<rparr>"
  shows "log_ok (rows @ [r])"
proof -
  have pos: "\<forall>e\<in>set rows. 0 < ev_global e" using assms(1) by (simp add: log_ok_def)
  have "stream_ok (stream_rows (rows @ [r]) sid)" for sid
  proof (cases "ev_stream e = sid")
    case True
    then show ?thesis
      using assms(2) r log_ok_stream [OF assms(1), of sid]
      by (auto simp: next_event_def intro!: stream_ok_snoc dest: hd_in_set)
  qed (use r log_ok_stream [OF assms(1)] in simp)
  then show ?thesis
    using assms next_rowid_pos [OF pos] next_rowid_gt [of _ rows]
    by (auto simp: log_ok_def sorted_wrt_append next_event_def simp flip: image_comp)
qed

text \<open>Events without their positions, which is how streams are compared.\<close>

abbreviation strip :: "event \<Rightarrow> event" where "strip e \<equiv> e\<lparr>ev_global := 0\<rparr>"

definition fresh_ids :: "event list \<Rightarrow> event list \<Rightarrow> bool" where
  "fresh_ids rows es \<longleftrightarrow> distinct (map ev_id es) \<and> ev_id ` set es \<inter> ev_id ` set rows = {}"

lemma insert_batch:
  assumes "log_ok rows" and "validate_loop sid stype want es = Ok ()"
    and "want = int (length (stream_rows rows sid)) + 1" and "stype \<noteq> []" and "sid \<noteq> []"
    and "\<forall>r\<in>set (stream_rows rows sid). ev_stype r = stype"
  shows "if fresh_ids rows es
    then \<exists>new. fold_res (insert_with report) rows es = Ok (rows @ new) \<and> log_ok (rows @ new)
           \<and> map strip new = map strip es
    else fold_res (insert_with report) rows es = Fail (report DuplicateId)"
  using assms
proof (induction es arbitrary: rows want)
  case Nil
  then show ?case by (auto simp: fresh_ids_def)
next
  case (Cons e es)
  have nxt: "next_event rows e" and e: "ev_stream e = sid" "ev_stype e = stype"
    and rest: "validate_loop sid stype (want + 1) es = Ok ()"
    using Cons.prems by (auto simp: next_event_def split: if_splits)
  let ?r = "e\<lparr>ev_global := next_rowid rows\<rparr>"
  note step = insert_next_event [OF Cons.prems(1) nxt]
  show ?case
  proof (cases "ev_id e \<in> ev_id ` set rows")
    case True
    then show ?thesis using step by (auto simp: fresh_ids_def insert_with_def)
  next
    case False
    have "log_ok (rows @ [?r])"
      using log_ok_snoc [OF Cons.prems(1) nxt False] by simp
    then have IH: "if fresh_ids (rows @ [?r]) es
      then \<exists>new. fold_res (insert_with report) (rows @ [?r]) es = Ok ((rows @ [?r]) @ new)
             \<and> log_ok ((rows @ [?r]) @ new) \<and> map strip new = map strip es
      else fold_res (insert_with report) (rows @ [?r]) es = Fail (report DuplicateId)"
      using Cons.prems e rest by (intro Cons.IH [of _ "want + 1"]) auto
    have fresh: "fresh_ids rows (e # es) \<longleftrightarrow> fresh_ids (rows @ [?r]) es"
      using False by (auto simp: fresh_ids_def)
    have run: "fold_res (insert_with report) rows (e # es) =
        fold_res (insert_with report) (rows @ [?r]) es"
      using step False by (simp add: insert_with_def)
    show ?thesis
    proof (cases "fresh_ids rows (e # es)")
      case True
      with IH fresh obtain new where "fold_res (insert_with report) (rows @ [?r]) es =
          Ok ((rows @ [?r]) @ new)" "log_ok ((rows @ [?r]) @ new)" "map strip new = map strip es"
        by auto
      with True run show ?thesis
        by (intro iffD2 [OF if_P] exI [of _ "?r # new"]) auto
    next
      case False
      with IH fresh run show ?thesis by simp
    qed
  qed
qed

section \<open>Appending to one stream\<close>

lemma enqueue_fresh:
  "distinct (map ev_id es) \<Longrightarrow> ev_id ` set es \<inter> fst ` set rows = {} \<Longrightarrow>
     foldl enqueue_outbox rows es = rows @ map (\<lambda>e. (ev_id e, None)) es"
proof (induction es arbitrary: rows)
  case (Cons e es)
  then have "enqueue_outbox rows e = rows @ [(ev_id e, None)]"
    by (simp add: enqueue_outbox_def)
  with Cons.prems Cons.IH [of "rows @ [(ev_id e, None)]"] show ?case by auto
qed simp

lemma keys_outbox: "store_inv db \<Longrightarrow> fst ` set (sq_outbox db) = ev_id ` set (sq_events db)"
  by (metis list.set_map store_inv_def)

lemma distinct_outbox: "store_inv db \<Longrightarrow> distinct (map fst (sq_outbox db))"
  by (simp add: store_inv_def log_ok_def)

lemma ids_strip: "map strip new = map strip es \<Longrightarrow> map ev_id new = map ev_id es"
  by (drule arg_cong [of _ _ "map ev_id"]) (simp add: comp_def)

lemma streams_strip: "map strip new = map strip es \<Longrightarrow> map ev_stream new = map ev_stream es"
  by (drule arg_cong [of _ _ "map ev_stream"]) (simp add: comp_def)

lemma filter_strip: "filter (\<lambda>e. ev_stream e = sid) (map strip es) = map strip (stream_rows es sid)"
  by (simp add: stream_rows_def filter_map comp_def)

lemma strip_history [simp]: "map strip (history db sid) = history db sid"
  by (simp add: history_def)

lemma history_append:
  "history (db\<lparr>sq_events := sq_events db @ new\<rparr>) sid =
     history db sid @ filter (\<lambda>e. ev_stream e = sid) (map strip new)"
  by (simp add: history_def filter_strip)

lemma history_outbox [simp]:
  "history (db\<lparr>sq_outbox := x\<rparr>) = history db"
  "history (db\<lparr>sq_checkpoints := y\<rparr>) = history db"
  "history (db\<lparr>sq_snapshots := z\<rparr>) = history db"
  by (simp_all add: history_def fun_eq_iff)

lemma valid_streams: "validate_loop sid stype want es = Ok () \<Longrightarrow> \<forall>e\<in>set es. ev_stream e = sid"
  by (induction es arbitrary: want) (auto split: if_splits)

text \<open>
  The abstract log is a function from streams to their events; \<open>spec_append\<close> is what appending
  promises: the expected version is the length of the stream, the aggregate type stays, the
  identifiers are new to the whole log, and the events go to the end of their stream.
\<close>

definition log_ids :: "(string \<Rightarrow> event list) \<Rightarrow> string set" where
  "log_ids H = (\<Union>sid. ev_id ` set (H sid))"

definition spec_append :: "(string \<Rightarrow> event list) \<Rightarrow> stream_append \<Rightarrow> (string \<Rightarrow> event list) res" where
  "spec_append H b =
     (let sid = sa_stream b; es = sa_events b
      in if es = [] then Ok H
         else if int (length (H sid)) \<noteq> sa_expected b then Fail (conflict sid)
         else if H sid \<noteq> [] \<and> ev_stype (hd (H sid)) \<noteq> ev_stype (hd es)
         then fail_msg ''stream has another aggregate type''
         else if \<not> distinct (map ev_id es) \<or> ev_id ` set es \<inter> log_ids H \<noteq> {}
         then Fail (Errorf ''inserting event'' [duplicate_id])
         else Ok (H(sid := H sid @ map strip es)))"

lemma log_ids_history: "log_ids (history db) = ev_id ` set (sq_events db)"
  by (auto simp: log_ids_def history_def set_stream_rows image_iff)

lemma history_Nil_iff: "history db sid = [] \<longleftrightarrow> stream_rows (sq_events db) sid = []"
  by (simp add: history_def)

lemma hd_history: "history db sid \<noteq> [] \<Longrightarrow> ev_stype (hd (history db sid)) = ev_stype (hd (stream_rows (sq_events db) sid))"
  by (simp add: history_def hd_map)

lemma append_stream_refines:
  assumes inv: "store_inv db" and valid: "validate_append () b = Ok ()"
  shows "case append_stream db b of
      Inl err \<Rightarrow> spec_append (history db) b = Fail err
    | Inr db' \<Rightarrow> store_inv db' \<and> spec_append (history db) b = Ok (history db')
        \<and> (\<exists>new. sq_events db' = sq_events db @ new)
        \<and> sq_checkpoints db' = sq_checkpoints db \<and> sq_snapshots db' = sq_snapshots db"
proof (cases "sa_events b")
  case Nil
  with inv show ?thesis by (simp add: append_stream_def spec_append_def)
next
  case (Cons e es')
  let ?sid = "sa_stream b" and ?es = "sa_events b" and ?rows = "sq_events db"
  from inv have ok: "log_ok ?rows" and keys: "map fst (sq_outbox db) = map ev_id ?rows"
    by (simp_all add: store_inv_def)
  from valid Cons have loop: "validate_loop ?sid (ev_stype e) (sa_expected b + 1) ?es = Ok ()"
    and ne: "?sid \<noteq> []" "ev_stype e \<noteq> []" "0 \<le> sa_expected b"
    by (auto simp: validate_append_def validate_event_batch_def split: if_splits)
  note tip = stream_tip_ok [OF ok, of ?sid]
  show ?thesis
  proof (cases "int (length (stream_rows ?rows ?sid)) = sa_expected b
      \<and> (stream_rows ?rows ?sid = [] \<or> ev_stype (hd (stream_rows ?rows ?sid)) = ev_stype e)")
    case False
    then consider "int (length (stream_rows ?rows ?sid)) \<noteq> sa_expected b"
      | x xs where "int (length (stream_rows ?rows ?sid)) = sa_expected b"
          "stream_rows ?rows ?sid = x # xs" "ev_stype x \<noteq> ev_stype e"
      by (cases "stream_rows ?rows ?sid") auto
    then show ?thesis
    proof cases
      case 1
      then show ?thesis
        using Cons by (simp add: append_stream_def spec_append_def tip history_def)
    next
      case 2
      then have "ev_stype x \<noteq> []"
        using log_ok_stream [OF ok, of ?sid] by (simp add: stream_ok_def)
      with 2 show ?thesis
        using Cons by (simp add: append_stream_def spec_append_def tip history_def)
    qed
  next
    case True
    then have go: "append_stream db b =
        bind_res (fold_res (insert_with (append_error ?sid)) ?rows ?es)
          (\<lambda>rows. Ok (db\<lparr>sq_events := rows, sq_outbox := foldl enqueue_outbox (sq_outbox db) ?es\<rparr>))"
      using Cons by (auto simp: append_stream_def tip split: list.splits)
    have same: "\<forall>r\<in>set (stream_rows ?rows ?sid). ev_stype r = ev_stype e"
      using True stream_ok_stype [OF log_ok_stream [OF ok, of ?sid]] by (metis empty_iff list.set(1))
    have spec: "spec_append (history db) b =
        (if fresh_ids ?rows ?es then Ok ((history db)(?sid := history db ?sid @ map strip ?es))
         else Fail (Errorf ''inserting event'' [duplicate_id]))"
      using True Cons hd_history [of db ?sid]
      by (auto simp: spec_append_def Let_def history_Nil_iff log_ids_history fresh_ids_def history_def)
    have batch: "if fresh_ids ?rows ?es
      then \<exists>new. fold_res (insert_with (append_error ?sid)) ?rows ?es = Ok (?rows @ new)
             \<and> log_ok (?rows @ new) \<and> map strip new = map strip ?es
      else fold_res (insert_with (append_error ?sid)) ?rows ?es =
             Fail (append_error ?sid DuplicateId)"
      using insert_batch [OF ok loop _ ne(2) ne(1) same] True by simp
    show ?thesis
    proof (cases "fresh_ids ?rows ?es")
      case False
      with batch go spec show ?thesis by simp
    next
      case fresh: True
      with batch obtain new where new: "fold_res (insert_with (append_error ?sid)) ?rows ?es =
          Ok (?rows @ new)" "log_ok (?rows @ new)" "map strip new = map strip ?es" by auto
      have box: "foldl enqueue_outbox (sq_outbox db) ?es =
          sq_outbox db @ map (\<lambda>e. (ev_id e, None)) ?es"
        using fresh keys_outbox [OF inv] by (intro enqueue_fresh) (auto simp: fresh_ids_def)
      have hist: "history (db\<lparr>sq_events := ?rows @ new\<rparr>) =
          (history db)(?sid := history db ?sid @ map strip ?es)"
        using valid_streams [OF loop] new(3)
        by (auto simp: fun_eq_iff history_append filter_strip stream_rows_def filter_empty_conv)
      show ?thesis
        using new box hist keys ids_strip [OF new(3)]
        by (simp add: go spec fresh store_inv_def comp_def)
    qed
  qed
qed

lemma stream_ok_strip: "store_inv db \<Longrightarrow> stream_ok (history db sid)"
proof -
  assume "store_inv db"
  then have "stream_ok (stream_rows (sq_events db) sid)" by (simp add: store_inv_def log_ok_stream)
  then show ?thesis
    by (cases "stream_rows (sq_events db) sid") (auto simp: stream_ok_def history_def comp_def)
qed

section \<open>Atomic batches\<close>

lemma write_tx_simps [simp]:
  "write_tx (Some err) db body = (Fail err, db)"
  "write_tx None db body =
     (case body db of Inl err \<Rightarrow> (Fail err, db) | Inr db' \<Rightarrow> (Ok (), db'))"
  by (simp_all add: write_tx_def)

lemma validate_all:
  "fold_res validate_append () bs = Ok () \<longleftrightarrow> (\<forall>b\<in>set bs. validate_append () b = Ok ())"
  by (induction bs) (auto simp: bind_res_eq_Inr)

lemma append_streams_refine:
  assumes "store_inv db" and "\<forall>b\<in>set bs. validate_append () b = Ok ()"
  shows "case fold_res append_stream db bs of
      Inl err \<Rightarrow> fold_res spec_append (history db) bs = Fail err
    | Inr db' \<Rightarrow> store_inv db' \<and> fold_res spec_append (history db) bs = Ok (history db')
        \<and> (\<exists>new. sq_events db' = sq_events db @ new)
        \<and> sq_checkpoints db' = sq_checkpoints db \<and> sq_snapshots db' = sq_snapshots db"
  using assms
proof (induction bs arbitrary: db)
  case (Cons b bs)
  from Cons.prems have step: "case append_stream db b of
      Inl err \<Rightarrow> spec_append (history db) b = Fail err
    | Inr db' \<Rightarrow> store_inv db' \<and> spec_append (history db) b = Ok (history db')
        \<and> (\<exists>new. sq_events db' = sq_events db @ new)
        \<and> sq_checkpoints db' = sq_checkpoints db \<and> sq_snapshots db' = sq_snapshots db"
    by (intro append_stream_refines) auto
  show ?case
  proof (cases "append_stream db b")
    case (Inr db1)
    with step have "store_inv db1" by simp
    from Cons.IH [OF this] Cons.prems(2) step Inr show ?thesis
      by (auto split: sum.splits)
  qed (use step in simp)
qed auto

text \<open>The abstract counterpart of a whole batch.\<close>

definition spec_append_batch ::
    "(string \<Rightarrow> event list) \<Rightarrow> stream_append list \<Rightarrow> unit res \<times> (string \<Rightarrow> event list)" where
  "spec_append_batch H bs =
     (case bind_res (fold_res validate_append () bs) (\<lambda>_. fold_res spec_append H bs) of
        Inl err \<Rightarrow> (Fail err, H)
      | Inr H' \<Rightarrow> (Ok (), H'))"

lemma fold_spec_empty: "\<forall>b\<in>set bs. sa_events b = [] \<Longrightarrow> fold_res spec_append H bs = Ok H"
  by (induction bs) (auto simp: spec_append_def)

lemma append_batch_spec:
  assumes "store_inv db"
  shows "(fst (append_batch None db bs), history (snd (append_batch None db bs))) =
           spec_append_batch (history db) bs"
proof (cases "fold_res validate_append () bs")
  case (Inr u)
  then have v: "fold_res validate_append () bs = Ok ()" by simp
  note run = append_streams_refine [OF assms, of bs]
  show ?thesis
  proof (cases "\<forall>b\<in>set bs. sa_events b = []")
    case True
    then show ?thesis by (simp add: append_batch_def spec_append_batch_def v fold_spec_empty)
  next
    case False
    then have "append_batch None db bs = write_tx None db (\<lambda>tx. fold_res append_stream tx bs)"
      by (auto simp: append_batch_def v)
    then show ?thesis
      using run v by (cases "fold_res append_stream db bs")
        (auto simp: spec_append_batch_def validate_all [symmetric])
  qed
qed (simp add: append_batch_def spec_append_batch_def)

lemma append_batch_inv: "store_inv db \<Longrightarrow> store_inv (snd (append_batch fault db bs))"
  using append_streams_refine [of db bs] validate_all [of bs]
  by (cases fault) (auto simp: append_batch_def split: sum.splits)

text \<open>A failed batch leaves the database as it was.\<close>

lemma append_batch_atomic: "fst (append_batch fault db bs) = Fail err \<Longrightarrow> snd (append_batch fault db bs) = db"
  by (cases fault) (auto simp: append_batch_def split: sum.splits if_splits)

lemma append_batch_extends:
  "store_inv db \<Longrightarrow> \<exists>new. sq_events (snd (append_batch fault db bs)) = sq_events db @ new"
  using append_streams_refine [of db bs] validate_all [of bs]
  by (cases fault) (auto simp: append_batch_def split: sum.splits)

lemma append_events_inv: "store_inv db \<Longrightarrow> store_inv (snd (append_events fault db sid v es))"
  by (simp add: append_events_def append_batch_inv)

lemma append_events_extends:
  "store_inv db \<Longrightarrow> \<exists>new. sq_events (snd (append_events fault db sid v es)) = sq_events db @ new"
  by (simp add: append_events_def append_batch_extends)

text \<open>An append of one batch that reports success, in terms of the stream.\<close>

lemma append_events_ok:
  assumes "store_inv db" and "fst (append_events fault db sid v es) = Ok ()"
  shows "history (snd (append_events fault db sid v es)) =
           (history db)(sid := history db sid @ map strip es)"
    and "es \<noteq> [] \<Longrightarrow> int (length (history db sid)) = v"
proof -
  let ?b = "\<lparr>sa_stream = sid, sa_expected = v, sa_events = es\<rparr>"
  have "es = [] \<or> fault = None \<and> spec_append_batch (history db) [?b] =
      (Ok (), history (snd (append_events fault db sid v es)))"
    using assms append_batch_spec [OF assms(1), of "[?b]"]
    by (cases fault) (auto simp: append_events_def append_batch_def split: sum.splits if_splits)
  then show "history (snd (append_events fault db sid v es)) =
           (history db)(sid := history db sid @ map strip es)"
    and "es \<noteq> [] \<Longrightarrow> int (length (history db sid)) = v"
    by (auto simp: spec_append_batch_def spec_append_def append_events_def Let_def bind_res_eq_Inr
        split: sum.splits if_splits)
qed

section \<open>Rewriting, marking and checkpointing\<close>

lemma stream_rows_delete:
  "stream_rows (filter (\<lambda>e. ev_stream e \<noteq> sid) rows) s = (if s = sid then [] else stream_rows rows s)"
  by (induction rows) auto

lemma delete_log_ok: "log_ok rows \<Longrightarrow> log_ok (filter (\<lambda>e. ev_stream e \<noteq> sid) rows)"
  by (auto simp: log_ok_def stream_rows_delete intro: sorted_wrt_filter distinct_map_filter)

lemma delete_stream_inv:
  assumes "store_inv db"
  shows "store_inv (delete_stream db sid)"
proof -
  let ?gone = "ev_id ` set (stream_rows (sq_events db) sid)"
  have inj: "inj_on ev_id (set (sq_events db))"
    using assms by (simp add: store_inv_def log_ok_def distinct_map)
  have "map fst (filter (\<lambda>row. fst row \<notin> ?gone) (sq_outbox db)) =
      filter (\<lambda>i. i \<notin> ?gone) (map fst (sq_outbox db))"
    by (simp add: filter_map comp_def)
  also have "map fst (sq_outbox db) = map ev_id (sq_events db)"
    using assms by (simp add: store_inv_def)
  also have "filter (\<lambda>i. i \<notin> ?gone) (map ev_id (sq_events db)) =
      map ev_id (filter (\<lambda>e. ev_id e \<notin> ?gone) (sq_events db))"
    by (simp add: filter_map comp_def)
  also have "filter (\<lambda>e. ev_id e \<notin> ?gone) (sq_events db) =
      filter (\<lambda>e. ev_stream e \<noteq> sid) (sq_events db)"
    using inj by (intro filter_cong) (auto simp: set_stream_rows inj_on_def)
  finally show ?thesis
    using assms by (simp add: delete_stream_def store_inv_def delete_log_ok)
qed

lemma replace_stream_ok:
  assumes inv: "store_inv db" and ok: "fst (replace_stream allowed fault db sid es) = Ok ()"
  shows "store_inv (snd (replace_stream allowed fault db sid es))"
    and "history (snd (replace_stream allowed fault db sid es)) = (history db)(sid := map strip es)"
    and "map_of (sq_snapshots (snd (replace_stream allowed fault db sid es))) sid = None"
    and "\<forall>e\<in>set es. map_of (sq_outbox (snd (replace_stream allowed fault db sid es))) (ev_id e) = Some None"
proof -
  let ?db1 = "delete_stream db sid"
  have inv1: "store_inv ?db1" by (rule delete_stream_inv [OF inv])
  have log1: "log_ok (sq_events ?db1)" using inv1 by (simp add: store_inv_def)
  have none: "stream_rows (sq_events ?db1) sid = []"
    by (simp add: delete_stream_def stream_rows_delete)
  from ok have valid: "validate_event_batch sid 0 es = Ok ()" and "fault = None"
    and run: "\<exists>rows. fold_res (insert_with replace_error) (sq_events ?db1) es = Ok rows
      \<and> snd (replace_stream allowed fault db sid es) =
          ?db1\<lparr>sq_events := rows, sq_outbox := foldl enqueue_outbox (sq_outbox ?db1) es\<rparr>"
    by (auto simp: replace_stream_def write_tx_def Let_def bind_res_eq_Inr
        split: sum.splits option.splits if_splits)
  let ?P = "\<lambda>new. fold_res (insert_with replace_error) (sq_events ?db1) es = Ok (sq_events ?db1 @ new)
      \<and> log_ok (sq_events ?db1 @ new) \<and> map strip new = map strip es"
  have "fresh_ids (sq_events ?db1) es \<and> (\<exists>new. ?P new)"
  proof (cases es)
    case Nil
    then show ?thesis using log1 by (simp add: fresh_ids_def)
  next
    case (Cons e es')
    with valid have "validate_loop sid (ev_stype e) 1 es = Ok ()" "ev_stype e \<noteq> []" "sid \<noteq> []"
      by (auto simp: validate_event_batch_def split: if_splits)
    from insert_batch [OF log1 this(1) _ this(2,3), of replace_error] none run show ?thesis
      by (cases "fresh_ids (sq_events ?db1) es") auto
  qed
  then obtain new where fresh: "fresh_ids (sq_events ?db1) es" and new: "?P new" by blast
  then have db': "snd (replace_stream allowed fault db sid es) =
      ?db1\<lparr>sq_events := sq_events ?db1 @ new,
          sq_outbox := sq_outbox ?db1 @ map (\<lambda>e. (ev_id e, None)) es\<rparr>"
    using run keys_outbox [OF inv1] enqueue_fresh [of es "sq_outbox ?db1"]
    by (auto simp: fresh_ids_def)
  show inv': "store_inv (snd (replace_stream allowed fault db sid es))"
    using new inv1 ids_strip [of new es] by (simp add: db' store_inv_def comp_def)
  have str: "\<forall>e\<in>set es. ev_stream e = sid"
    using valid by (auto simp: validate_event_batch_def dest: valid_streams split: list.splits if_splits)
  have "history ?db1 = (history db)(sid := [])"
    by (simp add: fun_eq_iff history_def delete_stream_def stream_rows_delete)
  with new str show "history (snd (replace_stream allowed fault db sid es)) =
      (history db)(sid := map strip es)"
    by (auto simp: db' fun_eq_iff history_append filter_strip stream_rows_def filter_empty_conv)
  show "map_of (sq_snapshots (snd (replace_stream allowed fault db sid es))) sid = None"
    by (simp add: db' delete_stream_def map_of_eq_None_iff image_iff)
  show "\<forall>e\<in>set es. map_of (sq_outbox (snd (replace_stream allowed fault db sid es))) (ev_id e) = Some None"
  proof
    fix e assume "e \<in> set es"
    then have "(ev_id e, None) \<in> set (sq_outbox (snd (replace_stream allowed fault db sid es)))"
      by (subst db') simp
    with distinct_outbox [OF inv'] show
      "map_of (sq_outbox (snd (replace_stream allowed fault db sid es))) (ev_id e) = Some None"
      by (rule map_of_is_SomeI)
  qed
qed

lemma replace_stream_inv: "store_inv db \<Longrightarrow> store_inv (snd (replace_stream allowed fault db sid es))"
proof (cases "fst (replace_stream allowed fault db sid es)")
  case (Inl err)
  moreover assume "store_inv db"
  ultimately show ?thesis
    by (cases fault) (auto simp: replace_stream_def split: sum.splits if_splits)
qed (simp add: replace_stream_ok)

lemma mark_rows_keys: "map fst (foldl (\<lambda>rows i. map (mark_row now i) rows) rows ids) = map fst rows"
proof (induction ids arbitrary: rows)
  case (Cons i ids)
  have "map fst (map (mark_row now i) rows) = map fst rows" by (simp add: mark_row_def)
  with Cons show ?case by simp
qed simp

lemma mark_rows:
  "map_of (foldl (\<lambda>rows i. map (mark_row now i) rows) rows ids) j =
     (if j \<in> set ids \<and> map_of rows j = Some None then Some (Some now) else map_of rows j)"
proof (induction ids arbitrary: rows)
  case (Cons i ids)
  have "map_of (map (mark_row now i) rows) j =
      (if j = i \<and> map_of rows j = Some None then Some (Some now) else map_of rows j)"
    by (induction rows) (auto simp: mark_row_def)
  with Cons show ?case by auto
qed simp

lemma mark_published_outbox:
  assumes "fst (mark_published fault now db ids) = Ok ()"
  shows "map_of (sq_outbox (snd (mark_published fault now db ids))) j =
     (if j \<in> set ids \<and> map_of (sq_outbox db) j = Some None then Some (Some now)
      else map_of (sq_outbox db) j)"
  using assms by (cases fault) (auto simp: mark_published_def mark_rows split: if_splits)

lemma mark_published_frame:
  "sq_events (snd (mark_published fault now db ids)) = sq_events db"
  "sq_checkpoints (snd (mark_published fault now db ids)) = sq_checkpoints db"
  "map fst (sq_outbox (snd (mark_published fault now db ids))) = map fst (sq_outbox db)"
  by (cases fault; simp add: mark_published_def mark_rows_keys)+

lemma save_checkpoint_frame:
  "sq_events (snd (save_checkpoint fault db name pos)) = sq_events db"
  "sq_outbox (snd (save_checkpoint fault db name pos)) = sq_outbox db"
  by (cases fault; simp add: save_checkpoint_def)+

lemma save_snapshot_frame:
  "sq_events (snd (save_snapshot fault now db snap)) = sq_events db"
  "sq_outbox (snd (save_snapshot fault now db snap)) = sq_outbox db"
  by (cases fault; simp add: save_snapshot_def Let_def)+

section \<open>Every write keeps the log well formed\<close>

inductive store_step :: "sqlite \<Rightarrow> sqlite \<Rightarrow> bool" where
  step_append: "store_step db (snd (append_events fault db sid v es))"
| step_batch: "store_step db (snd (append_batch fault db bs))"
| step_replace: "store_step db (snd (replace_stream allowed fault db sid es))"
| step_mark: "store_step db (snd (mark_published fault now db ids))"
| step_checkpoint: "store_step db (snd (save_checkpoint fault db name pos))"
| step_snapshot: "store_step db (snd (save_snapshot fault now db snap))"

inductive_cases store_stepE: "store_step db db'"

lemma small_writes_inv:
  "store_inv db \<Longrightarrow> store_inv (snd (mark_published fault now db ids))"
  "store_inv db \<Longrightarrow> store_inv (snd (save_checkpoint fault db name pos))"
  "store_inv db \<Longrightarrow> store_inv (snd (save_snapshot fault now db snap))"
  by (simp_all add: store_inv_def mark_published_frame save_checkpoint_frame save_snapshot_frame)

lemma store_step_inv: "store_step db db' \<Longrightarrow> store_inv db \<Longrightarrow> store_inv db'"
  by (induction rule: store_step.induct)
    (auto intro: append_events_inv append_batch_inv replace_stream_inv small_writes_inv)

lemma empty_store_inv: "store_inv empty_sqlite"
  by (simp add: empty_sqlite_def store_inv_def log_ok_def)

text \<open>A stream of one artist event, for the instances below.\<close>

definition sample_event :: "string \<Rightarrow> int \<Rightarrow> event" where
  "sample_event i v =
     \<lparr>ev_id = i, ev_global = 0, ev_stream = ''ar_1'', ev_stype = ''artist'', ev_version = v,
      ev_type = ''ArtistCreated'', ev_payload = Encoded JNull, ev_meta = NoBytes, ev_at = 0\<rparr>"

definition sample_log :: sqlite where
  "sample_log = snd (append_events None empty_sqlite ''ar_1'' 0 [sample_event ''e1'' 1])"

lemma sample_log_inv: "store_inv sample_log"
  by (simp add: sample_log_def append_events_inv empty_store_inv)

text \<open>
  C1. The invariant of the event log holds in every database the store can reach from an empty
  one by any sequence of writes, failed writes included: rowids strictly increase, event
  identifiers are unique, the versions of each stream count up from 1 without a gap under one
  aggregate type, and the outbox has exactly one row per event.
\<close>

theorem reachable_store_inv:
  assumes "store_step\<^sup>*\<^sup>* empty_sqlite db"
  shows "store_inv db"
  using assms
  by (induction rule: rtranclp_induct) (auto intro: store_step_inv empty_store_inv)

theorem reachable_store_inv_witness:
  "store_inv (snd (replace_stream True None sample_log ''ar_1'' [sample_event ''e2'' 1]))"
proof (rule reachable_store_inv)
  have "store_step\<^sup>*\<^sup>* empty_sqlite sample_log"
    unfolding sample_log_def by (rule r_into_rtranclp, rule step_append)
  then show "store_step\<^sup>*\<^sup>* empty_sqlite
      (snd (replace_stream True None sample_log ''ar_1'' [sample_event ''e2'' 1]))"
    by (rule rtranclp.rtrancl_into_rtrancl) (rule step_replace)
qed

text \<open>
  C2. \<^verbatim>\<open>AppendBatch\<close> refines the abstract log: its result and the histories it leaves are those
  of appending every batch at the end of its stream under optimistic concurrency, or of an error
  that changes nothing.
\<close>

theorem append_batch_refines:
  assumes "store_inv db"
  shows "(fst (append_batch None db bs), history (snd (append_batch None db bs))) =
           spec_append_batch (history db) bs"
  by (rule append_batch_spec [OF assms])

theorem append_batch_refines_witness:
  "length (snd (spec_append_batch (history sample_log)
             [\<lparr>sa_stream = ''ar_1'', sa_expected = 1, sa_events = [sample_event ''e2'' 2]\<rparr>]) ''ar_1'') = 2"
  unfolding append_batch_refines [OF sample_log_inv, symmetric] by code_simp

text \<open>
  Of two writers that append to a stream at the same expected version, the second is refused
  with a concurrency conflict, whatever it wants to append, and changes nothing.
\<close>

theorem stale_append_conflicts:
  assumes "store_inv db" and "fst (append_events fault db sid v es) = Ok ()" and "es \<noteq> []"
    and "validate_event_batch sid v es' = Ok ()" and "es' \<noteq> []"
    and "db' = snd (append_events fault db sid v es)"
  shows "append_events None db' sid v es' = (Fail (conflict sid), db')
    \<and> errors_is ErrConcurrencyConflict (conflict sid)"
proof (intro conjI)
  have inv: "store_inv db'" using assms(1,6) append_events_inv by simp
  have "int (length (stream_rows (sq_events db') sid)) \<noteq> v"
    using append_events_ok [OF assms(1,2)] assms(3,6) by (simp add: history_def fun_eq_iff)
      (metis length_map length_append length_0_conv add.right_neutral add_left_cancel of_nat_eq_iff)
  then show "append_events None db' sid v es' = (Fail (conflict sid), db')"
    using assms(4,5) inv
    by (cases es') (simp_all add: append_events_def append_batch_def append_stream_def
        validate_append_def store_inv_def stream_tip_ok)
qed (simp add: conflict_def)

theorem stale_append_conflicts_witness:
  "fst (append_events None (snd (append_events None sample_log ''ar_1'' 1 [sample_event ''e2'' 2]))
          ''ar_1'' 1 [sample_event ''e3'' 2]) = Fail (conflict ''ar_1'')"
proof -
  have "fst (append_events None sample_log ''ar_1'' 1 [sample_event ''e2'' 2]) = Ok ()"
    "validate_event_batch ''ar_1'' 1 [sample_event ''e3'' 2] = Ok ()" by code_simp+
  from stale_append_conflicts [OF sample_log_inv this(1) _ this(2) _ refl] show ?thesis by simp
qed

end
