(* ===== verification/Aggregate_Contract.thy ===== *)
theory Aggregate_Contract
  imports Sqlite_Log
begin

text \<open>
  What every aggregate of the domain has in common (\<^verbatim>\<open>internal/eventsourcing/aggregate.go\<close>): raising
  an event, replaying a stream, and the contract between the two. The locale \<open>aggregate\<close> states
  what an \<^verbatim>\<open>apply\<close> method promises; from it follows that the state of an aggregate is always the
  replay of its history and its uncommitted events. Every aggregate of the program interprets it.
\<close>

section \<open>Raising and replaying\<close>

type_synonym 'a apply_op = "event \<Rightarrow> 'a base_agg_scheme \<Rightarrow> 'a base_agg_scheme res"

text \<open>
  \<^verbatim>\<open>RecordThat\<close> followed by \<^verbatim>\<open>apply\<close>, as every command ends. A value an error leaves behind
  half-updated is dropped by the callers, and so by the result type.
\<close>

definition raise_event ::
    "'a apply_op \<Rightarrow> stamp \<Rightarrow> string \<Rightarrow> json \<Rightarrow> meta_arg \<Rightarrow> 'a base_agg_scheme \<Rightarrow> 'a base_agg_scheme res" where
  "raise_event apply_ev st et payload md a =
     (let (e, a1) = record_that st et payload md a in apply_ev e a1)"

definition apply_events :: "'a apply_op \<Rightarrow> 'a base_agg_scheme \<Rightarrow> event list \<Rightarrow> 'a base_agg_scheme res" where
  "apply_events apply_ev = fold_res (\<lambda>a e. wrap_err ''replaying event'' (apply_ev e a))"

text \<open>The \<^verbatim>\<open>Replay\<close> functions.\<close>

definition replay_stream :: "'a apply_op \<Rightarrow> 'a base_agg_scheme \<Rightarrow> event list \<Rightarrow> 'a base_agg_scheme res" where
  "replay_stream apply_ev a0 es =
     (if es = [] then Fail (Sentinel ErrStreamNotFound) else apply_events apply_ev a0 es)"

lemma apply_events_simps [simp]:
  "apply_events ap a [] = Ok a"
  "apply_events ap a (e # es) =
     bind_res (wrap_err ''replaying event'' (ap e a)) (\<lambda>a'. apply_events ap a' es)"
  by (simp_all add: apply_events_def)

lemma apply_events_append:
  "apply_events ap a (xs @ ys) = bind_res (apply_events ap a xs) (\<lambda>a'. apply_events ap a' ys)"
  by (simp add: apply_events_def fold_res_append)

definition with_uncommitted :: "event list \<Rightarrow> 'a base_agg_scheme \<Rightarrow> 'a base_agg_scheme" where
  "with_uncommitted us a = a\<lparr>ba_uncommitted := us\<rparr>"

lemma with_uncommitted_simps [simp]:
  "ba_id (with_uncommitted us a) = ba_id a"
  "ba_stype (with_uncommitted us a) = ba_stype a"
  "ba_version (with_uncommitted us a) = ba_version a"
  "ba_uncommitted (with_uncommitted us a) = us"
  "with_uncommitted us (with_uncommitted vs a) = with_uncommitted us a"
  "with_uncommitted us (a\<lparr>ba_version := v, ba_uncommitted := vs\<rparr>) = with_uncommitted us (a\<lparr>ba_version := v\<rparr>)"
  by (simp_all add: with_uncommitted_def)

lemma base_swap:
  "a\<lparr>ba_version := v, ba_uncommitted := us\<rparr> = a\<lparr>ba_uncommitted := us, ba_version := v\<rparr>"
  by (cases a) simp

lemma clear_uncommitted_with: "clear_uncommitted a = with_uncommitted [] a"
  by (simp add: clear_uncommitted_def with_uncommitted_def)

lemma validate_loop_snoc:
  "validate_loop sid stype want (es @ [e]) = Ok () \<longleftrightarrow>
     validate_loop sid stype want es = Ok ()
   \<and> validate_loop sid stype (want + int (length es)) [e] = Ok ()"
  by (induction es arbitrary: want) (auto simp: algebra_simps)

section \<open>The contract of an aggregate\<close>

locale aggregate =
  fixes ap :: "'a apply_op" and init :: "string \<Rightarrow> 'a base_agg_scheme" and stype :: string
  assumes apply_frame: "ap e a = Ok a' \<Longrightarrow> ba_id a' = ba_id a \<and> ba_stype a' = ba_stype a
            \<and> ba_uncommitted a' = ba_uncommitted a \<and> ba_version a' = ev_version e"
    and apply_commutes: "ap e (with_uncommitted us a) =
            bind_res (ap e a) (\<lambda>b. Ok (with_uncommitted us b))"
    and apply_version: "ap e (a\<lparr>ba_version := v\<rparr>) = ap e a"
    and apply_strip: "ap (strip e) a = ap e a"
    and init_base: "ba_id (init i) = i \<and> ba_stype (init i) = stype \<and> ba_version (init i) = 0
            \<and> ba_uncommitted (init i) = []"
    and stype_nonempty: "stype \<noteq> []"
begin

text \<open>
  \<open>a\<close> is sourced from \<open>hist\<close>: its state is the replay of the history and the uncommitted events,
  its version their number, and the uncommitted events are what the store will accept next.
\<close>

definition sourced :: "event list \<Rightarrow> 'a base_agg_scheme \<Rightarrow> bool" where
  "sourced hist a \<longleftrightarrow>
     ba_id a \<noteq> [] \<and> ba_stype a = stype
   \<and> apply_events ap (init (ba_id a)) (hist @ ba_uncommitted a) = Ok (with_uncommitted [] a)
   \<and> ba_version a = int (length hist + length (ba_uncommitted a))
   \<and> validate_loop (ba_id a) stype (int (length hist) + 1) (ba_uncommitted a) = Ok ()"

lemma apply_uncommitted:
  "ap e a = Ok a' \<Longrightarrow> ap e (with_uncommitted us a) = Ok (with_uncommitted us a')"
  by (simp add: apply_commutes)

lemma apply_events_frame:
  "apply_events ap a es = Ok a' \<Longrightarrow> ba_id a' = ba_id a \<and> ba_stype a' = ba_stype a
     \<and> ba_uncommitted a' = ba_uncommitted a
     \<and> (es \<noteq> [] \<longrightarrow> ba_version a' = ev_version (last es))"
proof (induction es arbitrary: a)
  case (Cons e es)
  then obtain a1 where a1: "ap e a = Ok a1" "apply_events ap a1 es = Ok a'"
    by (auto simp: bind_res_eq_Inr)
  from apply_frame [OF a1(1)] Cons.IH [OF a1(2)] a1(2) show ?case
    by (cases es) auto
qed simp

lemma raise_as_apply:
  "raise_event ap st et pl md a =
     ap (new_event st (ba_id a) (ba_stype a) (ba_version a + 1) et pl md)
       (a\<lparr>ba_uncommitted := ba_uncommitted a @ [new_event st (ba_id a) (ba_stype a) (ba_version a + 1) et pl md]\<rparr>)"
  by (simp add: raise_event_def record_that_def Let_def base_swap apply_version)

lemma sourced_init: "i \<noteq> [] \<Longrightarrow> sourced [] (init i)"
  using init_base [of i] by (simp add: sourced_def with_uncommitted_def)

lemma sourced_raise:
  assumes "sourced hist a" and "et \<noteq> []" and "raise_event ap st et payload md a = Ok a'"
  shows "sourced hist a'"
proof -
  let ?e = "new_event st (ba_id a) (ba_stype a) (ba_version a + 1) et payload md"
  let ?a1 = "a\<lparr>ba_version := ba_version a + 1, ba_uncommitted := ba_uncommitted a @ [?e]\<rparr>"
  from assms(3) have run: "ap ?e ?a1 = Ok a'"
    by (simp add: raise_event_def record_that_def Let_def)
  note frame = apply_frame [OF run]
  have "ap ?e (with_uncommitted [] a) = Ok (with_uncommitted [] a')"
    using apply_uncommitted [OF run, of "[]"] apply_version [where e = ?e and a = "with_uncommitted [] a" and v = "ba_version a + 1"]
    by (simp add: with_uncommitted_def base_swap [where a = a])
  then have "apply_events ap (init (ba_id a)) (hist @ ba_uncommitted a @ [?e]) = Ok (with_uncommitted [] a')"
    using assms(1) apply_events_append [of ap "init (ba_id a)" "hist @ ba_uncommitted a" "[?e]"]
    by (simp add: sourced_def)
  moreover have "validate_loop (ba_id a) stype (int (length hist) + 1) (ba_uncommitted a @ [?e]) = Ok ()"
    using assms(1,2) by (simp add: sourced_def validate_loop_snoc)
  ultimately show ?thesis
    using frame assms(1) by (simp add: sourced_def)
qed

lemma sourced_valid_batch:
  assumes "sourced hist a"
  shows "validate_event_batch (ba_id a) (expected_version a) (ba_uncommitted a) = Ok ()"
    and "expected_version a = int (length hist)"
  using assms stype_nonempty
  by (auto simp: sourced_def validate_event_batch_def expected_version_def split: list.splits if_splits)

text \<open>Saving commits the uncommitted events: afterwards the aggregate is the replay of its stream.\<close>

lemma sourced_commit:
  assumes "sourced hist a"
  shows "sourced (hist @ ba_uncommitted a) (clear_uncommitted a)"
  using assms by (simp add: sourced_def clear_uncommitted_with)

lemma sourced_replay:
  assumes "sourced hist a" and "ba_uncommitted a = []" and "hist \<noteq> []"
  shows "replay_stream ap (init (ba_id a)) hist = Ok a"
proof -
  have "with_uncommitted [] a = a" using assms(2) by (simp add: with_uncommitted_def)
  with assms show ?thesis by (simp add: sourced_def replay_stream_def)
qed

lemma apply_events_strip: "apply_events ap a (map strip es) = apply_events ap a es"
proof (induction es arbitrary: a)
  case (Cons e es)
  then show ?case by (cases "ap e a") (simp_all add: apply_strip)
qed simp

lemma replay_sourced:
  assumes "stream_ok hist" and "i \<noteq> []" and "replay_stream ap (init i) hist = Ok a"
  shows "sourced (map strip hist) a" and "ba_id a = i" and "ba_uncommitted a = []"
proof -
  from assms(3) have ne: "hist \<noteq> []" and run: "apply_events ap (init i) hist = Ok a"
    by (auto simp: replay_stream_def split: if_splits)
  from apply_events_frame [OF run] init_base [of i] ne
  have "ba_id a = i" "ba_stype a = stype" "ba_uncommitted a = []" "ba_version a = ev_version (last hist)"
    by auto
  with stream_ok_last [OF assms(1) ne] run assms(2)
  show "sourced (map strip hist) a" "ba_id a = i" "ba_uncommitted a = []"
    by (simp_all add: sourced_def apply_events_strip with_uncommitted_def)
qed

lemma replay_version:
  "stream_ok hist \<Longrightarrow> replay_stream ap (init i) hist = Ok a \<Longrightarrow>
     hist \<noteq> [] \<and> ba_version a = int (length hist)"
  using apply_events_frame [of "init i" hist a] stream_ok_last [of hist]
  by (auto simp: replay_stream_def split: if_splits)

text \<open>Saving to the SQLite log and loading again gives the aggregate back.\<close>

lemma load_replay:
  assumes "store_inv db" and "load_events None db sid = Ok loaded"
  shows "apply_events ap a loaded = apply_events ap a (history db sid)"
    and "loaded = [] \<longleftrightarrow> history db sid = []"
proof -
  have l: "loaded = stream_rows (sq_events db) sid"
    using assms by (simp add: load_events_def read_tx_def store_inv_def log_ok_stream)
  show "apply_events ap a loaded = apply_events ap a (history db sid)"
    by (simp add: l history_def apply_events_strip)
  show "loaded = [] \<longleftrightarrow> history db sid = []" by (simp add: l history_def)
qed

lemma save_load:
  assumes "store_inv db" and "sourced (history db (ba_id a)) a"
    and "append_events fault db (ba_id a) (expected_version a) (ba_uncommitted a) = (Ok (), db')"
    and "history db' (ba_id a) \<noteq> []" and "load_events None db' (ba_id a) = Ok loaded"
  shows "replay_stream ap (init (ba_id a)) loaded = Ok (clear_uncommitted a)"
proof -
  have inv: "store_inv db'" using append_events_inv [OF assms(1)] assms(3) by (metis snd_conv)
  have h: "history db' (ba_id a) = history db (ba_id a) @ map strip (ba_uncommitted a)"
    using append_events_ok(1) [OF assms(1), of fault "ba_id a" "expected_version a" "ba_uncommitted a"]
      assms(3) by simp
  have "apply_events ap (init (ba_id a)) (history db' (ba_id a)) =
      apply_events ap (init (ba_id a)) (history db (ba_id a) @ ba_uncommitted a)"
    by (simp add: h apply_events_append apply_events_strip)
  then show ?thesis
    using assms(2,4) load_replay(1) [OF inv assms(5), of "init (ba_id a)"]
      load_replay(2) [OF inv assms(5)]
    by (simp add: replay_stream_def sourced_def clear_uncommitted_with)
qed

lemma sourced_strip: "sourced (h @ us) a \<Longrightarrow> sourced (h @ map strip us) a"
  by (simp add: sourced_def apply_events_append apply_events_strip bind_res_def split: sum.splits)

text \<open>An append of a sourced aggregate's events with new identifiers succeeds.\<close>

lemma sourced_append:
  assumes "store_inv db" and "sourced (history db (ba_id a)) a"
    and "\<forall>e\<in>set (history db (ba_id a)). ev_stype e = stype" and "distinct (map ev_id (ba_uncommitted a))"
    and "ev_id ` set (ba_uncommitted a) \<inter> log_ids (history db) = {}"
  shows "fst (append_events None db (ba_id a) (expected_version a) (ba_uncommitted a)) = Ok ()"
proof (cases "ba_uncommitted a")
  case Nil
  then show ?thesis by (simp add: append_events_def)
next
  case (Cons e es)
  let ?b = "\<lparr>sa_stream = ba_id a, sa_expected = expected_version a, sa_events = ba_uncommitted a\<rparr>"
  note valid = sourced_valid_batch [OF assms(2)]
  have e: "ev_stype e = stype" using assms(2) Cons by (auto simp: sourced_def split: if_splits)
  have "spec_append (history db) ?b = Ok ((history db)(ba_id a := history db (ba_id a) @ map strip (ba_uncommitted a)))"
    using valid(2) assms(3-5) Cons e hd_in_set [of "history db (ba_id a)"] by (auto simp: spec_append_def Let_def)
  with append_batch_spec [OF assms(1), of "[?b]"] valid(1) Cons show ?thesis
    by (simp add: spec_append_batch_def validate_append_def append_events_def)
qed

end

end
