(* ===== verification/Artist_Aggregate.thy ===== *)
theory Artist_Aggregate
  imports Aggregate_Contract
begin

text \<open>
  The artist aggregate (\<^verbatim>\<open>internal/domain/artist/aggregate.go\<close>, \<^verbatim>\<open>events.go\<close>) and its snapshots
  (\<^verbatim>\<open>snapshot.go\<close>). The clock of a command and the stamp of its event are arguments; an optional
  correlation is a list.
\<close>

section \<open>Events\<close>

definition ev_artist_created :: string where "ev_artist_created = ''ArtistCreated''"
definition ev_listeners_scraped :: string where
  "ev_listeners_scraped = ''ArtistMonthlyListenersScraped''"
definition ev_artist_status :: string where "ev_artist_status = ''ArtistStatusChanged''"
definition ev_fetch_status :: string where "ev_fetch_status = ''ArtistFetchStatusChanged''"
definition ev_collection_songs :: string where
  "ev_collection_songs = ''ArtistCollectionSongsAdjusted''"

lemmas artist_event_types = ev_artist_created_def ev_listeners_scraped_def ev_artist_status_def
  ev_fetch_status_def ev_collection_songs_def

record artist_created =
  ac_id :: string
  ac_name :: string
  ac_spotify :: string
  ac_genre :: string
  ac_list :: string

definition enc_artist_created :: "artist_created \<Rightarrow> json" where
  "enc_artist_created p =
     JObj [(''id'', JStr (ac_id p)), (''name'', JStr (ac_name p)), (''spotify_id'', JStr (ac_spotify p)),
           (''genre_group'', JStr (ac_genre p)), (''list_status'', JStr (ac_list p))]"

definition dec_artist_created :: "json \<Rightarrow> artist_created option" where
  "dec_artist_created j =
     do { m \<leftarrow> dec_obj j; i \<leftarrow> dec_str (jfield m ''id''); n \<leftarrow> dec_str (jfield m ''name'');
          s \<leftarrow> dec_str (jfield m ''spotify_id''); g \<leftarrow> dec_str (jfield m ''genre_group'');
          l \<leftarrow> dec_str (jfield m ''list_status'');
          Some \<lparr>ac_id = i, ac_name = n, ac_spotify = s, ac_genre = g, ac_list = l\<rparr> }"

record listeners_scraped =
  ls_artist :: string
  ls_listeners :: int
  ls_previous :: int
  ls_delta :: int
  ls_provider :: string
  ls_duration :: int
  ls_at :: time

definition enc_listeners_scraped :: "listeners_scraped \<Rightarrow> json" where
  "enc_listeners_scraped p =
     JObj [(''artist_id'', JStr (ls_artist p)), (''monthly_listeners'', JInt (ls_listeners p)),
           (''previous_listeners'', JInt (ls_previous p)), (''delta'', JInt (ls_delta p)),
           (''provider'', JStr (ls_provider p)), (''duration_ms'', JInt (ls_duration p)),
           (''scraped_at'', ron_time (ls_at p))]"

definition dec_listeners_scraped :: "json \<Rightarrow> listeners_scraped option" where
  "dec_listeners_scraped j =
     do { m \<leftarrow> dec_obj j; a \<leftarrow> dec_str (jfield m ''artist_id'');
          l \<leftarrow> dec_int (jfield m ''monthly_listeners''); p \<leftarrow> dec_int (jfield m ''previous_listeners'');
          d \<leftarrow> dec_int (jfield m ''delta''); pr \<leftarrow> dec_str (jfield m ''provider'');
          du \<leftarrow> dec_int (jfield m ''duration_ms''); t \<leftarrow> dec_time (jfield m ''scraped_at'');
          Some \<lparr>ls_artist = a, ls_listeners = l, ls_previous = p, ls_delta = d, ls_provider = pr,
                ls_duration = du, ls_at = t\<rparr> }"

record artist_status_changed =
  asc_artist :: string
  asc_old :: string
  asc_new :: string
  asc_reason :: string

definition enc_artist_status :: "artist_status_changed \<Rightarrow> json" where
  "enc_artist_status p =
     JObj ((''artist_id'', JStr (asc_artist p)) # (''old_status'', JStr (asc_old p)) #
           (''new_status'', JStr (asc_new p)) # omit_str ''reason'' (asc_reason p))"

definition dec_artist_status :: "json \<Rightarrow> artist_status_changed option" where
  "dec_artist_status j =
     do { m \<leftarrow> dec_obj j; a \<leftarrow> dec_str (jfield m ''artist_id''); old \<leftarrow> dec_str (jfield m ''old_status'');
          new \<leftarrow> dec_str (jfield m ''new_status''); r \<leftarrow> dec_str (jfield m ''reason'');
          Some \<lparr>asc_artist = a, asc_old = old, asc_new = new, asc_reason = r\<rparr> }"

record fetch_status_changed =
  fsc_artist :: string
  fsc_status :: string
  fsc_error :: string

definition enc_fetch_status :: "fetch_status_changed \<Rightarrow> json" where
  "enc_fetch_status p =
     JObj ((''artist_id'', JStr (fsc_artist p)) # (''fetch_status'', JStr (fsc_status p)) #
           omit_str ''error'' (fsc_error p))"

definition dec_fetch_status :: "json \<Rightarrow> fetch_status_changed option" where
  "dec_fetch_status j =
     do { m \<leftarrow> dec_obj j; a \<leftarrow> dec_str (jfield m ''artist_id'');
          s \<leftarrow> dec_str (jfield m ''fetch_status''); e \<leftarrow> dec_str (jfield m ''error'');
          Some \<lparr>fsc_artist = a, fsc_status = s, fsc_error = e\<rparr> }"

record collection_songs_adjusted =
  csa_artist :: string
  csa_collection :: int
  csa_total :: int

definition enc_collection_songs :: "collection_songs_adjusted \<Rightarrow> json" where
  "enc_collection_songs p =
     JObj [(''artist_id'', JStr (csa_artist p)), (''collection_songs'', JInt (csa_collection p)),
           (''total_songs'', JInt (csa_total p))]"

definition dec_collection_songs :: "json \<Rightarrow> collection_songs_adjusted option" where
  "dec_collection_songs j =
     do { m \<leftarrow> dec_obj j; a \<leftarrow> dec_str (jfield m ''artist_id'');
          c \<leftarrow> dec_int (jfield m ''collection_songs''); t \<leftarrow> dec_int (jfield m ''total_songs'');
          Some \<lparr>csa_artist = a, csa_collection = c, csa_total = t\<rparr> }"

section \<open>The aggregate\<close>

record artist = base_agg +
  ar_name :: string
  ar_spotify :: string
  ar_listeners :: int
  ar_genre :: string
  ar_list :: string
  ar_fetch :: string
  ar_collection :: int
  ar_total :: int
  ar_updated :: time
  ar_created :: time
  ar_last_request :: string
  ar_last_meta :: encoded
  ar_recorded :: "string list"

definition stream_type_artist :: string where "stream_type_artist = ''artist''"

definition empty_artist :: "string \<Rightarrow> artist" where
  "empty_artist i =
     \<lparr>ba_id = i, ba_stype = stream_type_artist, ba_version = 0, ba_uncommitted = [],
      ar_name = [], ar_spotify = [], ar_listeners = 0, ar_genre = [], ar_list = [], ar_fetch = [],
      ar_collection = 0, ar_total = 0, ar_updated = zero_time, ar_created = zero_time,
      ar_last_request = [], ar_last_meta = NoBytes, ar_recorded = []\<rparr>"

definition recorded_limit :: nat where "recorded_limit = 64"

definition record_listener_request :: "string \<Rightarrow> string list \<Rightarrow> string list" where
  "record_listener_request r ids =
     (if r \<in> set ids then ids
      else (let ids' = ids @ [r] in drop (length ids' - recorded_limit) ids'))"

definition artist_apply :: "event \<Rightarrow> artist \<Rightarrow> artist res" where
  "artist_apply e a0 =
     (let a = a0\<lparr>ba_version := ev_version e\<rparr>; et = ev_type e in
      if et = ev_artist_created then
        bind_res (wrap_err ''unmarshaling'' (decode_event dec_artist_created e)) (\<lambda>pl.
          Ok (a\<lparr>ar_name := ac_name pl, ar_spotify := ac_spotify pl, ar_genre := ac_genre pl,
                ar_list := ac_list pl, ar_fetch := ''idle'', ar_created := ev_at e,
                ar_updated := ev_at e\<rparr>))
      else if et = ev_listeners_scraped then
        bind_res (wrap_err ''unmarshaling'' (decode_event dec_listeners_scraped e)) (\<lambda>pl.
          let r = event_request_id (ev_meta e) in
          Ok (a\<lparr>ar_listeners := ls_listeners pl, ar_fetch := ''idle'', ar_updated := ls_at pl,
                ar_last_meta := ev_meta e, ar_last_request := [],
                ar_recorded := (if r \<noteq> [] then record_listener_request r (ar_recorded a)
                                else ar_recorded a)\<rparr>))
      else if et = ev_artist_status then
        bind_res (wrap_err ''unmarshaling'' (decode_event dec_artist_status e)) (\<lambda>pl.
          Ok (a\<lparr>ar_list := asc_new pl\<rparr>))
      else if et = ev_fetch_status then
        bind_res (wrap_err ''unmarshaling'' (decode_event dec_fetch_status e)) (\<lambda>pl.
          Ok (a\<lparr>ar_fetch := fsc_status pl\<rparr>))
      else if et = ev_collection_songs then
        bind_res (wrap_err ''unmarshaling'' (decode_event dec_collection_songs e)) (\<lambda>pl.
          Ok (a\<lparr>ar_collection := csa_collection pl, ar_total := csa_total pl\<rparr>))
      else Ok a)"

definition artist_replay :: "string \<Rightarrow> event list \<Rightarrow> artist res" where
  "artist_replay i = replay_stream artist_apply (empty_artist i)"

section \<open>Commands\<close>

definition list_statuses :: "string list" where
  "list_statuses = [''included'', ''recently_added'', ''not_added'', ''waiting'']"

definition fetch_statuses :: "string list" where
  "fetch_statuses = [''idle'', ''pending'', ''failed'']"

definition correlated :: "correlation list \<Rightarrow> (string \<times> json) list option \<Rightarrow> meta_arg" where
  "correlated corr base = MetaMap (correlation_metadata (first_correlation corr) base)"

definition new_artist ::
    "stamp \<Rightarrow> string \<Rightarrow> string \<Rightarrow> string \<Rightarrow> string \<Rightarrow> string \<Rightarrow> artist res" where
  "new_artist st i name spotify genre list_status =
     (let name = trim_space name;
          genre = (if genre \<noteq> ''rock_metal'' \<and> genre \<noteq> ''everything_else'' then ''everything_else''
                   else genre)
      in if name = [] then Fail (Sentinel ErrEmptyArtistName)
         else if list_status \<noteq> [] \<and> list_status \<notin> set list_statuses
         then Fail (Sentinel ErrInvalidListStatus)
         else raise_event artist_apply st ev_artist_created
                (enc_artist_created
                   \<lparr>ac_id = i, ac_name = name, ac_spotify = trim_space spotify, ac_genre = genre,
                    ac_list = (if list_status = [] then ''waiting'' else list_status)\<rparr>)
                MetaNil (empty_artist i))"

definition record_monthly_listeners ::
    "time \<Rightarrow> stamp \<Rightarrow> int \<Rightarrow> string \<Rightarrow> int \<Rightarrow> correlation list \<Rightarrow> artist \<Rightarrow> artist res" where
  "record_monthly_listeners now st listeners provider duration corr a =
     (let delta = wrap64 (listeners - ar_listeners a)
      in raise_event artist_apply st ev_listeners_scraped
           (enc_listeners_scraped
              \<lparr>ls_artist = ba_id a, ls_listeners = listeners, ls_previous = ar_listeners a,
               ls_delta = delta, ls_provider = provider, ls_duration = duration, ls_at = now\<rparr>)
           (correlated corr (Some [(''provider'', JStr provider), (''delta'', JInt delta)])) a)"

definition change_list_status ::
    "stamp \<Rightarrow> string \<Rightarrow> string \<Rightarrow> correlation list \<Rightarrow> artist \<Rightarrow> artist res" where
  "change_list_status st new reason corr a =
     (if new \<notin> set list_statuses then Fail (Sentinel ErrInvalidListStatus)
      else if ar_list a = new then Ok a
      else raise_event artist_apply st ev_artist_status
             (enc_artist_status \<lparr>asc_artist = ba_id a, asc_old = ar_list a, asc_new = new,
                                 asc_reason = reason\<rparr>)
             (correlated corr None) a)"

definition set_fetch_status ::
    "stamp \<Rightarrow> string \<Rightarrow> string \<Rightarrow> correlation list \<Rightarrow> artist \<Rightarrow> artist res" where
  "set_fetch_status st status err corr a =
     (if status \<notin> set fetch_statuses then Fail (Sentinel ErrInvalidFetchStatus)
      else if ar_fetch a = status then Ok a
      else raise_event artist_apply st ev_fetch_status
             (enc_fetch_status \<lparr>fsc_artist = ba_id a, fsc_status = status, fsc_error = err\<rparr>)
             (correlated corr None) a)"

definition adjust_collection_songs ::
    "stamp \<Rightarrow> int \<Rightarrow> int \<Rightarrow> correlation list \<Rightarrow> artist \<Rightarrow> artist res" where
  "adjust_collection_songs st collection tot corr a =
     (if ar_collection a = collection \<and> ar_total a = tot then Ok a
      else raise_event artist_apply st ev_collection_songs
             (enc_collection_songs \<lparr>csa_artist = ba_id a, csa_collection = collection, csa_total = tot\<rparr>)
             (correlated corr None) a)"

text \<open>\<^verbatim>\<open>lastListenersRequestID\<close> decodes the stored metadata once and forgets it.\<close>

definition last_listeners_request :: "artist \<Rightarrow> string \<times> artist" where
  "last_listeners_request a =
     (let a' = (if ar_last_request a = [] \<and> ar_last_meta a \<noteq> NoBytes
                then a\<lparr>ar_last_request := event_request_id (ar_last_meta a), ar_last_meta := NoBytes\<rparr>
                else a)
      in (ar_last_request a', a'))"

definition has_recorded_listeners :: "string \<Rightarrow> artist \<Rightarrow> bool \<times> artist" where
  "has_recorded_listeners request a =
     (let r = trim_space request
      in if r = [] then (False, a)
         else if r \<in> set (ar_recorded a) then (True, a)
         else (let (l, a') = last_listeners_request a in (l = r, a')))"

end
