(* ===== verification/Artist_Facts.thy ===== *)
theory Artist_Facts
  imports Artist_Aggregate
begin

text \<open>
  Correctness of the artist aggregate: it keeps the contract of an event-sourced aggregate, each
  command has the effect its name says, and the window of remembered requests recognises
  redelivered scrapes.
\<close>

section \<open>Payloads\<close>

lemma dec_enc_artist [simp]:
  "dec_artist_created (normalize_ron_time (enc_artist_created c)) = Some c"
  "in_int64 (ls_listeners l) \<Longrightarrow> in_int64 (ls_previous l) \<Longrightarrow> in_int64 (ls_delta l) \<Longrightarrow>
     in_int64 (ls_duration l) \<Longrightarrow>
     dec_listeners_scraped (normalize_ron_time (enc_listeners_scraped l)) = Some l"
  "dec_artist_status (normalize_ron_time (enc_artist_status s)) = Some s"
  "dec_fetch_status (normalize_ron_time (enc_fetch_status f)) = Some f"
  "in_int64 (csa_collection a) \<Longrightarrow> in_int64 (csa_total a) \<Longrightarrow>
     dec_collection_songs (normalize_ron_time (enc_collection_songs a)) = Some a"
  by (simp_all add: enc_artist_created_def dec_artist_created_def enc_listeners_scraped_def
      dec_listeners_scraped_def enc_artist_status_def dec_artist_status_def enc_fetch_status_def
      dec_fetch_status_def enc_collection_songs_def dec_collection_songs_def utc_key_def)

section \<open>The contract\<close>

lemma artist_apply_frame:
  "artist_apply e a = Ok a' \<Longrightarrow> ba_id a' = ba_id a \<and> ba_stype a' = ba_stype a
     \<and> ba_uncommitted a' = ba_uncommitted a \<and> ba_version a' = ev_version e"
  by (auto simp: artist_apply_def Let_def bind_res_eq_Inr split: if_splits)

lemma artist_apply_commutes:
  "artist_apply e (with_uncommitted us a) =
     bind_res (artist_apply e a) (\<lambda>b. Ok (with_uncommitted us b))"
  by (cases a) (simp add: artist_apply_def with_uncommitted_def Let_def bind_res_assoc cong: if_cong)

lemma artist_apply_version [simp]: "artist_apply e (a\<lparr>ba_version := v\<rparr>) = artist_apply e a"
  by (simp add: artist_apply_def Let_def cong: if_cong)

lemma artist_apply_strip [simp]: "artist_apply (strip e) a = artist_apply e a"
  by (simp add: artist_apply_def Let_def cong: if_cong)

interpretation artist: aggregate artist_apply empty_artist stream_type_artist
  by unfold_locales
    (auto simp: artist_apply_frame artist_apply_commutes empty_artist_def stream_type_artist_def)

text \<open>The commands as steps; the clocks, stamps and correlations are free.\<close>

inductive artist_command :: "artist \<Rightarrow> artist \<Rightarrow> bool" where
  cmd_listeners: "record_monthly_listeners now st n p d corr a = Ok a' \<Longrightarrow> artist_command a a'"
| cmd_list: "change_list_status st new reason corr a = Ok a' \<Longrightarrow> artist_command a a'"
| cmd_fetch: "set_fetch_status st status err corr a = Ok a' \<Longrightarrow> artist_command a a'"
| cmd_songs: "adjust_collection_songs st c t corr a = Ok a' \<Longrightarrow> artist_command a a'"

lemma artist_command_sourced:
  "artist_command a a' \<Longrightarrow> artist.sourced hist a \<Longrightarrow> artist.sourced hist a'"
  by (induction rule: artist_command.induct)
    (auto simp: record_monthly_listeners_def change_list_status_def set_fetch_status_def
      adjust_collection_songs_def Let_def artist_event_types intro: artist.sourced_raise split: if_splits)

lemma artist_commands_sourced:
  assumes "artist_command\<^sup>*\<^sup>* a a'" and "artist.sourced hist a"
  shows "artist.sourced hist a'"
  using assms by (induction rule: rtranclp_induct) (auto intro: artist_command_sourced)

lemma raise_event_id: "raise_event artist_apply st et payload md a = Ok a' \<Longrightarrow> ba_id a' = ba_id a"
  by (auto simp: raise_event_def record_that_def Let_def dest: artist_apply_frame)

lemma artist_commands_id: "artist_command\<^sup>*\<^sup>* a a' \<Longrightarrow> ba_id a' = ba_id a"
proof (induction rule: rtranclp_induct)
  case (step b c)
  from step(2) have "ba_id c = ba_id b"
    by cases (auto simp: record_monthly_listeners_def change_list_status_def set_fetch_status_def
        adjust_collection_songs_def Let_def dest: raise_event_id split: if_splits)
  with step(3) show ?case by simp
qed simp

lemma new_artist_sourced:
  "new_artist st i name sp g l = Ok a \<Longrightarrow> i \<noteq> [] \<Longrightarrow> artist.sourced [] a"
  by (auto simp: new_artist_def Let_def artist_event_types
      intro: artist.sourced_raise [OF artist.sourced_init] split: if_splits)

section \<open>What the commands do\<close>

definition artist_ints :: "artist \<Rightarrow> bool" where
  "artist_ints a \<longleftrightarrow> in_int64 (ar_listeners a) \<and> in_int64 (ar_collection a) \<and> in_int64 (ar_total a)"

lemma plain_correlated [simp]:
  "plain_meta (correlated corr None)"
  "plain_meta (correlated corr (Some [(''provider'', p), (''delta'', d)]))"
  by (auto simp: correlated_def schema_version_key_def intro!: plain_correlation)

lemma record_that_event:
  "raise_event ap st et pl md a =
     ap (new_event st (ba_id a) (ba_stype a) (ba_version a + 1) et pl md)
       (a\<lparr>ba_version := ba_version a + 1,
         ba_uncommitted := ba_uncommitted a @ [new_event st (ba_id a) (ba_stype a) (ba_version a + 1) et pl md]\<rparr>)"
  by (simp add: raise_event_def record_that_def Let_def)

lemma request_of_scrape:
  "event_request_id (ev_meta (new_event st sid sty v et pl
      (correlated corr (Some [(''provider'', p), (''delta'', d)])))) =
     trim_space (co_request (first_correlation corr))"
  unfolding correlated_def
  by (rule request_of_new_event) (simp_all add: map_entries_def schema_version_key_def)

lemma record_monthly_listeners_ok:
  assumes "artist_ints a" and "in_int64 n" and "in_int64 d"
  shows "\<exists>a'. record_monthly_listeners now st n p d corr a = Ok a'
    \<and> ar_listeners a' = n \<and> ar_fetch a' = ''idle'' \<and> ar_updated a' = now
    \<and> ar_list a' = ar_list a \<and> ar_name a' = ar_name a
    \<and> ba_version a' = ba_version a + 1 \<and> length (ba_uncommitted a') = length (ba_uncommitted a) + 1
    \<and> ar_recorded a' = (let r = trim_space (co_request (first_correlation corr))
                        in if r = [] then ar_recorded a else record_listener_request r (ar_recorded a))"
  using assms wrap64_in_range request_of_scrape
  by (simp add: record_monthly_listeners_def record_that_event artist_apply_def Let_def decode_new_event
      artist_event_types artist_ints_def del: new_event_simps(8))

section \<open>The window of remembered requests\<close>

lemma record_listener_request_bound:
  "length ids \<le> recorded_limit \<Longrightarrow> length (record_listener_request r ids) \<le> recorded_limit"
  by (auto simp: record_listener_request_def Let_def)

lemma record_listener_request_in: "r \<in> set (record_listener_request r ids)"
  by (auto simp: record_listener_request_def Let_def recorded_limit_def)

lemma record_listener_request_distinct:
  "distinct ids \<Longrightarrow> distinct (record_listener_request r ids)"
  using distinct_drop [of "ids @ [r]"] by (simp add: record_listener_request_def Let_def del: drop_append)

text \<open>
  A request at distance \<open>d\<close> from the end of the window is still there after \<open>limit - d - 1\<close> more
  requests, whichever they are.
\<close>

lemma record_listener_request_keeps:
  assumes "ids = xs @ r # ys" and "length ys < recorded_limit - 1"
  shows "\<exists>xs' ys'. record_listener_request q ids = xs' @ r # ys' \<and> length ys' \<le> Suc (length ys)"
proof (cases "q \<in> set ids")
  case True
  with assms show ?thesis
    by (intro exI [of _ xs] exI [of _ ys]) (simp add: record_listener_request_def)
next
  case False
  let ?n = "length (ids @ [q]) - recorded_limit"
  have "?n \<le> length xs" using assms by (simp add: recorded_limit_def)
  then have "record_listener_request q ids = drop ?n xs @ r # ys @ [q]"
    using assms(1) False by (simp add: record_listener_request_def Let_def)
  then show ?thesis by (intro exI conjI) (assumption, simp)
qed

lemma window_keeps:
  assumes "ids = xs @ r # ys" and "length ys + length qs < recorded_limit"
  shows "r \<in> set (foldl (\<lambda>ids q. record_listener_request q ids) ids qs)"
  using assms
proof (induction qs arbitrary: ids xs ys)
  case (Cons q qs)
  then have "length ys < recorded_limit - 1" by simp
  from record_listener_request_keeps [OF Cons.prems(1) this, of q]
  obtain xs' ys' where "record_listener_request q ids = xs' @ r # ys'" "length ys' \<le> Suc (length ys)"
    by blast
  with Cons.IH [of _ xs' ys'] Cons.prems(2) show ?case by simp
qed simp

end
