(* ===== verification/Append_Retry.thy ===== *)
theory Append_Retry
  imports Sqlite_Log
begin

text \<open>
  \<^verbatim>\<open>AppendWithRetry\<close> (\<^verbatim>\<open>internal/eventsourcing/append_retry.go\<close>) over the \<^verbatim>\<open>Store\<close> interface. The
  interface is the locale \<open>event_store\<close>: what a client may rely on while other writers are at
  work; \<open>exclusive_store\<close> adds what holds when nobody else writes to the stream. Both are
  interpreted on the SQLite store run under a script of database failures and foreign writes.
\<close>

section \<open>The retry loop\<close>

definition append_retry_attempts :: nat where "append_retry_attempts = 5"

definition max_version :: "event list \<Rightarrow> int" where
  "max_version es = foldl (\<lambda>m e. max m (ev_version e)) 0 es"

definition present_prefix :: "event list \<Rightarrow> event list \<Rightarrow> nat" where
  "present_prefix loaded remaining =
     length (takeWhile (\<lambda>e. ev_id e \<in> ev_id ` set loaded) remaining)"

type_synonym 's append_op = "'s \<Rightarrow> string \<Rightarrow> int \<Rightarrow> event list \<Rightarrow> unit res \<times> 's"
type_synonym 's load_op = "'s \<Rightarrow> string \<Rightarrow> event list res \<times> 's"

text \<open>
  The loop after some attempts: \<open>prev\<close> is \<^verbatim>\<open>lastErr\<close>, \<open>ctx_err\<close> the error of a finished context.
\<close>

fun append_retry_loop ::
    "'s append_op \<Rightarrow> 's load_op \<Rightarrow> ('s \<Rightarrow> gerr option) \<Rightarrow> string \<Rightarrow> nat \<Rightarrow> gerr option
     \<Rightarrow> 's \<Rightarrow> int \<Rightarrow> event list \<Rightarrow> unit res \<times> 's" where
  "append_retry_loop app load ctx_err sid 0 prev s base remaining =
     ((case prev of None \<Rightarrow> Ok () | Some err \<Rightarrow> Fail err), s)"
| "append_retry_loop app load ctx_err sid (Suc n) prev s base remaining =
     (case app s sid base remaining of
        (Inr u, s1) \<Rightarrow> (Ok (), s1)
      | (Inl err, s1) \<Rightarrow>
          if \<not> errors_is ErrConcurrencyConflict err \<and> \<not> errors_is ErrAppendIndeterminate err
          then (Fail err, s1)
          else (case ctx_err s1 of
                  Some cerr \<Rightarrow> (Fail (Errorf ''reconciling'' [err, cerr]), s1)
                | None \<Rightarrow>
                    (case load s1 sid of
                       (Inl lerr, s2) \<Rightarrow> (Fail (Errorf ''reconciling'' [err, lerr]), s2)
                     | (Inr loaded, s2) \<Rightarrow>
                         let tip = max_version loaded; h = present_prefix loaded remaining
                         in if h = length remaining then (Ok (), s2)
                            else if h = 0 then
                              (if tip \<noteq> base
                               then (Fail (Errorf ''stream advanced''
                                       [Sentinel ErrConcurrencyConflict, err]), s2)
                               else append_retry_loop app load ctx_err sid n (Some err) s2
                                      base remaining)
                            else if ev_version (remaining ! h) \<noteq> tip + 1
                            then (Fail (Errorf ''tail does not fit''
                                    [Sentinel ErrConcurrencyConflict, err]), s2)
                            else append_retry_loop app load ctx_err sid n (Some err) s2
                                   tip (drop h remaining))))"

definition append_with_retry ::
    "'s append_op \<Rightarrow> 's load_op \<Rightarrow> ('s \<Rightarrow> gerr option) \<Rightarrow> 's \<Rightarrow> string \<Rightarrow> int \<Rightarrow> event list
     \<Rightarrow> unit res \<times> 's" where
  "append_with_retry app load ctx_err s sid expected es =
     (if es = [] then (Ok (), s)
      else append_retry_loop app load ctx_err sid append_retry_attempts None s expected es)"

text \<open>How one attempt can end.\<close>

lemma append_retry_attempt:
  assumes a: "app s sid base remaining = (r1, s1)" and l: "load s1 sid = (l, s2)"
    and run: "append_retry_loop app load ctx_err sid (Suc n) prev s base remaining = (r, s')"
  obtains (ok) "r1 = Ok ()" "r = Ok ()" "s' = s1"
    | (stop) "r \<noteq> Ok ()" "r1 \<noteq> Ok ()" "s' = s1"
    | (unread) "r \<noteq> Ok ()" "r1 \<noteq> Ok ()" "s' = s2"
    | (all) loaded where "r1 \<noteq> Ok ()" "l = Ok loaded"
        "present_prefix loaded remaining = length remaining" "s' = s2"
    | (again) err loaded where "r1 \<noteq> Ok ()" "l = Ok loaded" "present_prefix loaded remaining = 0"
        "remaining \<noteq> []" "max_version loaded = base"
        "append_retry_loop app load ctx_err sid n (Some err) s2 base remaining = (r, s')"
    | (tail) err loaded where "r1 \<noteq> Ok ()" "l = Ok loaded"
        "append_retry_loop app load ctx_err sid n (Some err) s2 (max_version loaded)
           (drop (present_prefix loaded remaining) remaining) = (r, s')"
proof (cases r1)
  case (Inr u)
  with run a have "r = Ok ()" "s' = s1" by simp_all
  with Inr show thesis by (intro ok) simp_all
next
  case (Inl err)
  then have r1: "r1 \<noteq> Ok ()" by simp
  show thesis
  proof (cases "(errors_is ErrConcurrencyConflict err \<or> errors_is ErrAppendIndeterminate err)
      \<and> ctx_err s1 = None")
    case False
    with run a Inl have "r \<noteq> Ok ()" "s' = s1" by (auto split: if_splits option.splits)
    with r1 show thesis by (intro stop) simp_all
  next
    case True
    show thesis
    proof (cases l)
      case (Inl lerr)
      with run a True \<open>r1 = Inl err\<close> l have "r \<noteq> Ok ()" "s' = s2" by auto
      with r1 show thesis by (intro unread) simp_all
    next
      case (Inr loaded)
      let ?h = "present_prefix loaded remaining" and ?tip = "max_version loaded"
      from run a True \<open>r1 = Inl err\<close> l Inr have go: "(if ?h = length remaining then (Ok (), s2)
        else if ?h = 0 then
          (if ?tip \<noteq> base then (Fail (Errorf ''stream advanced'' [Sentinel ErrConcurrencyConflict, err]), s2)
           else append_retry_loop app load ctx_err sid n (Some err) s2 base remaining)
        else if ev_version (remaining ! ?h) \<noteq> ?tip + 1
        then (Fail (Errorf ''tail does not fit'' [Sentinel ErrConcurrencyConflict, err]), s2)
        else append_retry_loop app load ctx_err sid n (Some err) s2 ?tip (drop ?h remaining)) = (r, s')"
        by (auto simp: Let_def simp del: errors_is.simps)
      consider "?h = length remaining" | "?h \<noteq> length remaining" "?h = 0" "?tip \<noteq> base"
        | "?h \<noteq> length remaining" "?h = 0" "?tip = base"
        | "?h \<noteq> length remaining" "?h \<noteq> 0" "ev_version (remaining ! ?h) \<noteq> ?tip + 1"
        | "?h \<noteq> length remaining" "?h \<noteq> 0" "ev_version (remaining ! ?h) = ?tip + 1" by blast
      then show thesis
      proof cases
        case 1 with go r1 Inr show thesis by (intro all) auto
      next
        case 2 with go r1 show thesis by (intro unread) auto
      next
        case 3 with go r1 Inr show thesis by (intro again [of loaded err]) auto
      next
        case 4 with go r1 show thesis by (intro unread) auto
      next
        case 5 with go r1 Inr show thesis by (intro tail [of loaded err]) auto
      qed
    qed
  qed
qed

section \<open>The Store interface\<close>

locale event_store =
  fixes app :: "'s append_op"
    and load :: "'s load_op"
    and stored :: "'s \<Rightarrow> string \<Rightarrow> event list"
    and inv :: "'s \<Rightarrow> bool"
  assumes append_inv: "inv s \<Longrightarrow> inv (snd (app s sid v es))"
    and append_grows: "inv s \<Longrightarrow> prefix (stored s sid) (stored (snd (app s sid v es)) sid)"
    and append_ok: "inv s \<Longrightarrow> fst (app s sid v es) = Ok () \<Longrightarrow>
          ev_id ` set es \<subseteq> ev_id ` set (stored (snd (app s sid v es)) sid)"
    and load_inv: "inv s \<Longrightarrow> inv (snd (load s sid))"
    and load_grows: "inv s \<Longrightarrow> prefix (stored s sid) (stored (snd (load s sid)) sid)"
    and load_ok: "inv s \<Longrightarrow> fst (load s sid) = Ok loaded \<Longrightarrow>
          map strip loaded = stored (snd (load s sid)) sid"
begin

lemma prefix_ids: "prefix xs ys \<Longrightarrow> ev_id ` set xs \<subseteq> ev_id ` set ys"
  by (auto dest: set_mono_prefix)

lemma loaded_ids:
  assumes "inv s" and "fst (load s sid) = Ok loaded"
  shows "ev_id ` set loaded = ev_id ` set (stored (snd (load s sid)) sid)"
proof -
  have "map ev_id (map strip loaded) = map ev_id loaded" by (simp add: comp_def)
  then show ?thesis using load_ok [OF assms] by (metis list.set_map)
qed

lemma present_prefix_le: "present_prefix loaded es \<le> length es"
  by (simp add: present_prefix_def length_takeWhile_le)

lemma present_prefix_ids:
  "ev_id ` set (take (present_prefix loaded es) es) \<subseteq> ev_id ` set loaded"
  by (auto simp: present_prefix_def takeWhile_eq_take [symmetric] dest: set_takeWhileD)

lemma retry_loop_present:
  assumes "inv s" and "n \<noteq> 0 \<or> prev \<noteq> None"
    and "append_retry_loop app load ctx_err sid n prev s base remaining = (r, s')"
  shows "inv s' \<and> prefix (stored s sid) (stored s' sid)
    \<and> (r = Ok () \<longrightarrow> ev_id ` set remaining \<subseteq> ev_id ` set (stored s' sid))"
  using assms
proof (induction n arbitrary: prev s base remaining)
  case 0
  then show ?case by (auto split: option.splits)
next
  case (Suc n)
  obtain r1 s1 where a: "app s sid base remaining = (r1, s1)" by (cases "app s sid base remaining")
  have i1: "inv s1" and g1: "prefix (stored s sid) (stored s1 sid)"
    and k1: "r1 = Ok () \<Longrightarrow> ev_id ` set remaining \<subseteq> ev_id ` set (stored s1 sid)"
    using append_inv [OF Suc.prems(1), of sid base remaining]
      append_grows [OF Suc.prems(1), of sid base remaining]
      append_ok [OF Suc.prems(1), of sid base remaining] a by simp_all
  obtain l s2 where l: "load s1 sid = (l, s2)" by (cases "load s1 sid")
  have i2: "inv s2" and g2: "prefix (stored s sid) (stored s2 sid)"
    using load_inv [OF i1, of sid] load_grows [OF i1, of sid] l g1 by (auto intro: prefix_order.trans)
  from a l Suc.prems(3) show ?case
  proof (cases rule: append_retry_attempt)
    case ok
    with i1 g1 k1 show ?thesis by simp
  next
    case (all loaded)
    with present_prefix_ids [of loaded remaining] loaded_ids [OF i1, of sid loaded] l i2 g2
    show ?thesis by auto
  next
    case (again err loaded)
    from Suc.IH [OF i2 _ again(6)] g2 show ?thesis by (auto intro: prefix_order.trans)
  next
    case (tail err loaded)
    let ?h = "present_prefix loaded remaining"
    from Suc.IH [OF i2 _ tail(3)] g2 have IH: "inv s'" "prefix (stored s sid) (stored s' sid)"
      "prefix (stored s2 sid) (stored s' sid)"
      "r = Ok () \<Longrightarrow> ev_id ` set (drop ?h remaining) \<subseteq> ev_id ` set (stored s' sid)"
      by (auto intro: prefix_order.trans)
    have "ev_id ` set (take ?h remaining) \<subseteq> ev_id ` set (stored s' sid)"
      using present_prefix_ids [of loaded remaining] loaded_ids [OF i1, of sid loaded] l tail(2)
        prefix_ids [OF IH(3)] by auto
    moreover have "set remaining = set (take ?h remaining) \<union> set (drop ?h remaining)"
      by (metis append_take_drop_id set_append)
    ultimately show ?thesis using IH by auto
  qed (use i1 g1 i2 g2 in auto)
qed

text \<open>Success means that every event of the batch is in the stream, whoever else writes to it.\<close>

lemma retry_present:
  assumes "inv s" and "append_with_retry app load ctx_err s sid v es = (Ok (), s')"
  shows "ev_id ` set es \<subseteq> ev_id ` set (stored s' sid)" and "prefix (stored s sid) (stored s' sid)"
  using assms retry_loop_present [OF assms(1), of append_retry_attempts None ctx_err sid v es "Ok ()" s']
  by (auto simp: append_with_retry_def append_retry_attempts_def split: if_splits)

end

text \<open>
  A store nobody else writes to: an append adds a prefix of its events, all of them on success,
  a read adds nothing, and streams are well formed.
\<close>

locale exclusive_store = event_store +
  assumes append_prefix: "inv s \<Longrightarrow>
          \<exists>k. stored (snd (app s sid v es)) sid = stored s sid @ map strip (take k es)"
    and append_full: "inv s \<Longrightarrow> fst (app s sid v es) = Ok () \<Longrightarrow>
          stored (snd (app s sid v es)) sid = stored s sid @ map strip es"
    and load_frame: "inv s \<Longrightarrow> stored (snd (load s sid)) sid = stored s sid"
begin

lemma fresh_prefix:
  assumes ids: "ev_id ` set loaded = ev_id ` set (h @ map strip (take k es))"
    and fresh: "ev_id ` set es \<inter> ev_id ` set h = {}" and dist: "distinct (map ev_id es)"
  shows "present_prefix loaded es = min k (length es)"
proof -
  let ?P = "\<lambda>e. ev_id e \<in> ev_id ` set loaded"
  have loaded: "ev_id ` set loaded = ev_id ` set h \<union> ev_id ` set (take k es)"
    using ids by (simp add: image_Un image_image)
  have "takeWhile ?P (drop k es) = []"
  proof (cases "drop k es")
    case (Cons x xs)
    then have "x \<in> set es" by (metis in_set_dropD list.set_intros(1))
    moreover from dist have "distinct (map ev_id (take k es @ drop k es))" by simp
    then have "ev_id x \<notin> ev_id ` set (take k es)" unfolding Cons by auto
    ultimately have "\<not> ?P x" using fresh loaded by blast
    with Cons show ?thesis by simp
  qed simp
  then have "takeWhile ?P (take k es @ drop k es) = take k es"
    by (subst takeWhile_append2) (use loaded in auto)
  then show ?thesis by (simp add: present_prefix_def min.commute)
qed

lemma disjoint_grow:
  "A \<inter> T = {} \<Longrightarrow> S2 = S \<union> T \<Longrightarrow> A \<subseteq> E \<Longrightarrow> E \<inter> S = {} \<Longrightarrow> A \<inter> S2 = {}"
  by blast

lemma retry_loop_exact:
  assumes "inv s" and "n \<noteq> 0 \<or> prev \<noteq> None"
    and "ev_id ` set es \<inter> ev_id ` set (stored s sid) = {}" and "distinct (map ev_id es)"
    and "append_retry_loop app load ctx_err sid n prev s base es = (r, s')"
  shows "\<exists>k. stored s' sid = stored s sid @ map strip (take k es) \<and> (r = Ok () \<longrightarrow> length es \<le> k)"
  using assms
proof (induction n arbitrary: prev s base es)
  case 0
  then show ?case by (auto intro: exI [of _ 0] split: option.splits)
next
  case (Suc n)
  obtain r1 s1 where a: "app s sid base es = (r1, s1)" by (cases "app s sid base es")
  obtain l s2 where l: "load s1 sid = (l, s2)" by (cases "load s1 sid")
  have i1: "inv s1" using append_inv [OF Suc.prems(1), of sid base es] a by simp
  have i2: "inv s2" using load_inv [OF i1, of sid] l by simp
  obtain k where k: "stored s1 sid = stored s sid @ map strip (take k es)"
    using append_prefix [OF Suc.prems(1), of sid base es] a by auto
  have k2: "stored s2 sid = stored s sid @ map strip (take k es)"
    using load_frame [OF i1, of sid] l k by simp
  have seen: "present_prefix loaded es = min k (length es)" if "l = Ok loaded" for loaded
    using loaded_ids [OF i1, of sid loaded] l that k2 Suc.prems(3,4)
    by (intro fresh_prefix [of loaded "stored s sid"]) simp_all
  from a l Suc.prems(5) show ?case
  proof (cases rule: append_retry_attempt)
    case ok
    with append_full [OF Suc.prems(1), of sid base es] a
    show ?thesis by (auto intro!: exI [of _ "length es"])
  next
    case (all loaded)
    with seen k2 show ?thesis by (auto intro!: exI [of _ k])
  next
    case (again err loaded)
    with seen [OF again(2)] have "k = 0" by (simp add: min_def split: if_splits)
    with k2 have "stored s2 sid = stored s sid" by simp
    with Suc.IH [OF i2 _ _ Suc.prems(4) again(6)] Suc.prems(3) show ?thesis by simp
  next
    case (tail err loaded)
    let ?h = "present_prefix loaded es"
    have th: "take k es = take ?h es" using seen [OF tail(2)] by (simp add: min_def)
    have "ev_id ` set (drop ?h es) \<inter> ev_id ` set (take ?h es) = {}"
      using Suc.prems(4) by (metis append_take_drop_id distinct_append inf.commute list.set_map map_append)
    moreover have "ev_id ` set (stored s2 sid) = ev_id ` set (stored s sid) \<union> ev_id ` set (take ?h es)"
      unfolding k2 th by (simp add: image_Un image_image)
    moreover have "ev_id ` set (drop ?h es) \<subseteq> ev_id ` set es"
      using set_drop_subset [of ?h es] by (rule image_mono)
    ultimately have "ev_id ` set (drop ?h es) \<inter> ev_id ` set (stored s2 sid) = {}"
      using Suc.prems(3) by (rule disjoint_grow)
    moreover have "distinct (map ev_id (drop ?h es))"
      using Suc.prems(4) by (metis distinct_drop drop_map)
    ultimately obtain j where j: "stored s' sid = stored s2 sid @ map strip (take j (drop ?h es))"
      "r = Ok () \<longrightarrow> length (drop ?h es) \<le> j"
      using Suc.IH [OF i2 _ _ _ tail(3)] by auto
    then have "stored s' sid = stored s sid @ map strip (take (?h + j) es)"
      using k2 th by (simp add: take_add)
    with j(2) show ?thesis by (intro exI [of _ "?h + j"]) auto
  qed (use k k2 in auto)
qed

text \<open>
  Nobody else writing, the events of a batch that is new to the stream end up in it in order and
  exactly once when the call reports success, and a prefix of them when it does not.
\<close>

lemma retry_exact:
  assumes "inv s" and "ev_id ` set es \<inter> ev_id ` set (stored s sid) = {}"
    and "distinct (map ev_id es)" and "append_with_retry app load ctx_err s sid v es = (r, s')"
  shows "\<exists>k. stored s' sid = stored s sid @ map strip (take k es) \<and> (r = Ok () \<longrightarrow> length es \<le> k)"
  using assms retry_loop_exact [OF assms(1) _ assms(2,3), of append_retry_attempts None ctx_err v r s']
  by (auto simp: append_with_retry_def append_retry_attempts_def split: if_splits)

end

section \<open>The SQLite store under failures and contention\<close>

text \<open>
  The script says what happens at each call of the store: the batches other writers commit just
  before it, and the failure of the database the call runs into.
\<close>

record world =
  wd_db :: sqlite
  wd_script :: "(stream_append list \<times> fault) list"

definition world_turn :: "world \<Rightarrow> (sqlite \<times> fault) \<times> world" where
  "world_turn w =
     (case wd_script w of
        [] \<Rightarrow> ((wd_db w, None), w)
      | (foreign, fault) # rest \<Rightarrow>
          ((snd (append_batch None (wd_db w) foreign), fault), w\<lparr>wd_script := rest\<rparr>))"

definition sqlite_append :: "world append_op" where
  "sqlite_append w sid v es =
     (let ((db, fault), w1) = world_turn w; (r, db') = append_events fault db sid v es
      in (r, w1\<lparr>wd_db := db'\<rparr>))"

definition sqlite_load :: "world load_op" where
  "sqlite_load w sid =
     (let ((db, fault), w1) = world_turn w in (load_events fault db sid, w1\<lparr>wd_db := db\<rparr>))"

definition world_history :: "world \<Rightarrow> string \<Rightarrow> event list" where
  "world_history w = history (wd_db w)"

definition world_inv :: "world \<Rightarrow> bool" where "world_inv w \<longleftrightarrow> store_inv (wd_db w)"

definition solo_inv :: "world \<Rightarrow> bool" where
  "solo_inv w \<longleftrightarrow> world_inv w \<and> (\<forall>t\<in>set (wd_script w). fst t = [])"

lemma history_prefix:
  "\<exists>new. sq_events db' = sq_events db @ new \<Longrightarrow> prefix (history db sid) (history db' sid)"
  by (auto simp: history_def)

lemma world_turn_db:
  assumes "world_inv w" and "world_turn w = ((db, fault), w1)"
  shows "store_inv db" and "prefix (world_history w sid) (history db sid)"
  using assms append_batch_inv [of "wd_db w" None] append_batch_extends [of "wd_db w" None]
  by (auto simp: world_turn_def world_inv_def world_history_def split: list.splits
      intro: history_prefix)

lemma load_events_history:
  "store_inv db \<Longrightarrow> load_events fault db sid = Ok loaded \<Longrightarrow> map strip loaded = history db sid"
  by (cases fault) (auto simp: load_events_def read_tx_def history_def store_inv_def log_ok_def)

interpretation shared: event_store sqlite_append sqlite_load world_history world_inv
proof
  fix w sid v es loaded
  assume inv: "world_inv w"
  obtain db fault w1 where t: "world_turn w = ((db, fault), w1)" by (metis prod.collapse)
  note db = world_turn_db [OF inv t]
  have app: "sqlite_append w sid v es = (fst (append_events fault db sid v es),
      w1\<lparr>wd_db := snd (append_events fault db sid v es)\<rparr>)"
    by (simp add: sqlite_append_def t case_prod_beta)
  have ld: "sqlite_load w sid = (load_events fault db sid, w1\<lparr>wd_db := db\<rparr>)"
    by (simp add: sqlite_load_def t)
  show "world_inv (snd (sqlite_append w sid v es))"
    using append_events_inv [OF db(1)] by (simp add: app world_inv_def)
  show "prefix (world_history w sid) (world_history (snd (sqlite_append w sid v es)) sid)"
    using prefix_order.trans [OF db(2) history_prefix [OF append_events_extends [OF db(1)]]]
    by (simp add: app world_history_def)
  show "world_inv (snd (sqlite_load w sid))"
    using db(1) by (simp add: ld world_inv_def)
  show "prefix (world_history w sid) (world_history (snd (sqlite_load w sid)) sid)"
    using db(2) by (simp add: ld world_history_def)
  show "map strip loaded = world_history (snd (sqlite_load w sid)) sid"
    if "fst (sqlite_load w sid) = Ok loaded"
    using that load_events_history [OF db(1)] by (simp add: ld world_history_def)
  show "ev_id ` set es \<subseteq> ev_id ` set (world_history (snd (sqlite_append w sid v es)) sid)"
    if "fst (sqlite_append w sid v es) = Ok ()"
    using that append_events_ok(1) [OF db(1), of fault sid v es]
    by (auto simp: app world_history_def image_Un image_image)
qed

interpretation solo: exclusive_store sqlite_append sqlite_load world_history solo_inv
proof
  fix w sid v es loaded
  assume solo: "solo_inv w"
  then have inv: "world_inv w" by (simp add: solo_inv_def)
  obtain db fault w1 where t: "world_turn w = ((db, fault), w1)" by (metis prod.collapse)
  note db = world_turn_db [OF inv t]
  have same: "db = wd_db w" and script: "\<forall>t\<in>set (wd_script w1). fst t = []"
    using solo t by (auto simp: world_turn_def solo_inv_def append_batch_def split: list.splits)
  have app: "sqlite_append w sid v es = (fst (append_events fault db sid v es),
      w1\<lparr>wd_db := snd (append_events fault db sid v es)\<rparr>)"
    by (simp add: sqlite_append_def t case_prod_beta)
  have ld: "sqlite_load w sid = (load_events fault db sid, w1\<lparr>wd_db := db\<rparr>)"
    by (simp add: sqlite_load_def t)
  show "solo_inv (snd (sqlite_append w sid v es))"
    using shared.append_inv [OF inv, of sid v es] script by (simp add: solo_inv_def app)
  show "solo_inv (snd (sqlite_load w sid))"
    using shared.load_inv [OF inv, of sid] script by (simp add: solo_inv_def ld)
  show "prefix (world_history w sid) (world_history (snd (sqlite_append w sid v es)) sid)"
    by (rule shared.append_grows [OF inv])
  show "prefix (world_history w sid) (world_history (snd (sqlite_load w sid)) sid)"
    by (rule shared.load_grows [OF inv])
  show "ev_id ` set es \<subseteq> ev_id ` set (world_history (snd (sqlite_append w sid v es)) sid)"
    if "fst (sqlite_append w sid v es) = Ok ()" by (rule shared.append_ok [OF inv that])
  show "map strip loaded = world_history (snd (sqlite_load w sid)) sid"
    if "fst (sqlite_load w sid) = Ok loaded" by (rule shared.load_ok [OF inv that])
  show full: "world_history (snd (sqlite_append w sid v es)) sid = world_history w sid @ map strip es"
    if "fst (sqlite_append w sid v es) = Ok ()"
    using that append_events_ok(1) [OF db(1), of fault sid v es]
    by (simp add: app world_history_def same)
  show "\<exists>k. world_history (snd (sqlite_append w sid v es)) sid = world_history w sid @ map strip (take k es)"
  proof (cases "fst (sqlite_append w sid v es)")
    case (Inl err)
    then have "snd (append_events fault db sid v es) = db"
      by (auto simp: app append_events_def intro: append_batch_atomic split: if_splits)
    then show ?thesis by (auto simp: app world_history_def same intro: exI [of _ 0])
  next
    case (Inr u)
    with full show ?thesis by (auto intro!: exI [of _ "length es"])
  qed
  show "world_history (snd (sqlite_load w sid)) sid = world_history w sid"
    by (simp add: ld world_history_def same)
qed

section \<open>Properties\<close>

text \<open>
  C4. When \<^verbatim>\<open>AppendWithRetry\<close> reports success, every event of the batch is in the stream and the
  stream has only grown, whatever other writers committed and the database failed in between.
\<close>

theorem retry_success_present:
  assumes "world_inv w"
    and "append_with_retry sqlite_append sqlite_load ctx w sid v es = (Ok (), w')"
  shows "ev_id ` set es \<subseteq> ev_id ` set (world_history w' sid)
    \<and> prefix (world_history w sid) (world_history w' sid)"
  using shared.retry_present [OF assms] by (rule conjI)

definition indeterminate :: gerr where
  "indeterminate = Errorf ''append timed out'' [Sentinel ErrAppendIndeterminate]"

definition troubled_world :: world where
  "troubled_world = \<lparr>wd_db = sample_log, wd_script = [([], Some indeterminate), ([], None)]\<rparr>"

lemma troubled_world_inv: "solo_inv troubled_world" "world_inv troubled_world"
  by (simp_all add: troubled_world_def solo_inv_def world_inv_def sample_log_inv)

definition troubled_retry :: "unit res \<times> world" where
  "troubled_retry =
     append_with_retry sqlite_append sqlite_load (\<lambda>w. None) troubled_world ''ar_1'' 1
       [sample_event ''e2'' 2, sample_event ''e3'' 3]"

lemma troubled_retry_ok: "troubled_retry = (Ok (), snd troubled_retry)"
proof -
  have "fst troubled_retry = Ok ()" by code_simp
  then show ?thesis by (metis prod.collapse)
qed

theorem retry_success_present_witness:
  "{''e2'', ''e3''} \<subseteq> ev_id ` set (world_history (snd troubled_retry) ''ar_1'')"
  using retry_success_present [OF troubled_world_inv(2) troubled_retry_ok [unfolded troubled_retry_def], THEN conjunct1]
  by (simp add: troubled_retry_def sample_event_def)

text \<open>
  C3. When nobody else writes to the stream, \<^verbatim>\<open>AppendWithRetry\<close> adds events at most once and in order:
  what it leaves is the stream followed by a prefix of the batch, and the whole batch on success,
  however many attempts failed in between.
\<close>

theorem retry_exactly_once:
  assumes "solo_inv w" and "ev_id ` set es \<inter> ev_id ` set (world_history w sid) = {}"
    and "distinct (map ev_id es)"
    and "append_with_retry sqlite_append sqlite_load ctx w sid v es = (r, w')"
  shows "\<exists>k. world_history w' sid = world_history w sid @ map strip (take k es)
           \<and> (r = Ok () \<longrightarrow> length es \<le> k)"
  by (rule solo.retry_exact [OF assms])

theorem retry_exactly_once_witness:
  "world_history (snd troubled_retry) ''ar_1'' =
     world_history troubled_world ''ar_1'' @ [sample_event ''e2'' 2, sample_event ''e3'' 3]"
proof -
  let ?es = "[sample_event ''e2'' 2, sample_event ''e3'' 3]"
  have "ev_id ` set ?es \<inter> ev_id ` set (world_history troubled_world ''ar_1'') = {}" "distinct (map ev_id ?es)"
    by code_simp+
  from retry_exactly_once [OF troubled_world_inv(1) this troubled_retry_ok [unfolded troubled_retry_def]]
  show ?thesis by (auto simp: troubled_retry_def sample_event_def)
qed

end
