(* ===== verification/Artist_Repository.thy ===== *)
theory Artist_Repository
  imports Artist_Facts Append_Retry
begin

text \<open>
  The artist repository (\<^verbatim>\<open>internal/domain/artist/repository.go\<close>) and the snapshots it keeps
  (\<^verbatim>\<open>snapshot.go\<close>). A store is a record of operations on a state: the snapshot and batch
  capabilities the code finds by type assertion are optional fields. Best-effort steps change the
  store and report nothing.
\<close>

section \<open>Snapshots\<close>

record artist_snapshot =
  as_schema :: int
  as_name :: string
  as_spotify :: string
  as_listeners :: int
  as_genre :: string
  as_list :: string
  as_fetch :: string
  as_collection :: int
  as_total :: int
  as_updated :: time
  as_created :: time
  as_last_request :: string
  as_recorded :: "string list"

definition enc_artist_snapshot :: "artist_snapshot \<Rightarrow> json" where
  "enc_artist_snapshot s =
     JObj ([(''schema_version'', JInt (as_schema s)), (''name'', JStr (as_name s)),
            (''spotify_id'', JStr (as_spotify s)), (''monthly_listeners'', JInt (as_listeners s)),
            (''genre_group'', JStr (as_genre s)), (''list_status'', JStr (as_list s)),
            (''fetch_status'', JStr (as_fetch s)), (''collection_songs'', JInt (as_collection s)),
            (''total_songs'', JInt (as_total s)), (''last_updated'', JTime (as_updated s)),
            (''created_at'', JTime (as_created s))]
           @ omit_str ''last_listeners_request_id'' (as_last_request s)
           @ (if as_recorded s = [] then []
              else [(''recorded_listener_request_ids'', enc_strs (as_recorded s))]))"

definition dec_artist_snapshot :: "json \<Rightarrow> artist_snapshot option" where
  "dec_artist_snapshot j =
     do { m \<leftarrow> dec_obj j;
          v \<leftarrow> dec_int (jfield m ''schema_version''); n \<leftarrow> dec_str (jfield m ''name'');
          sp \<leftarrow> dec_str (jfield m ''spotify_id''); ml \<leftarrow> dec_int (jfield m ''monthly_listeners'');
          g \<leftarrow> dec_str (jfield m ''genre_group''); l \<leftarrow> dec_str (jfield m ''list_status'');
          f \<leftarrow> dec_str (jfield m ''fetch_status''); c \<leftarrow> dec_int (jfield m ''collection_songs'');
          t \<leftarrow> dec_int (jfield m ''total_songs''); u \<leftarrow> dec_time (jfield m ''last_updated'');
          cr \<leftarrow> dec_time (jfield m ''created_at'');
          r \<leftarrow> dec_str (jfield m ''last_listeners_request_id'');
          rs \<leftarrow> dec_list dec_str (jfield m ''recorded_listener_request_ids'');
          Some \<lparr>as_schema = v, as_name = n, as_spotify = sp, as_listeners = ml, as_genre = g,
                as_list = l, as_fetch = f, as_collection = c, as_total = t, as_updated = u,
                as_created = cr, as_last_request = r, as_recorded = rs\<rparr> }"

definition snapshot_schema_version :: int where "snapshot_schema_version = 4"

text \<open>\<^verbatim>\<open>marshalSnapshot\<close> resolves the last request of the aggregate on the way.\<close>

definition marshal_snapshot :: "artist \<Rightarrow> json \<times> artist" where
  "marshal_snapshot a0 =
     (let (r, a) = last_listeners_request a0
      in (enc_artist_snapshot
            \<lparr>as_schema = snapshot_schema_version, as_name = ar_name a, as_spotify = ar_spotify a,
             as_listeners = ar_listeners a, as_genre = ar_genre a, as_list = ar_list a,
             as_fetch = ar_fetch a, as_collection = ar_collection a, as_total = ar_total a,
             as_updated = ar_updated a, as_created = ar_created a, as_last_request = r,
             as_recorded = ar_recorded a\<rparr>, a))"

definition restore_from_snapshot :: "int \<Rightarrow> encoded \<Rightarrow> artist \<Rightarrow> artist res" where
  "restore_from_snapshot version payload a =
     bind_res (case payload of
                 Encoded j \<Rightarrow> of_opt (Errorf ''unmarshaling artist snapshot'' []) (dec_artist_snapshot j)
               | _ \<Rightarrow> fail_msg ''unmarshaling artist snapshot'')
       (\<lambda>s. if as_schema s \<noteq> snapshot_schema_version
            then Fail (Errorf ''unsupported artist snapshot version'' [Sentinel ErrSnapshotNotFound])
            else Ok (a\<lparr>ar_name := as_name s, ar_spotify := as_spotify s,
                       ar_listeners := as_listeners s, ar_genre := as_genre s, ar_list := as_list s,
                       ar_fetch := as_fetch s, ar_collection := as_collection s,
                       ar_total := as_total s, ar_updated := as_updated s, ar_created := as_created s,
                       ar_last_request := as_last_request s, ar_recorded := as_recorded s,
                       ar_last_meta := NoBytes, ba_version := version\<rparr>))"

section \<open>Stores\<close>

record 's snapshot_ops =
  sp_load :: "'s \<Rightarrow> string \<Rightarrow> snapshot res \<times> 's"
  sp_save :: "'s \<Rightarrow> snapshot \<Rightarrow> unit res \<times> 's"
  sp_after :: "'s \<Rightarrow> string \<Rightarrow> int \<Rightarrow> event list res \<times> 's"

record 's store_ops =
  so_append :: "'s append_op"
  so_load :: "'s load_op"
  so_ctx :: "'s \<Rightarrow> gerr option"
  so_snapshots :: "'s snapshot_ops option"
  so_batch :: "('s \<Rightarrow> stream_append list \<Rightarrow> unit res \<times> 's) option"

definition snapshot_interval :: int where "snapshot_interval = 200"

section \<open>Saving\<close>

definition save_artist_snapshot :: "'s store_ops \<Rightarrow> time \<Rightarrow> 's \<Rightarrow> artist \<Rightarrow> artist \<times> 's" where
  "save_artist_snapshot ops now s a =
     (case so_snapshots ops of
        None \<Rightarrow> (a, s)
      | Some sp \<Rightarrow>
          (let (payload, a') = marshal_snapshot a;
               (_, s') = sp_save sp s
                 \<lparr>sn_stream = ba_id a', sn_stype = stream_type_artist, sn_version = ba_version a',
                  sn_payload = Encoded payload, sn_at = now\<rparr>
           in (a', s')))"

text \<open>Go's \<^verbatim>\<open>/\<close> truncates; both operands are non-negative here.\<close>

definition maybe_snapshot :: "'s store_ops \<Rightarrow> time \<Rightarrow> 's \<Rightarrow> artist \<Rightarrow> int \<Rightarrow> artist \<times> 's" where
  "maybe_snapshot ops now s a committed =
     (if committed \<le> 0 \<or> ba_version a \<le> 0 then (a, s)
      else if ba_version a div snapshot_interval = (ba_version a - committed) div snapshot_interval
      then (a, s)
      else save_artist_snapshot ops now s a)"

definition save_artist ::
    "'s store_ops \<Rightarrow> time \<Rightarrow> 's \<Rightarrow> artist \<Rightarrow> event list res \<times> artist \<times> 's" where
  "save_artist ops now s a =
     (let us = ba_uncommitted a
      in if us = [] then (Ok [], a, s)
         else (case append_with_retry (so_append ops) (so_load ops) (so_ctx ops) s (ba_id a)
                      (expected_version a) us of
                 (Inl err, s1) \<Rightarrow> (Fail (Errorf ''saving artist stream'' [err]), a, s1)
               | (Inr _, s1) \<Rightarrow>
                   (let (a', s2) = maybe_snapshot ops now s1 (clear_uncommitted a) (int (length us))
                    in (Ok us, a', s2))))"

text \<open>
  \<^verbatim>\<open>SaveBatch\<close>; the fallback saves the aggregates concurrently, here in the order of the list. The
  first element of the result is the first error.
\<close>

fun save_each ::
    "'s store_ops \<Rightarrow> time \<Rightarrow> 's \<Rightarrow> artist list \<Rightarrow> unit res \<times> artist list \<times> 's" where
  "save_each ops now s [] = (Ok (), [], s)"
| "save_each ops now s (a # as) =
     (case so_ctx ops s of
        Some err \<Rightarrow> (Fail (Errorf ''saving artist batch'' [err]), a # as, s)
      | None \<Rightarrow>
          (let (r, a', s1) = save_artist ops now s a; (rs, as', s2) = save_each ops now s1 as
           in ((case r of Inl err \<Rightarrow> Fail err | Inr _ \<Rightarrow> rs), a' # as', s2)))"

fun committed_each :: "'s store_ops \<Rightarrow> time \<Rightarrow> 's \<Rightarrow> artist list \<Rightarrow> artist list \<times> 's" where
  "committed_each ops now s [] = ([], s)"
| "committed_each ops now s (a # as) =
     (let (a', s1) = maybe_snapshot ops now s (clear_uncommitted a) (int (length (ba_uncommitted a)));
          (as', s2) = committed_each ops now s1 as
      in (a' # as', s2))"

definition save_batch ::
    "'s store_ops \<Rightarrow> time \<Rightarrow> 's \<Rightarrow> artist list \<Rightarrow> unit res \<times> artist list \<times> 's" where
  "save_batch ops now s aggs =
     (let dirty = filter (\<lambda>a. ba_uncommitted a \<noteq> []) aggs
      in if dirty = [] then (Ok (), [], s)
         else (case so_batch ops of
                 None \<Rightarrow> save_each ops now s dirty
               | Some batch \<Rightarrow>
                   (case batch s (map (\<lambda>a. \<lparr>sa_stream = ba_id a, sa_expected = expected_version a,
                                            sa_events = ba_uncommitted a\<rparr>) dirty) of
                      (Inr _, s1) \<Rightarrow>
                        (let (as', s2) = committed_each ops now s1 dirty in (Ok (), as', s2))
                    | (Inl _, s1) \<Rightarrow> save_each ops now s1 dirty)))"

section \<open>Loading\<close>

definition apply_tail :: "artist \<Rightarrow> event list \<Rightarrow> artist res" where
  "apply_tail a es = fold_res (\<lambda>a e. wrap_err ''applying artist tail'' (artist_apply e a)) a es"

definition load_from_snapshot :: "'s snapshot_ops \<Rightarrow> 's \<Rightarrow> string \<Rightarrow> artist res \<times> 's" where
  "load_from_snapshot sp s i =
     (case sp_load sp s i of
        (Inl err, s1) \<Rightarrow>
          (if errors_is ErrSnapshotNotFound err then (Fail err, s1)
           else (Fail (Errorf ''loading artist snapshot'' [err]), s1))
      | (Inr snap, s1) \<Rightarrow>
          if sn_stype snap \<noteq> [] \<and> sn_stype snap \<noteq> stream_type_artist
          then (fail_msg ''snapshot has another type'', s1)
          else (case restore_from_snapshot (sn_version snap) (sn_payload snap) (empty_artist i) of
                  Inl err \<Rightarrow> (Fail err, s1)
                | Inr a \<Rightarrow>
                    (case sp_after sp s1 i (sn_version snap) of
                       (Inl err, s2) \<Rightarrow> (Fail (Errorf ''loading artist tail'' [err]), s2)
                     | (Inr tail, s2) \<Rightarrow> (apply_tail a tail, s2))))"

text \<open>The part of \<^verbatim>\<open>Load\<close> after the snapshot path, which may heal a missing snapshot.\<close>

definition load_in_full :: "'s store_ops \<Rightarrow> time \<Rightarrow> bool \<Rightarrow> 's \<Rightarrow> string \<Rightarrow> artist res \<times> 's" where
  "load_in_full ops now missing s i =
     (case so_load ops s i of
        (Inl err, s1) \<Rightarrow> (Fail (Errorf ''loading artist stream'' [err]), s1)
      | (Inr events, s1) \<Rightarrow>
          (case artist_replay i events of
             Inl err \<Rightarrow> (Fail err, s1)
           | Inr a \<Rightarrow>
               if missing \<and> snapshot_interval \<le> ba_version a
               then (let (a', s2) = save_artist_snapshot ops now s1 a in (Ok a', s2))
               else (Ok a, s1)))"

definition load_artist :: "'s store_ops \<Rightarrow> time \<Rightarrow> 's \<Rightarrow> string \<Rightarrow> artist res \<times> 's" where
  "load_artist ops now s i =
     (case so_snapshots ops of
        None \<Rightarrow> load_in_full ops now False s i
      | Some sp \<Rightarrow>
          (case load_from_snapshot sp s i of
             (Inr a, s1) \<Rightarrow> (Ok a, s1)
           | (Inl err, s1) \<Rightarrow> load_in_full ops now (errors_is ErrSnapshotNotFound err) s1 i))"

end
