(* ===== verification/Artist_Snapshots.thy ===== *)
theory Artist_Snapshots
  imports Artist_Repository
begin

text \<open>
  Snapshots are only an optimisation: an artist loaded from a snapshot and the events after it is
  the artist a full replay gives, up to the request of the last scrape, which a snapshot stores
  decoded and a replay decodes on demand.
\<close>

section \<open>The resolved aggregate\<close>

definition resolved :: "artist \<Rightarrow> artist" where
  "resolved a = snd (last_listeners_request a)"

definition request_once :: "artist \<Rightarrow> bool" where
  "request_once a \<longleftrightarrow> (ar_last_request a = [] \<or> ar_last_meta a = NoBytes)"

lemma resolved_frame [simp]:
  "ba_id (resolved a) = ba_id a" "ba_version (resolved a) = ba_version a"
  "ba_stype (resolved a) = ba_stype a" "ba_uncommitted (resolved a) = ba_uncommitted a"
  "ar_name (resolved a) = ar_name a" "ar_listeners (resolved a) = ar_listeners a"
  "ar_list (resolved a) = ar_list a" "ar_fetch (resolved a) = ar_fetch a"
  "ar_recorded (resolved a) = ar_recorded a"
  by (simp_all add: resolved_def last_listeners_request_def Let_def)

lemma resolved_idem [simp]: "resolved (resolved a) = resolved a"
  by (simp add: resolved_def last_listeners_request_def Let_def)

lemma resolved_meta: "request_once a \<Longrightarrow> ar_last_meta (resolved a) = NoBytes"
  by (auto simp: resolved_def last_listeners_request_def Let_def request_once_def)

text \<open>Resolved aggregates answer every question the same way.\<close>

lemma resolved_same_answer:
  assumes "resolved a = resolved b"
  shows "fst (has_recorded_listeners r a) = fst (has_recorded_listeners r b)"
proof -
  have "fst (has_recorded_listeners r x) =
      (trim_space r \<noteq> [] \<and> (trim_space r \<in> set (ar_recorded (resolved x))
         \<or> ar_last_request (resolved x) = trim_space r))" for x
    by (auto simp: has_recorded_listeners_def Let_def resolved_def last_listeners_request_def)
  with assms show ?thesis by metis
qed

lemma artist_apply_ints:
  "artist_apply e a = Ok a' \<Longrightarrow> artist_ints a \<Longrightarrow> artist_ints a'"
proof -
  have int: "dec_int j = Some n \<Longrightarrow> in_int64 n" for j n
    by (cases j) (auto simp: in_int64_def split: if_splits)
  have l: "dec_listeners_scraped j = Some p \<Longrightarrow> in_int64 (ls_listeners p)" for j p
    by (auto simp: dec_listeners_scraped_def dest: int split: bind_splits)
  have c: "dec_collection_songs j = Some p \<Longrightarrow> in_int64 (csa_collection p) \<and> in_int64 (csa_total p)" for j p
    by (auto simp: dec_collection_songs_def dest: int split: bind_splits)
  have dl: "decode_event dec_listeners_scraped e = Ok p \<Longrightarrow> in_int64 (ls_listeners p)" for p
    by (auto dest!: decode_event_reads l)
  have dc: "decode_event dec_collection_songs e = Ok p \<Longrightarrow> in_int64 (csa_collection p) \<and> in_int64 (csa_total p)" for p
    by (auto dest!: decode_event_reads c)
  show "artist_apply e a = Ok a' \<Longrightarrow> artist_ints a \<Longrightarrow> artist_ints a'"
    by (auto simp: artist_apply_def Let_def bind_res_eq_Inr artist_ints_def dest: dl dc split: if_splits)
qed

lemma artist_apply_once:
  "artist_apply e a = Ok a' \<Longrightarrow> request_once a \<Longrightarrow> request_once a'"
  by (auto simp: artist_apply_def Let_def bind_res_eq_Inr request_once_def split: if_splits)

lemma artist_apply_resolved:
  "bind_res (artist_apply e (resolved a)) (\<lambda>b. Ok (resolved b)) =
     bind_res (artist_apply e a) (\<lambda>b. Ok (resolved b))"
  by (cases a) (simp add: artist_apply_def resolved_def last_listeners_request_def Let_def
      bind_res_assoc artist_event_types cong: if_cong)

lemma apply_events_resolved:
  "bind_res (apply_events artist_apply (resolved a) es) (\<lambda>b. Ok (resolved b)) =
     bind_res (apply_events artist_apply a es) (\<lambda>b. Ok (resolved b))"
proof (induction es arbitrary: a)
  case (Cons e es)
  have step: "bind_res (apply_events artist_apply x es) (\<lambda>b. Ok (resolved b)) =
      bind_res (apply_events artist_apply y es) (\<lambda>b. Ok (resolved b))" if "resolved x = resolved y" for x y
    using Cons [of x] Cons [of y] that by simp
  note eq = artist_apply_resolved [of e a]
  show ?case
  proof (cases "artist_apply e a")
    case (Inl err)
    then have "artist_apply e (resolved a) = Inl err"
      using eq by (cases "artist_apply e (resolved a)") auto
    with Inl show ?thesis by simp
  next
    case (Inr x)
    then obtain y where "artist_apply e (resolved a) = Ok y" "resolved y = resolved x"
      using eq by (cases "artist_apply e (resolved a)") auto
    with Inr step [of y x] show ?thesis by simp
  qed
qed simp

lemma apply_events_keep:
  assumes "apply_events artist_apply a es = Ok a'"
  shows "artist_ints a \<Longrightarrow> artist_ints a'" and "request_once a \<Longrightarrow> request_once a'"
  using assms
  by (induction es arbitrary: a) (auto simp: bind_res_eq_Inr dest: artist_apply_ints artist_apply_once)

lemma replay_keep:
  assumes "artist_replay i es = Ok a"
  shows "artist_ints a" and "request_once a" and "ba_id a = i" and "ba_uncommitted a = []"
    and "ba_stype a = stream_type_artist"
proof -
  from assms have run: "apply_events artist_apply (empty_artist i) es = Ok a"
    by (simp add: artist_replay_def replay_stream_def split: if_splits)
  show "artist_ints a" "request_once a"
    using apply_events_keep [OF run] by (simp_all add: empty_artist_def artist_ints_def request_once_def in_int64_def)
  show "ba_id a = i" "ba_uncommitted a = []" "ba_stype a = stream_type_artist"
    using artist.apply_events_frame [OF run] by (simp_all add: empty_artist_def)
qed

section \<open>Snapshots round-trip\<close>

lemma dec_enc_artist_snapshot [simp]:
  "in_int64 (as_schema s) \<Longrightarrow> in_int64 (as_listeners s) \<Longrightarrow> in_int64 (as_collection s) \<Longrightarrow>
     in_int64 (as_total s) \<Longrightarrow> dec_artist_snapshot (enc_artist_snapshot s) = Some s"
  by (simp add: enc_artist_snapshot_def dec_artist_snapshot_def)

lemma restore_marshal:
  assumes "artist_ints a" and "request_once a" and "ba_stype a = stream_type_artist"
    and "ba_uncommitted a = []"
  shows "restore_from_snapshot (ba_version a) (Encoded (fst (marshal_snapshot a))) (empty_artist (ba_id a)) =
           Ok (resolved a)"
  using assms
  by (cases a) (auto simp: restore_from_snapshot_def marshal_snapshot_def resolved_def case_prod_beta
      last_listeners_request_def Let_def artist_ints_def request_once_def snapshot_schema_version_def
      in_int64_def empty_artist_def)

text \<open>A stored snapshot is sound: it restores what replaying its prefix of the stream gives.\<close>

definition snapshot_sound :: "event list \<Rightarrow> string \<Rightarrow> snapshot \<Rightarrow> bool" where
  "snapshot_sound hist i snap \<longleftrightarrow>
     sn_stype snap = stream_type_artist \<and> 1 \<le> sn_version snap \<and> sn_version snap \<le> int (length hist)
   \<and> (\<exists>b. artist_replay i (take (nat (sn_version snap)) hist) = Ok b
        \<and> restore_from_snapshot (sn_version snap) (sn_payload snap) (empty_artist i) = Ok (resolved b))"

definition snapshots_sound :: "sqlite \<Rightarrow> bool" where
  "snapshots_sound db \<longleftrightarrow>
     (\<forall>i snap. map_of (sq_snapshots db) i = Some snap \<longrightarrow> snapshot_sound (history db i) i snap)"

lemma snapshot_sound_grows: "snapshot_sound hist i snap \<Longrightarrow> snapshot_sound (hist @ new) i snap"
  by (auto simp: snapshot_sound_def nat_le_iff)

lemma apply_tail_eq: "apply_tail a es = Ok b \<longleftrightarrow> apply_events artist_apply a es = Ok b"
  by (induction es arbitrary: a) (auto simp: apply_tail_def bind_res_eq_Inr)

text \<open>Snapshot and tail against full replay, on a stream of the log.\<close>

lemma snapshot_tail:
  assumes "snapshot_sound hist i snap" and "artist_replay i hist = Ok b"
    and "restore_from_snapshot (sn_version snap) (sn_payload snap) (empty_artist i) = Ok a"
  shows "\<exists>c. apply_events artist_apply a (drop (nat (sn_version snap)) hist) = Ok c \<and> resolved c = resolved b"
proof -
  let ?n = "nat (sn_version snap)"
  from assms(1,3) obtain p where p: "artist_replay i (take ?n hist) = Ok p" "a = resolved p"
    by (auto simp: snapshot_sound_def)
  from assms(1) have n: "0 < ?n" "?n \<le> length hist" by (auto simp: snapshot_sound_def)
  from assms(2) have "apply_events artist_apply (empty_artist i) (take ?n hist @ drop ?n hist) = Ok b"
    by (simp add: artist_replay_def replay_stream_def split: if_splits)
  moreover from p(1) have "apply_events artist_apply (empty_artist i) (take ?n hist) = Ok p"
    by (simp add: artist_replay_def replay_stream_def split: if_splits)
  ultimately have "apply_events artist_apply p (drop ?n hist) = Ok b"
    by (simp add: apply_events_append del: append_take_drop_id)
  with apply_events_resolved [of p "drop ?n hist"] p(2) show ?thesis
    by (auto simp: bind_res_eq_Inr)
qed

section \<open>The repository over SQLite\<close>

definition sqlite_load_snapshot :: "world \<Rightarrow> string \<Rightarrow> snapshot res \<times> world" where
  "sqlite_load_snapshot w i =
     (let ((db, fault), w1) = world_turn w in (load_snapshot fault db i, w1\<lparr>wd_db := db\<rparr>))"

definition sqlite_save_snapshot :: "time \<Rightarrow> world \<Rightarrow> snapshot \<Rightarrow> unit res \<times> world" where
  "sqlite_save_snapshot now w snap =
     (let ((db, fault), w1) = world_turn w; (r, db') = save_snapshot fault now db snap
      in (r, w1\<lparr>wd_db := db'\<rparr>))"

definition sqlite_load_after :: "world \<Rightarrow> string \<Rightarrow> int \<Rightarrow> event list res \<times> world" where
  "sqlite_load_after w i v =
     (let ((db, fault), w1) = world_turn w in (load_after fault db i v, w1\<lparr>wd_db := db\<rparr>))"

definition sqlite_batch :: "world \<Rightarrow> stream_append list \<Rightarrow> unit res \<times> world" where
  "sqlite_batch w bs =
     (let ((db, fault), w1) = world_turn w; (r, db') = append_batch fault db bs
      in (r, w1\<lparr>wd_db := db'\<rparr>))"

definition sqlite_ops :: "time \<Rightarrow> (world \<Rightarrow> gerr option) \<Rightarrow> world store_ops" where
  "sqlite_ops now ctx =
     \<lparr>so_append = sqlite_append, so_load = sqlite_load, so_ctx = ctx,
      so_snapshots = Some \<lparr>sp_load = sqlite_load_snapshot, sp_save = sqlite_save_snapshot now,
                           sp_after = sqlite_load_after\<rparr>,
      so_batch = Some sqlite_batch\<rparr>"

lemma sqlite_ops_simps [simp]:
  "so_append (sqlite_ops now ctx) = sqlite_append" "so_load (sqlite_ops now ctx) = sqlite_load"
  "so_ctx (sqlite_ops now ctx) = ctx"
  "so_snapshots (sqlite_ops now ctx) = Some \<lparr>sp_load = sqlite_load_snapshot,
     sp_save = sqlite_save_snapshot now, sp_after = sqlite_load_after\<rparr>"
  by (simp_all add: sqlite_ops_def)

lemma solo_turn:
  assumes "solo_inv w"
  obtains fault w1 where "world_turn w = ((wd_db w, fault), w1)" "wd_db w1 = wd_db w"
    "\<And>db. store_inv db \<Longrightarrow> solo_inv (w1\<lparr>wd_db := db\<rparr>)" "wd_script w = [] \<Longrightarrow> fault = None"
    "wd_script w = [] \<Longrightarrow> wd_script w1 = []"
  using assms
  by (cases "wd_script w")
    (auto simp: world_turn_def solo_inv_def world_inv_def append_batch_def split: prod.splits)

lemma load_after_history:
  assumes "store_inv db" and "0 \<le> v"
  shows "load_after None db i v = Ok (drop (nat v) (history db i))"
proof -
  have ok: "stream_ok (stream_rows (sq_events db) i)"
    using assms(1) by (simp add: store_inv_def log_ok_stream)
  have "stream_ok es \<Longrightarrow> sort_key ev_version (drop n es) = drop n es" for es n
    by (metis sort_key_id_if_sorted sorted_wrt_drop stream_ok_sorted drop_map)
  with ok show ?thesis
    using stream_ok_filter_after [OF ok assms(2)]
    by (simp add: load_after_def read_tx_def history_def drop_map)
qed

lemma load_snapshot_path:
  assumes "solo_inv w" and "snapshots_sound (wd_db w)" and "artist_replay i (history (wd_db w) i) = Ok b"
    and "load_from_snapshot \<lparr>sp_load = sqlite_load_snapshot, sp_save = sqlite_save_snapshot now,
           sp_after = sqlite_load_after\<rparr> w i = (r, w')"
  shows "solo_inv w' \<and> wd_db w' = wd_db w \<and> (\<forall>a. r = Ok a \<longrightarrow> resolved a = resolved b)"
    and "wd_script w = [] \<Longrightarrow> wd_script w' = []"
proof -
  obtain f w1 where t: "world_turn w = ((wd_db w, f), w1)" "wd_db w1 = wd_db w"
    "\<And>db. store_inv db \<Longrightarrow> solo_inv (w1\<lparr>wd_db := db\<rparr>)" "wd_script w = [] \<Longrightarrow> wd_script w1 = []"
    using solo_turn [OF assms(1)] by metis
  let ?db = "wd_db w" and ?w1 = "w1\<lparr>wd_db := wd_db w\<rparr>"
  have inv: "store_inv ?db" using assms(1) by (simp add: solo_inv_def world_inv_def)
  have w1: "solo_inv ?w1" using t(3) inv by simp
  obtain g w2 where t2: "world_turn ?w1 = ((?db, g), w2)"
    "\<And>db. store_inv db \<Longrightarrow> solo_inv (w2\<lparr>wd_db := db\<rparr>)" "wd_script ?w1 = [] \<Longrightarrow> wd_script w2 = []"
    using solo_turn [OF w1] by (metis world.select_convs(1) world.surjective world.update_convs(1))
  have w2: "solo_inv (w2\<lparr>wd_db := ?db\<rparr>)" using t2(2) inv by simp
  have sound: "resolved a = resolved b"
    if "load_snapshot f ?db i = Ok snap" "load_after g ?db i (sn_version snap) = Ok tail"
      "restore_from_snapshot (sn_version snap) (sn_payload snap) (empty_artist i) = Ok x"
      "apply_tail x tail = Ok a" for snap tail x a
  proof -
    from that(1) have "map_of (sq_snapshots ?db) i = Some snap"
      by (cases f) (auto simp: load_snapshot_def read_tx_def)
    with assms(2) have ok: "snapshot_sound (history ?db i) i snap" by (simp add: snapshots_sound_def)
    then have "0 \<le> sn_version snap" by (simp add: snapshot_sound_def)
    with that(2) have "tail = drop (nat (sn_version snap)) (history ?db i)"
      using load_after_history [OF inv] by (cases g) (auto simp: load_after_def read_tx_def)
    with snapshot_tail [OF ok assms(3) that(3)] that(4) show ?thesis by (simp add: apply_tail_eq)
  qed
  have "(r, w') = load_from_snapshot \<lparr>sp_load = sqlite_load_snapshot,
      sp_save = sqlite_save_snapshot now, sp_after = sqlite_load_after\<rparr> w i" using assms(4) by simp
  also have "\<dots> = (case load_snapshot f ?db i of
      Inl err \<Rightarrow> (if errors_is ErrSnapshotNotFound err then Fail err
                  else Fail (Errorf ''loading artist snapshot'' [err]), ?w1)
    | Inr snap \<Rightarrow>
        if sn_stype snap \<noteq> [] \<and> sn_stype snap \<noteq> stream_type_artist
        then (fail_msg ''snapshot has another type'', ?w1)
        else (case restore_from_snapshot (sn_version snap) (sn_payload snap) (empty_artist i) of
                Inl err \<Rightarrow> (Fail err, ?w1)
              | Inr a \<Rightarrow>
                  (case load_after g ?db i (sn_version snap) of
                     Inl err \<Rightarrow> (Fail (Errorf ''loading artist tail'' [err]), w2\<lparr>wd_db := ?db\<rparr>)
                   | Inr tail \<Rightarrow> (apply_tail a tail, w2\<lparr>wd_db := ?db\<rparr>))))"
    by (simp add: load_from_snapshot_def sqlite_load_snapshot_def sqlite_load_after_def t t2
        split: sum.splits)
  finally have run: "(r, w') = \<dots>" .
  show "solo_inv w' \<and> wd_db w' = wd_db w \<and> (\<forall>a. r = Ok a \<longrightarrow> resolved a = resolved b)"
    using run w1 w2 sound by (auto split: sum.splits if_splits)
  show "wd_script w = [] \<Longrightarrow> wd_script w' = []"
    using run t(4) t2(3) by (auto split: sum.splits if_splits)
qed

text \<open>Storing the snapshot of a replayed artist keeps the snapshots sound.\<close>

lemma save_snapshot_sound:
  assumes inv: "store_inv db" and sound: "snapshots_sound db"
    and replay: "artist_replay i (history db i) = Ok b" and same: "resolved a = resolved b"
    and a: "artist_ints a" "request_once a" "ba_uncommitted a = []"
  shows "snapshots_sound (snd (save_snapshot fault now db
           \<lparr>sn_stream = i, sn_stype = stream_type_artist, sn_version = ba_version a,
            sn_payload = Encoded (fst (marshal_snapshot a)), sn_at = t\<rparr>))"
proof -
  let ?snap = "\<lparr>sn_stream = i, sn_stype = stream_type_artist, sn_version = ba_version a,
            sn_payload = Encoded (fst (marshal_snapshot a)), sn_at = t\<rparr>"
  note b = replay_keep [OF replay]
  have eqs: "ba_version a = ba_version b" "ba_id a = i" "ba_stype a = stream_type_artist"
    using arg_cong [OF same, of ba_version] arg_cong [OF same, of ba_id]
      arg_cong [OF same, of ba_stype] b by simp_all
  have len: "ba_version b = int (length (history db i))" "0 < length (history db i)"
    using artist.replay_version [OF stream_ok_strip [OF inv]] replay by (auto simp: artist_replay_def)
  have snap: "snapshot_sound (history db i) i (?snap\<lparr>sn_at := t'\<rparr>)" for t'
    using restore_marshal [OF a(1,2) eqs(3) a(3)] replay same eqs len
    by (auto simp: snapshot_sound_def Suc_le_eq)
  have hist: "history (snd (save_snapshot fault now db ?snap)) = history db"
    by (simp add: history_def save_snapshot_frame fun_eq_iff)
  show ?thesis
    unfolding snapshots_sound_def hist
    using sound snap [of t] snap [of now]
    by (cases fault) (auto simp: save_snapshot_def snapshots_sound_def Let_def split: if_splits)
qed

lemma save_artist_snapshot_sound:
  assumes w: "solo_inv w" and sound: "snapshots_sound (wd_db w)"
    and replay: "artist_replay (ba_id a) (history (wd_db w) (ba_id a)) = Ok b"
    and same: "resolved a = resolved b"
    and a: "artist_ints a" "request_once a" "ba_uncommitted a = []"
    and run: "save_artist_snapshot (sqlite_ops now ctx) t w a = (a', w')"
  shows "resolved a' = resolved b" and "solo_inv w'" and "snapshots_sound (wd_db w')"
    and "history (wd_db w') = history (wd_db w)"
proof -
  obtain f w1 where tn: "world_turn w = ((wd_db w, f), w1)"
    "\<And>db. store_inv db \<Longrightarrow> solo_inv (w1\<lparr>wd_db := db\<rparr>)"
    using solo_turn [OF w] by metis
  have inv: "store_inv (wd_db w)" using w by (simp add: solo_inv_def world_inv_def)
  let ?db' = "snd (save_snapshot f now (wd_db w)
      \<lparr>sn_stream = ba_id a, sn_stype = stream_type_artist, sn_version = ba_version a,
       sn_payload = Encoded (fst (marshal_snapshot a)), sn_at = t\<rparr>)"
  have m: "snd (marshal_snapshot a) = resolved a"
    by (simp add: marshal_snapshot_def resolved_def case_prod_beta)
  have a': "a' = resolved a" and w': "w' = w1\<lparr>wd_db := ?db'\<rparr>"
    using run m by (auto simp: save_artist_snapshot_def sqlite_save_snapshot_def tn case_prod_beta Let_def)
  show "resolved a' = resolved b" using same a' by simp
  have "store_inv ?db'" using small_writes_inv(3) [OF inv] by simp
  then show "solo_inv w'" using tn(2) w' by simp
  show "snapshots_sound (wd_db w')"
    using save_snapshot_sound [OF inv sound replay same a] w' by simp
  show "history (wd_db w') = history (wd_db w)"
    by (simp add: w' history_def save_snapshot_frame fun_eq_iff)
qed

lemma load_artist_resolved:
  assumes w: "solo_inv w" and sound: "snapshots_sound (wd_db w)"
    and replay: "artist_replay i (history (wd_db w) i) = Ok b"
    and run: "load_artist (sqlite_ops now ctx) t w i = (r, w')"
  shows "(\<forall>a. r = Ok a \<longrightarrow> resolved a = resolved b) \<and> solo_inv w' \<and> snapshots_sound (wd_db w')
     \<and> history (wd_db w') = history (wd_db w) \<and> (wd_script w = [] \<longrightarrow> (\<exists>a. r = Ok a))"
proof -
  obtain r1 w1 where ls: "load_from_snapshot \<lparr>sp_load = sqlite_load_snapshot,
      sp_save = sqlite_save_snapshot now, sp_after = sqlite_load_after\<rparr> w i = (r1, w1)"
    by (metis prod.collapse)
  note path = load_snapshot_path [OF w sound replay ls]
  show ?thesis
  proof (cases r1)
    case (Inr a)
    with run path sound ls show ?thesis by (auto simp: load_artist_def)
  next
    case (Inl err)
    let ?missing = "errors_is ErrSnapshotNotFound err"
    from path(1) have w1: "solo_inv w1" "wd_db w1 = wd_db w" by auto
    obtain f w2 where t2: "world_turn w1 = ((wd_db w1, f), w2)"
      "\<And>db. store_inv db \<Longrightarrow> solo_inv (w2\<lparr>wd_db := db\<rparr>)" "wd_script w1 = [] \<Longrightarrow> f = None"
      using solo_turn [OF w1(1)] by metis
    have inv: "store_inv (wd_db w)" using w by (simp add: solo_inv_def world_inv_def)
    let ?w2 = "w2\<lparr>wd_db := wd_db w\<rparr>"
    have w2: "solo_inv ?w2" using t2(2) inv by simp
    have full: "artist_replay i loaded = Ok b" if "load_events f (wd_db w) i = Ok loaded" for loaded
      using that replay artist.load_replay [OF inv, of i loaded]
      by (cases f) (auto simp: artist_replay_def replay_stream_def load_events_def read_tx_def)
    obtain a' w3 where sv: "save_artist_snapshot (sqlite_ops now ctx) t ?w2 b = (a', w3)"
      by (metis prod.collapse)
    note b = replay_keep [OF replay]
    have saved: "resolved a' = resolved b" "solo_inv w3" "snapshots_sound (wd_db w3)"
      "history (wd_db w3) = history (wd_db w)"
      using save_artist_snapshot_sound [OF w2 _ _ _ b(1,2,4) sv] sound replay b(3) by simp_all
    show ?thesis
    proof (cases "load_events f (wd_db w) i")
      case (Inl lerr)
      then have "f \<noteq> None" by (cases f) (auto simp: load_events_def read_tx_def)
      moreover have "r = Fail (Errorf ''loading artist stream'' [lerr])" "w' = ?w2"
        using run ls \<open>r1 = Inl err\<close> Inl t2 w1(2)
        by (simp_all add: load_artist_def load_in_full_def sqlite_load_def)
      ultimately show ?thesis using w2 sound path(2) t2(3) by auto
    next
      case (Inr loaded)
      then have "(r, w') = (if ?missing \<and> snapshot_interval \<le> ba_version b then (Ok a', w3) else (Ok b, ?w2))"
        using run ls \<open>r1 = Inl err\<close> full [OF Inr] t2 w1(2) sv
        by (auto simp: load_artist_def load_in_full_def sqlite_load_def split: if_splits)
      then show ?thesis using saved w2 sound by (auto split: if_splits)
    qed
  qed
qed

end
