(* ===== verification/Artist_Properties.thy ===== *)
theory Artist_Properties
  imports Artist_Snapshots
begin

text \<open>The properties of the artist component, each with an instance on a small log.\<close>

section \<open>A small log\<close>

definition sample_stamp :: "string \<Rightarrow> stamp" where
  "sample_stamp u = \<lparr>st_uuid = u, st_now = 1700000000 * second\<rparr>"

definition sample_artist :: artist where
  "sample_artist =
     (case new_artist (sample_stamp ''1'') ''ar_1'' ''Opeth'' ''sp1'' ''rock_metal'' [] of
        Inr a \<Rightarrow> a | Inl _ \<Rightarrow> empty_artist [])"

definition sample_db :: sqlite where
  "sample_db = snd (append_events None empty_sqlite ''ar_1'' 0 (ba_uncommitted sample_artist))"

definition sample_request :: "correlation list" where
  "sample_request = [\<lparr>co_request = '' req_1 '', co_batch = []\<rparr>]"

definition sample_scraped :: artist where
  "sample_scraped =
     (case record_monthly_listeners (1700000100 * second) (sample_stamp ''2'') 120 ''local'' 900
             sample_request (clear_uncommitted sample_artist) of
        Inr a \<Rightarrow> a | Inl _ \<Rightarrow> empty_artist [])"

lemma sample_db_inv: "store_inv sample_db"
  by (simp add: sample_db_def append_events_inv empty_store_inv)

lemma sample_db_replay:
  "artist_replay ''ar_1'' (history sample_db ''ar_1'') = Ok (clear_uncommitted sample_artist)"
  by code_simp

section \<open>Commands, saving and loading\<close>

text \<open>
  C20. What commands do to a loaded artist is exactly what its events say: if its uncommitted events
  reach the log, every later load replays to the state the commands left in memory, and until then
  they form a batch the store accepts at the version the artist was loaded with.
\<close>

theorem artist_commands_persist:
  assumes "store_inv db" and "i \<noteq> []" and "artist_replay i (history db i) = Ok a"
    and "artist_command\<^sup>*\<^sup>* a a'"
  shows "validate_event_batch i (int (length (history db i))) (ba_uncommitted a') = Ok ()
    \<and> expected_version a' = int (length (history db i))
    \<and> (append_events fault db i (expected_version a') (ba_uncommitted a') = (Ok (), db') \<longrightarrow>
         load_events None db' i = Ok loaded \<longrightarrow> artist_replay i loaded = Ok (clear_uncommitted a'))"
proof (intro conjI impI)
  have "artist.sourced (history db i) a"
    using artist.replay_sourced(1) [OF stream_ok_strip [OF assms(1)] assms(2)] assms(3)
    by (simp add: artist_replay_def)
  then have src: "artist.sourced (history db i) a'"
    by (rule artist_commands_sourced [OF assms(4)])
  have i: "ba_id a' = i"
    using assms(4) replay_keep(3) [OF assms(3)] artist_commands_id by simp
  show "validate_event_batch i (int (length (history db i))) (ba_uncommitted a') = Ok ()"
    "expected_version a' = int (length (history db i))"
    using artist.sourced_valid_batch [OF src] i by simp_all
  show "artist_replay i loaded = Ok (clear_uncommitted a')"
    if "append_events fault db i (expected_version a') (ba_uncommitted a') = (Ok (), db')"
      "load_events None db' i = Ok loaded"
    using that artist.save_load [OF assms(1), of a' fault db' loaded] src i
      append_events_ok(1) [OF assms(1), of fault i "expected_version a'" "ba_uncommitted a'"]
      artist.replay_version [OF stream_ok_strip [OF assms(1)], of i i a] assms(3)
    by (simp add: artist_replay_def)
qed

theorem artist_commands_persist_witness:
  "validate_event_batch ''ar_1'' (int (length (history sample_db ''ar_1''))) (ba_uncommitted sample_scraped) = Ok ()
   \<and> ba_uncommitted sample_scraped \<noteq> []"
proof -
  have "artist_command (clear_uncommitted sample_artist) sample_scraped"
    by (rule cmd_listeners [of "1700000100 * second" "sample_stamp ''2''" 120 "''local''" 900 sample_request])
      code_simp
  then have "artist_command\<^sup>*\<^sup>* (clear_uncommitted sample_artist) sample_scraped" by blast
  from artist_commands_persist [OF sample_db_inv _ sample_db_replay this]
  show ?thesis by simp code_simp
qed

section \<open>Snapshots\<close>

text \<open>
  C19. \<^verbatim>\<open>Repository.Load\<close> gives the aggregate of a full replay, whether it starts from a snapshot,
  falls back to the log because the snapshot path failed, or heals a missing snapshot on the way:
  whenever it returns an artist, that artist agrees with the replay in its state and in every
  answer about recorded requests, and it leaves the log as it was and the snapshots sound. Without
  database failures it does return one.
\<close>

theorem snapshot_load_faithful:
  assumes "solo_inv w" and "snapshots_sound (wd_db w)"
    and "artist_replay i (history (wd_db w) i) = Ok b"
    and "load_artist (sqlite_ops now ctx) t w i = (r, w')"
  shows "(r = Ok a \<longrightarrow> resolved a = resolved b)
    \<and> (r = Ok a \<longrightarrow> fst (has_recorded_listeners q a) = fst (has_recorded_listeners q b))
    \<and> history (wd_db w') = history (wd_db w) \<and> snapshots_sound (wd_db w')
    \<and> (wd_script w = [] \<longrightarrow> (\<exists>a. r = Ok a))"
  using load_artist_resolved [OF assms] resolved_same_answer [of a b q] by auto

definition sample_world :: world where
  "sample_world = \<lparr>wd_db = sample_db, wd_script = [([], Some (Errorf ''disk I/O error'' []))]\<rparr>"

theorem snapshot_load_faithful_witness:
  "\<exists>a w'. load_artist (sqlite_ops 0 (\<lambda>w. None)) 0 sample_world ''ar_1'' = (Ok a, w')
     \<and> resolved a = resolved (clear_uncommitted sample_artist)"
proof -
  have w: "solo_inv sample_world"
    by (simp add: sample_world_def solo_inv_def world_inv_def sample_db_inv)
  have "sq_snapshots sample_db = []" by code_simp
  then have s: "snapshots_sound (wd_db sample_world)"
    by (simp add: sample_world_def snapshots_sound_def)
  have r: "artist_replay ''ar_1'' (history (wd_db sample_world) ''ar_1'') = Ok (clear_uncommitted sample_artist)"
    using sample_db_replay by (simp add: sample_world_def)
  obtain res w' where run: "load_artist (sqlite_ops 0 (\<lambda>w. None)) 0 sample_world ''ar_1'' = (res, w')"
    by (metis prod.collapse)
  have "case fst (load_artist (sqlite_ops 0 (\<lambda>w. None)) 0 sample_world ''ar_1'') of Inr a \<Rightarrow> True | Inl e \<Rightarrow> False"
    by code_simp
  with run obtain a where "res = Ok a" by (auto split: sum.splits)
  with run snapshot_load_faithful [OF w s r run] show ?thesis by blast
qed

section \<open>Redelivered scrapes\<close>

definition scrapes :: "event list \<Rightarrow> nat" where
  "scrapes es = length (filter (\<lambda>e. ev_type e = ev_listeners_scraped) es)"

lemma apply_events_recorded:
  "apply_events artist_apply a es = Ok b \<Longrightarrow>
     \<exists>qs. length qs \<le> scrapes es \<and> ar_recorded b = foldl (\<lambda>ids q. record_listener_request q ids) (ar_recorded a) qs"
proof (induction es arbitrary: a)
  case Nil
  then show ?case by (auto simp: scrapes_def intro: exI [of _ "[]"])
next
  case (Cons e es)
  then obtain a1 where a1: "artist_apply e a = Ok a1" "apply_events artist_apply a1 es = Ok b"
    by (auto simp: bind_res_eq_Inr)
  from Cons.IH [OF a1(2)] obtain qs where qs: "length qs \<le> scrapes es"
    "ar_recorded b = foldl (\<lambda>ids q. record_listener_request q ids) (ar_recorded a1) qs" by blast
  have "ar_recorded a1 = ar_recorded a \<or> (ev_type e = ev_listeners_scraped
      \<and> ar_recorded a1 = record_listener_request (event_request_id (ev_meta e)) (ar_recorded a))"
    using a1(1) by (auto simp: artist_apply_def Let_def bind_res_eq_Inr split: if_splits)
  then show ?case
  proof
    assume "ar_recorded a1 = ar_recorded a"
    with qs show ?thesis by (intro exI [of _ qs]) (auto simp: scrapes_def)
  next
    assume "ev_type e = ev_listeners_scraped
      \<and> ar_recorded a1 = record_listener_request (event_request_id (ev_meta e)) (ar_recorded a)"
    with qs show ?thesis
      by (intro exI [of _ "event_request_id (ev_meta e) # qs"]) (auto simp: scrapes_def)
  qed
qed



end
