(* ===== verification/Aggregate_Repository.thy ===== *)
theory Aggregate_Repository
  imports Aggregate_Contract Append_Retry
begin

text \<open>
  The repositories of the short-lived aggregates (\<^verbatim>\<open>repository.go\<close> of \<^verbatim>\<open>scrapejob\<close>, \<^verbatim>\<open>album\<close>,
  \<^verbatim>\<open>song\<close>, \<^verbatim>\<open>tidalsync\<close> and \<^verbatim>\<open>correctionproposal\<close>): one pair of functions, which differ only in
  the replay of their aggregate.
\<close>

definition repo_load ::
    "'s load_op \<Rightarrow> (string \<Rightarrow> event list \<Rightarrow> 'a base_agg_scheme res) \<Rightarrow> 's \<Rightarrow> string
     \<Rightarrow> 'a base_agg_scheme res \<times> 's" where
  "repo_load load replay s i =
     (case load s i of
        (Inl err, s') \<Rightarrow> (Fail (Errorf ''loading stream'' [err]), s')
      | (Inr es, s') \<Rightarrow> (if es = [] then Fail (Sentinel ErrStreamNotFound) else replay i es, s'))"

definition repo_save ::
    "'s append_op \<Rightarrow> 's load_op \<Rightarrow> ('s \<Rightarrow> gerr option) \<Rightarrow> 's \<Rightarrow> 'a base_agg_scheme
     \<Rightarrow> event list res \<times> 'a base_agg_scheme \<times> 's" where
  "repo_save app load ctx s a =
     (let us = ba_uncommitted a
      in if us = [] then (Ok [], a, s)
         else (case append_with_retry app load ctx s (ba_id a) (expected_version a) us of
                 (Inl err, s') \<Rightarrow> (Fail (Errorf ''saving stream'' [err]), a, s')
               | (Inr _, s') \<Rightarrow> (Ok us, clear_uncommitted a, s')))"

lemma repo_save_present:
  assumes "world_inv w" and "repo_save sqlite_append sqlite_load ctx w a = (Ok es, a', w')"
  shows "es = ba_uncommitted a" and "a' = (if es = [] then a else clear_uncommitted a)"
    and "ev_id ` set es \<subseteq> ev_id ` set (world_history w' (ba_id a))"
    and "prefix (world_history w (ba_id a)) (world_history w' (ba_id a))"
proof -
  note parts = shared.retry_present [OF assms(1), of ctx "ba_id a" "expected_version a" "ba_uncommitted a" w']
  show "es = ba_uncommitted a" "a' = (if es = [] then a else clear_uncommitted a)"
    using assms(2) by (auto simp: repo_save_def Let_def split: prod.splits sum.splits if_splits)
  show "ev_id ` set es \<subseteq> ev_id ` set (world_history w' (ba_id a))"
    "prefix (world_history w (ba_id a)) (world_history w' (ba_id a))"
    using assms(2) parts by (auto simp: repo_save_def Let_def split: prod.splits sum.splits if_splits)
qed

text \<open>
  When nobody else writes to the stream, what a save committed, over whatever failures of the
  database, is what the next load replays.
\<close>

context aggregate
begin

lemma repo_round_trip:
  assumes "solo_inv w" and "sourced (world_history w (ba_id a)) a" and "ba_uncommitted a \<noteq> []"
    and "ev_id ` set (ba_uncommitted a) \<inter> ev_id ` set (world_history w (ba_id a)) = {}"
    and "distinct (map ev_id (ba_uncommitted a))"
    and "repo_save sqlite_append sqlite_load ctx w a = (Ok es, a', w')" and "wd_script w' = []"
  shows "repo_load sqlite_load (\<lambda>i. replay_stream ap (init i)) w' (ba_id a) = (Ok (clear_uncommitted a), w')"
    and "a' = clear_uncommitted a"
proof -
  let ?i = "ba_id a" and ?us = "ba_uncommitted a"
  from assms(3,6) have run: "append_with_retry sqlite_append sqlite_load ctx w ?i (expected_version a) ?us = (Ok (), w')"
    and a': "a' = clear_uncommitted a"
    by (auto simp: repo_save_def Let_def split: prod.splits sum.splits)
  show "a' = clear_uncommitted a" by (rule a')
  obtain k where k: "world_history w' ?i = world_history w ?i @ map strip (take k ?us)" "length ?us \<le> k"
    using solo.retry_exact [OF assms(1,4,5) run] by blast
  then have h: "history (wd_db w') ?i = world_history w ?i @ map strip ?us"
    by (simp add: world_history_def)
  have "world_inv w" using assms(1) by (simp add: solo_inv_def)
  then have inv: "store_inv (wd_db w')"
    using shared.retry_loop_present [of w append_retry_attempts None ctx ?i "expected_version a" ?us "Ok ()" w']
      run assms(3) by (simp add: append_with_retry_def append_retry_attempts_def world_inv_def)
  have ld: "sqlite_load w' ?i = (load_events None (wd_db w') ?i, w')"
    using assms(7) by (simp add: sqlite_load_def world_turn_def)
  obtain loaded where loaded: "load_events None (wd_db w') ?i = Ok loaded"
    by (simp add: load_events_def read_tx_def)
  have "apply_events ap (init ?i) (history (wd_db w') ?i) = apply_events ap (init ?i) (world_history w ?i @ ?us)"
    by (simp add: h apply_events_append apply_events_strip)
  then have "apply_events ap (init ?i) loaded = Ok (with_uncommitted [] a)"
    using assms(2) load_replay(1) [OF inv loaded, of "init ?i"] by (simp add: sourced_def)
  moreover have "loaded \<noteq> []" using load_replay(2) [OF inv loaded] h assms(3) by simp
  ultimately show "repo_load sqlite_load (\<lambda>i. replay_stream ap (init i)) w' ?i = (Ok (clear_uncommitted a), w')"
    by (simp add: repo_load_def ld loaded replay_stream_def clear_uncommitted_with)
qed

end

end
