(* ===== verification/Catalog_Aggregates.thy ===== *)
theory Catalog_Aggregates
  imports Aggregate_Repository
begin

text \<open>
  The album and song aggregates (\<^verbatim>\<open>internal/domain/album/album.go\<close>, \<^verbatim>\<open>internal/domain/song/song.go\<close>).
\<close>

section \<open>Albums\<close>

definition ev_album_created :: string where "ev_album_created = ''AlbumCreated''"
definition ev_album_status :: string where "ev_album_status = ''AlbumStatusChanged''"
definition ev_album_counts :: string where "ev_album_counts = ''AlbumSongCountsAdjusted''"

lemmas album_event_types = ev_album_created_def ev_album_status_def ev_album_counts_def

record album_created =
  alc_id :: string
  alc_title :: string
  alc_artist :: string
  alc_status :: string
  alc_collection :: int
  alc_total :: int

definition enc_album_created :: "album_created \<Rightarrow> json" where
  "enc_album_created p =
     JObj [(''id'', JStr (alc_id p)), (''title'', JStr (alc_title p)), (''artist_name'', JStr (alc_artist p)),
           (''status'', JStr (alc_status p)), (''collection_songs'', JInt (alc_collection p)),
           (''total_songs'', JInt (alc_total p))]"

definition dec_album_created :: "json \<Rightarrow> album_created option" where
  "dec_album_created j =
     do { m \<leftarrow> dec_obj j; i \<leftarrow> dec_str (jfield m ''id''); t \<leftarrow> dec_str (jfield m ''title'');
          a \<leftarrow> dec_str (jfield m ''artist_name''); s \<leftarrow> dec_str (jfield m ''status'');
          c \<leftarrow> dec_int (jfield m ''collection_songs''); n \<leftarrow> dec_int (jfield m ''total_songs'');
          Some \<lparr>alc_id = i, alc_title = t, alc_artist = a, alc_status = s, alc_collection = c,
                alc_total = n\<rparr> }"

record album_status_changed =
  als_album :: string
  als_old :: string
  als_new :: string

definition enc_album_status :: "album_status_changed \<Rightarrow> json" where
  "enc_album_status p =
     JObj [(''album_id'', JStr (als_album p)), (''old_status'', JStr (als_old p)),
           (''new_status'', JStr (als_new p))]"

definition dec_album_status :: "json \<Rightarrow> album_status_changed option" where
  "dec_album_status j =
     do { m \<leftarrow> dec_obj j; a \<leftarrow> dec_str (jfield m ''album_id''); old \<leftarrow> dec_str (jfield m ''old_status'');
          new \<leftarrow> dec_str (jfield m ''new_status'');
          Some \<lparr>als_album = a, als_old = old, als_new = new\<rparr> }"

record album_counts_adjusted =
  ala_album :: string
  ala_collection :: int
  ala_total :: int

definition enc_album_counts :: "album_counts_adjusted \<Rightarrow> json" where
  "enc_album_counts p =
     JObj [(''album_id'', JStr (ala_album p)), (''collection_songs'', JInt (ala_collection p)),
           (''total_songs'', JInt (ala_total p))]"

definition dec_album_counts :: "json \<Rightarrow> album_counts_adjusted option" where
  "dec_album_counts j =
     do { m \<leftarrow> dec_obj j; a \<leftarrow> dec_str (jfield m ''album_id'');
          c \<leftarrow> dec_int (jfield m ''collection_songs''); t \<leftarrow> dec_int (jfield m ''total_songs'');
          Some \<lparr>ala_album = a, ala_collection = c, ala_total = t\<rparr> }"

lemma dec_enc_album [simp]:
  "in_int64 (alc_collection c) \<Longrightarrow> in_int64 (alc_total c) \<Longrightarrow>
     dec_album_created (normalize_ron_time (enc_album_created c)) = Some c"
  "dec_album_status (normalize_ron_time (enc_album_status s)) = Some s"
  "in_int64 (ala_collection a) \<Longrightarrow> in_int64 (ala_total a) \<Longrightarrow>
     dec_album_counts (normalize_ron_time (enc_album_counts a)) = Some a"
  by (simp_all add: enc_album_created_def dec_album_created_def enc_album_status_def
      dec_album_status_def enc_album_counts_def dec_album_counts_def utc_key_def)

record album = base_agg +
  al_title :: string
  al_artist :: string
  al_status :: string
  al_collection :: int
  al_total :: int

definition stream_type_album :: string where "stream_type_album = ''album''"

definition empty_album :: "string \<Rightarrow> album" where
  "empty_album i =
     \<lparr>ba_id = i, ba_stype = stream_type_album, ba_version = 0, ba_uncommitted = [],
      al_title = [], al_artist = [], al_status = [], al_collection = 0, al_total = 0\<rparr>"

definition valid_album_status :: "string \<Rightarrow> bool" where
  "valid_album_status s \<longleftrightarrow> s \<in> set [''full'', ''processed_once'', ''waiting'']"

definition album_apply :: "event \<Rightarrow> album \<Rightarrow> album res" where
  "album_apply e a0 =
     (let a = a0\<lparr>ba_version := ev_version e\<rparr>; et = ev_type e in
      if et = ev_album_created then
        bind_res (wrap_err ''unmarshaling'' (decode_event dec_album_created e)) (\<lambda>pl.
          Ok (a\<lparr>al_title := alc_title pl, al_artist := alc_artist pl, al_status := alc_status pl,
                al_collection := alc_collection pl, al_total := alc_total pl\<rparr>))
      else if et = ev_album_status then
        bind_res (wrap_err ''unmarshaling'' (decode_event dec_album_status e)) (\<lambda>pl.
          Ok (a\<lparr>al_status := als_new pl\<rparr>))
      else if et = ev_album_counts then
        bind_res (wrap_err ''unmarshaling'' (decode_event dec_album_counts e)) (\<lambda>pl.
          Ok (a\<lparr>al_collection := ala_collection pl, al_total := ala_total pl\<rparr>))
      else Ok a)"

definition album_replay :: "string \<Rightarrow> event list \<Rightarrow> album res" where
  "album_replay i = replay_stream album_apply (empty_album i)"

definition new_album ::
    "stamp \<Rightarrow> string \<Rightarrow> string \<Rightarrow> string \<Rightarrow> string \<Rightarrow> int \<Rightarrow> int \<Rightarrow> album res" where
  "new_album st i title artist status collection tot =
     (let title = trim_space title; artist = trim_space artist;
          status = (if status = [] then ''waiting'' else status)
      in if title = [] then Fail (Sentinel ErrEmptyTitle)
         else if artist = [] then Fail (Sentinel ErrEmptyArtist)
         else if \<not> valid_album_status status then Fail (Sentinel ErrInvalidStatus)
         else raise_event album_apply st ev_album_created
                (enc_album_created \<lparr>alc_id = i, alc_title = title, alc_artist = artist,
                   alc_status = status, alc_collection = collection, alc_total = tot\<rparr>)
                MetaNil (empty_album i))"

definition album_change_status :: "stamp \<Rightarrow> string \<Rightarrow> album \<Rightarrow> album res" where
  "album_change_status st new a =
     (if \<not> valid_album_status new then Fail (Sentinel ErrInvalidStatus)
      else if al_status a = new then Ok a
      else raise_event album_apply st ev_album_status
             (enc_album_status \<lparr>als_album = ba_id a, als_old = al_status a, als_new = new\<rparr>) MetaNil a)"

definition album_adjust_counts :: "stamp \<Rightarrow> int \<Rightarrow> int \<Rightarrow> album \<Rightarrow> album res" where
  "album_adjust_counts st collection tot a =
     (if al_collection a = collection \<and> al_total a = tot then Ok a
      else raise_event album_apply st ev_album_counts
             (enc_album_counts \<lparr>ala_album = ba_id a, ala_collection = collection, ala_total = tot\<rparr>)
             MetaNil a)"

lemma album_apply_frame:
  "album_apply e a = Ok a' \<Longrightarrow> ba_id a' = ba_id a \<and> ba_stype a' = ba_stype a
     \<and> ba_uncommitted a' = ba_uncommitted a \<and> ba_version a' = ev_version e"
  by (auto simp: album_apply_def Let_def bind_res_eq_Inr split: if_splits)

lemma album_apply_commutes:
  "album_apply e (with_uncommitted us a) = bind_res (album_apply e a) (\<lambda>b. Ok (with_uncommitted us b))"
  by (cases a) (simp add: album_apply_def with_uncommitted_def Let_def bind_res_assoc cong: if_cong)

lemma album_apply_version [simp]: "album_apply e (a\<lparr>ba_version := v\<rparr>) = album_apply e a"
  by (simp add: album_apply_def)

lemma album_apply_strip [simp]: "album_apply (strip e) a = album_apply e a"
  by (simp add: album_apply_def Let_def cong: if_cong)

interpretation album: aggregate album_apply empty_album stream_type_album
  by unfold_locales
    (auto simp: album_apply_frame album_apply_commutes empty_album_def stream_type_album_def)

end
