(* ===== verification/Song_Aggregate.thy ===== *)
theory Song_Aggregate
  imports Catalog_Aggregates
begin

text \<open>The song aggregate (\<^verbatim>\<open>internal/domain/song/song.go\<close>).\<close>

section \<open>Events\<close>

definition ev_song_created :: string where "ev_song_created = ''SongCreated''"
definition ev_recent_flag :: string where "ev_recent_flag = ''RecentFlagChanged''"
definition ev_song_enriched :: string where "ev_song_enriched = ''SongMetadataEnriched''"
definition ev_tidal_linked :: string where "ev_tidal_linked = ''TidalIDLinked''"
definition ev_song_corrected :: string where "ev_song_corrected = ''SongMetadataCorrected''"
definition ev_credits_corrected :: string where
  "ev_credits_corrected = ''SongArtistCreditsCorrected''"
definition ev_marked_duplicate :: string where "ev_marked_duplicate = ''SongMarkedDuplicate''"

lemmas song_event_types = ev_song_created_def ev_recent_flag_def ev_song_enriched_def
  ev_tidal_linked_def ev_song_corrected_def ev_credits_corrected_def ev_marked_duplicate_def

record song_created =
  soc_id :: string
  soc_title :: string
  soc_artist :: string
  soc_album :: string
  soc_date :: string
  soc_year :: int
  soc_type :: string
  soc_spotify :: string
  soc_recent :: bool
  soc_seq :: int
  soc_pos :: int

definition enc_song_created :: "song_created \<Rightarrow> json" where
  "enc_song_created p =
     JObj [(''id'', JStr (soc_id p)), (''title'', JStr (soc_title p)), (''artist_name'', JStr (soc_artist p)),
           (''album'', JStr (soc_album p)), (''release_date'', JStr (soc_date p)),
           (''release_year'', JInt (soc_year p)), (''release_type'', JStr (soc_type p)),
           (''spotify_id'', JStr (soc_spotify p)), (''is_recent'', JBool (soc_recent p)),
           (''recent_batch_seq'', JInt (soc_seq p)), (''recent_batch_pos'', JInt (soc_pos p))]"

definition dec_song_created :: "json \<Rightarrow> song_created option" where
  "dec_song_created j =
     do { m \<leftarrow> dec_obj j; i \<leftarrow> dec_str (jfield m ''id''); t \<leftarrow> dec_str (jfield m ''title'');
          a \<leftarrow> dec_str (jfield m ''artist_name''); al \<leftarrow> dec_str (jfield m ''album'');
          d \<leftarrow> dec_str (jfield m ''release_date''); y \<leftarrow> dec_int (jfield m ''release_year'');
          ty \<leftarrow> dec_str (jfield m ''release_type''); sp \<leftarrow> dec_str (jfield m ''spotify_id'');
          r \<leftarrow> dec_bool (jfield m ''is_recent''); s \<leftarrow> dec_int (jfield m ''recent_batch_seq'');
          p \<leftarrow> dec_int (jfield m ''recent_batch_pos'');
          Some \<lparr>soc_id = i, soc_title = t, soc_artist = a, soc_album = al, soc_date = d, soc_year = y,
                soc_type = ty, soc_spotify = sp, soc_recent = r, soc_seq = s, soc_pos = p\<rparr> }"

record recent_flag_changed =
  rfc_song :: string
  rfc_recent :: bool
  rfc_seq :: int
  rfc_pos :: int

definition enc_recent_flag :: "recent_flag_changed \<Rightarrow> json" where
  "enc_recent_flag p =
     JObj [(''song_id'', JStr (rfc_song p)), (''is_recent'', JBool (rfc_recent p)),
           (''recent_batch_seq'', JInt (rfc_seq p)), (''recent_batch_pos'', JInt (rfc_pos p))]"

definition dec_recent_flag :: "json \<Rightarrow> recent_flag_changed option" where
  "dec_recent_flag j =
     do { m \<leftarrow> dec_obj j; s \<leftarrow> dec_str (jfield m ''song_id''); r \<leftarrow> dec_bool (jfield m ''is_recent'');
          q \<leftarrow> dec_int (jfield m ''recent_batch_seq''); p \<leftarrow> dec_int (jfield m ''recent_batch_pos'');
          Some \<lparr>rfc_song = s, rfc_recent = r, rfc_seq = q, rfc_pos = p\<rparr> }"

text \<open>\<^verbatim>\<open>MetadataEnrichedPayload\<close> and \<^verbatim>\<open>MetadataCorrectedPayload\<close> have the same members.\<close>

record song_metadata =
  sm_song :: string
  sm_album :: string
  sm_date :: string
  sm_year :: int
  sm_type :: string
  sm_source :: string

definition enc_song_metadata :: "song_metadata \<Rightarrow> json" where
  "enc_song_metadata p =
     JObj [(''song_id'', JStr (sm_song p)), (''album'', JStr (sm_album p)),
           (''release_date'', JStr (sm_date p)), (''release_year'', JInt (sm_year p)),
           (''release_type'', JStr (sm_type p)), (''source'', JStr (sm_source p))]"

definition dec_song_metadata :: "json \<Rightarrow> song_metadata option" where
  "dec_song_metadata j =
     do { m \<leftarrow> dec_obj j; s \<leftarrow> dec_str (jfield m ''song_id''); a \<leftarrow> dec_str (jfield m ''album'');
          d \<leftarrow> dec_str (jfield m ''release_date''); y \<leftarrow> dec_int (jfield m ''release_year'');
          t \<leftarrow> dec_str (jfield m ''release_type''); so \<leftarrow> dec_str (jfield m ''source'');
          Some \<lparr>sm_song = s, sm_album = a, sm_date = d, sm_year = y, sm_type = t, sm_source = so\<rparr> }"

record tidal_linked =
  tl_song :: string
  tl_tidal :: string
  tl_method :: string
  tl_confidence :: rat

definition enc_tidal_linked :: "tidal_linked \<Rightarrow> json" where
  "enc_tidal_linked p =
     JObj [(''song_id'', JStr (tl_song p)), (''tidal_id'', JStr (tl_tidal p)),
           (''match_method'', JStr (tl_method p)), (''confidence'', JFloat (tl_confidence p))]"

definition dec_tidal_linked :: "json \<Rightarrow> tidal_linked option" where
  "dec_tidal_linked j =
     do { m \<leftarrow> dec_obj j; s \<leftarrow> dec_str (jfield m ''song_id''); t \<leftarrow> dec_str (jfield m ''tidal_id'');
          me \<leftarrow> dec_str (jfield m ''match_method''); c \<leftarrow> dec_float (jfield m ''confidence'');
          Some \<lparr>tl_song = s, tl_tidal = t, tl_method = me, tl_confidence = c\<rparr> }"

record credits_corrected =
  cc_song :: string
  cc_artist :: string
  cc_source :: string

definition enc_credits :: "credits_corrected \<Rightarrow> json" where
  "enc_credits p = JObj [(''song_id'', JStr (cc_song p)), (''artist_name'', JStr (cc_artist p)),
                         (''source'', JStr (cc_source p))]"

definition dec_credits :: "json \<Rightarrow> credits_corrected option" where
  "dec_credits j =
     do { m \<leftarrow> dec_obj j; s \<leftarrow> dec_str (jfield m ''song_id''); a \<leftarrow> dec_str (jfield m ''artist_name'');
          so \<leftarrow> dec_str (jfield m ''source'');
          Some \<lparr>cc_song = s, cc_artist = a, cc_source = so\<rparr> }"

record marked_duplicate =
  md_song :: string
  md_canonical :: string
  md_source :: string

definition enc_duplicate :: "marked_duplicate \<Rightarrow> json" where
  "enc_duplicate p = JObj [(''song_id'', JStr (md_song p)), (''canonical_id'', JStr (md_canonical p)),
                           (''source'', JStr (md_source p))]"

definition dec_duplicate :: "json \<Rightarrow> marked_duplicate option" where
  "dec_duplicate j =
     do { m \<leftarrow> dec_obj j; s \<leftarrow> dec_str (jfield m ''song_id''); c \<leftarrow> dec_str (jfield m ''canonical_id'');
          so \<leftarrow> dec_str (jfield m ''source'');
          Some \<lparr>md_song = s, md_canonical = c, md_source = so\<rparr> }"

lemma dec_enc_song [simp]:
  "in_int64 (soc_year c) \<Longrightarrow> in_int64 (soc_seq c) \<Longrightarrow> in_int64 (soc_pos c) \<Longrightarrow>
     dec_song_created (normalize_ron_time (enc_song_created c)) = Some c"
  "in_int64 (rfc_seq r) \<Longrightarrow> in_int64 (rfc_pos r) \<Longrightarrow>
     dec_recent_flag (normalize_ron_time (enc_recent_flag r)) = Some r"
  "in_int64 (sm_year m) \<Longrightarrow> dec_song_metadata (normalize_ron_time (enc_song_metadata m)) = Some m"
  "dec_tidal_linked (normalize_ron_time (enc_tidal_linked t)) = Some t"
  "dec_credits (normalize_ron_time (enc_credits k)) = Some k"
  "dec_duplicate (normalize_ron_time (enc_duplicate d)) = Some d"
  by (simp_all add: enc_song_created_def dec_song_created_def enc_recent_flag_def dec_recent_flag_def
      enc_song_metadata_def dec_song_metadata_def enc_tidal_linked_def dec_tidal_linked_def
      enc_credits_def dec_credits_def enc_duplicate_def dec_duplicate_def utc_key_def)

section \<open>The aggregate\<close>

record song = base_agg +
  so_title :: string
  so_artist :: string
  so_album :: string
  so_date :: string
  so_year :: int
  so_type :: string
  so_spotify :: string
  so_recent :: bool
  so_seq :: int
  so_pos :: int
  so_tidal :: string
  so_duplicate_of :: string

definition stream_type_song :: string where "stream_type_song = ''song''"

definition empty_song :: "string \<Rightarrow> song" where
  "empty_song i =
     \<lparr>ba_id = i, ba_stype = stream_type_song, ba_version = 0, ba_uncommitted = [],
      so_title = [], so_artist = [], so_album = [], so_date = [], so_year = 0, so_type = [],
      so_spotify = [], so_recent = False, so_seq = 0, so_pos = 0, so_tidal = [], so_duplicate_of = []\<rparr>"

definition song_apply :: "event \<Rightarrow> song \<Rightarrow> song res" where
  "song_apply e s0 =
     (let s = s0\<lparr>ba_version := ev_version e\<rparr>; et = ev_type e in
      if et = ev_song_created then
        bind_res (wrap_err ''unmarshaling'' (decode_event dec_song_created e)) (\<lambda>pl.
          Ok (s\<lparr>so_title := soc_title pl, so_artist := soc_artist pl, so_album := soc_album pl,
                so_date := soc_date pl, so_year := soc_year pl, so_type := soc_type pl,
                so_spotify := soc_spotify pl, so_recent := soc_recent pl, so_seq := soc_seq pl,
                so_pos := soc_pos pl\<rparr>))
      else if et = ev_recent_flag then
        bind_res (wrap_err ''unmarshaling'' (decode_event dec_recent_flag e)) (\<lambda>pl.
          Ok (s\<lparr>so_recent := rfc_recent pl, so_seq := rfc_seq pl, so_pos := rfc_pos pl\<rparr>))
      else if et = ev_song_enriched then
        bind_res (wrap_err ''unmarshaling'' (decode_event dec_song_metadata e)) (\<lambda>pl.
          Ok (s\<lparr>so_album := sm_album pl, so_date := sm_date pl, so_year := sm_year pl,
                so_type := (if sm_type pl \<noteq> [] then sm_type pl else so_type s)\<rparr>))
      else if et = ev_tidal_linked then
        bind_res (wrap_err ''unmarshaling'' (decode_event dec_tidal_linked e)) (\<lambda>pl.
          Ok (s\<lparr>so_tidal := tl_tidal pl\<rparr>))
      else if et = ev_song_corrected then
        bind_res (wrap_err ''unmarshaling'' (decode_event dec_song_metadata e)) (\<lambda>pl.
          Ok (s\<lparr>so_album := sm_album pl, so_date := sm_date pl, so_year := sm_year pl,
                so_type := sm_type pl\<rparr>))
      else if et = ev_credits_corrected then
        bind_res (wrap_err ''unmarshaling'' (decode_event dec_credits e)) (\<lambda>pl.
          Ok (s\<lparr>so_artist := cc_artist pl\<rparr>))
      else if et = ev_marked_duplicate then
        bind_res (wrap_err ''unmarshaling'' (decode_event dec_duplicate e)) (\<lambda>pl.
          Ok (s\<lparr>so_duplicate_of := md_canonical pl\<rparr>))
      else Ok s)"

definition song_replay :: "string \<Rightarrow> event list \<Rightarrow> song res" where
  "song_replay i = replay_stream song_apply (empty_song i)"

section \<open>Commands\<close>

definition new_song ::
    "stamp \<Rightarrow> string \<Rightarrow> string \<Rightarrow> string \<Rightarrow> string \<Rightarrow> string \<Rightarrow> string \<Rightarrow> string \<Rightarrow> int \<Rightarrow> int \<Rightarrow> int
     \<Rightarrow> bool \<Rightarrow> song res" where
  "new_song st i title artist album_name date rtype spotify year seq pos recent =
     (let title = trim_space title
      in if title = [] then Fail (Sentinel ErrEmptySongTitle)
         else raise_event song_apply st ev_song_created
                (enc_song_created
                   \<lparr>soc_id = i, soc_title = title, soc_artist = trim_space artist,
                    soc_album = trim_space album_name, soc_date = date, soc_year = year,
                    soc_type = rtype, soc_spotify = spotify, soc_recent = recent, soc_seq = seq,
                    soc_pos = pos\<rparr>)
                MetaNil (empty_song i))"

definition song_set_recent :: "stamp \<Rightarrow> bool \<Rightarrow> int \<Rightarrow> int \<Rightarrow> song \<Rightarrow> song res" where
  "song_set_recent st recent seq pos s =
     (if so_recent s = recent \<and> so_seq s = seq \<and> so_pos s = pos then Ok s
      else raise_event song_apply st ev_recent_flag
             (enc_recent_flag \<lparr>rfc_song = ba_id s, rfc_recent = recent, rfc_seq = seq, rfc_pos = pos\<rparr>)
             MetaNil s)"

text \<open>
  \<^verbatim>\<open>releaseYearOf\<close>: a signed number of four bytes is below 1000, so only four digits count.
\<close>

definition digit_value :: "char \<Rightarrow> int" where "digit_value c = int (byte c) - 48"

definition is_digit :: "char \<Rightarrow> bool" where "is_digit c \<longleftrightarrow> 48 \<le> byte c \<and> byte c \<le> 57"

definition release_year_of :: "string \<Rightarrow> int" where
  "release_year_of date =
     (if length date < 4 then 0
      else (let d = take 4 date; y = foldl (\<lambda>n c. 10 * n + digit_value c) 0 d
            in if \<not> list_all is_digit d \<or> y < 1000 then 0 else y))"

definition song_record :: "stamp \<Rightarrow> string \<Rightarrow> json \<Rightarrow> song \<Rightarrow> (bool \<times> song) res" where
  "song_record st et payload s =
     bind_res (raise_event song_apply st et payload MetaNil s) (\<lambda>s'. Ok (True, s'))"

definition song_enrich :: "stamp \<Rightarrow> string \<Rightarrow> string \<Rightarrow> string \<Rightarrow> string \<Rightarrow> song \<Rightarrow> (bool \<times> song) res" where
  "song_enrich st album_name date rtype source s =
     (let merged_album = (if so_album s = [] then trim_space album_name else so_album s);
          merged_date = (if so_date s = [] then trim_space date else so_date s);
          merged_type = (if so_type s = [] then trim_space rtype else so_type s);
          merged_year = (if so_year s = 0 \<and> merged_date \<noteq> [] then release_year_of merged_date
                         else so_year s)
      in if merged_album = so_album s \<and> merged_date = so_date s \<and> merged_year = so_year s
            \<and> merged_type = so_type s
         then Ok (False, s)
         else song_record st ev_song_enriched
                (enc_song_metadata \<lparr>sm_song = ba_id s, sm_album = merged_album, sm_date = merged_date,
                   sm_year = merged_year, sm_type = merged_type, sm_source = trim_space source\<rparr>) s)"

definition song_link_tidal :: "stamp \<Rightarrow> string \<Rightarrow> string \<Rightarrow> rat \<Rightarrow> song \<Rightarrow> (bool \<times> song) res" where
  "song_link_tidal st tidal how confidence s =
     (let tidal = trim_space tidal
      in if tidal = [] \<or> so_tidal s = tidal then Ok (False, s)
         else song_record st ev_tidal_linked
                (enc_tidal_linked \<lparr>tl_song = ba_id s, tl_tidal = tidal, tl_method = how,
                                   tl_confidence = confidence\<rparr>) s)"

definition song_correct :: "stamp \<Rightarrow> string \<Rightarrow> string \<Rightarrow> string \<Rightarrow> string \<Rightarrow> song \<Rightarrow> (bool \<times> song) res" where
  "song_correct st album_name date rtype source s =
     (let album_name = trim_space album_name; date = trim_space date; rtype = trim_space rtype;
          year = (if date \<noteq> [] \<and> release_year_of date \<noteq> 0 then release_year_of date else so_year s)
      in if album_name = so_album s \<and> date = so_date s \<and> year = so_year s \<and> rtype = so_type s
         then Ok (False, s)
         else song_record st ev_song_corrected
                (enc_song_metadata \<lparr>sm_song = ba_id s, sm_album = album_name, sm_date = date,
                   sm_year = year, sm_type = rtype, sm_source = source\<rparr>) s)"

definition song_correct_credits :: "stamp \<Rightarrow> string \<Rightarrow> string \<Rightarrow> song \<Rightarrow> (bool \<times> song) res" where
  "song_correct_credits st artist source s =
     (let artist = trim_space artist
      in if artist = [] \<or> artist = so_artist s then Ok (False, s)
         else song_record st ev_credits_corrected
                (enc_credits \<lparr>cc_song = ba_id s, cc_artist = artist, cc_source = source\<rparr>) s)"

definition song_mark_duplicate :: "stamp \<Rightarrow> string \<Rightarrow> string \<Rightarrow> song \<Rightarrow> (bool \<times> song) res" where
  "song_mark_duplicate st canonical source s =
     (let canonical = trim_space canonical
      in if canonical = [] \<or> canonical = ba_id s \<or> so_duplicate_of s = canonical then Ok (False, s)
         else song_record st ev_marked_duplicate
                (enc_duplicate \<lparr>md_song = ba_id s, md_canonical = canonical, md_source = source\<rparr>) s)"

section \<open>The contract\<close>

lemma song_apply_frame:
  "song_apply e a = Ok a' \<Longrightarrow> ba_id a' = ba_id a \<and> ba_stype a' = ba_stype a
     \<and> ba_uncommitted a' = ba_uncommitted a \<and> ba_version a' = ev_version e"
  by (auto simp: song_apply_def Let_def bind_res_eq_Inr split: if_splits)

lemma song_apply_commutes:
  "song_apply e (with_uncommitted us a) = bind_res (song_apply e a) (\<lambda>b. Ok (with_uncommitted us b))"
  by (cases a) (simp add: song_apply_def with_uncommitted_def Let_def bind_res_assoc cong: if_cong)

lemma song_apply_version [simp]: "song_apply e (a\<lparr>ba_version := v\<rparr>) = song_apply e a"
  by (simp add: song_apply_def)

lemma song_apply_strip [simp]: "song_apply (strip e) a = song_apply e a"
  by (simp add: song_apply_def Let_def cong: if_cong)

interpretation song: aggregate song_apply empty_song stream_type_song
  by unfold_locales
    (auto simp: song_apply_frame song_apply_commutes empty_song_def stream_type_song_def)

end
