(* ===== verification/Catalog_Properties.thy ===== *)
theory Catalog_Properties
  imports Song_Aggregate
begin

text \<open>Correctness of the album and song aggregates.\<close>

section \<open>Commands\<close>

inductive album_command :: "album \<Rightarrow> album \<Rightarrow> bool" where
  "album_change_status st new a = Ok a' \<Longrightarrow> album_command a a'"
| "album_adjust_counts st c t a = Ok a' \<Longrightarrow> album_command a a'"

inductive song_command :: "song \<Rightarrow> song \<Rightarrow> bool" where
  "song_set_recent st r q p s = Ok s' \<Longrightarrow> song_command s s'"
| "song_enrich st al d ty src s = Ok (new, s') \<Longrightarrow> song_command s s'"
| "song_link_tidal st t how c s = Ok (new, s') \<Longrightarrow> song_command s s'"
| "song_correct st al d ty src s = Ok (new, s') \<Longrightarrow> song_command s s'"
| "song_correct_credits st ar src s = Ok (new, s') \<Longrightarrow> song_command s s'"
| "song_mark_duplicate st c src s = Ok (new, s') \<Longrightarrow> song_command s s'"

lemmas song_commands = song_set_recent_def song_enrich_def song_link_tidal_def song_correct_def
  song_correct_credits_def song_mark_duplicate_def song_record_def

lemma album_command_raise:
  "album_command a a' \<Longrightarrow> a' = a \<or> (\<exists>st et pl. et \<noteq> [] \<and> raise_event album_apply st et pl MetaNil a = Ok a')"
  by (induction rule: album_command.induct)
    (auto simp: album_change_status_def album_adjust_counts_def album_event_types split: if_splits)

lemma song_command_raise:
  "song_command s s' \<Longrightarrow> s' = s \<or> (\<exists>st et pl. et \<noteq> [] \<and> raise_event song_apply st et pl MetaNil s = Ok s')"
  by (induction rule: song_command.induct)
    (auto simp: song_commands song_event_types Let_def bind_res_eq_Inr split: if_splits)

lemma album_commands_sourced:
  assumes "album_command\<^sup>*\<^sup>* a a'" and "album.sourced hist a"
  shows "album.sourced hist a' \<and> ba_id a' = ba_id a"
  using assms
proof (induction rule: rtranclp_induct)
  case (step b c)
  then have b: "album.sourced hist b" "ba_id b = ba_id a" by simp_all
  from album_command_raise [OF step(2)] show ?case
  proof
    assume "\<exists>st et pl. et \<noteq> [] \<and> raise_event album_apply st et pl MetaNil b = Ok c"
    then obtain st et pl where r: "et \<noteq> []" "raise_event album_apply st et pl MetaNil b = Ok c" by blast
    from r(2) have "ba_id c = ba_id b" by (auto simp: album.raise_as_apply dest: album_apply_frame)
    with album.sourced_raise [OF b(1) r] b(2) show ?thesis by simp
  qed (use b in simp)
qed simp

lemma song_commands_sourced:
  assumes "song_command\<^sup>*\<^sup>* s s'" and "song.sourced hist s"
  shows "song.sourced hist s' \<and> ba_id s' = ba_id s"
  using assms
proof (induction rule: rtranclp_induct)
  case (step b c)
  then have b: "song.sourced hist b" "ba_id b = ba_id s" by simp_all
  from song_command_raise [OF step(2)] show ?case
  proof
    assume "\<exists>st et pl. et \<noteq> [] \<and> raise_event song_apply st et pl MetaNil b = Ok c"
    then obtain st et pl where r: "et \<noteq> []" "raise_event song_apply st et pl MetaNil b = Ok c" by blast
    from r(2) have "ba_id c = ba_id b" by (auto simp: song.raise_as_apply dest: song_apply_frame)
    with song.sourced_raise [OF b(1) r] b(2) show ?thesis by simp
  qed (use b in simp)
qed simp

lemma new_album_sourced:
  assumes "new_album st i title artist status c t = Ok a" and "i \<noteq> []"
  shows "album.sourced [] a"
proof -
  from assms(1) obtain pl where "raise_event album_apply st ev_album_created pl MetaNil (empty_album i) = Ok a"
    by (auto simp: new_album_def Let_def split: if_splits)
  moreover have "ev_album_created \<noteq> []" by (simp add: ev_album_created_def)
  ultimately show ?thesis using album.sourced_raise [OF album.sourced_init [OF assms(2)]] by blast
qed

lemma new_song_sourced:
  assumes "new_song st i title artist album_name date rtype spotify year seq pos recent = Ok a" and "i \<noteq> []"
  shows "song.sourced [] a"
proof -
  from assms(1) obtain pl where "raise_event song_apply st ev_song_created pl MetaNil (empty_song i) = Ok a"
    by (auto simp: new_song_def Let_def split: if_splits)
  moreover have "ev_song_created \<noteq> []" by (simp add: ev_song_created_def)
  ultimately show ?thesis using song.sourced_raise [OF song.sourced_init [OF assms(2)]] by blast
qed

section \<open>Properties\<close>

text \<open>
  C22. A catalog command is exactly its events: when the uncommitted events of an album or a song
  that was loaded and then changed by any commands reach the log, every later load gives the state
  the commands left in memory.
\<close>

theorem catalog_commands_persist:
  assumes "store_inv db" and "i \<noteq> []"
    and "append_events fault db i v es = (Ok (), db')" and "load_events None db' i = Ok loaded"
  shows "(album_replay i (history db i) = Ok a \<longrightarrow> album_command\<^sup>*\<^sup>* a a' \<longrightarrow>
           v = expected_version a' \<longrightarrow> es = ba_uncommitted a' \<longrightarrow>
           album_replay i loaded = Ok (clear_uncommitted a'))
    \<and> (song_replay i (history db i) = Ok s \<longrightarrow> song_command\<^sup>*\<^sup>* s s' \<longrightarrow>
           v = expected_version s' \<longrightarrow> es = ba_uncommitted s' \<longrightarrow>
           song_replay i loaded = Ok (clear_uncommitted s'))"
proof (intro conjI impI)
  note ok = stream_ok_strip [OF assms(1), of i]
  have hist: "history db' i = history db i @ map strip es"
    using append_events_ok(1) [OF assms(1), of fault i v es] assms(3) by simp
  show "album_replay i loaded = Ok (clear_uncommitted a')"
    if h: "album_replay i (history db i) = Ok a" "album_command\<^sup>*\<^sup>* a a'" "v = expected_version a'"
      "es = ba_uncommitted a'"
  proof -
    from h(1) have r: "replay_stream album_apply (empty_album i) (history db i) = Ok a"
      by (simp add: album_replay_def)
    from album.replay_sourced [OF ok assms(2) r] album_commands_sourced [OF h(2)]
    have "album.sourced (history db i) a'" "ba_id a' = i" by auto
    then show ?thesis
      using album.save_load [OF assms(1), of a' fault db' loaded] assms(3,4) h(3,4) hist
        album.replay_version [OF ok r] by (simp add: album_replay_def)
  qed
  show "song_replay i loaded = Ok (clear_uncommitted s')"
    if h: "song_replay i (history db i) = Ok s" "song_command\<^sup>*\<^sup>* s s'" "v = expected_version s'"
      "es = ba_uncommitted s'"
  proof -
    from h(1) have r: "replay_stream song_apply (empty_song i) (history db i) = Ok s"
      by (simp add: song_replay_def)
    from song.replay_sourced [OF ok assms(2) r] song_commands_sourced [OF h(2)]
    have "song.sourced (history db i) s'" "ba_id s' = i" by auto
    then show ?thesis
      using song.save_load [OF assms(1), of s' fault db' loaded] assms(3,4) h(3,4) hist
        song.replay_version [OF ok r] by (simp add: song_replay_def)
  qed
qed

definition sample_album :: album where
  "sample_album =
     (case new_album \<lparr>st_uuid = ''1'', st_now = 0\<rparr> ''al_1'' ''Damnation'' ''Opeth'' [] 3 8 of
        Inr a \<Rightarrow> a | Inl _ \<Rightarrow> empty_album [])"

definition sample_album_db :: sqlite where
  "sample_album_db = snd (append_events None empty_sqlite ''al_1'' 0 (ba_uncommitted sample_album))"

definition sample_album_full :: album where
  "sample_album_full =
     (case album_change_status \<lparr>st_uuid = ''2'', st_now = 0\<rparr> ''full'' (clear_uncommitted sample_album) of
        Inr a \<Rightarrow> a | Inl _ \<Rightarrow> empty_album [])"

theorem catalog_commands_persist_witness:
  "\<exists>db' loaded. append_events None sample_album_db ''al_1'' (expected_version sample_album_full)
        (ba_uncommitted sample_album_full) = (Ok (), db')
     \<and> load_events None db' ''al_1'' = Ok loaded \<and> length loaded = 2
     \<and> album_replay ''al_1'' loaded = Ok (clear_uncommitted sample_album_full)"
proof -
  let ?run = "append_events None sample_album_db ''al_1'' (expected_version sample_album_full)
        (ba_uncommitted sample_album_full)"
  have inv: "store_inv sample_album_db"
    by (simp add: sample_album_db_def append_events_inv empty_store_inv)
  have ok: "fst ?run = Ok ()"
    "case load_events None (snd ?run) ''al_1'' of Inr l \<Rightarrow> length l = 2 | Inl e \<Rightarrow> False" by code_simp+
  then obtain db' loaded where run: "?run = (Ok (), db')" "load_events None db' ''al_1'' = Ok loaded"
    "length loaded = 2" by (cases ?run) (auto split: sum.splits)
  have "album_replay ''al_1'' (history sample_album_db ''al_1'') = Ok (clear_uncommitted sample_album)"
    "album_change_status \<lparr>st_uuid = ''2'', st_now = 0\<rparr> ''full'' (clear_uncommitted sample_album) = Ok sample_album_full"
    by code_simp+
  with catalog_commands_persist [OF inv _ run(1,2), THEN conjunct1] have
    "album_replay ''al_1'' loaded = Ok (clear_uncommitted sample_album_full)"
    by (auto intro: album_command.intros)
  with run show ?thesis by blast
qed

lemma digit_bounds: "is_digit c \<Longrightarrow> 0 \<le> digit_value c" "is_digit c \<Longrightarrow> digit_value c \<le> 9"
  by (auto simp: is_digit_def digit_value_def)

lemma release_year_int64: "in_int64 (release_year_of d)"
proof (cases "\<exists>a b c e r. d = a # b # c # e # r \<and> list_all is_digit [a, b, c, e]")
  case True
  then obtain a b c e r where "d = a # b # c # e # r" "is_digit a" "is_digit b" "is_digit c" "is_digit e"
    by auto
  then show ?thesis
    using digit_bounds [of a] digit_bounds [of b] digit_bounds [of c] digit_bounds [of e]
    by (simp add: release_year_of_def in_int64_def Let_def)
next
  case False
  have "length d < 4 \<or> (\<exists>a b c e r. d = a # b # c # e # r)"
    by (cases d; cases "tl d"; cases "tl (tl d)"; cases "tl (tl (tl d))") auto
  with False have "release_year_of d = 0" by (auto simp: release_year_of_def)
  then show ?thesis by (simp add: in_int64_def)
qed

text \<open>
  Enrichment only fills gaps and converges: it succeeds, keeps every field the song already
  knows, and running it again with the same values records nothing.
\<close>

theorem song_enrich_converges:
  assumes "in_int64 (so_year s)"
  shows "\<exists>new s'. song_enrich st al d ty src s = Ok (new, s')
    \<and> (so_album s \<noteq> [] \<longrightarrow> so_album s' = so_album s) \<and> (so_date s \<noteq> [] \<longrightarrow> so_date s' = so_date s)
    \<and> (so_type s \<noteq> [] \<longrightarrow> so_type s' = so_type s) \<and> (so_year s \<noteq> 0 \<longrightarrow> so_year s' = so_year s)
    \<and> so_title s' = so_title s \<and> so_artist s' = so_artist s
    \<and> (\<not> new \<longrightarrow> s' = s)
    \<and> song_enrich st' al d ty src s' = Ok (False, s')"
proof -
  define a where "a = (if so_album s = [] then trim_space al else so_album s)"
  define dt where "dt = (if so_date s = [] then trim_space d else so_date s)"
  define t where "t = (if so_type s = [] then trim_space ty else so_type s)"
  define y where "y = (if so_year s = 0 \<and> dt \<noteq> [] then release_year_of dt else so_year s)"
  have iy: "in_int64 y" using assms release_year_int64 by (simp add: y_def)
  show ?thesis
  proof (cases "a = so_album s \<and> dt = so_date s \<and> y = so_year s \<and> t = so_type s")
    case True
    then have "song_enrich st'' al d ty src s = Ok (False, s)" for st''
      unfolding song_enrich_def Let_def a_def [symmetric] dt_def [symmetric] t_def [symmetric]
        y_def [symmetric] by simp
    then show ?thesis by auto
  next
    case False
    let ?pl = "enc_song_metadata \<lparr>sm_song = ba_id s, sm_album = a, sm_date = dt, sm_year = y,
        sm_type = t, sm_source = trim_space src\<rparr>"
    have "song_enrich st al d ty src s = song_record st ev_song_enriched ?pl s"
      using False unfolding song_enrich_def Let_def a_def [symmetric] dt_def [symmetric]
        t_def [symmetric] y_def [symmetric] by auto
    also have "\<exists>s'. song_record st ev_song_enriched ?pl s = Ok (True, s') \<and> so_album s' = a \<and> so_date s' = dt
        \<and> so_year s' = y \<and> so_type s' = t \<and> so_title s' = so_title s \<and> so_artist s' = so_artist s"
      using iy by (simp add: song_record_def song.raise_as_apply song_apply_def Let_def decode_new_event
          song_event_types t_def)
    finally obtain s' where s': "song_enrich st al d ty src s = Ok (True, s')" "so_album s' = a"
      "so_date s' = dt" "so_year s' = y" "so_type s' = t" "so_title s' = so_title s"
      "so_artist s' = so_artist s" by blast
    have "song_enrich st' al d ty src s' = Ok (False, s')"
      unfolding song_enrich_def Let_def using s' by (simp add: a_def dt_def t_def y_def)
    with s' show ?thesis by (intro exI [of _ True] exI [of _ s']) (simp add: a_def dt_def t_def y_def)
  qed
qed

theorem song_enrich_converges_witness:
  "\<exists>new s'. song_enrich \<lparr>st_uuid = ''1'', st_now = 0\<rparr> ''Damnation'' ''2003-04-22'' ''album'' ''tidal''
       ((empty_song ''so_1'')\<lparr>so_title := ''Windowpane'', so_type := ''single''\<rparr>) = Ok (new, s')
     \<and> so_type s' = ''single''"
  using song_enrich_converges [of "(empty_song ''so_1'')\<lparr>so_title := ''Windowpane'', so_type := ''single''\<rparr>"]
  by (force simp: empty_song_def in_int64_def)

end
