(* ===== verification/Scrape_Job.thy ===== *)
theory Scrape_Job
  imports Aggregate_Repository
begin

text \<open>
  The scrape job aggregate (\<^verbatim>\<open>internal/domain/scrapejob/scrapejob.go\<close>): the lifecycle of one
  request, from requested over started attempts to succeeded or dead-lettered.
\<close>

section \<open>Events\<close>

definition ev_requested :: string where "ev_requested = ''ScrapeRequested''"
definition ev_started :: string where "ev_started = ''ScrapeStarted''"
definition ev_succeeded :: string where "ev_succeeded = ''ScrapeSucceeded''"
definition ev_failed :: string where "ev_failed = ''ScrapeFailed''"
definition ev_dead_lettered :: string where "ev_dead_lettered = ''ScrapeDeadLettered''"

lemmas job_event_types = ev_requested_def ev_started_def ev_succeeded_def ev_failed_def
  ev_dead_lettered_def

definition st_queued :: string where "st_queued = ''queued''"
definition st_processing :: string where "st_processing = ''processing''"
definition st_succeeded :: string where "st_succeeded = ''succeeded''"
definition st_failed :: string where "st_failed = ''failed''"
definition st_dead_lettered :: string where "st_dead_lettered = ''dead_lettered''"

lemmas job_statuses = st_queued_def st_processing_def st_succeeded_def st_failed_def
  st_dead_lettered_def

record job_requested =
  jr_request :: string
  jr_artist :: string
  jr_command :: string

definition enc_job_requested :: "job_requested \<Rightarrow> json" where
  "enc_job_requested p =
     JObj ((''request_id'', JStr (jr_request p)) # (''artist_id'', JStr (jr_artist p)) #
           omit_str ''command_type'' (jr_command p))"

definition dec_job_requested :: "json \<Rightarrow> job_requested option" where
  "dec_job_requested j =
     do { m \<leftarrow> dec_obj j; r \<leftarrow> dec_str (jfield m ''request_id''); a \<leftarrow> dec_str (jfield m ''artist_id'');
          c \<leftarrow> dec_str (jfield m ''command_type'');
          Some \<lparr>jr_request = r, jr_artist = a, jr_command = c\<rparr> }"

record job_started =
  jst_request :: string
  jst_artist :: string
  jst_attempt :: int

definition enc_job_started :: "job_started \<Rightarrow> json" where
  "enc_job_started p =
     JObj [(''request_id'', JStr (jst_request p)), (''artist_id'', JStr (jst_artist p)),
           (''attempt'', JInt (jst_attempt p))]"

definition dec_job_started :: "json \<Rightarrow> job_started option" where
  "dec_job_started j =
     do { m \<leftarrow> dec_obj j; r \<leftarrow> dec_str (jfield m ''request_id''); a \<leftarrow> dec_str (jfield m ''artist_id'');
          n \<leftarrow> dec_int (jfield m ''attempt'');
          Some \<lparr>jst_request = r, jst_artist = a, jst_attempt = n\<rparr> }"

record job_succeeded =
  jsu_request :: string
  jsu_artist :: string
  jsu_provider :: string
  jsu_duration :: int

definition enc_job_succeeded :: "job_succeeded \<Rightarrow> json" where
  "enc_job_succeeded p =
     JObj ((''request_id'', JStr (jsu_request p)) # (''artist_id'', JStr (jsu_artist p)) #
           omit_str ''provider'' (jsu_provider p) @ omit_int ''duration_ms'' (jsu_duration p))"

definition dec_job_succeeded :: "json \<Rightarrow> job_succeeded option" where
  "dec_job_succeeded j =
     do { m \<leftarrow> dec_obj j; r \<leftarrow> dec_str (jfield m ''request_id''); a \<leftarrow> dec_str (jfield m ''artist_id'');
          p \<leftarrow> dec_str (jfield m ''provider''); d \<leftarrow> dec_int (jfield m ''duration_ms'');
          Some \<lparr>jsu_request = r, jsu_artist = a, jsu_provider = p, jsu_duration = d\<rparr> }"

text \<open>\<^verbatim>\<open>FailedPayload\<close> and \<^verbatim>\<open>DeadLetteredPayload\<close> have the same members.\<close>

record job_failed =
  jf_request :: string
  jf_artist :: string
  jf_error :: string

definition enc_job_failed :: "job_failed \<Rightarrow> json" where
  "enc_job_failed p =
     JObj ((''request_id'', JStr (jf_request p)) # (''artist_id'', JStr (jf_artist p)) #
           omit_str ''error'' (jf_error p))"

definition dec_job_failed :: "json \<Rightarrow> job_failed option" where
  "dec_job_failed j =
     do { m \<leftarrow> dec_obj j; r \<leftarrow> dec_str (jfield m ''request_id''); a \<leftarrow> dec_str (jfield m ''artist_id'');
          e \<leftarrow> dec_str (jfield m ''error'');
          Some \<lparr>jf_request = r, jf_artist = a, jf_error = e\<rparr> }"

lemma dec_enc_job [simp]:
  "dec_job_requested (normalize_ron_time (enc_job_requested r)) = Some r"
  "in_int64 (jst_attempt s) \<Longrightarrow> dec_job_started (normalize_ron_time (enc_job_started s)) = Some s"
  "in_int64 (jsu_duration u) \<Longrightarrow> dec_job_succeeded (normalize_ron_time (enc_job_succeeded u)) = Some u"
  "dec_job_failed (normalize_ron_time (enc_job_failed f)) = Some f"
  by (simp_all add: enc_job_requested_def dec_job_requested_def enc_job_started_def dec_job_started_def
      enc_job_succeeded_def dec_job_succeeded_def enc_job_failed_def dec_job_failed_def utc_key_def)

section \<open>The aggregate\<close>

record job = base_agg +
  jb_request :: string
  jb_artist :: string
  jb_status :: string
  jb_attempts :: int
  jb_closed :: bool

definition stream_type_job :: string where "stream_type_job = ''scrapejob''"

definition empty_job :: "string \<Rightarrow> job" where
  "empty_job i =
     \<lparr>ba_id = i, ba_stype = stream_type_job, ba_version = 0, ba_uncommitted = [],
      jb_request = [], jb_artist = [], jb_status = [], jb_attempts = 0, jb_closed = False\<rparr>"

definition job_apply :: "event \<Rightarrow> job \<Rightarrow> job res" where
  "job_apply e j0 =
     (let j = j0\<lparr>ba_version := ev_version e\<rparr>; et = ev_type e in
      if et = ev_requested then
        bind_res (wrap_err ''unmarshaling'' (decode_event dec_job_requested e)) (\<lambda>pl.
          Ok (j\<lparr>jb_request := jr_request pl, jb_artist := jr_artist pl, jb_status := st_queued\<rparr>))
      else if et = ev_started then
        bind_res (wrap_err ''unmarshaling'' (decode_event dec_job_started e)) (\<lambda>pl.
          Ok (j\<lparr>jb_attempts := jb_attempts j + 1, jb_status := st_processing\<rparr>))
      else if et = ev_succeeded then
        bind_res (wrap_err ''unmarshaling'' (decode_event dec_job_succeeded e)) (\<lambda>pl.
          Ok (j\<lparr>jb_status := st_succeeded, jb_closed := True\<rparr>))
      else if et = ev_failed then
        bind_res (wrap_err ''unmarshaling'' (decode_event dec_job_failed e)) (\<lambda>pl.
          Ok (j\<lparr>jb_status := st_failed\<rparr>))
      else if et = ev_dead_lettered then
        bind_res (wrap_err ''unmarshaling'' (decode_event dec_job_failed e)) (\<lambda>pl.
          Ok (j\<lparr>jb_status := st_dead_lettered, jb_closed := True\<rparr>))
      else Ok j)"

definition job_replay :: "string \<Rightarrow> event list \<Rightarrow> job res" where
  "job_replay i = replay_stream job_apply (empty_job i)"

definition job_is_terminal :: "job \<Rightarrow> bool" where "job_is_terminal j = jb_closed j"

section \<open>Commands\<close>

definition new_scrape_job :: "stamp \<Rightarrow> string \<Rightarrow> string \<Rightarrow> string \<Rightarrow> job res" where
  "new_scrape_job st request_id artist_id command_type =
     (if request_id = [] then fail_msg ''scrapejob: request_id cannot be empty''
      else if artist_id = [] then fail_msg ''scrapejob: artist_id cannot be empty''
      else raise_event job_apply st ev_requested
             (enc_job_requested \<lparr>jr_request = request_id, jr_artist = artist_id,
                                 jr_command = command_type\<rparr>) MetaNil
             ((empty_job request_id)\<lparr>jb_request := request_id, jb_artist := artist_id\<rparr>))"

definition job_meta :: "correlation list \<Rightarrow> meta_arg" where
  "job_meta corr = MetaMap (correlation_metadata (first_correlation corr) None)"

text \<open>The recording methods; the flag says whether there is a new fact.\<close>

definition job_record :: "string \<Rightarrow> json \<Rightarrow> stamp \<Rightarrow> correlation list \<Rightarrow> job \<Rightarrow> (bool \<times> job) res" where
  "job_record et payload st corr j =
     (if jb_closed j then Ok (False, j)
      else bind_res (raise_event job_apply st et payload (job_meta corr) j) (\<lambda>j'. Ok (True, j')))"

definition record_started :: "stamp \<Rightarrow> correlation list \<Rightarrow> job \<Rightarrow> (bool \<times> job) res" where
  "record_started st corr j =
     job_record ev_started
       (enc_job_started \<lparr>jst_request = jb_request j, jst_artist = jb_artist j,
                         jst_attempt = jb_attempts j + 1\<rparr>) st corr j"

definition record_succeeded ::
    "stamp \<Rightarrow> string \<Rightarrow> int \<Rightarrow> correlation list \<Rightarrow> job \<Rightarrow> (bool \<times> job) res" where
  "record_succeeded st provider duration corr j =
     job_record ev_succeeded
       (enc_job_succeeded \<lparr>jsu_request = jb_request j, jsu_artist = jb_artist j,
                           jsu_provider = provider, jsu_duration = duration\<rparr>) st corr j"

definition record_failed :: "stamp \<Rightarrow> string \<Rightarrow> correlation list \<Rightarrow> job \<Rightarrow> (bool \<times> job) res" where
  "record_failed st err corr j =
     job_record ev_failed
       (enc_job_failed \<lparr>jf_request = jb_request j, jf_artist = jb_artist j, jf_error = err\<rparr>) st corr j"

definition record_dead_lettered ::
    "stamp \<Rightarrow> string \<Rightarrow> correlation list \<Rightarrow> job \<Rightarrow> (bool \<times> job) res" where
  "record_dead_lettered st err corr j =
     job_record ev_dead_lettered
       (enc_job_failed \<lparr>jf_request = jb_request j, jf_artist = jb_artist j, jf_error = err\<rparr>) st corr j"

section \<open>The contract\<close>

lemma job_apply_frame:
  "job_apply e a = Ok a' \<Longrightarrow> ba_id a' = ba_id a \<and> ba_stype a' = ba_stype a
     \<and> ba_uncommitted a' = ba_uncommitted a \<and> ba_version a' = ev_version e"
  by (auto simp: job_apply_def Let_def bind_res_eq_Inr split: if_splits)

lemma job_apply_commutes:
  "job_apply e (with_uncommitted us a) = bind_res (job_apply e a) (\<lambda>b. Ok (with_uncommitted us b))"
  by (cases a) (simp add: job_apply_def with_uncommitted_def Let_def bind_res_assoc cong: if_cong)

lemma job_apply_version [simp]: "job_apply e (a\<lparr>ba_version := v\<rparr>) = job_apply e a"
  by (simp add: job_apply_def)

lemma job_apply_strip [simp]: "job_apply (strip e) a = job_apply e a"
  by (simp add: job_apply_def Let_def cong: if_cong)

interpretation job: aggregate job_apply empty_job stream_type_job
  by unfold_locales
    (auto simp: job_apply_frame job_apply_commutes empty_job_def stream_type_job_def)

section \<open>The lifecycle\<close>

text \<open>The commands as steps of a state machine.\<close>

inductive job_command :: "job \<Rightarrow> bool \<Rightarrow> job \<Rightarrow> bool" where
  cmd_started: "record_started st corr j = Ok (new, j') \<Longrightarrow> job_command j new j'"
| cmd_succeeded: "record_succeeded st p d corr j = Ok (new, j') \<Longrightarrow> job_command j new j'"
| cmd_failed: "record_failed st err corr j = Ok (new, j') \<Longrightarrow> job_command j new j'"
| cmd_dead: "record_dead_lettered st err corr j = Ok (new, j') \<Longrightarrow> job_command j new j'"

inductive job_reachable :: "string \<Rightarrow> event list \<Rightarrow> job \<Rightarrow> bool" where
  job_fresh: "new_scrape_job st i a c = Ok j \<Longrightarrow> job_reachable i [] j"
| job_loaded: "stream_ok hist \<Longrightarrow> i \<noteq> [] \<Longrightarrow> job_replay i hist = Ok j \<Longrightarrow> job_reachable i (map strip hist) j"
| job_moved: "job_reachable i hist j \<Longrightarrow> job_command j new j' \<Longrightarrow> job_reachable i hist j'"

lemmas job_records = record_started_def record_succeeded_def record_failed_def record_dead_lettered_def

lemma job_command_raise:
  assumes "job_command j new j'"
  shows "(jb_closed j \<and> \<not> new \<and> j' = j)
    \<or> (\<not> jb_closed j \<and> new \<and> (\<exists>st et payload md.
         et \<in> {ev_started, ev_succeeded, ev_failed, ev_dead_lettered}
       \<and> raise_event job_apply st et payload md j = Ok j'))"
  using assms
  by (cases rule: job_command.cases)
    (auto simp: job_records job_record_def bind_res_eq_Inr split: if_splits)

lemma new_job_raise:
  assumes "new_scrape_job st i a c = Ok j"
  shows "i \<noteq> []" and "\<exists>pl. raise_event job_apply st ev_requested pl MetaNil (empty_job i) = Ok j"
  using assms
  by (auto simp: new_scrape_job_def raise_event_def record_that_def Let_def job_apply_def
      empty_job_def split: if_splits)

lemma job_reachable_sourced: "job_reachable i hist j \<Longrightarrow> job.sourced hist j \<and> ba_id j = i"
proof (induction rule: job_reachable.induct)
  case (job_fresh st i a c j)
  from new_job_raise [OF this] obtain pl where
    r: "i \<noteq> []" "raise_event job_apply st ev_requested pl MetaNil (empty_job i) = Ok j" by blast
  then have "job.sourced [] j"
    by (intro job.sourced_raise [OF job.sourced_init, of i]) (simp_all add: ev_requested_def)
  moreover have "ba_id j = i"
    using r(2) by (auto simp: raise_event_def record_that_def Let_def empty_job_def dest!: job_apply_frame)
  ultimately show ?case by simp
next
  case (job_loaded hist i j)
  then show ?case using job.replay_sourced [of hist i j] by (simp add: job_replay_def)
next
  case (job_moved i hist j new j')
  from job_command_raise [OF job_moved(2)] show ?case
  proof
    assume "\<not> jb_closed j \<and> new \<and> (\<exists>st et payload md.
         et \<in> {ev_started, ev_succeeded, ev_failed, ev_dead_lettered}
       \<and> raise_event job_apply st et payload md j = Ok j')"
    then obtain st et payload md where r: "et \<in> {ev_started, ev_succeeded, ev_failed, ev_dead_lettered}"
      "raise_event job_apply st et payload md j = Ok j'" by blast
    then have "et \<noteq> []" by (auto simp: job_event_types)
    with job.sourced_raise [OF _ this r(2)] job_moved have "job.sourced hist j'" by simp
    moreover have "ba_id j' = ba_id j"
      using r(2) by (auto simp: raise_event_def record_that_def Let_def dest!: job_apply_frame)
    ultimately show ?thesis using job_moved by simp
  qed (use job_moved in auto)
qed

end
