(* ===== verification/Scrape_Job_Lifecycle.thy ===== *)
theory Scrape_Job_Lifecycle
  imports Scrape_Job
begin

text \<open>The lifecycle of a scrape job as a property of its stream, and of the state replayed from it.\<close>

section \<open>State and stream\<close>

definition job_event_kinds :: "string list" where
  "job_event_kinds = [ev_requested, ev_started, ev_succeeded, ev_failed, ev_dead_lettered]"

definition job_terminal_kinds :: "string list" where
  "job_terminal_kinds = [ev_succeeded, ev_dead_lettered]"

definition status_after :: "string \<Rightarrow> string" where
  "status_after et =
     (if et = ev_requested then st_queued else if et = ev_started then st_processing
      else if et = ev_succeeded then st_succeeded else if et = ev_failed then st_failed
      else st_dead_lettered)"

definition starts :: "event list \<Rightarrow> nat" where
  "starts es = length (filter (\<lambda>e. ev_type e = ev_started) es)"

lemma job_apply_effect:
  assumes "job_apply e j = Ok j'" and "ev_type e \<in> set job_event_kinds"
  shows "jb_closed j' \<longleftrightarrow> jb_closed j \<or> ev_type e \<in> set job_terminal_kinds"
    and "jb_status j' = status_after (ev_type e)"
    and "jb_attempts j' = jb_attempts j + int (starts [e])"
  using assms
  by (auto simp: job_apply_def Let_def bind_res_eq_Inr job_event_kinds_def job_terminal_kinds_def
      status_after_def starts_def job_event_types split: if_splits)

lemma job_events_effect:
  assumes "apply_events job_apply j es = Ok j'" and "set (map ev_type es) \<subseteq> set job_event_kinds"
  shows "(jb_closed j' \<longleftrightarrow> jb_closed j \<or> (\<exists>e\<in>set es. ev_type e \<in> set job_terminal_kinds))
    \<and> jb_status j' = (if es = [] then jb_status j else status_after (ev_type (last es)))
    \<and> jb_attempts j' = jb_attempts j + int (starts es)"
  using assms
proof (induction es arbitrary: j)
  case (Cons e es)
  from Cons.prems obtain j1 where j1: "job_apply e j = Ok j1" "apply_events job_apply j1 es = Ok j'"
    "ev_type e \<in> set job_event_kinds" by (auto simp: bind_res_eq_Inr)
  from job_apply_effect [OF j1(1,3)] Cons.IH [OF j1(2)] Cons.prems(2) show ?case
    by (auto simp: starts_def)
qed (simp add: starts_def)

text \<open>
  A lifecycle: one request, then attempts and failures, then at most one final event.
\<close>

definition lifecycle :: "string list \<Rightarrow> bool" where
  "lifecycle ts \<longleftrightarrow>
     (case ts of
        [] \<Rightarrow> False
      | t # rest \<Rightarrow>
          t = ev_requested \<and> (\<forall>u\<in>set (butlast rest). u \<in> {ev_started, ev_failed})
        \<and> (rest \<noteq> [] \<longrightarrow> last rest \<in> {ev_started, ev_failed, ev_succeeded, ev_dead_lettered}))"

lemma lifecycle_kinds: "lifecycle ts \<Longrightarrow> set ts \<subseteq> set job_event_kinds"
  by (cases ts; cases "tl ts" rule: rev_cases) (auto simp: lifecycle_def job_event_kinds_def)

lemma lifecycle_snoc:
  assumes "lifecycle ts" and "set ts \<inter> set job_terminal_kinds = {}"
    and "t \<in> {ev_started, ev_succeeded, ev_failed, ev_dead_lettered}"
  shows "lifecycle (ts @ [t])"
proof -
  from assms(1) obtain rest where ts: "ts = ev_requested # rest"
    by (cases ts) (auto simp: lifecycle_def)
  have "\<forall>u\<in>set rest. u \<in> {ev_started, ev_failed}"
    using assms(1,2) by (cases rest rule: rev_cases) (auto simp: ts lifecycle_def job_terminal_kinds_def)
  with assms(3) show ?thesis by (auto simp: ts lifecycle_def)
qed

lemma raise_job_types:
  "raise_event job_apply st et payload md j = Ok j' \<Longrightarrow>
     map ev_type (ba_uncommitted j') = map ev_type (ba_uncommitted j) @ [et]"
  by (auto simp: raise_event_def record_that_def Let_def dest!: job_apply_frame)

lemma job_state_of_stream:
  assumes "job.sourced hist j" and "lifecycle (map ev_type (hist @ ba_uncommitted j))"
  shows "jb_closed j \<longleftrightarrow> (\<exists>e\<in>set (hist @ ba_uncommitted j). ev_type e \<in> set job_terminal_kinds)"
    and "jb_status j = status_after (ev_type (last (hist @ ba_uncommitted j)))"
    and "jb_attempts j = int (starts (hist @ ba_uncommitted j))"
proof -
  let ?es = "hist @ ba_uncommitted j"
  have run: "apply_events job_apply (empty_job (ba_id j)) ?es = Ok (with_uncommitted [] j)"
    using assms(1) by (simp add: job.sourced_def)
  have ne: "?es \<noteq> []" using assms(2) by (auto simp: lifecycle_def split: list.splits)
  from job_events_effect [OF run] lifecycle_kinds [OF assms(2)] ne
  show "jb_closed j \<longleftrightarrow> (\<exists>e\<in>set ?es. ev_type e \<in> set job_terminal_kinds)"
    "jb_status j = status_after (ev_type (last ?es))" "jb_attempts j = int (starts ?es)"
    by (auto simp: empty_job_def with_uncommitted_def)
qed

lemma job_reachable_lifecycle:
  "job_reachable i hist j \<Longrightarrow> hist = [] \<or> lifecycle (map ev_type hist) \<Longrightarrow>
     lifecycle (map ev_type (hist @ ba_uncommitted j))"
proof (induction rule: job_reachable.induct)
  case (job_fresh st i a c j)
  from new_job_raise(2) [OF job_fresh(1)] obtain pl where
    "raise_event job_apply st ev_requested pl MetaNil (empty_job i) = Ok j" by blast
  from raise_job_types [OF this] show ?case by (simp add: empty_job_def lifecycle_def)
next
  case (job_loaded hist i j)
  from job.replay_sourced(3) [of hist i j] job_loaded have "ba_uncommitted j = []"
    by (simp add: job_replay_def)
  moreover have "hist \<noteq> []" using job_loaded(3) by (auto simp: job_replay_def replay_stream_def)
  ultimately show ?case using job_loaded(4) by (simp add: comp_def)
next
  case (job_moved i hist j new j')
  have life: "lifecycle (map ev_type (hist @ ba_uncommitted j))" by (rule job_moved.IH [OF job_moved.prems])
  have src: "job.sourced hist j" using job_reachable_sourced [OF job_moved(1)] by simp
  from job_command_raise [OF job_moved(2)] show ?case
  proof
    assume "\<not> jb_closed j \<and> new \<and> (\<exists>st et payload md.
         et \<in> {ev_started, ev_succeeded, ev_failed, ev_dead_lettered}
       \<and> raise_event job_apply st et payload md j = Ok j')"
    then obtain st et payload md where r: "\<not> jb_closed j"
      "et \<in> {ev_started, ev_succeeded, ev_failed, ev_dead_lettered}"
      "raise_event job_apply st et payload md j = Ok j'" by blast
    have "set (map ev_type (hist @ ba_uncommitted j)) \<inter> set job_terminal_kinds = {}"
      using job_state_of_stream(1) [OF src life] r(1) by auto
    from lifecycle_snoc [OF life this r(2)] raise_job_types [OF r(3)] show ?thesis by simp
  qed (use life in auto)
qed

section \<open>Properties\<close>

text \<open>
  C24. However a scrape job comes about, by opening it or by replaying its stream, and whatever
  commands follow, its stream is a lifecycle: one request first, then any number of attempts and
  failures, then at most one success or dead-lettering, after which nothing more is recorded; and
  the job's status, its attempt counter and whether it is closed are what the stream says.
\<close>

theorem job_lifecycle:
  assumes "job_reachable i hist j" and "hist = [] \<or> lifecycle (map ev_type hist)"
  shows "lifecycle (map ev_type (hist @ ba_uncommitted j))
    \<and> (job_is_terminal j \<longleftrightarrow> ev_type (last (hist @ ba_uncommitted j)) \<in> set job_terminal_kinds)
    \<and> jb_status j = status_after (ev_type (last (hist @ ba_uncommitted j)))
    \<and> jb_attempts j = int (starts (hist @ ba_uncommitted j))
    \<and> (job_command j new j' \<longrightarrow> job_is_terminal j \<longrightarrow> \<not> new \<and> j' = j)"
proof (intro conjI)
  let ?es = "hist @ ba_uncommitted j"
  have life: "lifecycle (map ev_type ?es)" by (rule job_reachable_lifecycle [OF assms])
  have src: "job.sourced hist j" using job_reachable_sourced [OF assms(1)] by simp
  show "lifecycle (map ev_type ?es)" by (rule life)
  show "jb_status j = status_after (ev_type (last ?es))" "jb_attempts j = int (starts ?es)"
    using job_state_of_stream [OF src life] by simp_all
  have "?es \<noteq> []" using life by (auto simp: lifecycle_def split: list.splits)
  then obtain xs e where es: "?es = xs @ [e]" by (metis rev_exhaust)
  have "ev_type x \<notin> set job_terminal_kinds" if "x \<in> set xs" for x
    using life that unfolding es
    by (cases xs) (auto simp: lifecycle_def job_terminal_kinds_def job_event_types)
  with job_state_of_stream(1) [OF src life] es
  show "job_is_terminal j \<longleftrightarrow> ev_type (last ?es) \<in> set job_terminal_kinds"
    by (auto simp: job_is_terminal_def)
  show "job_command j new j' \<longrightarrow> job_is_terminal j \<longrightarrow> \<not> new \<and> j' = j"
    by (auto simp: job_is_terminal_def dest!: job_command_raise)
qed

definition sample_job :: "job res" where
  "sample_job = new_scrape_job \<lparr>st_uuid = ''1'', st_now = 0\<rparr> ''req_1'' ''ar_1'' ''refresh''"

theorem job_lifecycle_witness:
  "\<exists>j. sample_job = Ok j \<and> lifecycle (map ev_type (ba_uncommitted j)) \<and> \<not> job_is_terminal j"
proof -
  have "case sample_job of Inr j \<Rightarrow> True | Inl e \<Rightarrow> False" by code_simp
  then obtain j where j: "sample_job = Ok j" by (auto split: sum.splits)
  then have r: "job_reachable ''req_1'' [] j" unfolding sample_job_def by (rule job_fresh)
  have "case sample_job of Inr j \<Rightarrow> ev_type (last (ba_uncommitted j)) \<notin> set job_terminal_kinds | Inl e \<Rightarrow> False"
    by code_simp
  then have "ev_type (last (ba_uncommitted j)) \<notin> set job_terminal_kinds" unfolding j by simp
  with j job_lifecycle [OF r, of False j] show ?thesis by auto
qed

end
