(* ===== verification/Batch_Run.thy ===== *)
theory Batch_Run
  imports Aggregate_Repository
begin

text \<open>
  The batch aggregate (\<^verbatim>\<open>internal/domain/batch/batch.go\<close>): one refresh run over a set of artists.
  The maps of the code are association lists without duplicate keys.
\<close>

section \<open>Events\<close>

definition ev_batch_started :: string where "ev_batch_started = ''BatchStarted''"
definition ev_batch_artist :: string where "ev_batch_artist = ''BatchArtistCompleted''"
definition ev_batch_completed :: string where "ev_batch_completed = ''BatchCompleted''"

lemmas batch_event_types = ev_batch_started_def ev_batch_artist_def ev_batch_completed_def

record batch_started =
  bs_batch :: string
  bs_artists :: "string list"
  bs_stats :: "(string \<times> int) list"

definition enc_batch_started :: "batch_started \<Rightarrow> json" where
  "enc_batch_started p =
     JObj [(''batch_id'', JStr (bs_batch p)), (''artist_ids'', enc_strs (bs_artists p)),
           (''stats'', enc_ints (bs_stats p))]"

definition dec_batch_started :: "json \<Rightarrow> batch_started option" where
  "dec_batch_started j =
     do { m \<leftarrow> dec_obj j; b \<leftarrow> dec_str (jfield m ''batch_id'');
          as \<leftarrow> dec_list dec_str (jfield m ''artist_ids''); s \<leftarrow> dec_map dec_int (jfield m ''stats'');
          Some \<lparr>bs_batch = b, bs_artists = as, bs_stats = s\<rparr> }"

record batch_artist_completed =
  bac_batch :: string
  bac_artist :: string

definition enc_batch_artist :: "batch_artist_completed \<Rightarrow> json" where
  "enc_batch_artist p = JObj [(''batch_id'', JStr (bac_batch p)), (''artist_id'', JStr (bac_artist p))]"

definition dec_batch_artist :: "json \<Rightarrow> batch_artist_completed option" where
  "dec_batch_artist j =
     do { m \<leftarrow> dec_obj j; b \<leftarrow> dec_str (jfield m ''batch_id''); a \<leftarrow> dec_str (jfield m ''artist_id'');
          Some \<lparr>bac_batch = b, bac_artist = a\<rparr> }"

record batch_completed =
  bc_batch :: string
  bc_total :: int
  bc_completed :: int

definition enc_batch_completed :: "batch_completed \<Rightarrow> json" where
  "enc_batch_completed p =
     JObj [(''batch_id'', JStr (bc_batch p)), (''total'', JInt (bc_total p)),
           (''completed'', JInt (bc_completed p))]"

definition dec_batch_completed :: "json \<Rightarrow> batch_completed option" where
  "dec_batch_completed j =
     do { m \<leftarrow> dec_obj j; b \<leftarrow> dec_str (jfield m ''batch_id''); t \<leftarrow> dec_int (jfield m ''total'');
          c \<leftarrow> dec_int (jfield m ''completed'');
          Some \<lparr>bc_batch = b, bc_total = t, bc_completed = c\<rparr> }"

definition stats_ok :: "(string \<times> int) list \<Rightarrow> bool" where
  "stats_ok s \<longleftrightarrow> utc_key \<notin> fst ` set s \<and> (\<forall>kv\<in>set s. in_int64 (snd kv))"

lemma dec_enc_batch [simp]:
  "stats_ok (bs_stats s) \<Longrightarrow> dec_batch_started (normalize_ron_time (enc_batch_started s)) = Some s"
  "dec_batch_artist (normalize_ron_time (enc_batch_artist a)) = Some a"
  "in_int64 (bc_total c) \<Longrightarrow> in_int64 (bc_completed c) \<Longrightarrow>
     dec_batch_completed (normalize_ron_time (enc_batch_completed c)) = Some c"
  by (simp_all add: enc_batch_started_def dec_batch_started_def enc_batch_artist_def
      dec_batch_artist_def enc_batch_completed_def dec_batch_completed_def stats_ok_def)
    (simp_all add: utc_key_def)

section \<open>The aggregate\<close>

record batch = base_agg +
  bt_members :: "(string \<times> bool) list"
  bt_stats :: "(string \<times> int) list"
  bt_closed :: bool

definition stream_type_batch :: string where "stream_type_batch = ''batch''"

definition empty_batch :: "string \<Rightarrow> batch" where
  "empty_batch i =
     \<lparr>ba_id = i, ba_stype = stream_type_batch, ba_version = 0, ba_uncommitted = [],
      bt_members = [], bt_stats = [], bt_closed = False\<rparr>"

definition add_member :: "(string \<times> bool) list \<Rightarrow> string \<Rightarrow> (string \<times> bool) list" where
  "add_member ms i = (if i \<in> fst ` set ms then ms else ms @ [(i, False)])"

definition batch_apply :: "event \<Rightarrow> batch \<Rightarrow> batch res" where
  "batch_apply e b0 =
     (let b = b0\<lparr>ba_version := ev_version e\<rparr>; et = ev_type e in
      if et = ev_batch_started then
        bind_res (wrap_err ''unmarshaling'' (decode_event dec_batch_started e)) (\<lambda>pl.
          Ok (b\<lparr>bt_members := foldl add_member (bt_members b) (bs_artists pl), bt_stats := bs_stats pl\<rparr>))
      else if et = ev_batch_artist then
        bind_res (wrap_err ''unmarshaling'' (decode_event dec_batch_artist e)) (\<lambda>pl.
          Ok (if bac_artist pl \<in> fst ` set (bt_members b)
              then b\<lparr>bt_members := kv_put (bac_artist pl) True (bt_members b)\<rparr> else b))
      else if et = ev_batch_completed then
        bind_res (wrap_err ''unmarshaling'' (decode_event dec_batch_completed e)) (\<lambda>pl.
          Ok (b\<lparr>bt_closed := True\<rparr>))
      else Ok b)"

definition batch_replay :: "string \<Rightarrow> event list \<Rightarrow> batch res" where
  "batch_replay i = replay_stream batch_apply (empty_batch i)"

definition batch_total :: "batch \<Rightarrow> int" where "batch_total b = int (length (bt_members b))"

definition batch_completed_count :: "batch \<Rightarrow> int" where
  "batch_completed_count b = int (length (filter snd (bt_members b)))"

definition batch_done :: "batch \<Rightarrow> bool" where
  "batch_done b \<longleftrightarrow> batch_total b = 0 \<or> batch_total b \<le> batch_completed_count b"

section \<open>Commands\<close>

definition batch_record_completion :: "stamp \<Rightarrow> string \<Rightarrow> batch \<Rightarrow> (bool \<times> batch) res" where
  "batch_record_completion st artist_id b =
     (if map_of (bt_members b) artist_id \<noteq> Some False then Ok (False, b)
      else bind_res (raise_event batch_apply st ev_batch_artist
                       (enc_batch_artist \<lparr>bac_batch = ba_id b, bac_artist = artist_id\<rparr>) MetaNil b)
             (\<lambda>b'. Ok (True, b')))"

definition batch_record_closed :: "stamp \<Rightarrow> batch \<Rightarrow> (bool \<times> batch) res" where
  "batch_record_closed st b =
     (if \<not> batch_done b \<or> bt_closed b then Ok (False, b)
      else bind_res (raise_event batch_apply st ev_batch_completed
                       (enc_batch_completed \<lparr>bc_batch = ba_id b, bc_total = batch_total b,
                                             bc_completed = batch_completed_count b\<rparr>) MetaNil b)
             (\<lambda>b'. Ok (True, b')))"

text \<open>\<^verbatim>\<open>NewBatch\<close>, with the stamps of its two events.\<close>

definition unique_members :: "string list \<Rightarrow> string list" where
  "unique_members ids = first_seen (filter (\<lambda>i. i \<noteq> []) ids)"

definition new_batch ::
    "stamp \<Rightarrow> stamp \<Rightarrow> string \<Rightarrow> string list \<Rightarrow> (string \<times> int) list \<Rightarrow> batch res" where
  "new_batch st st2 i artist_ids stats =
     (if i = [] then fail_msg ''batch: id cannot be empty''
      else (let unique = unique_members artist_ids;
                b0 = (empty_batch i)\<lparr>bt_members := map (\<lambda>a. (a, False)) unique, bt_stats := stats\<rparr>
            in bind_res (raise_event batch_apply st ev_batch_started
                           (enc_batch_started \<lparr>bs_batch = i, bs_artists = unique, bs_stats = stats\<rparr>)
                           MetaNil b0)
                 (\<lambda>b. if unique = [] then bind_res (batch_record_closed st2 b) (\<lambda>r. Ok (snd r))
                      else Ok b)))"

section \<open>The contract\<close>

lemma batch_apply_frame:
  "batch_apply e a = Ok a' \<Longrightarrow> ba_id a' = ba_id a \<and> ba_stype a' = ba_stype a
     \<and> ba_uncommitted a' = ba_uncommitted a \<and> ba_version a' = ev_version e"
  by (auto simp: batch_apply_def Let_def bind_res_eq_Inr split: if_splits)

lemma batch_apply_commutes:
  "batch_apply e (with_uncommitted us a) = bind_res (batch_apply e a) (\<lambda>b. Ok (with_uncommitted us b))"
  by (cases a) (simp add: batch_apply_def with_uncommitted_def Let_def bind_res_assoc
      if_distrib [of "\<lambda>b. b\<lparr>ba_uncommitted := us\<rparr>"] if_distrib [of "\<lambda>b. Inr b"]
      if_distrib [of "\<lambda>r. bind_res r f" for f] cong: if_cong)

lemma batch_apply_version [simp]: "batch_apply e (a\<lparr>ba_version := v\<rparr>) = batch_apply e a"
  by (simp add: batch_apply_def)

lemma batch_apply_strip [simp]: "batch_apply (strip e) a = batch_apply e a"
  by (simp add: batch_apply_def Let_def cong: if_cong)

interpretation batch: aggregate batch_apply empty_batch stream_type_batch
  by unfold_locales
    (auto simp: batch_apply_frame batch_apply_commutes empty_batch_def stream_type_batch_def)

section \<open>Progress\<close>

lemma set_first_seen [simp]: "set (first_seen xs) = set xs"
  by (induction xs) auto

lemma distinct_first_seen [simp]: "distinct (first_seen xs)"
  by (induction xs) auto

lemma first_seen_empty [simp]: "first_seen xs = [] \<longleftrightarrow> xs = []"
  by (cases xs) auto

lemma unique_members_facts [simp]:
  "set (unique_members ids) = set ids - {[]}" "distinct (unique_members ids)"
  by (auto simp: unique_members_def)

definition marked :: "string list \<Rightarrow> string set \<Rightarrow> (string \<times> bool) list" where
  "marked us cs = map (\<lambda>a. (a, a \<in> cs)) us"

lemma marked_facts [simp]:
  "fst ` set (marked us cs) = set us" "length (marked us cs) = length us"
  "map_of (marked us cs) a = (if a \<in> set us then Some (a \<in> cs) else None)"
  by (auto simp: marked_def image_image map_of_map_restrict restrict_map_def)

lemma marked_put:
  "distinct us \<Longrightarrow> a \<in> set us \<Longrightarrow> kv_put a True (marked us cs) = marked us (insert a cs)"
  by (induction us) (auto simp: marked_def)

lemma marked_other: "a \<notin> set us \<Longrightarrow> marked us (insert a cs) = marked us cs"
  by (auto simp: marked_def)

lemma marked_count: "distinct us \<Longrightarrow> length (filter snd (marked us cs)) = card (set us \<inter> cs)"
proof -
  assume "distinct us"
  then have "card (set (filter (\<lambda>a. a \<in> cs) us)) = length (filter (\<lambda>a. a \<in> cs) us)"
    by (intro distinct_card) simp
  moreover have "set (filter (\<lambda>a. a \<in> cs) us) = set us \<inter> cs" by auto
  moreover have "length (filter snd (marked us cs)) = length (filter (\<lambda>a. a \<in> cs) us)"
    by (simp add: marked_def filter_map comp_def)
  ultimately show ?thesis by simp
qed

lemma add_members_fresh:
  "distinct us \<Longrightarrow> fst ` set ms \<inter> set us = {} \<Longrightarrow> foldl add_member ms us = ms @ map (\<lambda>a. (a, False)) us"
  by (induction us arbitrary: ms) (auto simp: add_member_def)

lemma add_members_present: "set us \<subseteq> fst ` set ms \<Longrightarrow> foldl add_member ms us = ms"
  by (induction us) (auto simp: add_member_def)

lemmas raise_batch = batch.raise_as_apply

text \<open>
  The state of an open batch with history \<open>h\<close>: which members there are, which are done, what was
  recorded.
\<close>

definition batch_state :: "event list \<Rightarrow> string \<Rightarrow> string list \<Rightarrow> string set \<Rightarrow> batch \<Rightarrow> bool" where
  "batch_state h i us cs b \<longleftrightarrow>
     batch.sourced h b \<and> ba_id b = i \<and> bt_members b = marked us cs \<and> distinct us
   \<and> length (filter (\<lambda>e. ev_type e = ev_batch_artist) (h @ ba_uncommitted b)) = card (set us \<inter> cs)"

lemma new_batch_started:
  assumes "i \<noteq> []" and "stats_ok stats" and "unique_members ids \<noteq> []"
  shows "\<exists>b. new_batch st st2 i ids stats = Ok b \<and> batch_state [] i (unique_members ids) {} b \<and> \<not> bt_closed b
    \<and> map ev_id (ba_uncommitted b) = [''evt_'' @ st_uuid st]"
proof -
  let ?us = "unique_members ids"
  let ?pl = "enc_batch_started \<lparr>bs_batch = i, bs_artists = ?us, bs_stats = stats\<rparr>"
  let ?e = "new_event st i stream_type_batch 1 ev_batch_started ?pl MetaNil"
  let ?b = "(empty_batch i)\<lparr>ba_version := 1, ba_uncommitted := [?e], bt_members := marked ?us {}, bt_stats := stats\<rparr>"
  have m: "map (\<lambda>a. (a, False)) ?us = marked ?us {}" by (simp add: marked_def)
  have a1: "foldl add_member (marked ?us {}) ?us = marked ?us {}" by (rule add_members_present) simp
  have a2: "foldl add_member [] ?us = marked ?us {}"
    using add_members_fresh [of ?us "[]"] m by simp
  have run: "raise_event batch_apply st ev_batch_started ?pl MetaNil
      ((empty_batch i)\<lparr>bt_members := map (\<lambda>a. (a, False)) ?us, bt_stats := stats\<rparr>) = Ok ?b"
    using assms(2) a1
    by (simp add: raise_batch batch_apply_def Let_def decode_new_event m) (simp add: empty_batch_def)
  have "raise_event batch_apply st ev_batch_started ?pl MetaNil (empty_batch i) = Ok ?b"
    using assms(2) a2
    by (simp add: raise_batch batch_apply_def Let_def decode_new_event m) (simp add: empty_batch_def)
  then have "batch.sourced [] ?b"
    by (rule batch.sourced_raise [OF batch.sourced_init [OF assms(1)], rotated]) (simp add: ev_batch_started_def)
  then have "batch_state [] i ?us {} ?b"
    by (simp add: batch_state_def batch_event_types empty_batch_def)
  with run assms show ?thesis by (simp add: new_batch_def Let_def empty_batch_def)
qed

lemma completion_step:
  assumes "batch_state h i us cs b"
  shows "\<exists>new b'. batch_record_completion st a b = Ok (new, b') \<and> batch_state h i us (insert a cs) b'
           \<and> bt_closed b' = bt_closed b \<and> (new \<longleftrightarrow> a \<in> set us - cs)
           \<and> map ev_id (ba_uncommitted b') =
               map ev_id (ba_uncommitted b) @ (if new then [''evt_'' @ st_uuid st] else [])"
proof (cases "a \<in> set us - cs")
  case False
  have "map_of (bt_members b) a \<noteq> Some False"
    using assms False by (simp add: batch_state_def)
  then have "batch_record_completion st a b = Ok (False, b)"
    by (simp add: batch_record_completion_def)
  moreover have "marked us (insert a cs) = marked us cs" "set us \<inter> insert a cs = set us \<inter> cs"
    using False by (auto simp: marked_def)
  ultimately have "batch_record_completion st a b = Ok (False, b)" "batch_state h i us (insert a cs) b"
    using assms by (simp_all add: batch_state_def)
  with False show ?thesis by auto
next
  case True
  let ?pl = "enc_batch_artist \<lparr>bac_batch = ba_id b, bac_artist = a\<rparr>"
  let ?e = "new_event st (ba_id b) (ba_stype b) (ba_version b + 1) ev_batch_artist ?pl MetaNil"
  let ?b = "b\<lparr>ba_version := ba_version b + 1, ba_uncommitted := ba_uncommitted b @ [?e],
             bt_members := marked us (insert a cs)\<rparr>"
  have run: "raise_event batch_apply st ev_batch_artist ?pl MetaNil b = Ok ?b"
    using assms True
    by (simp add: raise_batch batch_apply_def Let_def decode_new_event batch_state_def marked_put)
      (simp add: batch_event_types)
  have "batch.sourced h ?b"
    using batch.sourced_raise [OF _ _ run] assms by (simp add: batch_state_def ev_batch_artist_def)
  moreover have "card (set us \<inter> insert a cs) = card (set us \<inter> cs) + 1"
    using True by (simp add: Int_insert_right_if1)
  ultimately have "batch_state h i us (insert a cs) ?b"
    using assms by (simp add: batch_state_def)
  with run assms True show ?thesis
    by (auto simp: batch_record_completion_def batch_state_def)
qed

text \<open>A run of completion reports, in any order and with any repetitions.\<close>

definition complete_all :: "batch \<Rightarrow> (stamp \<times> string) list \<Rightarrow> batch res" where
  "complete_all = fold_res (\<lambda>b c. bind_res (batch_record_completion (fst c) (snd c) b) (\<lambda>r. Ok (snd r)))"

lemma complete_all_state:
  "batch_state h i us cs b \<Longrightarrow>
     \<exists>b'. complete_all b reports = Ok b' \<and> batch_state h i us (cs \<union> snd ` set reports) b'
        \<and> bt_closed b' = bt_closed b"
proof (induction reports arbitrary: b cs)
  case (Cons c reports)
  from completion_step [OF Cons.prems, of "fst c" "snd c"] obtain new b1 where
    b1: "batch_record_completion (fst c) (snd c) b = Ok (new, b1)" "batch_state h i us (insert (snd c) cs) b1"
    "bt_closed b1 = bt_closed b" by blast
  from Cons.IH [OF b1(2)] b1 show ?case by (auto simp: complete_all_def)
qed (simp add: complete_all_def)

lemma batch_state_counts:
  assumes "batch_state h i us cs b"
  shows "batch_total b = int (length us)" and "batch_completed_count b = int (card (set us \<inter> cs))"
    and "batch_done b \<longleftrightarrow> set us \<subseteq> cs"
proof -
  from assms have d: "distinct us" and m: "bt_members b = marked us cs" by (simp_all add: batch_state_def)
  show t: "batch_total b = int (length us)" and c: "batch_completed_count b = int (card (set us \<inter> cs))"
    by (simp_all add: batch_total_def batch_completed_count_def m marked_count [OF d])
  have "length us \<le> card (set us \<inter> cs) \<longleftrightarrow> set us \<subseteq> cs"
  proof
    assume "length us \<le> card (set us \<inter> cs)"
    then have "set us \<inter> cs = set us"
      using d by (intro card_subset_eq) (auto simp: distinct_card [OF d, symmetric] intro: le_antisym card_mono)
    then show "set us \<subseteq> cs" by blast
  qed (simp add: Int_absorb2 distinct_card [OF d])
  then show "batch_done b \<longleftrightarrow> set us \<subseteq> cs" unfolding batch_done_def t c by auto
qed

lemma batch_state_replay:
  assumes "batch_state [] i us cs b" and "us \<noteq> []"
  shows "batch_replay i (ba_uncommitted b) = Ok (clear_uncommitted b)"
proof -
  from assms(1) have run: "apply_events batch_apply (empty_batch i) (ba_uncommitted b) = Ok (with_uncommitted [] b)"
    by (auto simp: batch_state_def batch.sourced_def)
  have "ba_uncommitted b \<noteq> []"
  proof
    assume "ba_uncommitted b = []"
    with run have "bt_members b = []" by (auto simp: with_uncommitted_def empty_batch_def dest: arg_cong [of _ _ bt_members])
    with assms show False by (auto simp: batch_state_def marked_def)
  qed
  with run show ?thesis by (simp add: batch_replay_def replay_stream_def clear_uncommitted_with)
qed

lemma closing_step:
  assumes "batch_state h i us cs b" and "in_int64 (int (length us))"
  shows "\<exists>new b'. batch_record_closed st b = Ok (new, b') \<and> (new \<longleftrightarrow> set us \<subseteq> cs \<and> \<not> bt_closed b)
    \<and> bt_closed b' = (bt_closed b \<or> set us \<subseteq> cs) \<and> bt_members b' = bt_members b
    \<and> (\<not> new \<longrightarrow> b' = b)"
proof (cases "batch_done b \<and> \<not> bt_closed b")
  case False
  then have "batch_record_closed st b = Ok (False, b)" by (auto simp: batch_record_closed_def)
  with False batch_state_counts(3) [OF assms(1)] show ?thesis by auto
next
  case True
  note counts = batch_state_counts [OF assms(1)]
  have "distinct us" using assms(1) by (simp add: batch_state_def)
  then have "int (card (set us \<inter> cs)) \<le> int (length us)"
    using card_mono [of "set us" "set us \<inter> cs"] by (simp add: distinct_card)
  then have i: "in_int64 (batch_total b)" "in_int64 (batch_completed_count b)"
    using assms(2) counts(1,2) by (auto simp: in_int64_def)
  let ?pl = "enc_batch_completed \<lparr>bc_batch = ba_id b, bc_total = batch_total b,
      bc_completed = batch_completed_count b\<rparr>"
  obtain b' where "raise_event batch_apply st ev_batch_completed ?pl MetaNil b = Ok b'"
    "bt_closed b'" "bt_members b' = bt_members b"
    using i by (simp add: raise_batch batch_apply_def Let_def decode_new_event batch_event_types)
  with True counts(3) show ?thesis by (auto simp: batch_record_closed_def)
qed

lemma closing_state:
  assumes "batch_state h i us cs b" and "batch_record_closed st b = Ok (new, b')"
  shows "batch_state h i us cs b'"
    and "map ev_id (ba_uncommitted b') = map ev_id (ba_uncommitted b) @ (if new then [''evt_'' @ st_uuid st] else [])"
    and "batch_done b'= batch_done b \<and> ba_version b \<le> ba_version b'"
proof -
  have "batch_state h i us cs b' \<and> batch_done b'= batch_done b \<and> ba_version b \<le> ba_version b'
    \<and> map ev_id (ba_uncommitted b') = map ev_id (ba_uncommitted b) @ (if new then [''evt_'' @ st_uuid st] else [])"
  proof (cases new)
    case False
    with assms show ?thesis by (auto simp: batch_record_closed_def bind_res_eq_Inr split: if_splits)
  next
    case True
    with assms(2) obtain pl where run: "raise_event batch_apply st ev_batch_completed pl MetaNil b = Ok b'"
      by (auto simp: batch_record_closed_def bind_res_eq_Inr split: if_splits)
    then have m: "bt_members b' = bt_members b"
      by (auto simp: raise_batch batch_apply_def Let_def batch_event_types bind_res_eq_Inr)
    have "batch.sourced h b'"
      using batch.sourced_raise [OF _ _ run] assms(1) by (simp add: batch_state_def ev_batch_completed_def)
    with run m True assms(1) show ?thesis
      by (auto simp: batch_state_def raise_batch batch_done_def batch_total_def batch_completed_count_def
          batch_event_types dest!: batch_apply_frame)
  qed
  then show "batch_state h i us cs b'" "batch_done b'= batch_done b \<and> ba_version b \<le> ba_version b'"
    "map ev_id (ba_uncommitted b') = map ev_id (ba_uncommitted b) @ (if new then [''evt_'' @ st_uuid st] else [])"
    by simp_all
qed

section \<open>Properties\<close>

text \<open>
  C25. The progress of a batch depends only on which members have been reported, not on the order,
  on repetitions or on reports about strangers: the total is the number of distinct non-empty
  identifiers it was opened with, the completed count the number of those reported, it is done when
  all of them are, exactly one completion is recorded per reported member, and the recorded events
  replay to this state.
\<close>

theorem batch_progress:
  assumes "i \<noteq> []" and "stats_ok stats" and "set ids - {[]} \<noteq> {}"
  shows "\<exists>b0 b. new_batch st st2 i ids stats = Ok b0 \<and> complete_all b0 reports = Ok b
    \<and> batch_total b = int (card (set ids - {[]}))
    \<and> batch_completed_count b = int (card ((set ids - {[]}) \<inter> snd ` set reports))
    \<and> (batch_done b \<longleftrightarrow> set ids - {[]} \<subseteq> snd ` set reports)
    \<and> length (filter (\<lambda>e. ev_type e = ev_batch_artist) (ba_uncommitted b)) =
        card ((set ids - {[]}) \<inter> snd ` set reports)
    \<and> batch_replay i (ba_uncommitted b) = Ok (clear_uncommitted b)"
proof -
  have us: "unique_members ids \<noteq> []" using assms(3) unique_members_facts(1) [of ids] by force
  from new_batch_started [OF assms(1,2) us] obtain b0 where
    b0: "new_batch st st2 i ids stats = Ok b0" "batch_state [] i (unique_members ids) {} b0" by blast
  from complete_all_state [OF b0(2), of reports] obtain b where
    b: "complete_all b0 reports = Ok b" "batch_state [] i (unique_members ids) (snd ` set reports) b" by auto
  have "length (unique_members ids) = card (set ids - {[]})"
    using distinct_card [of "unique_members ids"] by simp
  then show ?thesis
    using b0(1) b batch_state_counts [OF b(2)] batch_state_replay [OF b(2) us]
    by (auto simp: batch_state_def)
qed

definition sample_reports :: "(stamp \<times> string) list" where
  "sample_reports = map (\<lambda>a. (\<lparr>st_uuid = a, st_now = 0\<rparr>, a)) [''b'', ''x'', ''b'']"

theorem batch_progress_witness:
  "\<exists>b0 b. new_batch \<lparr>st_uuid = ''1'', st_now = 0\<rparr> \<lparr>st_uuid = ''2'', st_now = 0\<rparr> ''batch_1''
       [''a'', [], ''b'', ''a''] [(''stale'', 2)] = Ok b0
     \<and> complete_all b0 sample_reports = Ok b \<and> batch_total b = 2 \<and> batch_completed_count b = 1"
proof -
  let ?M = "set [''a'', [], ''b'', ''a''] - {[]}" and ?R = "snd ` set sample_reports"
  have m: "?M = {''a'', ''b''}" by auto
  then have r: "?M \<inter> ?R = {''b''}" by (auto simp: sample_reports_def)
  have c: "int (card ?M) = 2" "int (card (?M \<inter> ?R)) = 1" unfolding r unfolding m by simp_all
  have "?M \<noteq> {}" "stats_ok [(''stale'', 2)]"
    unfolding m by (simp_all add: stats_ok_def utc_key_def in_int64_def)
  with batch_progress [of "''batch_1''" "[(''stale'', 2)]" "[''a'', [], ''b'', ''a'']"
      "\<lparr>st_uuid = ''1'', st_now = 0\<rparr>" "\<lparr>st_uuid = ''2'', st_now = 0\<rparr>" sample_reports]
  show ?thesis unfolding c by blast
qed

text \<open>
  A batch ends once: closing it records nothing while a member is missing, records one event as
  soon as every member was reported, and nothing ever after; a batch opened without members is
  closed at birth.
\<close>

theorem batch_closes_once:
  assumes "batch_state h i us cs b" and "in_int64 (int (length us))"
  shows "\<exists>new b'. batch_record_closed st b = Ok (new, b')
    \<and> (new \<longleftrightarrow> set us \<subseteq> cs \<and> \<not> bt_closed b)
    \<and> length (ba_uncommitted b') = length (ba_uncommitted b) + (if new then 1 else 0)
    \<and> batch_record_closed st' b' = Ok (False, b')"
proof -
  from closing_step [OF assms, of st] obtain new b' where
    c: "batch_record_closed st b = Ok (new, b')" "new \<longleftrightarrow> set us \<subseteq> cs \<and> \<not> bt_closed b"
      "bt_closed b' = (bt_closed b \<or> set us \<subseteq> cs)" "bt_members b' = bt_members b" "\<not> new \<longrightarrow> b' = b"
    by blast
  have "batch_done b' = batch_done b"
    using c(4) by (simp add: batch_done_def batch_total_def batch_completed_count_def)
  then have again: "batch_record_closed st' b' = Ok (False, b')"
    using c(3) batch_state_counts(3) [OF assms(1)] by (auto simp: batch_record_closed_def)
  have "length (ba_uncommitted b') = length (ba_uncommitted b) + (if new then 1 else 0)"
    using c(1,5) by (auto simp: batch_record_closed_def bind_res_eq_Inr raise_batch dest!: batch_apply_frame split: if_splits)
  with c(1,2) again show ?thesis by (intro exI [of _ new] exI [of _ b'] conjI)
qed

theorem batch_closes_once_witness:
  "\<exists>b new b'. new_batch \<lparr>st_uuid = ''1'', st_now = 0\<rparr> \<lparr>st_uuid = ''2'', st_now = 0\<rparr> ''batch_1'' [''a''] [] = Ok b
     \<and> batch_record_closed \<lparr>st_uuid = ''3'', st_now = 0\<rparr> b = Ok (new, b') \<and> \<not> new"
proof -
  have "unique_members [''a''] = [''a'']" by code_simp
  with new_batch_started [of "''batch_1''" "[]" "[''a'']" "\<lparr>st_uuid = ''1'', st_now = 0\<rparr>"
      "\<lparr>st_uuid = ''2'', st_now = 0\<rparr>"]
  obtain b where b: "new_batch \<lparr>st_uuid = ''1'', st_now = 0\<rparr> \<lparr>st_uuid = ''2'', st_now = 0\<rparr> ''batch_1'' [''a''] [] = Ok b"
    "batch_state [] ''batch_1'' [''a''] {} b" by (auto simp: stats_ok_def)
  from batch_closes_once [OF b(2), of "\<lparr>st_uuid = ''3'', st_now = 0\<rparr>" "\<lparr>st_uuid = ''4'', st_now = 0\<rparr>"] b(1)
  show ?thesis by (auto simp: in_int64_def)
qed

end
