(* ===== verification/Tidal_Sync_Run.thy ===== *)
theory Tidal_Sync_Run
  imports Aggregate_Repository
begin

text \<open>
  The TIDAL sync run aggregate (\<^verbatim>\<open>internal/domain/tidalsync/sync.go\<close>) and the observations it
  collects (\<^verbatim>\<open>internal/tidal/types.go\<close>).
\<close>

section \<open>Observations\<close>

record observed_track =
  ot_id :: string
  ot_title :: string
  ot_isrc :: string
  ot_duration :: int
  ot_date :: string
  ot_artists :: "string list"
  ot_album :: string
  ot_album_date :: string
  ot_added :: time

definition omit_strs :: "string \<Rightarrow> string list \<Rightarrow> (string \<times> json) list" where
  "omit_strs k ss = (if ss = [] then [] else [(k, enc_strs ss)])"

lemma jfield_omit_strs [simp]:
  "jfield (omit_strs k ss @ m) k' = (if k' = k \<and> ss \<noteq> [] then enc_strs ss else jfield m k')"
  by (simp add: omit_strs_def)

lemma norm_omit_strs [simp]: "norm_fields (omit_strs k ss) = omit_strs k ss"
  by (simp add: omit_strs_def)

definition enc_track :: "observed_track \<Rightarrow> json" where
  "enc_track t =
     JObj ((''id'', JStr (ot_id t)) # (''title'', JStr (ot_title t)) # omit_str ''isrc'' (ot_isrc t) @
           omit_int ''duration'' (ot_duration t) @ omit_str ''release_date'' (ot_date t) @
           omit_strs ''artist_names'' (ot_artists t) @ omit_str ''album_title'' (ot_album t) @
           omit_str ''album_release_date'' (ot_album_date t) @ [(''added_at'', ron_time (ot_added t))])"

definition dec_track :: "json \<Rightarrow> observed_track option" where
  "dec_track j =
     do { m \<leftarrow> dec_obj j; i \<leftarrow> dec_str (jfield m ''id''); t \<leftarrow> dec_str (jfield m ''title'');
          is \<leftarrow> dec_str (jfield m ''isrc''); d \<leftarrow> dec_int (jfield m ''duration'');
          r \<leftarrow> dec_str (jfield m ''release_date''); as \<leftarrow> dec_list dec_str (jfield m ''artist_names'');
          al \<leftarrow> dec_str (jfield m ''album_title''); ad \<leftarrow> dec_str (jfield m ''album_release_date'');
          at' \<leftarrow> dec_time (jfield m ''added_at'');
          Some \<lparr>ot_id = i, ot_title = t, ot_isrc = is, ot_duration = d, ot_date = r, ot_artists = as,
                ot_album = al, ot_album_date = ad, ot_added = at'\<rparr> }"

record observed_album =
  oa_id :: string
  oa_title :: string
  oa_artists :: "string list"
  oa_date :: string
  oa_type :: string
  oa_added :: time

definition enc_obs_album :: "observed_album \<Rightarrow> json" where
  "enc_obs_album a =
     JObj ((''id'', JStr (oa_id a)) # (''title'', JStr (oa_title a)) #
           omit_strs ''artist_names'' (oa_artists a) @ omit_str ''release_date'' (oa_date a) @
           omit_str ''release_type'' (oa_type a) @ [(''added_at'', ron_time (oa_added a))])"

definition dec_obs_album :: "json \<Rightarrow> observed_album option" where
  "dec_obs_album j =
     do { m \<leftarrow> dec_obj j; i \<leftarrow> dec_str (jfield m ''id''); t \<leftarrow> dec_str (jfield m ''title'');
          as \<leftarrow> dec_list dec_str (jfield m ''artist_names''); d \<leftarrow> dec_str (jfield m ''release_date'');
          ty \<leftarrow> dec_str (jfield m ''release_type''); at' \<leftarrow> dec_time (jfield m ''added_at'');
          Some \<lparr>oa_id = i, oa_title = t, oa_artists = as, oa_date = d, oa_type = ty, oa_added = at'\<rparr> }"

record observed_artist =
  or_id :: string
  or_name :: string
  or_added :: time

definition enc_obs_artist :: "observed_artist \<Rightarrow> json" where
  "enc_obs_artist a =
     JObj [(''id'', JStr (or_id a)), (''name'', JStr (or_name a)), (''added_at'', ron_time (or_added a))]"

definition dec_obs_artist :: "json \<Rightarrow> observed_artist option" where
  "dec_obs_artist j =
     do { m \<leftarrow> dec_obj j; i \<leftarrow> dec_str (jfield m ''id''); n \<leftarrow> dec_str (jfield m ''name'');
          at' \<leftarrow> dec_time (jfield m ''added_at'');
          Some \<lparr>or_id = i, or_name = n, or_added = at'\<rparr> }"

section \<open>Events\<close>

definition ev_sync_started :: string where "ev_sync_started = ''TidalSyncStarted''"
definition ev_favorites :: string where "ev_favorites = ''TidalFavoritesObserved''"
definition ev_sync_completed :: string where "ev_sync_completed = ''TidalSyncCompleted''"
definition ev_sync_failed :: string where "ev_sync_failed = ''TidalSyncFailed''"

lemmas sync_event_types = ev_sync_started_def ev_favorites_def ev_sync_completed_def ev_sync_failed_def

record sync_started =
  ss_run :: string
  ss_user :: string
  ss_country :: string
  ss_at :: time

definition enc_sync_started :: "sync_started \<Rightarrow> json" where
  "enc_sync_started p =
     JObj [(''run_id'', JStr (ss_run p)), (''user_id'', JStr (ss_user p)),
           (''country_code'', JStr (ss_country p)), (''started_at'', ron_time (ss_at p))]"

definition dec_sync_started :: "json \<Rightarrow> sync_started option" where
  "dec_sync_started j =
     do { m \<leftarrow> dec_obj j; r \<leftarrow> dec_str (jfield m ''run_id''); u \<leftarrow> dec_str (jfield m ''user_id'');
          c \<leftarrow> dec_str (jfield m ''country_code''); t \<leftarrow> dec_time (jfield m ''started_at'');
          Some \<lparr>ss_run = r, ss_user = u, ss_country = c, ss_at = t\<rparr> }"

record favorites_observed =
  fo_run :: string
  fo_page :: int
  fo_tracks :: "observed_track list"
  fo_albums :: "observed_album list"
  fo_artists :: "observed_artist list"

definition omit_arr :: "string \<Rightarrow> json list \<Rightarrow> (string \<times> json) list" where
  "omit_arr k vs = (if vs = [] then [] else [(k, JArr vs)])"

lemma jfield_omit_arr [simp]:
  "jfield (omit_arr k vs @ m) k' = (if k' = k \<and> vs \<noteq> [] then JArr vs else jfield m k')"
  "jfield (omit_arr k vs) k' = (if k' = k \<and> vs \<noteq> [] then JArr vs else JNull)"
  by (simp_all add: omit_arr_def)

lemma norm_omit_arr [simp]: "norm_fields (omit_arr k vs) = omit_arr k (map normalize_ron_time vs)"
  by (simp add: omit_arr_def)

definition enc_favorites :: "favorites_observed \<Rightarrow> json" where
  "enc_favorites p =
     JObj ((''run_id'', JStr (fo_run p)) # (''page'', JInt (fo_page p)) #
           omit_arr ''tracks'' (map enc_track (fo_tracks p)) @
           omit_arr ''albums'' (map enc_obs_album (fo_albums p)) @
           omit_arr ''artists'' (map enc_obs_artist (fo_artists p)))"

definition dec_favorites :: "json \<Rightarrow> favorites_observed option" where
  "dec_favorites j =
     do { m \<leftarrow> dec_obj j; r \<leftarrow> dec_str (jfield m ''run_id''); p \<leftarrow> dec_int (jfield m ''page'');
          ts \<leftarrow> dec_list dec_track (jfield m ''tracks''); as \<leftarrow> dec_list dec_obs_album (jfield m ''albums'');
          rs \<leftarrow> dec_list dec_obs_artist (jfield m ''artists'');
          Some \<lparr>fo_run = r, fo_page = p, fo_tracks = ts, fo_albums = as, fo_artists = rs\<rparr> }"

record sync_completed =
  sc_run :: string
  sc_at :: time
  sc_tracks :: int
  sc_albums :: int
  sc_artists :: int

definition enc_sync_completed :: "sync_completed \<Rightarrow> json" where
  "enc_sync_completed p =
     JObj [(''run_id'', JStr (sc_run p)), (''completed_at'', ron_time (sc_at p)),
           (''total_tracks'', JInt (sc_tracks p)), (''total_albums'', JInt (sc_albums p)),
           (''total_artists'', JInt (sc_artists p))]"

definition dec_sync_completed :: "json \<Rightarrow> sync_completed option" where
  "dec_sync_completed j =
     do { m \<leftarrow> dec_obj j; r \<leftarrow> dec_str (jfield m ''run_id''); t \<leftarrow> dec_time (jfield m ''completed_at'');
          a \<leftarrow> dec_int (jfield m ''total_tracks''); b \<leftarrow> dec_int (jfield m ''total_albums'');
          c \<leftarrow> dec_int (jfield m ''total_artists'');
          Some \<lparr>sc_run = r, sc_at = t, sc_tracks = a, sc_albums = b, sc_artists = c\<rparr> }"

record sync_failed =
  sf_run :: string
  sf_at :: time
  sf_error :: string

definition enc_sync_failed :: "sync_failed \<Rightarrow> json" where
  "enc_sync_failed p =
     JObj [(''run_id'', JStr (sf_run p)), (''failed_at'', ron_time (sf_at p)), (''error'', JStr (sf_error p))]"

definition dec_sync_failed :: "json \<Rightarrow> sync_failed option" where
  "dec_sync_failed j =
     do { m \<leftarrow> dec_obj j; r \<leftarrow> dec_str (jfield m ''run_id''); t \<leftarrow> dec_time (jfield m ''failed_at'');
          e \<leftarrow> dec_str (jfield m ''error'');
          Some \<lparr>sf_run = r, sf_at = t, sf_error = e\<rparr> }"

lemma dec_enc_observed [simp]:
  "in_int64 (ot_duration t) \<Longrightarrow> dec_track (normalize_ron_time (enc_track t)) = Some t"
  "dec_obs_album (normalize_ron_time (enc_obs_album a)) = Some a"
  "dec_obs_artist (normalize_ron_time (enc_obs_artist r)) = Some r"
  by (simp_all add: enc_track_def dec_track_def enc_obs_album_def dec_obs_album_def
      enc_obs_artist_def dec_obs_artist_def utc_key_def)

lemma dec_all_mapped:
  "(\<And>x. x \<in> set xs \<Longrightarrow> d (normalize_ron_time (f x)) = Some x) \<Longrightarrow>
     dec_all d (map (normalize_ron_time \<circ> f) xs) = Some xs"
  by (induction xs) auto

lemma dec_enc_sync [simp]:
  "dec_sync_started (normalize_ron_time (enc_sync_started s)) = Some s"
  "in_int64 (fo_page f) \<Longrightarrow> \<forall>t\<in>set (fo_tracks f). in_int64 (ot_duration t) \<Longrightarrow>
     dec_favorites (normalize_ron_time (enc_favorites f)) = Some f"
  "in_int64 (sc_tracks c) \<Longrightarrow> in_int64 (sc_albums c) \<Longrightarrow> in_int64 (sc_artists c) \<Longrightarrow>
     dec_sync_completed (normalize_ron_time (enc_sync_completed c)) = Some c"
  "dec_sync_failed (normalize_ron_time (enc_sync_failed x)) = Some x"
  by (simp_all add: enc_sync_started_def dec_sync_started_def enc_favorites_def dec_favorites_def
      enc_sync_completed_def dec_sync_completed_def enc_sync_failed_def dec_sync_failed_def utc_key_def
      dec_all_mapped)

section \<open>The aggregate\<close>

record sync = base_agg +
  sy_user :: string
  sy_country :: string
  sy_started :: time
  sy_completed :: time
  sy_failed :: time
  sy_failure :: string
  sy_closed :: bool
  sy_tracks :: "observed_track list"
  sy_albums :: "observed_album list"
  sy_artists :: "observed_artist list"

definition stream_type_sync :: string where "stream_type_sync = ''tidalsync''"

definition empty_sync :: "string \<Rightarrow> sync" where
  "empty_sync i =
     \<lparr>ba_id = i, ba_stype = stream_type_sync, ba_version = 0, ba_uncommitted = [],
      sy_user = [], sy_country = [], sy_started = zero_time, sy_completed = zero_time,
      sy_failed = zero_time, sy_failure = [], sy_closed = False, sy_tracks = [], sy_albums = [],
      sy_artists = []\<rparr>"

definition sync_apply :: "event \<Rightarrow> sync \<Rightarrow> sync res" where
  "sync_apply e s0 =
     (let s = s0\<lparr>ba_version := ev_version e\<rparr>; et = ev_type e in
      if et = ev_sync_started then
        bind_res (wrap_err ''unmarshaling'' (decode_event dec_sync_started e)) (\<lambda>p.
          Ok (s\<lparr>sy_user := ss_user p, sy_country := ss_country p, sy_started := ss_at p\<rparr>))
      else if et = ev_favorites then
        bind_res (wrap_err ''unmarshaling'' (decode_event dec_favorites e)) (\<lambda>p.
          Ok (s\<lparr>sy_tracks := sy_tracks s @ fo_tracks p, sy_albums := sy_albums s @ fo_albums p,
                sy_artists := sy_artists s @ fo_artists p\<rparr>))
      else if et = ev_sync_completed then
        bind_res (wrap_err ''unmarshaling'' (decode_event dec_sync_completed e)) (\<lambda>p.
          Ok (s\<lparr>sy_completed := sc_at p, sy_closed := True\<rparr>))
      else if et = ev_sync_failed then
        bind_res (wrap_err ''unmarshaling'' (decode_event dec_sync_failed e)) (\<lambda>p.
          Ok (s\<lparr>sy_failed := sf_at p, sy_failure := sf_error p, sy_closed := True\<rparr>))
      else Ok s)"

text \<open>\<^verbatim>\<open>Replay\<close> of this aggregate accepts an empty stream.\<close>

definition sync_replay :: "string \<Rightarrow> event list \<Rightarrow> sync res" where
  "sync_replay i = apply_events sync_apply (empty_sync i)"

definition new_sync :: "stamp \<Rightarrow> string \<Rightarrow> string \<Rightarrow> string \<Rightarrow> time \<Rightarrow> sync res" where
  "new_sync st run_id user country started =
     (let run_id = trim_space run_id; user = trim_space user
      in if run_id = [] then fail_msg ''tidalsync: runID cannot be empty''
         else if user = [] then fail_msg ''tidalsync: userID cannot be empty''
         else raise_event sync_apply st ev_sync_started
                (enc_sync_started \<lparr>ss_run = run_id, ss_user = user, ss_country = country, ss_at = started\<rparr>)
                MetaNil
                ((empty_sync run_id)\<lparr>sy_user := user, sy_country := country, sy_started := started\<rparr>))"

definition record_favorites ::
    "stamp \<Rightarrow> int \<Rightarrow> observed_track list \<Rightarrow> observed_album list \<Rightarrow> observed_artist list \<Rightarrow> sync \<Rightarrow> sync res" where
  "record_favorites st page tracks albums artists s =
     (if sy_closed s then fail_msg ''tidalsync: cannot observe on closed sync''
      else raise_event sync_apply st ev_favorites
             (enc_favorites \<lparr>fo_run = ba_id s, fo_page = page, fo_tracks = tracks, fo_albums = albums,
                             fo_artists = artists\<rparr>) MetaNil s)"

definition record_completed :: "stamp \<Rightarrow> time \<Rightarrow> sync \<Rightarrow> sync res" where
  "record_completed st t s =
     (if sy_closed s then fail_msg ''tidalsync: sync already closed''
      else raise_event sync_apply st ev_sync_completed
             (enc_sync_completed \<lparr>sc_run = ba_id s, sc_at = t, sc_tracks = int (length (sy_tracks s)),
                sc_albums = int (length (sy_albums s)), sc_artists = int (length (sy_artists s))\<rparr>)
             MetaNil s)"

definition record_sync_failed :: "stamp \<Rightarrow> time \<Rightarrow> string \<Rightarrow> sync \<Rightarrow> sync res" where
  "record_sync_failed st t reason s =
     (if sy_closed s then fail_msg ''tidalsync: sync already closed''
      else raise_event sync_apply st ev_sync_failed
             (enc_sync_failed \<lparr>sf_run = ba_id s, sf_at = t, sf_error = reason\<rparr>) MetaNil s)"

section \<open>The contract\<close>

lemma sync_apply_frame:
  "sync_apply e a = Ok a' \<Longrightarrow> ba_id a' = ba_id a \<and> ba_stype a' = ba_stype a
     \<and> ba_uncommitted a' = ba_uncommitted a \<and> ba_version a' = ev_version e"
  by (auto simp: sync_apply_def Let_def bind_res_eq_Inr split: if_splits)

lemma sync_apply_commutes:
  "sync_apply e (with_uncommitted us a) = bind_res (sync_apply e a) (\<lambda>b. Ok (with_uncommitted us b))"
  by (cases a) (simp add: sync_apply_def with_uncommitted_def Let_def bind_res_assoc cong: if_cong)

lemma sync_apply_version [simp]: "sync_apply e (a\<lparr>ba_version := v\<rparr>) = sync_apply e a"
  by (simp add: sync_apply_def)

lemma sync_apply_strip [simp]: "sync_apply (strip e) a = sync_apply e a"
  by (simp add: sync_apply_def Let_def cong: if_cong)

interpretation sync: aggregate sync_apply empty_sync stream_type_sync
  by unfold_locales
    (auto simp: sync_apply_frame sync_apply_commutes empty_sync_def stream_type_sync_def)

section \<open>Collecting the pages of a run\<close>

datatype sync_step =
    ObservePage stamp int "observed_track list" "observed_album list" "observed_artist list"
  | CompleteSync stamp time
  | FailSync stamp time string

fun sync_do :: "sync \<Rightarrow> sync_step \<Rightarrow> sync res" where
  "sync_do s (ObservePage st page ts as rs) = record_favorites st page ts as rs s"
| "sync_do s (CompleteSync st t) = record_completed st t s"
| "sync_do s (FailSync st t reason) = record_sync_failed st t reason s"

fun is_page :: "sync_step \<Rightarrow> bool" where
  "is_page (ObservePage st page ts as rs) = True"
| "is_page _ = False"

fun page_tracks :: "sync_step \<Rightarrow> observed_track list" where
  "page_tracks (ObservePage st page ts as rs) = ts"
| "page_tracks _ = []"

fun page_albums :: "sync_step \<Rightarrow> observed_album list" where
  "page_albums (ObservePage st page ts as rs) = as"
| "page_albums _ = []"

fun page_artists :: "sync_step \<Rightarrow> observed_artist list" where
  "page_artists (ObservePage st page ts as rs) = rs"
| "page_artists _ = []"

text \<open>The integers of a page are Go integers.\<close>

fun page_ok :: "sync_step \<Rightarrow> bool" where
  "page_ok (ObservePage st page ts as rs) = (in_int64 page \<and> (\<forall>t\<in>set ts. in_int64 (ot_duration t)))"
| "page_ok _ = True"

lemma record_favorites_state:
  assumes "record_favorites st page ts as rs s = Ok s'" and "in_int64 page"
    and "\<forall>t\<in>set ts. in_int64 (ot_duration t)"
  shows "\<not> sy_closed s \<and> \<not> sy_closed s' \<and> ba_id s' = ba_id s \<and> sy_tracks s' = sy_tracks s @ ts
    \<and> sy_albums s' = sy_albums s @ as \<and> sy_artists s' = sy_artists s @ rs"
  using assms by (auto simp: record_favorites_def sync.raise_as_apply sync_apply_def Let_def
      sync_event_types decode_new_event plain_meta_def split: if_splits)

lemma sync_apply_close:
  "ev_type e \<in> {ev_sync_completed, ev_sync_failed} \<Longrightarrow> sync_apply e s = Ok s' \<Longrightarrow>
     sy_closed s' \<and> ba_id s' = ba_id s \<and> sy_tracks s' = sy_tracks s
   \<and> sy_albums s' = sy_albums s \<and> sy_artists s' = sy_artists s"
  by (auto simp: sync_apply_def Let_def sync_event_types bind_res_eq_Inr)

lemma record_closing_state:
  assumes "record_completed st t s = Ok s' \<or> record_sync_failed st t reason s = Ok s'"
  shows "\<not> sy_closed s \<and> sy_closed s' \<and> ba_id s' = ba_id s \<and> sy_tracks s' = sy_tracks s
    \<and> sy_albums s' = sy_albums s \<and> sy_artists s' = sy_artists s"
  using assms by (auto simp: record_completed_def record_sync_failed_def sync.raise_as_apply
      dest!: sync_apply_close [rotated] split: if_splits)

lemma sync_do_page:
  assumes "sync_do s x = Ok s'" and "page_ok x"
  shows "sy_tracks s' = sy_tracks s @ page_tracks x" and "sy_albums s' = sy_albums s @ page_albums x"
    and "sy_artists s' = sy_artists s @ page_artists x" and "\<not> sy_closed s"
    and "sy_closed s' = (\<not> is_page x)" and "ba_id s' = ba_id s"
proof -
  have "sy_tracks s' = sy_tracks s @ page_tracks x \<and> sy_albums s' = sy_albums s @ page_albums x
    \<and> sy_artists s' = sy_artists s @ page_artists x \<and> \<not> sy_closed s
    \<and> sy_closed s' = (\<not> is_page x) \<and> ba_id s' = ba_id s"
  proof (cases x)
    case (ObservePage st page ts as rs)
    with assms record_favorites_state [of st page ts as rs s s'] show ?thesis by simp
  next
    case (CompleteSync st t)
    with assms record_closing_state [of st t s s'] show ?thesis by simp
  next
    case (FailSync st t reason)
    with assms record_closing_state [of st t s s' reason] show ?thesis by simp
  qed
  then show "sy_tracks s' = sy_tracks s @ page_tracks x" "sy_albums s' = sy_albums s @ page_albums x"
    "sy_artists s' = sy_artists s @ page_artists x" "\<not> sy_closed s"
    "sy_closed s' = (\<not> is_page x)" "ba_id s' = ba_id s" by simp_all
qed

lemma sync_do_sourced: "sync_do s x = Ok s' \<Longrightarrow> sync.sourced hist s \<Longrightarrow> sync.sourced hist s'"
  by (cases x) (auto simp: record_favorites_def record_completed_def record_sync_failed_def
      sync_event_types intro: sync.sourced_raise split: if_splits)

lemma new_sync_fresh:
  assumes "new_sync st i user country t = Ok s"
  shows "sync.sourced [] s" and "ba_id s = trim_space i" and "\<not> sy_closed s"
    and "sy_tracks s = [] \<and> sy_albums s = [] \<and> sy_artists s = []"
proof -
  let ?s0 = "(empty_sync (trim_space i))\<lparr>sy_user := trim_space user, sy_country := country, sy_started := t\<rparr>"
  show "ba_id s = trim_space i" "\<not> sy_closed s" "sy_tracks s = [] \<and> sy_albums s = [] \<and> sy_artists s = []"
    using assms by (auto simp: new_sync_def Let_def sync.raise_as_apply sync_apply_def sync_event_types
        bind_res_eq_Inr empty_sync_def split: if_splits)
  have "raise_event sync_apply st ev_sync_started pl MetaNil ?s0 =
      raise_event sync_apply st ev_sync_started pl MetaNil (empty_sync (trim_space i))" for pl
    by (simp add: sync.raise_as_apply sync_apply_def Let_def empty_sync_def cong: if_cong)
  with assms obtain pl where i: "trim_space i \<noteq> []"
    and pl: "raise_event sync_apply st ev_sync_started pl MetaNil (empty_sync (trim_space i)) = Ok s"
    by (auto simp: new_sync_def Let_def split: if_splits)
  show "sync.sourced [] s"
    by (rule sync.sourced_raise [OF sync.sourced_init [OF i] _ pl]) (simp add: sync_event_types)
qed

lemma sync_steps:
  assumes "fold_res sync_do s xs = Ok s'" and "\<forall>x\<in>set xs. page_ok x" and "sync.sourced hist s"
  shows "sync.sourced hist s' \<and> ba_id s' = ba_id s
    \<and> sy_tracks s' = sy_tracks s @ concat (map page_tracks xs)
    \<and> sy_albums s' = sy_albums s @ concat (map page_albums xs)
    \<and> sy_artists s' = sy_artists s @ concat (map page_artists xs)
    \<and> (xs \<noteq> [] \<longrightarrow> \<not> sy_closed s \<and> sy_closed s' = (\<not> is_page (last xs)))
    \<and> (\<forall>x\<in>set (butlast xs). is_page x)"
  using assms
proof (induction xs arbitrary: s)
  case (Cons x xs)
  then obtain s1 where s1: "sync_do s x = Ok s1" "fold_res sync_do s1 xs = Ok s'"
    by (auto simp: bind_res_eq_Inr)
  note step = sync_do_page [OF s1(1)] and IH = Cons.IH [OF s1(2)]
  show ?case
    using step IH sync_do_sourced [OF s1(1)] Cons.prems(2,3) s1(2) by (cases xs) auto
qed simp

text \<open>
  A sync run collects its pages in order: its observations are the concatenation of the pages
  recorded on it, completion or failure comes at most once and last, nothing is recorded after it,
  and replaying the stream of events that the run produced gives the same run.
\<close>

theorem sync_collects_pages:
  assumes "new_sync st i user country t = Ok s0" and "fold_res sync_do s0 xs = Ok s"
    and "\<forall>x\<in>set xs. page_ok x"
  shows "sy_tracks s = concat (map page_tracks xs)
    \<and> sy_albums s = concat (map page_albums xs)
    \<and> sy_artists s = concat (map page_artists xs)
    \<and> (\<forall>x\<in>set (butlast xs). is_page x)
    \<and> sy_closed s = (xs \<noteq> [] \<and> \<not> is_page (last xs))
    \<and> sync_replay (trim_space i) (ba_uncommitted s) = Ok (clear_uncommitted s)"
proof (intro conjI)
  note fresh = new_sync_fresh [OF assms(1)] and run = sync_steps [OF assms(2,3) new_sync_fresh(1) [OF assms(1)]]
  show "sy_tracks s = concat (map page_tracks xs)" "sy_albums s = concat (map page_albums xs)"
    "sy_artists s = concat (map page_artists xs)" "\<forall>x\<in>set (butlast xs). is_page x"
    using fresh run by auto
  show "sy_closed s = (xs \<noteq> [] \<and> \<not> is_page (last xs))"
    using fresh run assms(2) by (cases xs) auto
  show "sync_replay (trim_space i) (ba_uncommitted s) = Ok (clear_uncommitted s)"
    using run fresh(2) unfolding sync_replay_def sync.sourced_def clear_uncommitted_with
    by (metis append_Nil)
qed

definition sample_sync :: "sync res" where
  "sample_sync = new_sync \<lparr>st_uuid = ''1'', st_now = 0\<rparr> '' run_1 '' ''user'' ''BR'' 0"

definition sample_pages :: "sync_step list" where
  "sample_pages =
     [ObservePage \<lparr>st_uuid = ''2'', st_now = 1\<rparr> 0
        [\<lparr>ot_id = ''7'', ot_title = ''Windowpane'', ot_isrc = [], ot_duration = 464, ot_date = [],
          ot_artists = [''Opeth''], ot_album = ''Damnation'', ot_album_date = [], ot_added = 5\<rparr>] [] [],
      ObservePage \<lparr>st_uuid = ''3'', st_now = 2\<rparr> 1 [] []
        [\<lparr>or_id = ''9'', or_name = ''Opeth'', or_added = 6\<rparr>],
      CompleteSync \<lparr>st_uuid = ''4'', st_now = 3\<rparr> 3]"

theorem sync_collects_pages_witness:
  "\<exists>s. bind_res sample_sync (\<lambda>s0. fold_res sync_do s0 sample_pages) = Ok s
     \<and> length (sy_tracks s) = 1 \<and> map or_name (sy_artists s) = [''Opeth''] \<and> sy_closed s
     \<and> sync_replay ''run_1'' (ba_uncommitted s) = Ok (clear_uncommitted s)"
proof -
  have "case bind_res sample_sync (\<lambda>s0. fold_res sync_do s0 sample_pages) of Inr s \<Rightarrow> True | Inl e \<Rightarrow> False"
    by code_simp
  then obtain s0 s where s0: "sample_sync = Ok s0" and s: "fold_res sync_do s0 sample_pages = Ok s"
    by (auto simp: bind_res_eq_Inr split: sum.splits)
  have ok: "\<forall>x\<in>set sample_pages. page_ok x" by code_simp
  note all = sync_collects_pages [OF s0 [unfolded sample_sync_def] s ok]
  note facts = all [THEN conjunct1]
    all [THEN conjunct2, THEN conjunct1]
    all [THEN conjunct2, THEN conjunct2, THEN conjunct1]
    all [THEN conjunct2, THEN conjunct2, THEN conjunct2, THEN conjunct1]
    all [THEN conjunct2, THEN conjunct2, THEN conjunct2, THEN conjunct2, THEN conjunct1]
    all [THEN conjunct2, THEN conjunct2, THEN conjunct2, THEN conjunct2, THEN conjunct2]
  have "concat (map page_artists sample_pages) = [\<lparr>or_id = ''9'', or_name = ''Opeth'', or_added = 6\<rparr>]"
    by code_simp
  with facts(3) have artists: "map or_name (sy_artists s) = [''Opeth'']" by simp
  have "length (concat (map page_tracks sample_pages)) = 1" by code_simp
  with facts(1) have tracks: "length (sy_tracks s) = 1" by argo
  have "sample_pages \<noteq> [] \<and> \<not> is_page (last sample_pages)" by code_simp
  with facts(5) have closed: "sy_closed s" by argo
  have "trim_space '' run_1 '' = ''run_1''" by code_simp
  with facts(6) have replay: "sync_replay ''run_1'' (ba_uncommitted s) = Ok (clear_uncommitted s)" by argo
  have "bind_res sample_sync (\<lambda>s0. fold_res sync_do s0 sample_pages) = Ok s"
    unfolding s0 bind_res_simps(2) by (rule s)
  from this tracks artists closed replay show ?thesis by (intro exI conjI)
qed

end
