(* ===== verification/Correction_Proposal.thy ===== *)
theory Correction_Proposal
  imports Aggregate_Repository
begin

text \<open>
  The correction proposal aggregate (\<^verbatim>\<open>internal/domain/correctionproposal/proposal.go\<close>): proposed,
  then approved or rejected, and applied only once approved.
\<close>

section \<open>Events\<close>

definition ev_proposed :: string where "ev_proposed = ''CorrectionProposed''"
definition ev_approved :: string where "ev_approved = ''CorrectionApproved''"
definition ev_rejected :: string where "ev_rejected = ''CorrectionRejected''"
definition ev_applied :: string where "ev_applied = ''CorrectionApplied''"

lemmas proposal_event_types = ev_proposed_def ev_approved_def ev_rejected_def ev_applied_def

definition ps_proposed :: string where "ps_proposed = ''proposed''"
definition ps_approved :: string where "ps_approved = ''approved''"
definition ps_rejected :: string where "ps_rejected = ''rejected''"
definition ps_applied :: string where "ps_applied = ''applied''"

lemmas proposal_statuses = ps_proposed_def ps_approved_def ps_rejected_def ps_applied_def

type_synonym any_map = "(string \<times> json) list option"

definition enc_any_map :: "any_map \<Rightarrow> json" where
  "enc_any_map m = (case m of None \<Rightarrow> JNull | Some kv \<Rightarrow> JObj kv)"

record proposed =
  pp_proposal :: string
  pp_run :: string
  pp_target_type :: string
  pp_target :: string
  pp_kind :: string
  pp_before :: any_map
  pp_after :: any_map
  pp_evidence :: string
  pp_confidence :: rat
  pp_track :: string
  pp_at :: time

definition enc_proposed :: "proposed \<Rightarrow> json" where
  "enc_proposed p =
     JObj ((''proposal_id'', JStr (pp_proposal p)) # (''run_id'', JStr (pp_run p)) #
           (''target_type'', JStr (pp_target_type p)) # (''target_id'', JStr (pp_target p)) #
           (''kind'', JStr (pp_kind p)) # (''before'', enc_any_map (pp_before p)) #
           (''after'', enc_any_map (pp_after p)) # (''evidence'', JStr (pp_evidence p)) #
           (''confidence'', JFloat (pp_confidence p)) # omit_str ''tidal_track_id'' (pp_track p) @
           [(''proposed_at'', ron_time (pp_at p))])"

definition dec_proposed :: "json \<Rightarrow> proposed option" where
  "dec_proposed j =
     do { m \<leftarrow> dec_obj j; i \<leftarrow> dec_str (jfield m ''proposal_id''); r \<leftarrow> dec_str (jfield m ''run_id'');
          ty \<leftarrow> dec_str (jfield m ''target_type''); t \<leftarrow> dec_str (jfield m ''target_id'');
          k \<leftarrow> dec_str (jfield m ''kind''); b \<leftarrow> dec_any_map (jfield m ''before'');
          a \<leftarrow> dec_any_map (jfield m ''after''); e \<leftarrow> dec_str (jfield m ''evidence'');
          c \<leftarrow> dec_float (jfield m ''confidence''); tr \<leftarrow> dec_str (jfield m ''tidal_track_id'');
          at' \<leftarrow> dec_time (jfield m ''proposed_at'');
          Some \<lparr>pp_proposal = i, pp_run = r, pp_target_type = ty, pp_target = t, pp_kind = k,
                pp_before = b, pp_after = a, pp_evidence = e, pp_confidence = c, pp_track = tr,
                pp_at = at'\<rparr> }"

text \<open>The payloads of approval, rejection (with a reason) and application (without).\<close>

record decided =
  pd_proposal :: string
  pd_at :: time
  pd_reason :: string

definition enc_decided :: "string \<Rightarrow> decided \<Rightarrow> json" where
  "enc_decided at_key p =
     JObj ((''proposal_id'', JStr (pd_proposal p)) # (at_key, ron_time (pd_at p)) #
           omit_str ''reason'' (pd_reason p))"

definition dec_decided :: "string \<Rightarrow> json \<Rightarrow> decided option" where
  "dec_decided at_key j =
     do { m \<leftarrow> dec_obj j; i \<leftarrow> dec_str (jfield m ''proposal_id''); t \<leftarrow> dec_time (jfield m at_key);
          r \<leftarrow> dec_str (jfield m ''reason'');
          Some \<lparr>pd_proposal = i, pd_at = t, pd_reason = r\<rparr> }"

record applied =
  pa_proposal :: string
  pa_at :: time

definition enc_applied :: "applied \<Rightarrow> json" where
  "enc_applied p = JObj [(''proposal_id'', JStr (pa_proposal p)), (''applied_at'', ron_time (pa_at p))]"

definition dec_applied :: "json \<Rightarrow> applied option" where
  "dec_applied j =
     do { m \<leftarrow> dec_obj j; i \<leftarrow> dec_str (jfield m ''proposal_id''); t \<leftarrow> dec_time (jfield m ''applied_at'');
          Some \<lparr>pa_proposal = i, pa_at = t\<rparr> }"

definition approved_at :: string where "approved_at = ''approved_at''"
definition rejected_at :: string where "rejected_at = ''rejected_at''"

lemma dec_enc_decided [simp]:
  "dec_decided approved_at (normalize_ron_time (enc_decided approved_at d)) = Some d"
  "dec_decided rejected_at (normalize_ron_time (enc_decided rejected_at d)) = Some d"
  "dec_applied (normalize_ron_time (enc_applied a)) = Some a"
  by (simp_all add: enc_decided_def dec_decided_def enc_applied_def dec_applied_def approved_at_def
      rejected_at_def utc_key_def)

section \<open>The aggregate\<close>

record proposal = base_agg +
  pr_run :: string
  pr_target_type :: string
  pr_target :: string
  pr_kind :: string
  pr_before :: any_map
  pr_after :: any_map
  pr_evidence :: string
  pr_confidence :: rat
  pr_track :: string
  pr_status :: string
  pr_proposed :: time
  pr_approved :: time
  pr_rejected :: time
  pr_applied :: time

definition stream_type_proposal :: string where "stream_type_proposal = ''correctionproposal''"

definition empty_proposal :: "string \<Rightarrow> proposal" where
  "empty_proposal i =
     \<lparr>ba_id = i, ba_stype = stream_type_proposal, ba_version = 0, ba_uncommitted = [],
      pr_run = [], pr_target_type = [], pr_target = [], pr_kind = [], pr_before = None,
      pr_after = None, pr_evidence = [], pr_confidence = 0, pr_track = [], pr_status = [],
      pr_proposed = zero_time, pr_approved = zero_time, pr_rejected = zero_time,
      pr_applied = zero_time\<rparr>"

definition proposal_apply :: "event \<Rightarrow> proposal \<Rightarrow> proposal res" where
  "proposal_apply e p0 =
     (let p = p0\<lparr>ba_version := ev_version e\<rparr>; et = ev_type e in
      if et = ev_proposed then
        bind_res (wrap_err ''unmarshaling'' (decode_event dec_proposed e)) (\<lambda>pl.
          Ok (p\<lparr>pr_run := pp_run pl, pr_target_type := pp_target_type pl, pr_target := pp_target pl,
                pr_kind := pp_kind pl, pr_before := pp_before pl, pr_after := pp_after pl,
                pr_evidence := pp_evidence pl, pr_confidence := pp_confidence pl,
                pr_track := pp_track pl, pr_proposed := pp_at pl, pr_status := ps_proposed\<rparr>))
      else if et = ev_approved then
        bind_res (wrap_err ''unmarshaling'' (decode_event (dec_decided approved_at) e)) (\<lambda>pl.
          Ok (p\<lparr>pr_approved := pd_at pl, pr_status := ps_approved\<rparr>))
      else if et = ev_rejected then
        bind_res (wrap_err ''unmarshaling'' (decode_event (dec_decided rejected_at) e)) (\<lambda>pl.
          Ok (p\<lparr>pr_rejected := pd_at pl, pr_status := ps_rejected\<rparr>))
      else if et = ev_applied then
        bind_res (wrap_err ''unmarshaling'' (decode_event dec_applied e)) (\<lambda>pl.
          Ok (p\<lparr>pr_applied := pa_at pl, pr_status := ps_applied\<rparr>))
      else Ok p)"

definition proposal_replay :: "string \<Rightarrow> event list \<Rightarrow> proposal res" where
  "proposal_replay i = apply_events proposal_apply (empty_proposal i)"

definition new_proposal ::
    "stamp \<Rightarrow> string \<Rightarrow> string \<Rightarrow> string \<Rightarrow> string \<Rightarrow> string \<Rightarrow> any_map \<Rightarrow> any_map \<Rightarrow> string \<Rightarrow> rat
     \<Rightarrow> string \<Rightarrow> time \<Rightarrow> proposal res" where
  "new_proposal st i run ty target kind before after evidence confidence track proposed_at =
     (let i = trim_space i; kind = trim_space kind
      in if i = [] then fail_msg ''correctionproposal: id cannot be empty''
         else if kind = [] then fail_msg ''correctionproposal: kind cannot be empty''
         else raise_event proposal_apply st ev_proposed
                (enc_proposed
                   \<lparr>pp_proposal = i, pp_run = run, pp_target_type = ty, pp_target = target,
                    pp_kind = kind, pp_before = before, pp_after = after, pp_evidence = evidence,
                    pp_confidence = confidence, pp_track = track, pp_at = proposed_at\<rparr>)
                MetaNil (empty_proposal i))"

definition proposal_approve :: "stamp \<Rightarrow> time \<Rightarrow> string \<Rightarrow> proposal \<Rightarrow> proposal res" where
  "proposal_approve st t reason p =
     (if pr_status p \<noteq> ps_proposed then fail_msg ''correctionproposal: cannot approve from status''
      else raise_event proposal_apply st ev_approved
             (enc_decided approved_at \<lparr>pd_proposal = ba_id p, pd_at = t, pd_reason = reason\<rparr>) MetaNil p)"

definition proposal_reject :: "stamp \<Rightarrow> time \<Rightarrow> string \<Rightarrow> proposal \<Rightarrow> proposal res" where
  "proposal_reject st t reason p =
     (if pr_status p \<noteq> ps_proposed then fail_msg ''correctionproposal: cannot reject from status''
      else raise_event proposal_apply st ev_rejected
             (enc_decided rejected_at \<lparr>pd_proposal = ba_id p, pd_at = t, pd_reason = reason\<rparr>) MetaNil p)"

definition proposal_mark_applied :: "stamp \<Rightarrow> time \<Rightarrow> proposal \<Rightarrow> proposal res" where
  "proposal_mark_applied st t p =
     (if pr_status p \<noteq> ps_approved then fail_msg ''correctionproposal: cannot apply from status''
      else raise_event proposal_apply st ev_applied
             (enc_applied \<lparr>pa_proposal = ba_id p, pa_at = t\<rparr>) MetaNil p)"

section \<open>The contract\<close>

lemma proposal_apply_frame:
  "proposal_apply e a = Ok a' \<Longrightarrow> ba_id a' = ba_id a \<and> ba_stype a' = ba_stype a
     \<and> ba_uncommitted a' = ba_uncommitted a \<and> ba_version a' = ev_version e"
  by (auto simp: proposal_apply_def Let_def bind_res_eq_Inr split: if_splits)

lemma proposal_apply_commutes:
  "proposal_apply e (with_uncommitted us a) = bind_res (proposal_apply e a) (\<lambda>b. Ok (with_uncommitted us b))"
  by (cases a) (simp add: proposal_apply_def with_uncommitted_def Let_def bind_res_assoc cong: if_cong)

lemma proposal_apply_version [simp]: "proposal_apply e (a\<lparr>ba_version := v\<rparr>) = proposal_apply e a"
  by (simp add: proposal_apply_def)

lemma proposal_apply_strip [simp]: "proposal_apply (strip e) a = proposal_apply e a"
  by (simp add: proposal_apply_def Let_def cong: if_cong)

interpretation proposal: aggregate proposal_apply empty_proposal stream_type_proposal
  by unfold_locales
    (auto simp: proposal_apply_frame proposal_apply_commutes empty_proposal_def stream_type_proposal_def)

section \<open>The state machine\<close>

inductive proposal_command :: "proposal \<Rightarrow> proposal \<Rightarrow> bool" where
  "proposal_approve st t reason p = Ok p' \<Longrightarrow> proposal_command p p'"
| "proposal_reject st t reason p = Ok p' \<Longrightarrow> proposal_command p p'"
| "proposal_mark_applied st t p = Ok p' \<Longrightarrow> proposal_command p p'"

inductive proposal_reachable :: "string \<Rightarrow> event list \<Rightarrow> proposal \<Rightarrow> bool" where
  proposal_fresh: "new_proposal st i run ty target kind b a ev c tr t = Ok p \<Longrightarrow>
     proposal_reachable (trim_space i) [] p"
| proposal_loaded: "stream_ok hist \<Longrightarrow> hist \<noteq> [] \<Longrightarrow> i \<noteq> [] \<Longrightarrow> proposal_replay i hist = Ok p \<Longrightarrow>
     proposal_reachable i (map strip hist) p"
| proposal_moved: "proposal_reachable i hist p \<Longrightarrow> proposal_command p p' \<Longrightarrow> proposal_reachable i hist p'"

text \<open>The event sequences of a proposal.\<close>

definition proposal_life :: "string list \<Rightarrow> bool" where
  "proposal_life ts \<longleftrightarrow>
     ts \<in> {[ev_proposed], [ev_proposed, ev_approved], [ev_proposed, ev_rejected],
          [ev_proposed, ev_approved, ev_applied]}"

definition proposal_status_after :: "string \<Rightarrow> string" where
  "proposal_status_after et =
     (if et = ev_proposed then ps_proposed else if et = ev_approved then ps_approved
      else if et = ev_rejected then ps_rejected else ps_applied)"

lemma proposal_apply_status:
  "proposal_apply e p = Ok p' \<Longrightarrow> ev_type e \<in> {ev_proposed, ev_approved, ev_rejected, ev_applied} \<Longrightarrow>
     pr_status p' = proposal_status_after (ev_type e)"
  by (auto simp: proposal_apply_def Let_def bind_res_eq_Inr proposal_status_after_def
      proposal_event_types split: if_splits)

lemma proposal_command_raise:
  "proposal_command p p' \<Longrightarrow> \<exists>st et pl. raise_event proposal_apply st et pl MetaNil p = Ok p'
     \<and> (et \<in> {ev_approved, ev_rejected} \<and> pr_status p = ps_proposed
        \<or> et = ev_applied \<and> pr_status p = ps_approved)"
  by (induction rule: proposal_command.induct)
    (auto simp: proposal_approve_def proposal_reject_def proposal_mark_applied_def split: if_splits)

lemma raise_proposal:
  "raise_event proposal_apply st et pl md p = Ok p' \<Longrightarrow> ba_id p' = ba_id p
     \<and> map ev_type (ba_uncommitted p') = map ev_type (ba_uncommitted p) @ [et]"
  by (auto simp: proposal.raise_as_apply dest!: proposal_apply_frame)

lemma proposal_reachable_sourced:
  "proposal_reachable i hist p \<Longrightarrow> proposal.sourced hist p"
proof (induction rule: proposal_reachable.induct)
  case (proposal_fresh st i run ty target kind b a ev c tr t p)
  then show ?case
    by (auto simp: new_proposal_def Let_def ev_proposed_def
        intro: proposal.sourced_raise [OF proposal.sourced_init] split: if_splits)
next
  case (proposal_loaded hist i p)
  then show ?case
    using proposal.replay_sourced(1) [of hist i p] by (simp add: proposal_replay_def replay_stream_def)
next
  case (proposal_moved i hist p p')
  then show ?case
    using proposal_command_raise [of p p'] proposal.sourced_raise [of hist p]
    by (metis (no_types, lifting) insert_iff list.distinct(1) proposal_event_types(2-4) singletonD)
qed

lemma proposal_status_of_stream:
  assumes "proposal.sourced hist p" and "proposal_life (map ev_type (hist @ ba_uncommitted p))"
  shows "pr_status p = proposal_status_after (ev_type (last (hist @ ba_uncommitted p)))"
proof -
  let ?es = "hist @ ba_uncommitted p"
  have run: "apply_events proposal_apply (empty_proposal (ba_id p)) ?es = Ok (with_uncommitted [] p)"
    using assms(1) by (simp add: proposal.sourced_def)
  have "?es \<noteq> []" using assms(2) by (auto simp: proposal_life_def)
  then obtain xs e where es: "?es = xs @ [e]" by (metis rev_exhaust)
  then have "ev_type e \<in> {ev_proposed, ev_approved, ev_rejected, ev_applied}"
    using assms(2) unfolding es by (auto simp: proposal_life_def append_eq_Cons_conv)
  moreover obtain q where "proposal_apply e q = Ok (with_uncommitted [] p)"
    using run unfolding es by (auto simp: apply_events_append bind_res_eq_Inr)
  ultimately have "pr_status (with_uncommitted [] p) = proposal_status_after (ev_type e)"
    by (intro proposal_apply_status)
  then show ?thesis unfolding es by (simp add: with_uncommitted_def)
qed

lemma proposal_life_step:
  assumes "proposal_life ts"
    and "et \<in> {ev_approved, ev_rejected} \<and> proposal_status_after (last ts) = ps_proposed
      \<or> et = ev_applied \<and> proposal_status_after (last ts) = ps_approved"
  shows "proposal_life (ts @ [et])"
proof -
  have after: "proposal_status_after ev_proposed = ps_proposed"
    "proposal_status_after ev_approved = ps_approved"
    "proposal_status_after ev_rejected = ps_rejected"
    "proposal_status_after ev_applied = ps_applied" by code_simp+
  have diff: "ps_proposed \<noteq> ps_approved" "ps_proposed \<noteq> ps_rejected" "ps_proposed \<noteq> ps_applied"
    "ps_approved \<noteq> ps_rejected" "ps_approved \<noteq> ps_applied" by code_simp+
  from assms(1) consider "ts = [ev_proposed]" | "ts = [ev_proposed, ev_approved]"
    | "ts = [ev_proposed, ev_rejected]" | "ts = [ev_proposed, ev_approved, ev_applied]"
    unfolding proposal_life_def by blast
  then show ?thesis
    by cases (use assms(2) after diff diff [symmetric] in \<open>auto simp: proposal_life_def\<close>)
qed

lemma proposal_reachable_life:
  "proposal_reachable i hist p \<Longrightarrow> hist = [] \<or> proposal_life (map ev_type hist) \<Longrightarrow>
     proposal_life (map ev_type (hist @ ba_uncommitted p))"
proof (induction rule: proposal_reachable.induct)
  case (proposal_fresh st i run ty target kind b a ev c tr t p)
  then show ?case
    by (auto simp: new_proposal_def Let_def proposal_life_def empty_proposal_def
        dest!: raise_proposal split: if_splits)
next
  case (proposal_loaded hist i p)
  then show ?case
    using proposal.replay_sourced(3) [of hist i p]
    by (auto simp: proposal_replay_def replay_stream_def comp_def)
next
  case (proposal_moved i hist p p')
  have life: "proposal_life (map ev_type (hist @ ba_uncommitted p))"
    by (rule proposal_moved.IH [OF proposal_moved.prems])
  have st: "pr_status p = proposal_status_after (ev_type (last (hist @ ba_uncommitted p)))"
    by (rule proposal_status_of_stream [OF proposal_reachable_sourced [OF proposal_moved(1)] life])
  have ne: "hist @ ba_uncommitted p \<noteq> []" using life by (auto simp: proposal_life_def)
  then have last: "ev_type (last (hist @ ba_uncommitted p)) = last (map ev_type (hist @ ba_uncommitted p))"
    by (rule List.last_map [symmetric])
  from proposal_command_raise [OF proposal_moved(2)] obtain s et pl where
    r: "raise_event proposal_apply s et pl MetaNil p = Ok p'"
      "et \<in> {ev_approved, ev_rejected} \<and> pr_status p = ps_proposed
        \<or> et = ev_applied \<and> pr_status p = ps_approved" by blast
  have "map ev_type (hist @ ba_uncommitted p') = map ev_type (hist @ ba_uncommitted p) @ [et]"
    using raise_proposal [OF r(1)] by simp
  then show ?case
    using proposal_life_step [OF life, of et] r(2) st unfolding last by simp
qed

text \<open>
  C26. However a proposal comes about and whatever is done to it, it is proposed first, decided at
  most once, and applied only after an approval; its status is that of its last event, and a
  rejected or applied proposal accepts no further command.
\<close>

theorem proposal_lifecycle:
  assumes "proposal_reachable i hist p" and "hist = [] \<or> proposal_life (map ev_type hist)"
  shows "proposal_life (map ev_type (hist @ ba_uncommitted p))
    \<and> pr_status p = proposal_status_after (ev_type (last (hist @ ba_uncommitted p)))
    \<and> (pr_status p \<in> {ps_rejected, ps_applied} \<longrightarrow> \<not> proposal_command p p')"
proof (intro conjI)
  show life: "proposal_life (map ev_type (hist @ ba_uncommitted p))"
    by (rule proposal_reachable_life [OF assms])
  show "pr_status p = proposal_status_after (ev_type (last (hist @ ba_uncommitted p)))"
    by (rule proposal_status_of_stream [OF proposal_reachable_sourced [OF assms(1)] life])
  show "pr_status p \<in> {ps_rejected, ps_applied} \<longrightarrow> \<not> proposal_command p p'"
    using proposal_command_raise [of p p'] by (auto simp: proposal_statuses)
qed

definition sample_proposal :: "proposal res" where
  "sample_proposal =
     new_proposal \<lparr>st_uuid = ''1'', st_now = 0\<rparr> ''p_1'' ''run'' ''song'' ''so_1'' ''enrich''
       None (Some [(''album'', JStr ''Damnation'')]) ''isrc'' 1 [] 0"

theorem proposal_lifecycle_witness:
  "\<exists>p. sample_proposal = Ok p \<and> pr_status p = ps_proposed \<and> proposal_life (map ev_type (ba_uncommitted p))"
proof -
  have s: "case sample_proposal of Inr p \<Rightarrow> pr_status p = ps_proposed | Inl e \<Rightarrow> False" by code_simp
  then obtain p where p: "sample_proposal = Ok p" "pr_status p = ps_proposed"
    by (auto split: sum.splits)
  have "proposal_reachable (trim_space ''p_1'') [] p"
    by (rule proposal_fresh [OF p(1) [unfolded sample_proposal_def]])
  from proposal_lifecycle [OF this] p show ?thesis by auto
qed

end
