(* ===== verification/Domain_Repositories.thy ===== *)
theory Domain_Repositories
  imports Aggregate_Repository Scrape_Job Catalog_Properties Tidal_Sync_Run
    Correction_Proposal
begin

text \<open>
  The repositories of scrape jobs, albums, songs, TIDAL sync runs and correction proposals, each
  over the replay of its aggregate, and what saving through them guarantees.
\<close>

section \<open>The repositories\<close>

definition scrape_job_load :: "'s load_op \<Rightarrow> 's \<Rightarrow> string \<Rightarrow> job res \<times> 's" where
  "scrape_job_load load = repo_load load job_replay"

definition scrape_job_save ::
    "'s append_op \<Rightarrow> 's load_op \<Rightarrow> ('s \<Rightarrow> gerr option) \<Rightarrow> 's \<Rightarrow> job \<Rightarrow> event list res \<times> job \<times> 's" where
  "scrape_job_save = repo_save"

definition album_load :: "'s load_op \<Rightarrow> 's \<Rightarrow> string \<Rightarrow> album res \<times> 's" where
  "album_load load = repo_load load album_replay"

definition album_save ::
    "'s append_op \<Rightarrow> 's load_op \<Rightarrow> ('s \<Rightarrow> gerr option) \<Rightarrow> 's \<Rightarrow> album \<Rightarrow> event list res \<times> album \<times> 's" where
  "album_save = repo_save"

definition song_load :: "'s load_op \<Rightarrow> 's \<Rightarrow> string \<Rightarrow> song res \<times> 's" where
  "song_load load = repo_load load song_replay"

definition song_save ::
    "'s append_op \<Rightarrow> 's load_op \<Rightarrow> ('s \<Rightarrow> gerr option) \<Rightarrow> 's \<Rightarrow> song \<Rightarrow> event list res \<times> song \<times> 's" where
  "song_save = repo_save"

definition sync_load :: "'s load_op \<Rightarrow> 's \<Rightarrow> string \<Rightarrow> sync res \<times> 's" where
  "sync_load load = repo_load load sync_replay"

definition sync_save ::
    "'s append_op \<Rightarrow> 's load_op \<Rightarrow> ('s \<Rightarrow> gerr option) \<Rightarrow> 's \<Rightarrow> sync \<Rightarrow> event list res \<times> sync \<times> 's" where
  "sync_save = repo_save"

definition proposal_load :: "'s load_op \<Rightarrow> 's \<Rightarrow> string \<Rightarrow> proposal res \<times> 's" where
  "proposal_load load = repo_load load proposal_replay"

definition proposal_save ::
    "'s append_op \<Rightarrow> 's load_op \<Rightarrow> ('s \<Rightarrow> gerr option) \<Rightarrow> 's \<Rightarrow> proposal \<Rightarrow> event list res \<times> proposal \<times> 's" where
  "proposal_save = repo_save"

section \<open>Properties\<close>

text \<open>
  C23. A song saved through its repository and loaded again is the same song: whatever failures of
  the database the save retries over, once it reports success the next load replays exactly the
  state that was saved.
\<close>

theorem song_repository_round_trip:
  assumes "solo_inv w" and "song.sourced (world_history w (ba_id a)) a" and "ba_uncommitted a \<noteq> []"
    and "ev_id ` set (ba_uncommitted a) \<inter> ev_id ` set (world_history w (ba_id a)) = {}"
    and "distinct (map ev_id (ba_uncommitted a))"
    and "song_save sqlite_append sqlite_load ctx w a = (Ok es, a', w')" and "wd_script w' = []"
  shows "song_load sqlite_load w' (ba_id a) = (Ok a', w') \<and> a' = clear_uncommitted a"
proof -
  note rt = song.repo_round_trip [OF assms(1-5) assms(6) [unfolded song_save_def] assms(7)]
  have "song_replay = (\<lambda>i. replay_stream song_apply (empty_song i))"
    by (simp add: fun_eq_iff song_replay_def)
  with rt show "song_load sqlite_load w' (ba_id a) = (Ok a', w') \<and> a' = clear_uncommitted a"
    by (simp add: song_load_def)
qed

definition sample_song :: "song res" where
  "sample_song =
     new_song \<lparr>st_uuid = ''1'', st_now = 5\<rparr> ''so_1'' ''Windowpane'' ''Opeth'' ''Damnation'' ''2003-04-22''
       ''album'' ''sp1'' 2003 1 1 False"

text \<open>A database whose first write reports an indeterminate append.\<close>

definition shaky_world :: world where
  "shaky_world = \<lparr>wd_db = empty_sqlite, wd_script = [([], Some indeterminate), ([], None), ([], None)]\<rparr>"

theorem song_repository_round_trip_witness:
  "\<exists>a a' w'. sample_song = Ok a
     \<and> song_save sqlite_append sqlite_load (\<lambda>w. None) shaky_world a = (Ok (ba_uncommitted a), a', w')
     \<and> song_load sqlite_load w' ''so_1'' = (Ok a', w')"
proof -
  let ?save = "song_save sqlite_append sqlite_load (\<lambda>w. None) shaky_world"
  have "case sample_song of Inl e \<Rightarrow> False
    | Inr a \<Rightarrow> fst (?save a) = Ok (ba_uncommitted a) \<and> wd_script (snd (snd (?save a))) = []
        \<and> ba_id a = ''so_1'' \<and> ba_uncommitted a \<noteq> [] \<and> distinct (map ev_id (ba_uncommitted a))"
    by code_simp
  then obtain a where a: "sample_song = Ok a" "ba_id a = ''so_1''" "ba_uncommitted a \<noteq> []"
      "distinct (map ev_id (ba_uncommitted a))" "wd_script (snd (snd (?save a))) = []"
    and ok: "fst (?save a) = Ok (ba_uncommitted a)"
    by (elim case_okE conjE) blast
  obtain a' w' where save: "?save a = (Ok (ba_uncommitted a), a', w')"
    using ok by (metis prod.collapse)
  have solo: "solo_inv shaky_world"
    by (simp add: solo_inv_def world_inv_def shaky_world_def empty_store_inv)
  have none: "world_history shaky_world i = []" for i
    by (simp add: world_history_def history_def shaky_world_def empty_sqlite_def stream_rows_def)
  have "song.sourced (world_history shaky_world (ba_id a)) a"
    unfolding none using a(1) by (auto simp: sample_song_def intro: new_song_sourced)
  from song_repository_round_trip [OF solo this a(3) _ a(4) save] none a save show ?thesis
    by auto
qed

end
