(* ===== verification/Messaging_Subjects.thy ===== *)
theory Messaging_Subjects
  imports Json_Value
begin

text \<open>
  Subjects and payloads of the message bus (\<^verbatim>\<open>internal/messaging/messages.go\<close>): the escaping of
  identifiers into subject tokens and its inverse, provider routing, and the versioned payloads.
\<close>

section \<open>UTF-8\<close>

text \<open>
  The width of the rune a string starts with, as \<^verbatim>\<open>range\<close> decodes it; 0 for a byte that starts no
  valid rune.
\<close>

definition cont_byte :: "char \<Rightarrow> bool" where
  "cont_byte c \<longleftrightarrow> 0x80 \<le> byte c \<and> byte c \<le> 0xBF"

definition second_byte :: "char \<Rightarrow> char \<Rightarrow> bool" where
  "second_byte a b \<longleftrightarrow> cont_byte b
   \<and> (byte a = 0xE0 \<longrightarrow> 0xA0 \<le> byte b) \<and> (byte a = 0xED \<longrightarrow> byte b \<le> 0x9F)
   \<and> (byte a = 0xF0 \<longrightarrow> 0x90 \<le> byte b) \<and> (byte a = 0xF4 \<longrightarrow> byte b \<le> 0x8F)"

fun rune_width :: "string \<Rightarrow> nat" where
  "rune_width [] = 0"
| "rune_width (a # s) =
     (if byte a < 0x80 then 1
      else if 0xC2 \<le> byte a \<and> byte a \<le> 0xDF
      then (case s of b # _ \<Rightarrow> if cont_byte b then 2 else 0 | _ \<Rightarrow> 0)
      else if 0xE0 \<le> byte a \<and> byte a \<le> 0xEF
      then (case s of b # c # _ \<Rightarrow> if second_byte a b \<and> cont_byte c then 3 else 0 | _ \<Rightarrow> 0)
      else if 0xF0 \<le> byte a \<and> byte a \<le> 0xF4
      then (case s of b # c # d # _ \<Rightarrow>
              if second_byte a b \<and> cont_byte c \<and> cont_byte d then 4 else 0 | _ \<Rightarrow> 0)
      else 0)"

function valid_utf8 :: "string \<Rightarrow> bool" where
  "valid_utf8 [] = True"
| "valid_utf8 (a # s) =
     (rune_width (a # s) \<noteq> 0 \<and> valid_utf8 (drop (rune_width (a # s) - 1) s))"
  by pat_completeness auto
termination by (relation "measure length") auto

text \<open>U+FFFD, which \<^verbatim>\<open>WriteRune\<close> writes for a byte that is no rune.\<close>

definition replacement_rune :: string where
  "replacement_rune = [char_of (0xEF::nat), char_of (0xBF::nat), char_of (0xBD::nat)]"

section \<open>Subject tokens\<close>

definition escape_byte :: "char \<Rightarrow> string" where
  "escape_byte c =
     (if byte c = 45 then ''--'' else if byte c = 46 then ''-d-''
      else if byte c = 42 then ''-s-'' else if byte c = 62 then ''-g-''
      else if byte c = 32 then ''-w-'' else if byte c = 9 then ''-t-''
      else if byte c = 10 then ''-n-'' else if byte c = 13 then ''-r-''
      else if byte c = 12 then ''-f-'' else [c])"

function sanitize_runes :: "string \<Rightarrow> string" where
  "sanitize_runes [] = []"
| "sanitize_runes (a # s) =
     (let w = rune_width (a # s)
      in if w = 0 then replacement_rune @ sanitize_runes s
         else if w = 1 then escape_byte a @ sanitize_runes s
         else take w (a # s) @ sanitize_runes (drop (w - 1) s))"
  by pat_completeness auto
termination by (relation "measure length") auto

definition sanitize_subject_token :: "string \<Rightarrow> string" where
  "sanitize_subject_token s = (if s = [] then ''-'' else sanitize_runes s)"

definition unescape_byte :: "char \<Rightarrow> char option" where
  "unescape_byte c =
     (if c = CHR ''d'' then Some (CHR ''.'') else if c = CHR ''s'' then Some (CHR ''*'')
      else if c = CHR ''g'' then Some (CHR ''>'') else if c = CHR ''w'' then Some (CHR '' '')
      else if c = CHR ''t'' then Some (char_of (9::nat))
      else if c = CHR ''n'' then Some (char_of (10::nat))
      else if c = CHR ''r'' then Some (char_of (13::nat))
      else if c = CHR ''f'' then Some (char_of (12::nat)) else None)"

fun decode_escapes :: "string \<Rightarrow> string option" where
  "decode_escapes [] = Some []"
| "decode_escapes [c] = (if c = CHR ''-'' then None else Some [c])"
| "decode_escapes [c, d] =
     (if c \<noteq> CHR ''-'' then map_option (Cons c) (decode_escapes [d])
      else if d = CHR ''-'' then Some ''-'' else None)"
| "decode_escapes (c # d # e # s) =
     (if c \<noteq> CHR ''-'' then map_option (Cons c) (decode_escapes (d # e # s))
      else if d = CHR ''-'' then map_option (Cons (CHR ''-'')) (decode_escapes (e # s))
      else if e \<noteq> CHR ''-'' then None
      else (case unescape_byte d of
              None \<Rightarrow> None
            | Some x \<Rightarrow> map_option (Cons x) (decode_escapes s)))"

definition decode_subject_token :: "string \<Rightarrow> string res" where
  "decode_subject_token t =
     (if t = [] then fail_msg ''empty subject token''
      else if t = ''-'' then Ok []
      else of_opt (Errorf ''malformed escape'' []) (decode_escapes t))"

section \<open>Domain event subjects\<close>

definition dot :: char where "dot = CHR ''.''"

fun join_dots :: "string list \<Rightarrow> string" where
  "join_dots [] = []"
| "join_dots [t] = t"
| "join_dots (t # u # ts) = t @ dot # join_dots (u # ts)"

text \<open>\<^verbatim>\<open>strings.Split(s, ".")\<close>.\<close>

fun split_dots :: "string \<Rightarrow> string list" where
  "split_dots [] = [[]]"
| "split_dots (c # s) =
     (if c = dot then [] # split_dots s
      else (case split_dots s of [] \<Rightarrow> [[c]] | t # ts \<Rightarrow> (c # t) # ts))"

definition subject_domain_events_prefix :: string where
  "subject_domain_events_prefix = ''domain.events''"

definition subject_domain_event :: "string \<Rightarrow> string \<Rightarrow> string \<Rightarrow> string" where
  "subject_domain_event stype sid etype =
     join_dots [subject_domain_events_prefix, sanitize_subject_token stype,
       sanitize_subject_token sid, sanitize_subject_token etype]"

definition parse_subject_domain_event :: "string \<Rightarrow> (string \<times> string \<times> string) res" where
  "parse_subject_domain_event subject =
     (case split_dots subject of
        [d, e, t2, t3, t4] \<Rightarrow>
          if d \<noteq> ''domain'' \<or> e \<noteq> ''events'' then fail_msg ''not a domain event subject''
          else bind_res (wrap_err ''decoding stream type'' (decode_subject_token t2)) (\<lambda>stype.
               bind_res (wrap_err ''decoding stream ID'' (decode_subject_token t3)) (\<lambda>sid.
               bind_res (wrap_err ''decoding event type'' (decode_subject_token t4)) (\<lambda>etype.
                 Ok (stype, sid, etype))))
      | _ \<Rightarrow> fail_msg ''not a domain event subject'')"

definition subject_domain_event_scope :: "string \<Rightarrow> string" where
  "subject_domain_event_scope sid =
     join_dots [subject_domain_events_prefix, ''*'', sanitize_subject_token sid, ''*'']"

definition subject_domain_event_filter :: "string \<Rightarrow> string" where
  "subject_domain_event_filter sid =
     join_dots [subject_domain_events_prefix, ''*'', sanitize_subject_token sid, ''>'']"

section \<open>Providers and ranks\<close>

text \<open>
  \<^verbatim>\<open>strings.ToLower\<close>, exact where the result is ASCII: besides the letters only U+212A and U+0130
  have an ASCII lower case. Other runes stay as they are; every caller compares the result with
  ASCII constants.
\<close>

definition lower_byte :: "char \<Rightarrow> char" where
  "lower_byte c = (if 65 \<le> byte c \<and> byte c \<le> 90 then char_of (byte c + 32) else c)"

fun to_lower :: "string \<Rightarrow> string" where
  "to_lower [] = []"
| "to_lower [a] = [lower_byte a]"
| "to_lower [a, b] =
     (if byte a = 0xC4 \<and> byte b = 0xB0 then ''i'' else [lower_byte a, lower_byte b])"
| "to_lower (a # b # c # s) =
     (if byte a = 0xE2 \<and> byte b = 0x84 \<and> byte c = 0xAA then CHR ''k'' # to_lower s
      else if byte a = 0xC4 \<and> byte b = 0xB0 then CHR ''i'' # to_lower (c # s)
      else lower_byte a # to_lower (b # c # s))"

definition scrape_provider_any :: string where "scrape_provider_any = ''any''"

definition scrape_providers :: "string list" where
  "scrape_providers =
     [''local'', ''browserless'', ''local-browserless'', ''scrapingant'', ''scraperapi'',
      ''apify'', ''browserbase'', ''mobile-ssr'']"

definition normalize_scrape_provider :: "string \<Rightarrow> string" where
  "normalize_scrape_provider provider =
     (let p = to_lower (trim_space provider)
      in if p \<in> set scrape_providers then p else scrape_provider_any)"

definition subject_scrape_request :: string where
  "subject_scrape_request = ''scrape.request''"

definition subject_scrape_request_for_provider :: "string \<Rightarrow> string" where
  "subject_scrape_request_for_provider provider =
     (let p = normalize_scrape_provider provider
      in if p = scrape_provider_any then subject_scrape_request
         else subject_scrape_request @ dot # p)"

definition has_prefix :: "string \<Rightarrow> string \<Rightarrow> bool" where
  "has_prefix p s \<longleftrightarrow> take (length p) s = p"

definition scrape_provider_from_subject :: "string \<Rightarrow> string" where
  "scrape_provider_from_subject subject =
     (if subject = subject_scrape_request then scrape_provider_any
      else (let p = subject_scrape_request @ [dot]
            in if \<not> has_prefix p subject then scrape_provider_any
               else normalize_scrape_provider (drop (length p) subject)))"

definition subject_ranks_updated :: string where "subject_ranks_updated = ''ranks.updated''"

definition subject_ranks_updated_for_genre :: "string \<Rightarrow> string" where
  "subject_ranks_updated_for_genre genre =
     (let g = trim_space genre
      in if g = [] then subject_ranks_updated else subject_ranks_updated @ dot # g)"

definition ranks_genre_from_subject :: "string \<Rightarrow> string" where
  "ranks_genre_from_subject subject =
     (let p = subject_ranks_updated @ [dot]
      in if \<not> has_prefix p subject then [] else trim_space (drop (length p) subject))"

section \<open>Escaping is invertible\<close>

lemma wide_rune_bytes:
  "2 \<le> rune_width s \<Longrightarrow> c \<in> set (take (rune_width s) s) \<Longrightarrow> 0x80 \<le> byte c"
  by (cases s rule: rune_width.cases)
    (auto simp: cont_byte_def second_byte_def split: if_splits list.splits)

lemma rune_width_1: "rune_width (a # s) = 1 \<Longrightarrow> byte a < 0x80"
  by (auto split: if_splits list.splits)

lemma decode_plain: "c \<noteq> CHR ''-'' \<Longrightarrow> decode_escapes (c # t) = map_option (Cons c) (decode_escapes t)"
  by (cases t; cases "tl t") auto

lemma decode_no_dash:
  "CHR ''-'' \<notin> set p \<Longrightarrow> decode_escapes (p @ t) = map_option ((@) p) (decode_escapes t)"
proof (induction p)
  case Nil
  then show ?case by (cases "decode_escapes t") auto
next
  case (Cons a p)
  then show ?case by (cases "decode_escapes t") (auto simp: decode_plain)
qed

lemma byte_char: "byte c = n \<Longrightarrow> c = char_of n" for n :: nat
  by (metis char_of_char)

lemma ascii_chars:
  "char_of (45::nat) = CHR ''-''" "char_of (46::nat) = CHR ''.''" "char_of (42::nat) = CHR ''*''"
  "char_of (62::nat) = CHR ''>''" "char_of (32::nat) = CHR '' ''"
  by code_simp+

lemma decode_escape_byte:
  "decode_escapes (escape_byte a @ t) = map_option (Cons a) (decode_escapes t)"
proof -
  have dash: "decode_escapes (CHR ''-'' # CHR ''-'' # t) = map_option (Cons (CHR ''-'')) (decode_escapes t)"
    by (cases t) auto
  consider "byte a \<in> {45, 46, 42, 62, 32, 9, 10, 13, 12}"
    | "byte a \<notin> {45, 46, 42, 62, 32, 9, 10, 13, 12}" by blast
  then show ?thesis
  proof cases
    case 1
    then show ?thesis
      using dash by (auto simp: escape_byte_def unescape_byte_def ascii_chars dest!: byte_char)
  next
    case 2
    then have "a \<noteq> CHR ''-''" by auto
    with 2 show ?thesis by (simp add: escape_byte_def decode_plain)
  qed
qed

lemma decode_sanitize_runes: "valid_utf8 s \<Longrightarrow> decode_escapes (sanitize_runes s) = Some s"
proof (induction s rule: sanitize_runes.induct)
  case 1
  then show ?case by simp
next
  case (2 a s)
  let ?w = "rune_width (a # s)"
  from "2.prems" have w0: "?w \<noteq> 0" by simp
  show ?case
  proof (cases "?w = 1")
    case True
    with 2 w0 show ?thesis by (simp add: decode_escape_byte Let_def del: rune_width.simps)
  next
    case False
    have "CHR ''-'' \<notin> set (take ?w (a # s))"
      using wide_rune_bytes [of "a # s" "CHR ''-''"] False w0 by fastforce
    then have "decode_escapes (sanitize_runes (a # s)) =
        map_option ((@) (take ?w (a # s))) (decode_escapes (sanitize_runes (drop (?w - 1) s)))"
      using False w0 by (simp add: Let_def decode_no_dash del: rune_width.simps take_Cons')
    moreover have "decode_escapes (sanitize_runes (drop (?w - 1) s)) = Some (drop (?w - 1) s)"
      using 2 False w0 by (simp del: rune_width.simps)
    moreover have "take ?w (a # s) @ drop (?w - 1) s = a # s"
      using w0 by (cases ?w) (simp_all del: rune_width.simps)
    ultimately show ?thesis by simp
  qed
qed

lemma decode_sanitize: "valid_utf8 s \<Longrightarrow> decode_subject_token (sanitize_subject_token s) = Ok s"
proof -
  assume v: "valid_utf8 s"
  have d: "decode_escapes (sanitize_runes s) = Some s" by (rule decode_sanitize_runes [OF v])
  have "sanitize_runes s \<noteq> ''-''" using d by auto
  moreover have "s \<noteq> [] \<Longrightarrow> sanitize_runes s \<noteq> []" using d by auto
  ultimately show ?thesis
    using d by (auto simp: decode_subject_token_def sanitize_subject_token_def)
qed

lemma sanitize_injective:
  "valid_utf8 s \<Longrightarrow> valid_utf8 t \<Longrightarrow> sanitize_subject_token s = sanitize_subject_token t \<longleftrightarrow> s = t"
  by (metis decode_sanitize sum.inject(2))

text \<open>Tokens contain no separator, no wildcard and no white space.\<close>

definition reserved_byte :: "char \<Rightarrow> bool" where
  "reserved_byte c \<longleftrightarrow> byte c \<in> {46, 42, 62, 32, 9, 10, 13, 12}"

lemma escape_byte_unreserved: "c \<in> set (escape_byte a) \<Longrightarrow> \<not> reserved_byte c"
  by (auto simp: escape_byte_def reserved_byte_def split: if_splits)

lemma high_unreserved: "0x80 \<le> byte c \<Longrightarrow> \<not> reserved_byte c"
  by (auto simp: reserved_byte_def)

lemma sanitize_runes_unreserved: "c \<in> set (sanitize_runes s) \<Longrightarrow> \<not> reserved_byte c"
proof (induction s rule: sanitize_runes.induct)
  case (2 a s)
  let ?w = "rune_width (a # s)"
  consider "?w = 0" | "?w = 1" | "2 \<le> ?w" by linarith
  then show ?case
  proof cases
    case 1
    with 2 show ?thesis
      by (auto simp: Let_def replacement_rune_def high_unreserved simp del: rune_width.simps)
  next
    case w: 2
    with "2.prems" have "c \<in> set (escape_byte a) \<or> c \<in> set (sanitize_runes s)"
      by (simp add: Let_def del: rune_width.simps)
    with 2(2) w show ?thesis by (auto simp: escape_byte_unreserved)
  next
    case w: 3
    with "2.prems" have "c \<in> set (take ?w (a # s)) \<or> c \<in> set (sanitize_runes (drop (?w - 1) s))"
      by (simp add: Let_def del: rune_width.simps take_Cons')
    with 2(3) w wide_rune_bytes [OF w, of c] high_unreserved show ?thesis by fastforce
  qed
qed simp

lemma sanitize_unreserved: "c \<in> set (sanitize_subject_token s) \<Longrightarrow> \<not> reserved_byte c"
  by (auto simp: sanitize_subject_token_def reserved_byte_def sanitize_runes_unreserved
      dest: sanitize_runes_unreserved split: if_splits)

lemma dot_reserved: "reserved_byte dot"
  by (simp add: reserved_byte_def dot_def)

lemma sanitize_no_dot: "dot \<notin> set (sanitize_subject_token s)"
  using sanitize_unreserved dot_reserved by blast

lemma split_dots_nonempty: "split_dots s \<noteq> []"
  by (cases s) (auto split: list.splits)

lemma split_dots_single: "dot \<notin> set t \<Longrightarrow> split_dots t = [t]"
  by (induction t) auto

lemma split_dots_cons: "dot \<notin> set t \<Longrightarrow> split_dots (t @ dot # s) = t # split_dots s"
  by (induction t) auto

lemma split_prefix: "split_dots (subject_domain_events_prefix @ dot # s) = ''domain'' # ''events'' # split_dots s"
  using split_dots_cons [of "''domain''" "''events'' @ dot # s"] split_dots_cons [of "''events''" s]
  by (simp add: subject_domain_events_prefix_def dot_def)

lemma split_subject:
  "split_dots (subject_domain_event stype sid etype) =
     [''domain'', ''events'', sanitize_subject_token stype, sanitize_subject_token sid,
      sanitize_subject_token etype]"
  by (simp add: subject_domain_event_def split_prefix split_dots_cons split_dots_single sanitize_no_dot)

lemma split_scope:
  "split_dots (subject_domain_event_scope sid) =
     [''domain'', ''events'', ''*'', sanitize_subject_token sid, ''*'']"
proof -
  have "dot \<notin> set ''*''" by (simp add: dot_def)
  then show ?thesis
    using split_dots_cons [of "''*''"] split_dots_single [of "''*''"]
    by (simp add: subject_domain_event_scope_def split_prefix split_dots_cons sanitize_no_dot)
qed

section \<open>Properties\<close>

text \<open>
  C29. Parsing the subject of a domain event gives back the stream type, the stream identifier and
  the event type, for every identifier in valid UTF-8, whatever dots, wildcards, white space or
  dashes it contains.
\<close>

theorem subject_round_trip:
  assumes "valid_utf8 stype" and "valid_utf8 sid" and "valid_utf8 etype"
  shows "parse_subject_domain_event (subject_domain_event stype sid etype) = Ok (stype, sid, etype)"
  using assms by (simp add: parse_subject_domain_event_def split_subject decode_sanitize)

theorem subject_round_trip_witness:
  "parse_subject_domain_event (subject_domain_event ''artist'' ''a.b-c *'' ''ArtistCreated'') =
     Ok (''artist'', ''a.b-c *'', ''ArtistCreated'')"
  by (rule subject_round_trip) code_simp+



text \<open>
  Outside valid UTF-8 the escaping is not injective: a byte that is no rune is written as U+FFFD.
\<close>

lemma sanitize_conflates_invalid:
  "sanitize_subject_token [char_of (0xFF::nat)] = sanitize_subject_token replacement_rune"
  by code_simp

end
