(* ===== verification/Outbox_Relay.thy ===== *)
theory Outbox_Relay
  imports Sqlite_Log Messaging_Subjects
begin

text \<open>
  The relay of the transactional outbox (\<^verbatim>\<open>internal/outbox/relay.go\<close> and \<^verbatim>\<open>PublishDomainEvent\<close> of
  \<^verbatim>\<open>internal/messaging/jetstream.go\<close>). JetStream is a parameter: a state and what one publication
  answers and leaves. The events other writers commit while a pass publishes are part of the pass.
\<close>

section \<open>Publishing\<close>

text \<open>\<^verbatim>\<open>js.Publish\<close>: subject, message identifier when one is set, data.\<close>

type_synonym 'j publish_op = "'j \<Rightarrow> string \<Rightarrow> string option \<Rightarrow> json \<Rightarrow> gerr option \<times> 'j"

definition publish_domain_event ::
    "'j publish_op \<Rightarrow> 'j \<Rightarrow> string \<Rightarrow> string \<Rightarrow> json \<Rightarrow> gerr option \<times> 'j" where
  "publish_domain_event pub j subject i data =
     (if blank subject then (Some (Errorf ''publish domain event: empty subject'' []), j)
      else (case pub j subject (if blank i then None else Some i) data of
              (None, j') \<Rightarrow> (None, j')
            | (Some err, j') \<Rightarrow> (Some (Errorf ''publish to subject failed'' [err]), j')))"

section \<open>One pass\<close>

definition batch_size :: int where "batch_size = 100"

definition checkpoint_domain_events_relay :: string where
  "checkpoint_domain_events_relay = ''domain_events_relay''"

record 'j relay_acc =
  ra_published :: "string list"
  ra_frontier :: int
  ra_contiguous :: bool
  ra_js :: 'j

text \<open>The loop of \<^verbatim>\<open>RelayOnce\<close>; \<open>ctx i\<close> is \<^verbatim>\<open>ctx.Err()\<close> at iteration \<open>i\<close>.\<close>

fun relay_loop ::
    "'j publish_op \<Rightarrow> (nat \<Rightarrow> gerr option) \<Rightarrow> nat \<Rightarrow> event list \<Rightarrow> 'j relay_acc \<Rightarrow> 'j relay_acc" where
  "relay_loop pub ctx i [] acc = acc"
| "relay_loop pub ctx i (e # es) acc =
     (if ctx i \<noteq> None then acc
      else (case event_bytes e of
              Inl err \<Rightarrow>
                relay_loop pub ctx (Suc i) es
                  (acc\<lparr>ra_published := ra_published acc @ [ev_id e], ra_contiguous := False\<rparr>)
            | Inr data \<Rightarrow>
                (case publish_domain_event pub (ra_js acc)
                        (subject_domain_event (ev_stype e) (ev_stream e) (ev_type e)) (ev_id e) data of
                   (Some err, j) \<Rightarrow>
                     relay_loop pub ctx (Suc i) es (acc\<lparr>ra_contiguous := False, ra_js := j\<rparr>)
                 | (None, j) \<Rightarrow>
                     relay_loop pub ctx (Suc i) es
                       (acc\<lparr>ra_published := ra_published acc @ [ev_id e],
                            ra_frontier := (if ra_contiguous acc \<and> ra_frontier acc < ev_global e
                                            then ev_global e else ra_frontier acc),
                            ra_js := j\<rparr>))))"

text \<open>
  The surroundings of a pass: the clock, the failures its three transactions run into, the
  context, and the batches other writers commit between its read and its writes.
\<close>

record relay_env =
  re_now :: time
  re_load :: fault
  re_mark :: fault
  re_save :: fault
  re_ctx :: "nat \<Rightarrow> gerr option"
  re_foreign :: "stream_append list"

definition relay_once ::
    "'j publish_op \<Rightarrow> relay_env \<Rightarrow> 'j option \<Rightarrow> sqlite \<Rightarrow> (int \<times> gerr option) \<times> 'j option \<times> sqlite" where
  "relay_once pub env js db =
     (case js of
        None \<Rightarrow> ((0, Some (Errorf ''outbox relay: JetStream not configured'' [])), js, db)
      | Some j \<Rightarrow>
          (case unpublished_events (re_load env) db batch_size of
             Inl err \<Rightarrow> ((0, Some (Errorf ''outbox relay: load unpublished'' [err])), js, db)
           | Inr [] \<Rightarrow> ((0, None), js, db)
           | Inr es \<Rightarrow>
               let acc = relay_loop pub (re_ctx env) 0 es
                           \<lparr>ra_published = [], ra_frontier = 0, ra_contiguous = True, ra_js = j\<rparr>;
                   db1 = snd (append_batch None db (re_foreign env));
                   n = int (length (ra_published acc)); js' = Some (ra_js acc)
               in if ra_published acc = [] then ((n, None), js', db1)
                  else (case mark_published (re_mark env) (re_now env) db1 (ra_published acc) of
                          (Inl err, db2) \<Rightarrow> ((n, Some (Errorf ''outbox relay: mark published'' [err])), js', db2)
                        | (Inr _, db2) \<Rightarrow>
                            if 0 < ra_frontier acc
                            then ((n, None), js',
                                  snd (save_checkpoint (re_save env) db2 checkpoint_domain_events_relay
                                         (ra_frontier acc)))
                            else ((n, None), js', db2))))"

text \<open>
  \<^verbatim>\<open>Run\<close>: a pass at start, then one at each tick, until the context is done; \<open>done_ctx\<close> says that it
  is when an error of the pass is looked at.
\<close>

fun relay_ticks ::
    "'j publish_op \<Rightarrow> (relay_env \<times> bool) list \<Rightarrow> 'j option \<times> sqlite \<Rightarrow> 'j option \<times> sqlite" where
  "relay_ticks pub [] s = s"
| "relay_ticks pub ((env, done_ctx) # ticks) (js, db) =
     (let (r, s) = relay_once pub env js db
      in if snd r \<noteq> None \<and> done_ctx then s else relay_ticks pub ticks s)"

definition relay_run ::
    "'j publish_op \<Rightarrow> relay_env \<Rightarrow> (relay_env \<times> bool) list \<Rightarrow> 'j option \<times> sqlite \<Rightarrow> 'j option \<times> sqlite" where
  "relay_run pub first ticks s = relay_ticks pub ticks (snd (relay_once pub first (fst s) (snd s)))"

section \<open>What the loop does\<close>

lemma relay_loop_frontier:
  assumes "sorted_wrt (\<lambda>a b. ev_global a < ev_global b) es"
    and "\<forall>e\<in>set es. ra_frontier acc < ev_global e"
    and "relay_loop pub ctx i es acc = acc'"
  shows "\<exists>new. ra_published acc' = ra_published acc @ new \<and> set new \<subseteq> ev_id ` set es
    \<and> (ra_frontier acc' = ra_frontier acc \<or> ra_contiguous acc \<and> ra_frontier acc' \<in> ev_global ` set es)
    \<and> (\<forall>e\<in>set es. ev_global e \<le> ra_frontier acc' \<longrightarrow> ev_id e \<in> set new)"
  using assms
proof (induction es arbitrary: i acc)
  case Nil
  then show ?case by simp
next
  case (Cons e es)
  note sorted = Cons.prems(1) and above = Cons.prems(2) and run = Cons.prems(3)
  have rest: "sorted_wrt (\<lambda>a b. ev_global a < ev_global b) es" using sorted by simp
  show ?case
  proof (cases "ctx i")
    case (Some err)
    with run above show ?thesis by (intro exI [of _ "[]"]) auto
  next
    case go: None
    show ?thesis
    proof (cases "event_bytes e")
      case (Inl err)
      let ?acc = "acc\<lparr>ra_published := ra_published acc @ [ev_id e], ra_contiguous := False\<rparr>"
      from run go Inl have "relay_loop pub ctx (Suc i) es ?acc = acc'" by simp
      from Cons.IH [OF rest _ this] above obtain new where
        "ra_published acc' = ra_published acc @ ev_id e # new" "set new \<subseteq> ev_id ` set es"
        "ra_frontier acc' = ra_frontier acc" by auto
      with above show ?thesis by (intro exI [of _ "ev_id e # new"]) auto
    next
      case (Inr data)
      obtain r j where p: "publish_domain_event pub (ra_js acc)
          (subject_domain_event (ev_stype e) (ev_stream e) (ev_type e)) (ev_id e) data = (r, j)"
        by fastforce
      show ?thesis
      proof (cases r)
        case (Some err)
        let ?acc = "acc\<lparr>ra_contiguous := False, ra_js := j\<rparr>"
        from run go Inr p Some have "relay_loop pub ctx (Suc i) es ?acc = acc'" by simp
        from Cons.IH [OF rest _ this] above obtain new where
          "ra_published acc' = ra_published acc @ new" "set new \<subseteq> ev_id ` set es"
          "ra_frontier acc' = ra_frontier acc" by auto
        with above show ?thesis by (intro exI [of _ new]) auto
      next
        case None
        let ?f = "if ra_contiguous acc then ev_global e else ra_frontier acc"
        let ?acc = "acc\<lparr>ra_published := ra_published acc @ [ev_id e], ra_frontier := ?f, ra_js := j\<rparr>"
        have "ra_frontier acc < ev_global e" using above by simp
        with run go Inr p None have "relay_loop pub ctx (Suc i) es ?acc = acc'" by simp
        moreover have "\<forall>e\<in>set es. ra_frontier ?acc < ev_global e" using above sorted by auto
        ultimately obtain new where
          n: "ra_published acc' = ra_published acc @ ev_id e # new" "set new \<subseteq> ev_id ` set es"
          "ra_frontier acc' = ?f \<or> ra_contiguous acc \<and> ra_frontier acc' \<in> ev_global ` set es"
          "\<forall>e\<in>set es. ev_global e \<le> ra_frontier acc' \<longrightarrow> ev_id e \<in> set new"
          using Cons.IH [OF rest, of ?acc "Suc i"] by auto
        then have "ra_frontier acc' = ra_frontier acc
            \<or> ra_contiguous acc \<and> ra_frontier acc' \<in> ev_global ` set (e # es)" by (auto split: if_splits)
        with n show ?thesis by (intro exI [of _ "ev_id e # new"]) auto
      qed
    qed
  qed
qed

text \<open>What the messages of a pass are, and when JetStream keeps what it acknowledges.\<close>

definition relay_message :: "event \<Rightarrow> json \<Rightarrow> string \<times> string option \<times> json" where
  "relay_message e data =
     (subject_domain_event (ev_stype e) (ev_stream e) (ev_type e),
      if blank (ev_id e) then None else Some (ev_id e), data)"

definition publish_keeps :: "'j publish_op \<Rightarrow> ('j \<Rightarrow> (string \<times> string option \<times> json) set) \<Rightarrow> bool" where
  "publish_keeps pub kept \<longleftrightarrow>
     (\<forall>j subject i data. kept j \<subseteq> kept (snd (pub j subject i data))
        \<and> (fst (pub j subject i data) = None \<longrightarrow> (subject, i, data) \<in> kept (snd (pub j subject i data))))"

lemma publish_domain_event_keeps:
  assumes "publish_keeps pub kept" and "publish_domain_event pub j subject i data = (r, j')"
  shows "kept j \<subseteq> kept j'" and "r = None \<Longrightarrow> (subject, if blank i then None else Some i, data) \<in> kept j'"
  using assms(2) assms(1) [unfolded publish_keeps_def, rule_format, of j subject "if blank i then None else Some i" data]
  by (auto simp: publish_domain_event_def split: if_splits prod.splits option.splits)

definition relayed :: "('j \<Rightarrow> (string \<times> string option \<times> json) set) \<Rightarrow> 'j \<Rightarrow> event \<Rightarrow> bool" where
  "relayed kept j e \<longleftrightarrow> (case event_bytes e of Inl err \<Rightarrow> True | Inr data \<Rightarrow> relay_message e data \<in> kept j)"

lemma relayed_mono: "relayed kept j e \<Longrightarrow> kept j \<subseteq> kept j' \<Longrightarrow> relayed kept j' e"
  by (auto simp: relayed_def split: sum.splits)

lemma relay_loop_delivers:
  assumes "publish_keeps pub kept" and "relay_loop pub ctx i es acc = acc'"
  shows "kept (ra_js acc) \<subseteq> kept (ra_js acc')
    \<and> (\<forall>k\<in>set (ra_published acc'). k \<in> set (ra_published acc)
          \<or> (\<exists>e\<in>set es. ev_id e = k \<and> relayed kept (ra_js acc') e))"
  using assms(2)
proof (induction es arbitrary: i acc)
  case Nil
  then show ?case by simp
next
  case (Cons e es)
  show ?case
  proof (cases "ctx i")
    case (Some err)
    with Cons.prems show ?thesis by simp
  next
    case go: None
    show ?thesis
    proof (cases "event_bytes e")
      case (Inl err)
      with go Cons.prems have "relay_loop pub ctx (Suc i) es
          (acc\<lparr>ra_published := ra_published acc @ [ev_id e], ra_contiguous := False\<rparr>) = acc'" by simp
      from Cons.IH [OF this] Inl show ?thesis by (auto simp: relayed_def)
    next
      case (Inr data)
      obtain r j where p: "publish_domain_event pub (ra_js acc)
          (subject_domain_event (ev_stype e) (ev_stream e) (ev_type e)) (ev_id e) data = (r, j)"
        by fastforce
      note kept = publish_domain_event_keeps [OF assms(1) p]
      show ?thesis
      proof (cases r)
        case (Some err)
        with go Inr p Cons.prems have "relay_loop pub ctx (Suc i) es
            (acc\<lparr>ra_contiguous := False, ra_js := j\<rparr>) = acc'" by simp
        from Cons.IH [OF this] kept(1) show ?thesis by auto
      next
        case None
        let ?acc = "acc\<lparr>ra_published := ra_published acc @ [ev_id e],
            ra_frontier := (if ra_contiguous acc \<and> ra_frontier acc < ev_global e
                            then ev_global e else ra_frontier acc), ra_js := j\<rparr>"
        from None go Inr p Cons.prems have "relay_loop pub ctx (Suc i) es ?acc = acc'" by simp
        from Cons.IH [OF this] have IH: "kept j \<subseteq> kept (ra_js acc')"
          "\<forall>k\<in>set (ra_published acc'). k \<in> set (ra_published acc) \<or> k = ev_id e
             \<or> (\<exists>e\<in>set es. ev_id e = k \<and> relayed kept (ra_js acc') e)" by auto
        have "relayed kept j e" using kept(2) [OF None] Inr by (simp add: relayed_def relay_message_def)
        then have "relayed kept (ra_js acc') e" using IH(1) by (rule relayed_mono)
        with IH kept(1) show ?thesis by auto
      qed
    qed
  qed
qed

section \<open>Appends leave the outbox rows and checkpoints of old events alone\<close>

lemma enqueue_keeps: "map_of rows i = Some x \<Longrightarrow> map_of (foldl enqueue_outbox rows es) i = Some x"
proof (induction es arbitrary: rows)
  case (Cons e es)
  then have "map_of (enqueue_outbox rows e) i = Some x"
    by (auto simp: enqueue_outbox_def map_add_def split: option.splits)
  with Cons.IH show ?case by simp
qed simp

lemma append_stream_keeps:
  "append_stream db b = Ok db' \<Longrightarrow>
     (map_of (sq_outbox db) i = Some x \<longrightarrow> map_of (sq_outbox db') i = Some x)
   \<and> sq_checkpoints db' = sq_checkpoints db"
  using enqueue_keeps [of "sq_outbox db" i x "sa_events b"]
  by (auto simp: append_stream_def bind_res_eq_Inr Let_def split: list.splits prod.splits if_splits)

lemma append_batch_keeps:
  "(map_of (sq_outbox db) i = Some x \<longrightarrow> map_of (sq_outbox (snd (append_batch f db bs))) i = Some x)
   \<and> sq_checkpoints (snd (append_batch f db bs)) = sq_checkpoints db"
proof -
  have "(map_of (sq_outbox db) i = Some x \<longrightarrow> map_of (sq_outbox db') i = Some x)
      \<and> sq_checkpoints db' = sq_checkpoints db" if "fold_res append_stream db bs = Ok db'" for db'
    by (rule fold_res_invariant [OF that]) (use append_stream_keeps [of _ _ _ i x] in auto)
  then show ?thesis
    by (cases f) (auto simp: append_batch_def split: sum.splits)
qed

section \<open>The frontier\<close>

definition relay_frontier :: "sqlite \<Rightarrow> int" where
  "relay_frontier db =
     (case map_of (sq_checkpoints db) checkpoint_domain_events_relay of None \<Rightarrow> 0 | Some p \<Rightarrow> p)"

text \<open>The checkpoint is a position of the log, and no event up to it waits in the outbox.\<close>

definition relay_inv :: "sqlite \<Rightarrow> bool" where
  "relay_inv db \<longleftrightarrow>
     store_inv db
   \<and> (relay_frontier db = 0 \<or> relay_frontier db \<in> ev_global ` set (sq_events db))
   \<and> (\<forall>e\<in>set (sq_events db). ev_global e \<le> relay_frontier db \<longrightarrow> \<not> is_unpublished (sq_outbox db) e)"

definition waiting :: "sqlite \<Rightarrow> event list" where
  "waiting db = filter (is_unpublished (sq_outbox db)) (sq_events db)"

lemma relay_inv_empty: "relay_inv empty_sqlite"
  by (simp add: relay_inv_def empty_store_inv) (simp add: empty_sqlite_def relay_frontier_def)

lemma outbox_row: "store_inv db \<Longrightarrow> e \<in> set (sq_events db) \<Longrightarrow> \<exists>x. map_of (sq_outbox db) (ev_id e) = Some x"
  using keys_outbox [of db] by (metis image_eqI map_of_eq_None_iff not_None_eq)

lemma sorted_waiting: "store_inv db \<Longrightarrow> sorted_wrt (\<lambda>a b. ev_global a < ev_global b) (waiting db)"
  by (simp add: waiting_def store_inv_def log_ok_def sorted_wrt_filter)

lemma log_positions:
  "log_ok (rows @ new) \<Longrightarrow> e \<in> set rows \<Longrightarrow> e' \<in> set new \<Longrightarrow> ev_global e < ev_global e'"
  by (simp add: log_ok_def sorted_wrt_append)

lemma relay_inv_positive: "relay_inv db \<Longrightarrow> e \<in> set (sq_events db) \<Longrightarrow> 0 < ev_global e"
  by (simp add: relay_inv_def store_inv_def log_ok_def)

text \<open>Appending keeps the invariant: positions of new events lie beyond the checkpoint.\<close>

lemma append_batch_relay_inv:
  assumes "relay_inv db"
  shows "relay_inv (snd (append_batch f db bs))"
    and "relay_frontier (snd (append_batch f db bs)) = relay_frontier db"
proof -
  let ?db = "snd (append_batch f db bs)"
  from assms have inv: "store_inv db" by (simp add: relay_inv_def)
  have inv': "store_inv ?db" by (rule append_batch_inv [OF inv])
  obtain new where new: "sq_events ?db = sq_events db @ new"
    using append_batch_extends [OF inv] by blast
  show fr: "relay_frontier ?db = relay_frontier db"
    using append_batch_keeps by (simp add: relay_frontier_def)
  have "\<not> is_unpublished (sq_outbox ?db) e" if e: "e \<in> set (sq_events ?db)" "ev_global e \<le> relay_frontier db" for e
  proof (cases "e \<in> set (sq_events db)")
    case True
    then obtain x where x: "map_of (sq_outbox db) (ev_id e) = Some x" using outbox_row [OF inv] by blast
    then have "map_of (sq_outbox ?db) (ev_id e) = Some x" using append_batch_keeps by blast
    with x assms True e show ?thesis by (auto simp: relay_inv_def is_unpublished_def)
  next
    case False
    with e new have n: "e \<in> set new" by auto
    have "log_ok (sq_events db @ new)" using inv' new by (simp add: store_inv_def)
    then have "relay_frontier db < ev_global e"
      using assms n log_positions [of "sq_events db" new] relay_inv_positive [of ?db e] e(1) inv'
      by (auto simp: relay_inv_def store_inv_def log_ok_def)
    with e show ?thesis by simp
  qed
  with assms new fr inv' show "relay_inv ?db" by (auto simp: relay_inv_def)
qed

text \<open>What a pass leaves, in terms of its loop.\<close>

definition relay_batch :: "sqlite \<Rightarrow> event list" where
  "relay_batch db = take (nat batch_size) (waiting db)"

definition relay_result :: "'j publish_op \<Rightarrow> relay_env \<Rightarrow> 'j \<Rightarrow> sqlite \<Rightarrow> 'j relay_acc" where
  "relay_result pub env j db =
     relay_loop pub (re_ctx env) 0 (relay_batch db)
       \<lparr>ra_published = [], ra_frontier = 0, ra_contiguous = True, ra_js = j\<rparr>"

lemma relay_once_result:
  assumes "relay_once pub env (Some j) db = (r, js', db')"
  defines "acc \<equiv> relay_result pub env j db" and "db1 \<equiv> snd (append_batch None db (re_foreign env))"
  obtains (unread) "snd r \<noteq> None" "js' = Some j" "db' = db" "re_load env \<noteq> None"
    | (idle) "waiting db = []" "js' = Some j" "db' = db" "r = (0, None)"
    | (none) "ra_published acc = []" "js' = Some (ra_js acc)" "db' = db1"
    | (unmarked) "snd r \<noteq> None" "js' = Some (ra_js acc)" "re_mark env \<noteq> None"
        "db' = snd (mark_published (re_mark env) (re_now env) db1 (ra_published acc))"
        "fst (mark_published (re_mark env) (re_now env) db1 (ra_published acc)) \<noteq> Ok ()"
    | (marked) "js' = Some (ra_js acc)" "ra_published acc \<noteq> []"
        "fst (mark_published (re_mark env) (re_now env) db1 (ra_published acc)) = Ok ()"
        "db' = (let db2 = snd (mark_published (re_mark env) (re_now env) db1 (ra_published acc))
                in if 0 < ra_frontier acc
                   then snd (save_checkpoint (re_save env) db2 checkpoint_domain_events_relay (ra_frontier acc))
                   else db2)"
proof -
  have lim: "row_limit batch_size = nat batch_size" by (simp add: row_limit_def batch_size_def)
  show thesis
  proof (cases "re_load env")
    case (Some err)
    with assms(1) show thesis
      by (intro unread) (auto simp: relay_once_def unpublished_events_def read_tx_def)
  next
    case None
    then have ld: "unpublished_events (re_load env) db batch_size = Ok (relay_batch db)"
      by (simp add: unpublished_events_def read_tx_def relay_batch_def waiting_def lim)
    show thesis
    proof (cases "relay_batch db")
      case Nil
      then have "waiting db = []" by (simp add: relay_batch_def batch_size_def)
      with Nil ld assms(1) show thesis by (intro idle) (auto simp: relay_once_def)
    next
      case (Cons e es)
      let ?m = "mark_published (re_mark env) (re_now env) db1 (ra_published acc)"
      have "relay_once pub env (Some j) db =
          (let n = int (length (ra_published acc)); js' = Some (ra_js acc)
           in if ra_published acc = [] then ((n, None), js', db1)
              else (case ?m of
                      (Inl err, db2) \<Rightarrow> ((n, Some (Errorf ''outbox relay: mark published'' [err])), js', db2)
                    | (Inr _, db2) \<Rightarrow>
                        if 0 < ra_frontier acc
                        then ((n, None), js',
                              snd (save_checkpoint (re_save env) db2 checkpoint_domain_events_relay
                                     (ra_frontier acc)))
                        else ((n, None), js', db2)))"
        unfolding relay_once_def acc_def db1_def relay_result_def option.case ld Cons sum.case list.case Let_def
        by (rule refl)
      note run = this [unfolded assms(1)]
      consider "ra_published acc = []" | err where "ra_published acc \<noteq> []" "fst ?m = Inl err"
        | "ra_published acc \<noteq> []" "fst ?m = Ok ()"
        by (cases "fst ?m") auto
      then show thesis
      proof cases
        case 1
        with run show thesis by (intro none) auto
      next
        case 2
        moreover from this have "re_mark env \<noteq> None" by (cases "re_mark env") (auto simp: mark_published_def)
        ultimately show thesis using run by (intro unmarked) (auto simp: Let_def split: prod.splits)
      next
        case 3
        with run show thesis by (intro marked) (auto simp: Let_def split: prod.splits if_splits)
      qed
    qed
  qed
qed

lemma relay_result_frontier:
  fixes pub :: "'j publish_op" and env and j :: 'j
  assumes "store_inv db"
  defines "acc \<equiv> relay_result pub env j db"
  shows "set (ra_published acc) \<subseteq> ev_id ` set (relay_batch db)"
    and "ra_frontier acc = 0 \<or> ra_frontier acc \<in> ev_global ` set (relay_batch db)"
    and "\<forall>e\<in>set (waiting db). ev_global e \<le> ra_frontier acc \<longrightarrow> ev_id e \<in> set (ra_published acc)"
proof -
  have sorted: "sorted_wrt (\<lambda>a b. ev_global a < ev_global b) (waiting db)" by (rule sorted_waiting [OF assms(1)])
  then have sb: "sorted_wrt (\<lambda>a b. ev_global a < ev_global b) (relay_batch db)"
    by (simp add: relay_batch_def sorted_wrt_take)
  have "set (relay_batch db) \<subseteq> set (sq_events db)"
    by (auto simp: relay_batch_def waiting_def dest: in_set_takeD)
  then have pos: "\<forall>e\<in>set (relay_batch db). 0 < ev_global e"
    using assms(1) by (auto simp: store_inv_def log_ok_def)
  obtain new where f: "ra_published acc = new" "set new \<subseteq> ev_id ` set (relay_batch db)"
      "ra_frontier acc = 0 \<or> ra_frontier acc \<in> ev_global ` set (relay_batch db)"
      "\<forall>e\<in>set (relay_batch db). ev_global e \<le> ra_frontier acc \<longrightarrow> ev_id e \<in> set new"
    using relay_loop_frontier [OF sb _ refl, of "\<lparr>ra_published = [], ra_frontier = 0, ra_contiguous = True, ra_js = j\<rparr>"
        pub "re_ctx env" 0] pos
    unfolding acc_def relay_result_def by auto
  then show "set (ra_published acc) \<subseteq> ev_id ` set (relay_batch db)"
    and front: "ra_frontier acc = 0 \<or> ra_frontier acc \<in> ev_global ` set (relay_batch db)" by simp_all
  show "\<forall>e\<in>set (waiting db). ev_global e \<le> ra_frontier acc \<longrightarrow> ev_id e \<in> set (ra_published acc)"
  proof (intro ballI impI)
    fix e assume e: "e \<in> set (waiting db)" "ev_global e \<le> ra_frontier acc"
    have "0 < ev_global e" using e(1) assms(1) by (auto simp: waiting_def store_inv_def log_ok_def)
    with front e(2) obtain b where b: "b \<in> set (relay_batch db)" "ev_global e \<le> ev_global b" by auto
    have w: "waiting db = relay_batch db @ drop (nat batch_size) (waiting db)" by (simp add: relay_batch_def)
    then have "\<forall>x\<in>set (relay_batch db). \<forall>y\<in>set (drop (nat batch_size) (waiting db)). ev_global x < ev_global y"
      using sorted by (metis sorted_wrt_append)
    with b have "e \<notin> set (drop (nat batch_size) (waiting db))" by fastforce
    with e(1) w have "e \<in> set (relay_batch db)" by (metis Un_iff set_append)
    with f(1,4) e(2) show "ev_id e \<in> set (ra_published acc)" by simp
  qed
qed

lemma relay_pass_inv:
  assumes "relay_inv db" and "relay_once pub env (Some j) db = (r, js', db')"
  shows "relay_inv db' \<and> relay_frontier db \<le> relay_frontier db'"
proof -
  let ?acc = "relay_result pub env j db" and ?db1 = "snd (append_batch None db (re_foreign env))"
  let ?db2 = "snd (mark_published (re_mark env) (re_now env) ?db1 (ra_published ?acc))"
  note inv1 = append_batch_relay_inv [OF assms(1), of None "re_foreign env"]
  from assms(1) have store: "store_inv db" by (simp add: relay_inv_def)
  note front = relay_result_frontier [OF store, of pub env j]
  have fr2: "relay_frontier ?db2 = relay_frontier db"
    using inv1(2) by (simp add: relay_frontier_def mark_published_frame)
  have keep: "relay_inv ?db2"
  proof (cases "fst (mark_published (re_mark env) (re_now env) ?db1 (ra_published ?acc))")
    case (Inl err)
    then have "?db2 = ?db1" by (cases "re_mark env") (auto simp: mark_published_def split: if_splits)
    with inv1 show ?thesis by simp
  next
    case (Inr u)
    then have "fst (mark_published (re_mark env) (re_now env) ?db1 (ra_published ?acc)) = Ok ()" by simp
    from mark_published_outbox [OF this] inv1 fr2 show ?thesis
      by (auto simp: relay_inv_def mark_published_frame small_writes_inv is_unpublished_def)
  qed
  from assms(2) show ?thesis
  proof (cases rule: relay_once_result)
    case marked
    show ?thesis
    proof (cases "0 < ra_frontier ?acc \<and> re_save env = None")
      case False
      then have "db' = ?db2" using marked(4) by (cases "re_save env") (auto simp: Let_def save_checkpoint_def)
      with keep fr2 show ?thesis by simp
    next
      case True
      then have db': "db' = ?db2\<lparr>sq_checkpoints := kv_put checkpoint_domain_events_relay (ra_frontier ?acc) (sq_checkpoints ?db2)\<rparr>"
        using marked(4) by (simp add: Let_def save_checkpoint_def)
      then have fr: "relay_frontier db' = ra_frontier ?acc" by (simp add: relay_frontier_def)
      from True front(2) obtain b where b: "b \<in> set (relay_batch db)" "ra_frontier ?acc = ev_global b" by auto
      then have bw: "b \<in> set (waiting db)" by (auto simp: relay_batch_def dest: in_set_takeD)
      then have up: "relay_frontier db < ra_frontier ?acc"
        using assms(1) b(2) by (force simp: waiting_def relay_inv_def)
      obtain new where new: "sq_events ?db1 = sq_events db @ new"
        using append_batch_extends [OF store] by blast
      have ev': "sq_events db' = sq_events db @ new" by (simp add: db' mark_published_frame new)
      have "\<not> is_unpublished (sq_outbox db') e"
        if e: "e \<in> set (sq_events db')" "ev_global e \<le> ra_frontier ?acc" for e
      proof -
        have ok1: "log_ok (sq_events db @ new)" using inv1(1) new by (simp add: relay_inv_def store_inv_def)
        have "b \<in> set (sq_events db)" using bw by (simp add: waiting_def)
        then have old: "e \<in> set (sq_events db)"
          using e ev' b(2) log_positions [OF ok1, of b e] by auto
        obtain x where x: "map_of (sq_outbox db) (ev_id e) = Some x" using outbox_row [OF store old] by blast
        then have x1: "map_of (sq_outbox ?db1) (ev_id e) = Some x" using append_batch_keeps by blast
        have "x = None \<longrightarrow> ev_id e \<in> set (ra_published ?acc)"
          using front(3) old e(2) x by (simp add: waiting_def is_unpublished_def)
        with x1 show ?thesis
          by (cases x) (auto simp: db' is_unpublished_def mark_published_outbox [OF marked(3)])
      qed
      moreover have "store_inv db'" using keep by (simp add: db' relay_inv_def store_inv_def)
      moreover have "ra_frontier ?acc \<in> ev_global ` set (sq_events db')"
        using bw b(2) ev' by (simp add: waiting_def)
      ultimately show ?thesis using fr up by (simp add: relay_inv_def)
    qed
  qed (use assms(1) inv1 keep fr2 in simp_all)
qed

inductive relay_step :: "'j publish_op \<Rightarrow> 'j \<times> sqlite \<Rightarrow> 'j \<times> sqlite \<Rightarrow> bool" for pub where
  relay_pass: "relay_once pub env (Some j) db = (r, Some j', db') \<Longrightarrow> relay_step pub (j, db) (j', db')"
| relay_append: "relay_step pub (j, db) (j, snd (append_batch f db bs))"
| relay_snapshot: "relay_step pub (j, db) (j, snd (save_snapshot f now db snap))"
| relay_resume: "name \<noteq> checkpoint_domain_events_relay \<Longrightarrow>
     relay_step pub (j, db) (j, snd (save_checkpoint f db name pos))"

lemma other_writes_frontier:
  "relay_frontier (snd (save_snapshot f now db snap)) = relay_frontier db"
  "name \<noteq> checkpoint_domain_events_relay \<Longrightarrow>
     relay_frontier (snd (save_checkpoint f db name pos)) = relay_frontier db"
  by (cases f; simp add: relay_frontier_def save_snapshot_def save_checkpoint_def Let_def)+

lemma relay_step_inv:
  "relay_step pub s s' \<Longrightarrow> relay_inv (snd s) \<Longrightarrow>
     relay_inv (snd s') \<and> relay_frontier (snd s) \<le> relay_frontier (snd s')"
proof (induction rule: relay_step.induct)
  case (relay_pass env j db r j' db')
  from relay_pass_inv [OF _ relay_pass(1)] relay_pass(2) show ?case by simp
next
  case (relay_append j db f bs)
  then show ?case using append_batch_relay_inv [of db] by simp
qed (auto simp: relay_inv_def small_writes_inv save_snapshot_frame save_checkpoint_frame other_writes_frontier)

section \<open>Draining\<close>

lemma domain_subject_not_blank: "\<not> blank (subject_domain_event stype sid etype)"
proof -
  have "\<exists>t. subject_domain_event stype sid etype = CHR ''d'' # t"
    by (simp add: subject_domain_event_def subject_domain_events_prefix_def)
  then show ?thesis using not_blank_graphic [of "CHR ''d''"] by auto
qed

definition always_accepts :: "'j publish_op \<Rightarrow> bool" where
  "always_accepts pub \<longleftrightarrow> (\<forall>j subject i data. fst (pub j subject i data) = None)"

lemma accepted: "always_accepts pub \<Longrightarrow> \<not> blank subject \<Longrightarrow> fst (publish_domain_event pub j subject i data) = None"
proof -
  assume "always_accepts pub" and b: "\<not> blank subject"
  then have "fst (pub j subject (if blank i then None else Some i) data) = None"
    unfolding always_accepts_def by blast
  then obtain j' where "pub j subject (if blank i then None else Some i) data = (None, j')"
    by (metis prod.collapse)
  with b show ?thesis by (simp add: publish_domain_event_def)
qed

lemma relay_loop_all:
  assumes "always_accepts pub" and "\<forall>i. ctx i = None"
  shows "ra_published (relay_loop pub ctx i es acc) = ra_published acc @ map ev_id es"
proof (induction es arbitrary: i acc)
  case (Cons e es)
  show ?case
  proof (cases "event_bytes e")
    case (Inr data)
    obtain j where "publish_domain_event pub (ra_js acc)
        (subject_domain_event (ev_stype e) (ev_stream e) (ev_type e)) (ev_id e) data = (None, j)"
      using accepted [OF assms(1) domain_subject_not_blank] by (metis prod.collapse)
    with Inr Cons.IH assms(2) show ?thesis by simp
  qed (use Cons.IH assms(2) in simp)
qed simp

definition quiet :: "relay_env \<Rightarrow> bool" where
  "quiet env \<longleftrightarrow> re_load env = None \<and> re_mark env = None \<and> (\<forall>i. re_ctx env i = None) \<and> re_foreign env = []"

lemma waiting_marked:
  assumes inv: "store_inv db" and m: "fst (mark_published f now db (map ev_id (take n (waiting db)))) = Ok ()"
    and db': "sq_events db' = sq_events db"
      "sq_outbox db' = sq_outbox (snd (mark_published f now db (map ev_id (take n (waiting db)))))"
  shows "waiting db' = drop n (waiting db)"
proof -
  let ?ids = "ev_id ` set (take n (waiting db))"
  have dist: "distinct (map ev_id (waiting db))"
    using inv by (simp add: waiting_def store_inv_def log_ok_def distinct_map_filter)
  have "is_unpublished (sq_outbox db') e \<longleftrightarrow> is_unpublished (sq_outbox db) e \<and> ev_id e \<notin> ?ids" for e
    unfolding db' is_unpublished_def mark_published_outbox [OF m] by auto
  then have "waiting db' = filter (\<lambda>e. is_unpublished (sq_outbox db) e \<and> ev_id e \<notin> ?ids) (sq_events db)"
    unfolding waiting_def [of db'] db'(1) by (intro filter_cong) simp_all
  also have "\<dots> = filter (\<lambda>e. ev_id e \<notin> ?ids) (waiting db)"
    unfolding waiting_def [of db] filter_filter by (simp add: conj_commute)
  also have "\<dots> = filter (\<lambda>e. ev_id e \<notin> ?ids) (take n (waiting db) @ drop n (waiting db))" by simp
  also have "\<dots> = filter (\<lambda>e. ev_id e \<notin> ?ids) (drop n (waiting db))"
    by (simp only: filter_append) (simp add: filter_empty_conv)
  also have "\<dots> = drop n (waiting db)"
  proof (rule filter_True, intro ballI notI)
    fix e assume "e \<in> set (drop n (waiting db))" "ev_id e \<in> ?ids"
    moreover have "distinct (map ev_id (take n (waiting db)) @ map ev_id (drop n (waiting db)))"
      using dist by (simp flip: map_append)
    ultimately show False by auto
  qed
  finally show ?thesis .
qed

lemma relay_pass_drains:
  assumes "store_inv db" and "always_accepts pub" and "quiet env"
  shows "\<exists>n j' db'. relay_once pub env (Some j) db = ((n, None), Some j', db') \<and> store_inv db'
    \<and> waiting db' = drop 100 (waiting db)"
proof -
  obtain r js' db' where run: "relay_once pub env (Some j) db = (r, js', db')" by (metis prod.collapse)
  have pub: "ra_published (relay_result pub env j db) = map ev_id (take 100 (waiting db))"
    using relay_loop_all [OF assms(2)] assms(3)
    by (simp add: relay_result_def quiet_def relay_batch_def batch_size_def del: relay_loop.simps)
  have db1: "snd (append_batch None db (re_foreign env)) = db"
    using assms(3) by (simp add: quiet_def append_batch_def)
  from run show ?thesis
  proof (cases rule: relay_once_result)
    case idle
    with run assms(1) show ?thesis by simp
  next
    case none
    then have w: "waiting db = []" using pub by simp
    then have "relay_once pub env (Some j) db = ((0, None), Some j, db)"
      using assms(3) by (simp add: relay_once_def unpublished_events_def read_tx_def quiet_def waiting_def)
    with w assms(1) show ?thesis by simp
  next
    case marked
    let ?m = "mark_published (re_mark env) (re_now env) db (map ev_id (take 100 (waiting db)))"
    from marked(3) have ok: "fst ?m = Ok ()" by (simp add: pub db1)
    have ev: "sq_events db' = sq_events db" "sq_outbox db' = sq_outbox (snd ?m)"
      using marked(4) by (simp_all add: pub db1 Let_def mark_published_frame save_checkpoint_frame)
    have "store_inv db'"
      using marked(4) assms(1) by (simp add: pub db1 Let_def small_writes_inv)
    moreover have "\<exists>n. r = (n, None)"
      using run assms(3) by (auto simp: relay_once_def quiet_def mark_published_def Let_def unpublished_events_def read_tx_def
          split: sum.splits list.splits if_splits prod.splits)
    ultimately show ?thesis using run marked(1) waiting_marked [OF assms(1) ok ev] by auto
  qed (use assms(3) in \<open>auto simp: quiet_def\<close>)
qed

lemma relay_ticks_drain:
  assumes "store_inv db" and "always_accepts pub" and "\<forall>t\<in>set ticks. quiet (fst t)"
  shows "\<exists>j' db'. relay_ticks pub ticks (Some j, db) = (Some j', db') \<and> store_inv db'
    \<and> waiting db' = drop (100 * length ticks) (waiting db)"
  using assms(1,3)
proof (induction ticks arbitrary: j db)
  case (Cons t ticks)
  obtain env d where t: "t = (env, d)" by (cases t)
  with Cons.prems obtain n j1 db1 where one: "relay_once pub env (Some j) db = ((n, None), Some j1, db1)"
    "store_inv db1" "waiting db1 = drop 100 (waiting db)"
    using relay_pass_drains [OF Cons.prems(1) assms(2), of env j] by auto
  from Cons.IH [OF one(2), of j1] Cons.prems(2) one t show ?case by (simp add: add.commute)
qed simp

lemma unpublished_count_waiting:
  assumes "store_inv db"
  shows "unpublished_count None db = Ok (int (length (waiting db)))"
proof -
  let ?rows = "sq_outbox db"
  have "filter (\<lambda>r. snd r = None) ?rows = filter (\<lambda>r. map_of ?rows (fst r) = Some None) ?rows"
    using distinct_outbox [OF assms] by (intro filter_cong) (auto simp: map_of_eq_Some_iff dest: eq_key_imp_eq_value)
  then have "length (filter (\<lambda>r. snd r = None) ?rows) =
      length (filter (\<lambda>i. map_of ?rows i = Some None) (map fst ?rows))"
    by (simp add: filter_map comp_def)
  also have "map fst ?rows = map ev_id (sq_events db)" using assms by (simp add: store_inv_def)
  finally show ?thesis
    by (simp add: unpublished_count_def read_tx_def waiting_def filter_map comp_def is_unpublished_def [abs_def])
qed

section \<open>Properties\<close>

text \<open>
  C5. The relay checkpoint is sound and never moves back: in every state reached by relay passes,
  appends, snapshots and other checkpoints, whatever fails on the way, no event at or below the
  checkpoint waits in the outbox.
\<close>

theorem relay_checkpoint_sound:
  assumes "(relay_step pub)\<^sup>*\<^sup>* (j, empty_sqlite) (j1, db1)" and "(relay_step pub)\<^sup>*\<^sup>* (j1, db1) (j2, db2)"
  shows "(\<forall>e\<in>set (sq_events db1). ev_global e \<le> relay_frontier db1 \<longrightarrow> \<not> is_unpublished (sq_outbox db1) e)
    \<and> relay_frontier db1 \<le> relay_frontier db2"
proof (intro conjI)
  have inv: "relay_inv (snd s') \<and> relay_frontier (snd s) \<le> relay_frontier (snd s')"
    if "(relay_step pub)\<^sup>*\<^sup>* s s'" "relay_inv (snd s)" for s s'
    using that by (induction rule: rtranclp_induct) (auto dest!: relay_step_inv)
  have "relay_inv db1" using inv [OF assms(1)] relay_inv_empty by simp
  then show "\<forall>e\<in>set (sq_events db1). ev_global e \<le> relay_frontier db1 \<longrightarrow> \<not> is_unpublished (sq_outbox db1) e"
    "relay_frontier db1 \<le> relay_frontier db2"
    using inv [OF assms(2)] by (simp_all add: relay_inv_def)
qed

text \<open>A JetStream that keeps every message, and the surroundings of an undisturbed pass.\<close>

definition keep_all :: "(string \<times> string option \<times> json) list publish_op" where
  "keep_all j subject i data = (None, (subject, i, data) # j)"

definition calm :: relay_env where
  "calm = \<lparr>re_now = 7, re_load = None, re_mark = None, re_save = None, re_ctx = (\<lambda>i. None), re_foreign = []\<rparr>"

definition sample_fact :: event where
  "sample_fact = (sample_event ''e1'' 1)\<lparr>ev_meta := Encoded JNull\<rparr>"

definition sample_outbox :: sqlite where
  "sample_outbox = snd (append_batch None empty_sqlite
     [\<lparr>sa_stream = ''ar_1'', sa_expected = 0, sa_events = [sample_fact]\<rparr>])"

definition sample_relayed :: "(string \<times> string option \<times> json) list \<times> sqlite" where
  "sample_relayed =
     (case relay_once keep_all calm (Some []) sample_outbox of (r, js, db) \<Rightarrow> (case js of None \<Rightarrow> [] | Some j \<Rightarrow> j, db))"

lemma sample_relayed_pass:
  "relay_once keep_all calm (Some []) sample_outbox = ((1, None), Some (fst sample_relayed), snd sample_relayed)"
proof -
  have "fst (relay_once keep_all calm (Some []) sample_outbox) = (1, None)"
    "fst (snd (relay_once keep_all calm (Some []) sample_outbox)) \<noteq> None" by code_simp+
  then show ?thesis
    by (auto simp: sample_relayed_def split: prod.split option.split)
qed

lemma sample_outbox_inv: "store_inv sample_outbox"
  unfolding sample_outbox_def by (rule append_batch_inv [OF empty_store_inv])

theorem relay_checkpoint_sound_witness:
  "relay_frontier (snd sample_relayed) = 1 \<and> relay_frontier sample_outbox \<le> relay_frontier (snd sample_relayed)
   \<and> filter (\<lambda>e. ev_global e \<le> 1 \<and> is_unpublished (sq_outbox (snd sample_relayed)) e)
         (sq_events (snd sample_relayed)) = []"
proof -
  have a: "(relay_step keep_all)\<^sup>*\<^sup>* ([], empty_sqlite) ([], sample_outbox)"
    unfolding sample_outbox_def by (rule r_into_rtranclp, rule relay_append)
  have "relay_step keep_all ([], sample_outbox) (fst sample_relayed, snd sample_relayed)"
    by (rule relay_pass) (rule sample_relayed_pass)
  then have b: "(relay_step keep_all)\<^sup>*\<^sup>* ([], sample_outbox) (fst sample_relayed, snd sample_relayed)"
    by (rule r_into_rtranclp)
  have fr: "relay_frontier (snd sample_relayed) = 1" by code_simp
  from relay_checkpoint_sound [OF a b]
    relay_checkpoint_sound [OF rtranclp_trans [OF a b] rtranclp.rtrancl_refl] fr
  show ?thesis by (auto simp: filter_empty_conv)
qed

text \<open>
  C6. At-least-once delivery: an event the relay marks as published was acknowledged and kept by
  JetStream under its identifier, or has no encoding and never will.
\<close>

theorem relay_marks_delivered:
  assumes "store_inv db" and "publish_keeps pub kept"
    and "relay_once pub env (Some j) db = (r, Some j', db')"
    and "e \<in> set (waiting db)" and "\<not> is_unpublished (sq_outbox db') e"
  shows "case event_bytes e of Inl err \<Rightarrow> True | Inr data \<Rightarrow> relay_message e data \<in> kept j'"
proof -
  let ?acc = "relay_result pub env j db" and ?db1 = "snd (append_batch None db (re_foreign env))"
  have e: "e \<in> set (sq_events db)" "map_of (sq_outbox db) (ev_id e) = Some None"
    using assms(4) by (simp_all add: waiting_def is_unpublished_def)
  then have e1: "map_of (sq_outbox ?db1) (ev_id e) = Some None" using append_batch_keeps by blast
  have "js = Some (ra_js ?acc) \<and> ev_id e \<in> set (ra_published ?acc)" if "js = Some j'"
      "relay_once pub env (Some j) db = (r, js, db')" for js
    using that(2)
  proof (cases rule: relay_once_result)
    case marked
    then have "map_of (sq_outbox db') (ev_id e) = map_of (sq_outbox (snd (mark_published (re_mark env) (re_now env) ?db1 (ra_published ?acc)))) (ev_id e)"
      by (simp add: Let_def save_checkpoint_frame)
    with marked(1) e1 assms(5) mark_published_outbox [OF marked(3)] show ?thesis
      by (auto simp: is_unpublished_def split: if_splits)
  next
    case unmarked
    then have "db' = ?db1" by (cases "re_mark env") (auto simp: mark_published_def)
    with e1 assms(5) show ?thesis by (simp add: is_unpublished_def)
  qed (use e e1 assms(4,5) in \<open>auto simp: is_unpublished_def\<close>)
  then have j': "j' = ra_js ?acc" and p: "ev_id e \<in> set (ra_published ?acc)" using assms(3) by blast+
  from relay_loop_delivers [OF assms(2), of "re_ctx env" 0 "relay_batch db"] p
  obtain e' where e': "e' \<in> set (relay_batch db)" "ev_id e' = ev_id e" "relayed kept (ra_js ?acc) e'"
    unfolding relay_result_def by force
  then have "e' \<in> set (sq_events db)" by (auto simp: relay_batch_def waiting_def dest: in_set_takeD)
  with e(1) e'(2) assms(1) have same: "e' = e" by (auto simp: store_inv_def log_ok_def distinct_map dest: inj_onD)
  show ?thesis using e'(3) unfolding same j' relayed_def .
qed

theorem relay_marks_delivered_witness:
  "\<exists>data. (''domain.events.artist.ar_1.ArtistCreated'', Some ''e1'', data) \<in> set (fst sample_relayed)"
proof -
  have "publish_keeps keep_all set" by (auto simp: publish_keeps_def keep_all_def)
  note pass = relay_marks_delivered [OF sample_outbox_inv this sample_relayed_pass]
  let ?e = "sample_fact\<lparr>ev_global := 1\<rparr>"
  have "sq_events sample_outbox = [?e] \<and> waiting sample_outbox = sq_events sample_outbox
      \<and> \<not> is_unpublished (sq_outbox (snd sample_relayed)) ?e" by code_simp
  with pass [of ?e] have "case event_bytes ?e of Inl err \<Rightarrow> True
      | Inr data \<Rightarrow> relay_message ?e data \<in> set (fst sample_relayed)" by simp
  moreover have "case event_bytes ?e of Inl err \<Rightarrow> False
      | Inr data \<Rightarrow> relay_message ?e data = (''domain.events.artist.ar_1.ArtistCreated'', Some ''e1'', data)"
    by code_simp
  ultimately show ?thesis by (auto split: sum.splits)
qed

text \<open>
  C7. The relay drains the outbox: while JetStream accepts and nothing else fails or writes, every
  tick takes the next hundred events, so after as many ticks as hundreds nothing waits.
\<close>

theorem relay_drains_outbox:
  assumes "store_inv db" and "always_accepts pub" and "\<forall>t\<in>set ticks. quiet (fst t)"
    and "relay_ticks pub ticks (Some j, db) = (js, db')"
  shows "waiting db' = drop (100 * length ticks) (waiting db)
    \<and> (length (waiting db) \<le> 100 * length ticks \<longrightarrow> unpublished_count None db' = Ok 0)"
  using relay_ticks_drain [OF assms(1-3), of j] assms(4) by (auto simp: unpublished_count_waiting)

theorem relay_drains_outbox_witness:
  "unpublished_count None (snd (relay_ticks keep_all [(calm, False)] (Some [], sample_outbox))) = Ok 0"
proof -
  have "always_accepts keep_all" by (simp add: always_accepts_def keep_all_def)
  moreover have "\<forall>t\<in>set [(calm, False)]. quiet (fst t)" by (simp add: calm_def quiet_def)
  moreover have "length (waiting sample_outbox) \<le> 100 * length [(calm, False)]" by code_simp
  ultimately show ?thesis
    using relay_drains_outbox [OF sample_outbox_inv, where ticks = "[(calm, False)]" and pub = keep_all and j = "[]"]
    by (metis prod.collapse)
qed

definition rewritten_outbox :: sqlite where
  "rewritten_outbox = snd (replace_stream True None (snd sample_relayed) ''ar_1'' [sample_event ''e9'' 1])"


end
