(* ===== verification/Messaging_Payloads.thy ===== *)
theory Messaging_Payloads
  imports Messaging_Subjects
begin

text \<open>
  The versioned payloads of the message bus (\<^verbatim>\<open>internal/messaging/messages.go\<close>), read with
  \<^verbatim>\<open>encoding/json\<close>: member names match without regard to case, later members win, and a null
  leaves a field as it is (a map becomes nil). The current time enters as its RFC 3339 text.
\<close>

section \<open>Reading a member\<close>

fun fold_key :: "string \<Rightarrow> string" where
  "fold_key [] = []"
| "fold_key [a] = [lower_byte a]"
| "fold_key [a, b] =
     (if byte a = 0xC5 \<and> byte b = 0xBF then ''s'' else [lower_byte a, lower_byte b])"
| "fold_key (a # b # c # s) =
     (if byte a = 0xE2 \<and> byte b = 0x84 \<and> byte c = 0xAA then CHR ''k'' # fold_key s
      else if byte a = 0xC5 \<and> byte b = 0xBF then CHR ''s'' # fold_key (c # s)
      else lower_byte a # fold_key (b # c # s))"

fun read_member :: "('a \<Rightarrow> json \<Rightarrow> 'a option) \<Rightarrow> string \<Rightarrow> 'a \<Rightarrow> (string \<times> json) list \<Rightarrow> 'a option" where
  "read_member upd k x [] = Some x"
| "read_member upd k x ((k', v) # m) =
     (if fold_key k' \<noteq> fold_key k then read_member upd k x m
      else (case upd x v of None \<Rightarrow> None | Some y \<Rightarrow> read_member upd k y m))"

fun upd_str :: "string \<Rightarrow> json \<Rightarrow> string option" where
  "upd_str x (JStr s) = Some s"
| "upd_str x JNull = Some x"
| "upd_str x j = None"

fun upd_int :: "int \<Rightarrow> json \<Rightarrow> int option" where
  "upd_int x (JInt i) = (if in_int64 i then Some i else None)"
| "upd_int x JNull = Some x"
| "upd_int x j = None"

fun upd_bool :: "bool \<Rightarrow> json \<Rightarrow> bool option" where
  "upd_bool x (JBool b) = Some b"
| "upd_bool x JNull = Some x"
| "upd_bool x j = None"

fun upd_entries :: "(string \<times> int) list \<Rightarrow> (string \<times> json) list \<Rightarrow> (string \<times> int) list option" where
  "upd_entries x [] = Some x"
| "upd_entries x ((k, v) # m) =
     (case upd_int 0 v of None \<Rightarrow> None | Some i \<Rightarrow> upd_entries (kv_put k i x) m)"

fun upd_map :: "(string \<times> int) list \<Rightarrow> json \<Rightarrow> (string \<times> int) list option" where
  "upd_map x (JObj m) = upd_entries x m"
| "upd_map x JNull = Some []"
| "upd_map x j = None"

section \<open>Versions\<close>

definition schema_v1 :: string where "schema_v1 = ''v1''"

definition supported_message_versions :: "string list" where
  "supported_message_versions = [schema_v1]"

definition check_message_version :: "string \<Rightarrow> string \<Rightarrow> string res" where
  "check_message_version version payload =
     (if version = [] then Ok schema_v1
      else if version \<notin> set supported_message_versions
      then fail_msg (''unsupported '' @ payload @ '' version'')
      else Ok version)"

definition or_v1 :: "string \<Rightarrow> string" where "or_v1 v = (if v = [] then schema_v1 else v)"

section \<open>scrape.request\<close>

record scrape_requested =
  sr_version :: string
  sr_request :: string
  sr_artist :: string
  sr_spotify :: string
  sr_name :: string
  sr_queued :: string

definition new_scrape_requested ::
    "string \<Rightarrow> string \<Rightarrow> string \<Rightarrow> string \<Rightarrow> string \<Rightarrow> scrape_requested" where
  "new_scrape_requested now_text artist_id spotify_id name request_id =
     \<lparr>sr_version = schema_v1, sr_request = request_id, sr_artist = artist_id,
      sr_spotify = spotify_id, sr_name = name, sr_queued = now_text\<rparr>"

definition marshal_scrape_requested :: "scrape_requested \<Rightarrow> json" where
  "marshal_scrape_requested r =
     JObj ((''version'', JStr (or_v1 (sr_version r))) # omit_str ''request_id'' (sr_request r) @
       (''artist_id'', JStr (sr_artist r)) # (''spotify_id'', JStr (sr_spotify r)) #
       (''artist_name'', JStr (sr_name r)) # omit_str ''queued_at'' (sr_queued r))"

fun json_members :: "json \<Rightarrow> (string \<times> json) list option" where
  "json_members (JObj m) = Some m"
| "json_members JNull = Some []"
| "json_members j = None"

definition unmarshal_scrape_requested :: "json \<Rightarrow> scrape_requested res" where
  "unmarshal_scrape_requested j =
     bind_res (of_opt (Errorf ''json'' [])
       (do { m \<leftarrow> json_members j;
             v \<leftarrow> read_member upd_str ''version'' [] m;
             r \<leftarrow> read_member upd_str ''request_id'' [] m;
             a \<leftarrow> read_member upd_str ''artist_id'' [] m;
             s \<leftarrow> read_member upd_str ''spotify_id'' [] m;
             n \<leftarrow> read_member upd_str ''artist_name'' [] m;
             q \<leftarrow> read_member upd_str ''queued_at'' [] m;
             Some \<lparr>sr_version = v, sr_request = r, sr_artist = a, sr_spotify = s, sr_name = n,
                   sr_queued = q\<rparr> }))
       (\<lambda>req. bind_res (check_message_version (sr_version req) ''scrape.request'') (\<lambda>v.
          if sr_artist req = [] then fail_msg ''missing artist_id''
          else if sr_spotify req = [] then fail_msg ''missing spotify_id''
          else Ok (req\<lparr>sr_version := v\<rparr>)))"

section \<open>artist.updated\<close>

record artist_updated =
  au_version :: string
  au_request :: string
  au_artist :: string
  au_name :: string
  au_status :: string
  au_at :: string
  au_listeners :: int

definition new_artist_updated ::
    "string \<Rightarrow> string \<Rightarrow> string \<Rightarrow> int \<Rightarrow> string \<Rightarrow> string \<Rightarrow> artist_updated" where
  "new_artist_updated now_text artist_id name listeners status request_id =
     \<lparr>au_version = schema_v1, au_request = request_id, au_artist = artist_id, au_name = name,
      au_status = status, au_at = now_text, au_listeners = listeners\<rparr>"

definition marshal_artist_updated :: "artist_updated \<Rightarrow> json" where
  "marshal_artist_updated u =
     JObj ((''version'', JStr (or_v1 (au_version u))) # omit_str ''request_id'' (au_request u) @
       (''artist_id'', JStr (au_artist u)) # (''name'', JStr (au_name u)) #
       (''fetch_status'', JStr (au_status u)) # (''updated_at'', JStr (au_at u)) #
       [(''monthly_listeners'', JInt (au_listeners u))])"

definition unmarshal_artist_updated :: "json \<Rightarrow> artist_updated res" where
  "unmarshal_artist_updated j =
     bind_res (of_opt (Errorf ''json'' [])
       (do { m \<leftarrow> json_members j;
             v \<leftarrow> read_member upd_str ''version'' [] m;
             r \<leftarrow> read_member upd_str ''request_id'' [] m;
             a \<leftarrow> read_member upd_str ''artist_id'' [] m;
             n \<leftarrow> read_member upd_str ''name'' [] m;
             s \<leftarrow> read_member upd_str ''fetch_status'' [] m;
             t \<leftarrow> read_member upd_str ''updated_at'' [] m;
             l \<leftarrow> read_member upd_int ''monthly_listeners'' 0 m;
             Some \<lparr>au_version = v, au_request = r, au_artist = a, au_name = n, au_status = s,
                   au_at = t, au_listeners = l\<rparr> }))
       (\<lambda>u. bind_res (check_message_version (au_version u) ''artist.updated'') (\<lambda>v.
          Ok (u\<lparr>au_version := v,
                au_status := (if au_status u = [] then ''idle'' else au_status u)\<rparr>)))"

section \<open>batch.progress\<close>

record batch_progress_updated =
  bp_version :: string
  bp_batch :: string
  bp_total :: int
  bp_completed :: int
  bp_done :: bool
  bp_stats :: "(string \<times> int) list"

definition new_batch_progress_updated ::
    "string \<Rightarrow> int \<Rightarrow> int \<Rightarrow> bool \<Rightarrow> (string \<times> int) list \<Rightarrow> batch_progress_updated" where
  "new_batch_progress_updated batch_id tot completed finished stats =
     \<lparr>bp_version = schema_v1, bp_batch = batch_id, bp_total = tot, bp_completed = completed,
      bp_done = finished, bp_stats = stats\<rparr>"

definition marshal_batch_progress_updated :: "batch_progress_updated \<Rightarrow> json" where
  "marshal_batch_progress_updated u =
     JObj ([(''version'', JStr (or_v1 (bp_version u))), (''batch_id'', JStr (bp_batch u)),
            (''total'', JInt (bp_total u)), (''completed'', JInt (bp_completed u)),
            (''done'', JBool (bp_done u))] @
       (if bp_stats u = [] then [] else [(''stats'', enc_ints (bp_stats u))]))"

definition unmarshal_batch_progress_updated :: "json \<Rightarrow> batch_progress_updated res" where
  "unmarshal_batch_progress_updated j =
     bind_res (of_opt (Errorf ''unmarshal batch.progress'' [])
       (do { m \<leftarrow> json_members j;
             v \<leftarrow> read_member upd_str ''version'' [] m;
             b \<leftarrow> read_member upd_str ''batch_id'' [] m;
             t \<leftarrow> read_member upd_int ''total'' 0 m;
             c \<leftarrow> read_member upd_int ''completed'' 0 m;
             d \<leftarrow> read_member upd_bool ''done'' False m;
             s \<leftarrow> read_member upd_map ''stats'' [] m;
             Some \<lparr>bp_version = v, bp_batch = b, bp_total = t, bp_completed = c, bp_done = d,
                   bp_stats = s\<rparr> }))
       (\<lambda>u. bind_res (check_message_version (bp_version u) ''batch.progress'') (\<lambda>v.
          Ok (u\<lparr>bp_version := v\<rparr>)))"

section \<open>Round trips\<close>

lemma read_member_append:
  "read_member upd k x (m @ m') =
     (case read_member upd k x m of None \<Rightarrow> None | Some y \<Rightarrow> read_member upd k y m')"
  by (induction upd k x m rule: read_member.induct) (auto split: option.splits)

lemma read_member_omit:
  "read_member upd_str k x (omit_str k' s) =
     Some (if fold_key k' = fold_key k \<and> s \<noteq> [] then s else x)"
  "read_member upd_int k y (omit_str k' s) =
     (if fold_key k' = fold_key k \<and> s \<noteq> [] then None else Some y)"
  by (auto simp: omit_str_def)

lemma lower_byte_lower: "byte c < 65 \<or> 90 < byte c \<Longrightarrow> lower_byte c = c"
  by (auto simp: lower_byte_def)

lemma upd_entries_distinct:
  "distinct (map fst (x @ m)) \<Longrightarrow> \<forall>kv\<in>set m. in_int64 (snd kv) \<Longrightarrow>
     upd_entries x (map (\<lambda>kv. (fst kv, JInt (snd kv))) m) = Some (x @ m)"
proof (induction m arbitrary: x)
  case (Cons kv m)
  have "kv_put (fst kv) (snd kv) x = x @ [kv]" if "fst kv \<notin> fst ` set x"
    using that by (induction x) auto
  with Cons show ?case by (auto simp: image_iff)
qed simp

text \<open>What a publisher marshals, a reader unmarshals to the same payload.\<close>

lemma scrape_requested_round_trip:
  assumes "sr_version r \<in> {[], schema_v1}" and "sr_artist r \<noteq> []" and "sr_spotify r \<noteq> []"
  shows "unmarshal_scrape_requested (marshal_scrape_requested r) = Ok (r\<lparr>sr_version := schema_v1\<rparr>)"
  using assms
  by (auto simp: unmarshal_scrape_requested_def marshal_scrape_requested_def read_member_append
      read_member_omit lower_byte_def or_v1_def check_message_version_def supported_message_versions_def
      schema_v1_def)

lemma artist_updated_round_trip:
  assumes "au_version u \<in> {[], schema_v1}" and "in_int64 (au_listeners u)"
  shows "unmarshal_artist_updated (marshal_artist_updated u) =
    Ok (u\<lparr>au_version := schema_v1, au_status := (if au_status u = [] then ''idle'' else au_status u)\<rparr>)"
  using assms
  by (auto simp: unmarshal_artist_updated_def marshal_artist_updated_def read_member_append
      read_member_omit lower_byte_def or_v1_def check_message_version_def supported_message_versions_def
      schema_v1_def)

lemma batch_progress_round_trip:
  assumes "bp_version u \<in> {[], schema_v1}" and "in_int64 (bp_total u)" and "in_int64 (bp_completed u)"
    and "distinct (map fst (bp_stats u))" and "\<forall>kv\<in>set (bp_stats u). in_int64 (snd kv)"
  shows "unmarshal_batch_progress_updated (marshal_batch_progress_updated u) = Ok (u\<lparr>bp_version := schema_v1\<rparr>)"
  using assms upd_entries_distinct [of "[]" "bp_stats u"]
  by (auto simp: unmarshal_batch_progress_updated_def marshal_batch_progress_updated_def
      lower_byte_def or_v1_def check_message_version_def supported_message_versions_def
      schema_v1_def enc_ints_def)

section \<open>Routing\<close>

lemma normalize_fixed: "p \<in> set scrape_providers \<Longrightarrow> normalize_scrape_provider p = p"
proof -
  have "\<forall>p\<in>set scrape_providers. normalize_scrape_provider p = p" by code_simp
  then show "p \<in> set scrape_providers \<Longrightarrow> normalize_scrape_provider p = p" by blast
qed

lemma has_prefix_append [simp]: "has_prefix p (p @ s)"
  by (simp add: has_prefix_def)

lemma provider_round_trip:
  "scrape_provider_from_subject (subject_scrape_request_for_provider p) = normalize_scrape_provider p"
proof -
  let ?q = "normalize_scrape_provider p"
  have "?q = scrape_provider_any \<or> ?q \<in> set scrape_providers"
    by (simp add: normalize_scrape_provider_def Let_def)
  then show ?thesis
    using normalize_fixed [of ?q] has_prefix_append [of "subject_scrape_request @ [dot]" ?q]
    by (auto simp: scrape_provider_from_subject_def subject_scrape_request_for_provider_def Let_def
        simp del: has_prefix_append)
qed

lemma ranks_round_trip:
  "ranks_genre_from_subject (subject_ranks_updated_for_genre g) = trim_space g"
  using has_prefix_append [of "subject_ranks_updated @ [dot]" "trim_space g"]
  by (auto simp: ranks_genre_from_subject_def subject_ranks_updated_for_genre_def Let_def
      has_prefix_def simp del: has_prefix_append)

end
