(* ===== verification/Wire_Properties.thy ===== *)
theory Wire_Properties
  imports Messaging_Payloads Event_Envelope
begin

text \<open>What survives the wire: event envelopes, message payloads, and the routing in subjects.\<close>


definition sample_envelope :: event where
  "sample_envelope = new_event \<lparr>st_uuid = ''1'', st_now = 9\<rparr> ''ar_1'' ''artist'' 4 ''StatusChanged''
     (JObj [(''old_status'', JStr ''waiting''), (''new_status'', JStr ''included'')]) MetaNil"



definition sample_progress :: batch_progress_updated where
  "sample_progress = new_batch_progress_updated ''b1'' 3 1 False [(''high'', 2), (''low'', 1)]"

definition sample_scrape :: scrape_requested where
  "sample_scrape = new_scrape_requested ''2026-01-01T00:00:00Z'' ''ar_1'' ''sp1'' ''Opeth'' ''req_1''"

definition sample_update :: artist_updated where
  "sample_update = new_artist_updated ''2026-01-01T00:00:00Z'' ''ar_1'' ''Opeth'' 900 [] ''req_1''"


end
