(* ===== verification/Batch_Progress.thy ===== *)
theory Batch_Progress
  imports Batch_Run Append_Retry
begin

text \<open>
  The batch progress projection (\<^verbatim>\<open>internal/batchprogress/store.go\<close>): the tables \<^verbatim>\<open>batches\<close> and
  \<^verbatim>\<open>batch_members\<close> next to the event log, and the aggregate the store caches. Tables are lists of
  rows in rowid order; every transaction gets the failure it runs into.
\<close>

section \<open>Stored instants\<close>

text \<open>
  Instants are stored as UTC text in \<^verbatim>\<open>time.RFC3339Nano\<close> and compared as text. Up to the seconds the
  text has a fixed width; then come a point and the fraction without its trailing zeros, if there is
  one, and \<^verbatim>\<open>Z\<close>.
\<close>

fun digits_of :: "nat \<Rightarrow> int \<Rightarrow> string" where
  "digits_of 0 n = []"
| "digits_of (Suc k) n = digits_of k (n div 10) @ [char_of (nat (n mod 10) + 48)]"

definition fraction_text :: "int \<Rightarrow> string" where
  "fraction_text ns =
     (if ns = 0 then []
      else CHR ''.'' # rev (dropWhile (\<lambda>c. c = CHR ''0'') (rev (digits_of 9 ns))))"

definition stamp_key :: "time \<Rightarrow> int \<times> string" where
  "stamp_key t = (t div second, fraction_text (t mod second) @ ''Z'')"

definition stamp_before :: "time \<Rightarrow> time \<Rightarrow> bool" where
  "stamp_before a b \<longleftrightarrow>
     fst (stamp_key a) < fst (stamp_key b)
   \<or> fst (stamp_key a) = fst (stamp_key b) \<and> snd (stamp_key a) < snd (stamp_key b)"

section \<open>Tables\<close>

record batch_row =
  br_total :: int
  br_completed :: int
  br_done :: bool
  br_stats :: "(string \<times> int) list"
  br_created :: time
  br_updated :: time

record batch_tables =
  tb_batches :: "(string \<times> batch_row) list"
  tb_members :: "((string \<times> string) \<times> bool) list"

record 's progress =
  pg_tables :: batch_tables
  pg_cache :: "(string \<times> batch) option"
  pg_store :: 's

definition tables_tx :: "fault \<Rightarrow> batch_tables \<Rightarrow> (batch_tables \<Rightarrow> batch_tables) \<Rightarrow> unit res \<times> batch_tables" where
  "tables_tx fault tb f = (case fault of Some err \<Rightarrow> (Fail err, tb) | None \<Rightarrow> (Ok (), f tb))"

text \<open>\<^verbatim>\<open>DELETE FROM batches WHERE done = 1 AND updated_at < ?\<close>; members cascade.\<close>

definition prune_rows :: "time \<Rightarrow> batch_tables \<Rightarrow> batch_tables" where
  "prune_rows before tb =
     (let gone = fst ` set (filter (\<lambda>r. br_done (snd r) \<and> stamp_before (br_updated (snd r)) before) (tb_batches tb))
      in tb\<lparr>tb_batches := filter (\<lambda>r. fst r \<notin> gone) (tb_batches tb),
            tb_members := filter (\<lambda>m. fst (fst m) \<notin> gone) (tb_members tb)\<rparr>)"

definition count_done :: "batch_tables \<Rightarrow> string \<Rightarrow> int" where
  "count_done tb i = int (length (filter (\<lambda>m. fst (fst m) = i \<and> snd m) (tb_members tb)))"

definition close_row :: "batch_row \<Rightarrow> batch_row" where
  "close_row r = (if 0 < br_total r \<and> br_total r \<le> br_completed r then r\<lparr>br_done := True\<rparr> else r)"

definition recompute_row :: "time \<Rightarrow> batch_tables \<Rightarrow> string \<Rightarrow> batch_row \<Rightarrow> batch_row" where
  "recompute_row now tb i r = close_row (r\<lparr>br_completed := count_done tb i, br_updated := now\<rparr>)"

text \<open>\<^verbatim>\<open>recomputeLocked\<close>.\<close>

definition recompute_locked :: "time \<Rightarrow> string \<Rightarrow> batch_tables \<Rightarrow> batch_tables" where
  "recompute_locked now i tb =
     tb\<lparr>tb_batches := map (\<lambda>r. if fst r = i then (i, recompute_row now tb i (snd r)) else r) (tb_batches tb)\<rparr>"

definition set_member_done :: "string \<Rightarrow> string \<Rightarrow> batch_tables \<Rightarrow> batch_tables" where
  "set_member_done i a tb =
     tb\<lparr>tb_members := map (\<lambda>m. if fst m = (i, a) then ((i, a), True) else m) (tb_members tb)\<rparr>"

definition mark_member_done :: "fault \<Rightarrow> time \<Rightarrow> string \<Rightarrow> string \<Rightarrow> batch_tables \<Rightarrow> unit res \<times> batch_tables" where
  "mark_member_done fault now i a tb =
     tables_tx fault tb (\<lambda>tb. recompute_locked now i (set_member_done i a tb))"

section \<open>The log of a batch\<close>

fun contains_text :: "string \<Rightarrow> gerr \<Rightarrow> bool" where
  "contains_text t (Sentinel s) = False"
| "contains_text t (Errorf m es) = (sublist t m \<or> True \<in> set (map (contains_text t) es))"
| "contains_text t (RateLimitError provider after status) = False"

definition is_batch_stream_conflict :: "gerr \<Rightarrow> bool" where
  "is_batch_stream_conflict err \<longleftrightarrow>
     errors_is ErrConcurrencyConflict err \<or> contains_text ''UNIQUE constraint failed'' err"

text \<open>The store interface the operations below run on: append, load, and the context error.\<close>

record 's log_ops =
  lg_append :: "'s append_op"
  lg_load :: "'s load_op"
  lg_ctx :: "'s \<Rightarrow> gerr option"

definition append_started ::
    "'s log_ops \<Rightarrow> (nat \<Rightarrow> stamp) \<Rightarrow> string \<Rightarrow> string list \<Rightarrow> (string \<times> int) list \<Rightarrow> 's progress
     \<Rightarrow> unit res \<times> 's progress" where
  "append_started lg sts i ids stats s =
     (case new_batch (sts 0) (sts 1) i ids stats of
        Inl err \<Rightarrow> (Fail (Errorf ''starting batch aggregate'' [err]), s)
      | Inr agg \<Rightarrow>
          if ba_uncommitted agg = [] then (Ok (), s)
          else (case append_with_retry (lg_append lg) (lg_load lg) (lg_ctx lg) (pg_store s) i 0
                       (ba_uncommitted agg) of
                  (Inr _, st) \<Rightarrow> (Ok (), s\<lparr>pg_store := st, pg_cache := Some (i, clear_uncommitted agg)\<rparr>)
                | (Inl err, st) \<Rightarrow>
                    (if is_batch_stream_conflict err then Ok ()
                     else Fail (Errorf ''appending BatchStarted'' [err]), s\<lparr>pg_store := st\<rparr>)))"

definition seed_stream ::
    "'s log_ops \<Rightarrow> (nat \<Rightarrow> stamp) \<Rightarrow> fault \<Rightarrow> string \<Rightarrow> 's progress \<Rightarrow> unit res \<times> 's progress" where
  "seed_stream lg sts fault i s =
     (case fault of
        Some err \<Rightarrow> (Fail (Errorf ''seeding batch'' [err]), s)
      | None \<Rightarrow>
          (case map_of (tb_batches (pg_tables s)) i of
             None \<Rightarrow> (Fail (Errorf ''seeding batch'' [Errorf ''batch not found for seeding'' []]), s)
           | Some row \<Rightarrow>
               let members = map (snd \<circ> fst) (filter (\<lambda>m. fst (fst m) = i) (tb_members (pg_tables s)))
               in (case new_batch (sts 0) (sts 1) i members (br_stats row) of
                     Inl err \<Rightarrow> (Fail (Errorf ''seeding batch aggregate'' [err]), s)
                   | Inr agg \<Rightarrow>
                       (case append_with_retry (lg_append lg) (lg_load lg) (lg_ctx lg) (pg_store s) i 0
                               (ba_uncommitted agg) of
                          (Inr _, st) \<Rightarrow> (Ok (), s\<lparr>pg_store := st\<rparr>)
                        | (Inl err, st) \<Rightarrow>
                            (if is_batch_stream_conflict err then Ok ()
                             else Fail (Errorf ''appending seeded BatchStarted'' [err]), s\<lparr>pg_store := st\<rparr>)))))"

definition load_batch ::
    "'s log_ops \<Rightarrow> (nat \<Rightarrow> stamp) \<Rightarrow> fault \<Rightarrow> string \<Rightarrow> 's progress \<Rightarrow> batch res \<times> 's progress" where
  "load_batch lg sts fault i s =
     (case lg_load lg (pg_store s) i of
        (Inl err, st) \<Rightarrow> (Fail (Errorf ''loading batch stream'' [err]), s\<lparr>pg_store := st\<rparr>)
      | (Inr es, st) \<Rightarrow>
          if es \<noteq> [] then (batch_replay i es, s\<lparr>pg_store := st\<rparr>)
          else (case seed_stream lg sts fault i (s\<lparr>pg_store := st\<rparr>) of
                  (Inl err, s1) \<Rightarrow> (Fail err, s1)
                | (Inr _, s1) \<Rightarrow>
                    (case lg_load lg (pg_store s1) i of
                       (Inl err, st1) \<Rightarrow> (Fail (Errorf ''reloading seeded batch stream'' [err]), s1\<lparr>pg_store := st1\<rparr>)
                     | (Inr [], st1) \<Rightarrow> (fail_msg ''batch stream has no events after seeding'', s1\<lparr>pg_store := st1\<rparr>)
                     | (Inr es, st1) \<Rightarrow> (batch_replay i es, s1\<lparr>pg_store := st1\<rparr>))))"

text \<open>The loop over the artists; the flag says whether any completion was recorded.\<close>

fun record_completions :: "(nat \<Rightarrow> stamp) \<Rightarrow> nat \<Rightarrow> bool \<Rightarrow> batch \<Rightarrow> string list \<Rightarrow> (bool \<times> batch) res" where
  "record_completions sts k any agg [] = Ok (any, agg)"
| "record_completions sts k any agg (a # as) =
     bind_res (wrap_err ''recording completion'' (batch_record_completion (sts k) a agg))
       (\<lambda>(new, agg'). record_completions sts (Suc k) (any \<or> new) agg' as)"

definition completions_on :: "(nat \<Rightarrow> stamp) \<Rightarrow> batch \<Rightarrow> string list \<Rightarrow> (bool \<times> batch) res" where
  "completions_on sts agg as =
     bind_res (record_completions sts 0 False agg as)
       (\<lambda>(any, agg'). if \<not> any then Ok (False, agg')
          else bind_res (wrap_err ''recording close'' (batch_record_closed (sts (length as)) agg'))
                 (\<lambda>r. Ok (True, snd r)))"

definition completions_from_stream ::
    "'s log_ops \<Rightarrow> (nat \<Rightarrow> stamp) \<Rightarrow> fault \<Rightarrow> string \<Rightarrow> string list \<Rightarrow> 's progress \<Rightarrow> unit res \<times> 's progress" where
  "completions_from_stream lg sts fault i as s =
     (case load_batch lg sts fault i s of
        (Inl err, s1) \<Rightarrow> (Fail err, s1)
      | (Inr agg, s1) \<Rightarrow>
          (case completions_on sts agg as of
             Inl err \<Rightarrow> (Fail err, s1)
           | Inr (False, agg') \<Rightarrow> (Ok (), s1\<lparr>pg_cache := Some (i, agg')\<rparr>)
           | Inr (True, agg') \<Rightarrow>
               if ba_uncommitted agg' = [] then (Ok (), s1)
               else (case append_with_retry (lg_append lg) (lg_load lg) (lg_ctx lg) (pg_store s1) i
                            (ba_version agg) (ba_uncommitted agg') of
                       (Inl err, st) \<Rightarrow> (Fail (Errorf ''appending completion'' [err]), s1\<lparr>pg_store := st\<rparr>)
                     | (Inr _, st) \<Rightarrow>
                         (Ok (), s1\<lparr>pg_store := st, pg_cache := Some (i, clear_uncommitted agg')\<rparr>))))"

definition append_completions ::
    "'s log_ops \<Rightarrow> (nat \<Rightarrow> stamp) \<Rightarrow> fault \<Rightarrow> string \<Rightarrow> string list \<Rightarrow> 's progress \<Rightarrow> unit res \<times> 's progress" where
  "append_completions lg sts fault i as s =
     (if as = [] then (Ok (), s)
      else (case pg_cache s of
              Some (j, agg) \<Rightarrow>
                if j \<noteq> i then completions_from_stream lg sts fault i as s
                else (case completions_on sts agg as of
                        Inl err \<Rightarrow> (Fail err, s\<lparr>pg_cache := None\<rparr>)
                      | Inr (False, agg') \<Rightarrow> (Ok (), s)
                      | Inr (True, agg') \<Rightarrow>
                          (case lg_append lg (pg_store s) i (ba_version agg) (ba_uncommitted agg') of
                             (Inr _, st) \<Rightarrow>
                               (Ok (), s\<lparr>pg_store := st, pg_cache := Some (i, clear_uncommitted agg')\<rparr>)
                           | (Inl err, st) \<Rightarrow>
                               completions_from_stream lg sts fault i as (s\<lparr>pg_store := st, pg_cache := None\<rparr>)))
            | None \<Rightarrow> completions_from_stream lg sts fault i as s))"

section \<open>Operations\<close>

record batch_snapshot =
  bs_id :: string
  bs_stat :: "(string \<times> int) list"
  bs_total :: int
  bs_completed :: int
  bs_done :: bool

definition start_tables ::
    "time \<Rightarrow> string \<Rightarrow> string list \<Rightarrow> (string \<times> int) list \<Rightarrow> time \<Rightarrow> batch_tables \<Rightarrow> batch_tables" where
  "start_tables now i ids stats prune_before tb =
     (let row = \<lparr>br_total = int (length ids), br_completed = 0, br_done = (ids = []), br_stats = stats,
                 br_created = now, br_updated = now\<rparr>;
          tb1 = tb\<lparr>tb_batches := insert_ignore i row (tb_batches tb),
                   tb_members := foldl (\<lambda>ms a. insert_ignore (i, a) False ms) (tb_members tb) ids\<rparr>
      in if is_zero_time prune_before then tb1 else prune_rows prune_before tb1)"

definition start_batch ::
    "'s log_ops \<Rightarrow> (nat \<Rightarrow> stamp) \<Rightarrow> fault \<Rightarrow> time \<Rightarrow> string \<Rightarrow> string list \<Rightarrow> (string \<times> int) list \<Rightarrow> time
     \<Rightarrow> 's progress \<Rightarrow> batch_snapshot res \<times> 's progress" where
  "start_batch lg sts fault now i ids stats prune_before s =
     (if blank i then (fail_msg ''batch id cannot be empty'', s)
      else (case append_started lg sts i ids stats s of
              (Inl err, s1) \<Rightarrow> (Fail err, s1)
            | (Inr _, s1) \<Rightarrow>
                (case tables_tx fault (pg_tables s1) (start_tables now i ids stats prune_before) of
                   (Inl err, tb) \<Rightarrow> (Fail err, s1\<lparr>pg_tables := tb\<rparr>)
                 | (Inr _, tb) \<Rightarrow>
                     (Ok \<lparr>bs_id = i, bs_stat = stats, bs_total = int (length ids), bs_completed = 0,
                          bs_done = (ids = [])\<rparr>, s1\<lparr>pg_tables := tb\<rparr>))))"

definition is_completed_status :: "string \<Rightarrow> bool" where
  "is_completed_status f \<longleftrightarrow> f = ''idle'' \<or> f = ''failed''"

text \<open>\<^verbatim>\<open>ORDER BY updated_at DESC, rowid DESC LIMIT 1\<close>.\<close>

definition newest :: "(string \<times> batch_row) list \<Rightarrow> (string \<times> batch_row) option" where
  "newest rows =
     foldl (\<lambda>best r. case best of
              None \<Rightarrow> Some r
            | Some b \<Rightarrow> if stamp_before (br_updated (snd r)) (br_updated (snd b)) then Some b else Some r)
       None rows"

definition find_open_batch :: "batch_tables \<Rightarrow> string \<Rightarrow> string" where
  "find_open_batch tb a =
     (case newest (filter (\<lambda>r. \<not> br_done (snd r) \<and> ((fst r, a), False) \<in> set (tb_members tb)) (tb_batches tb)) of
        None \<Rightarrow> []
      | Some r \<Rightarrow> fst r)"

definition complete_artist ::
    "'s log_ops \<Rightarrow> (nat \<Rightarrow> stamp) \<Rightarrow> fault \<Rightarrow> fault \<Rightarrow> fault \<Rightarrow> time \<Rightarrow> string \<Rightarrow> string \<Rightarrow> 's progress
     \<Rightarrow> string res \<times> 's progress" where
  "complete_artist lg sts find_fault seed_fault mark_fault now a status s =
     (if blank a \<or> \<not> is_completed_status status then (Ok [], s)
      else (case find_fault of
              Some err \<Rightarrow> (Fail err, s)
            | None \<Rightarrow>
                (let i = find_open_batch (pg_tables s) a
                 in if i = [] then (Ok [], s)
                    else (case append_completions lg sts seed_fault i [a] s of
                            (Inl err, s1) \<Rightarrow> (Fail err, s1)
                          | (Inr _, s1) \<Rightarrow>
                              (case mark_member_done mark_fault now i a (pg_tables s1) of
                                 (Inl err, tb) \<Rightarrow> (Fail err, s1\<lparr>pg_tables := tb\<rparr>)
                               | (Inr _, tb) \<Rightarrow> (Ok i, s1\<lparr>pg_tables := tb\<rparr>))))))"

text \<open>The members \<^verbatim>\<open>Reconcile\<close> flips; \<open>pending\<close> are the artists whose fetch status is \<^verbatim>\<open>pending\<close>.\<close>

definition reconcile_flips :: "string list \<Rightarrow> batch_tables \<Rightarrow> (string \<times> string) list" where
  "reconcile_flips pending tb =
     map fst (filter (\<lambda>m. \<not> snd m \<and> snd (fst m) \<notin> set pending
                \<and> (case map_of (tb_batches tb) (fst (fst m)) of None \<Rightarrow> False | Some r \<Rightarrow> \<not> br_done r))
              (tb_members tb))"

definition reconcile_tables :: "time \<Rightarrow> (string \<times> string) list \<Rightarrow> batch_tables \<Rightarrow> batch_tables" where
  "reconcile_tables now flips tb =
     (let tb1 = foldl (\<lambda>tb f. set_member_done (fst f) (snd f) tb) tb flips
      in tb1\<lparr>tb_batches := map (\<lambda>r. if br_done (snd r) then r else (fst r, recompute_row now tb1 (fst r) (snd r)))
                            (tb_batches tb1)\<rparr>)"

fun log_flips ::
    "'s log_ops \<Rightarrow> (string \<Rightarrow> nat \<Rightarrow> stamp) \<Rightarrow> (string \<Rightarrow> fault) \<Rightarrow> (string \<times> string) list \<Rightarrow> string list
     \<Rightarrow> 's progress \<Rightarrow> gerr option \<times> 's progress" where
  "log_flips lg sts fault flips [] s = (None, s)"
| "log_flips lg sts fault flips (i # is) s =
     (case lg_ctx lg (pg_store s) of
        Some err \<Rightarrow> (Some err, s)
      | None \<Rightarrow>
          (case append_completions lg (sts i) (fault i) i (map snd (filter (\<lambda>f. fst f = i) flips)) s of
             (Inl err, s1) \<Rightarrow> (Some (Errorf ''logging reconciled completions'' [err]), s1)
           | (Inr _, s1) \<Rightarrow> log_flips lg sts fault flips is s1))"

text \<open>The count is returned next to the error.\<close>

definition reconcile ::
    "'s log_ops \<Rightarrow> (string \<Rightarrow> nat \<Rightarrow> stamp) \<Rightarrow> fault \<Rightarrow> fault \<Rightarrow> (string \<Rightarrow> fault) \<Rightarrow> time \<Rightarrow> string list
     \<Rightarrow> 's progress \<Rightarrow> (int \<times> gerr option) \<times> 's progress" where
  "reconcile lg sts read_fault write_fault seed_fault now pending s =
     (case read_fault of
        Some err \<Rightarrow> ((0, Some err), s)
      | None \<Rightarrow>
          (let flips = reconcile_flips pending (pg_tables s)
           in if flips = [] then ((0, None), s)
              else (case tables_tx write_fault (pg_tables s) (reconcile_tables now flips) of
                      (Inl err, tb) \<Rightarrow> ((0, Some err), s\<lparr>pg_tables := tb\<rparr>)
                    | (Inr _, tb) \<Rightarrow>
                        (let (e, s1) = log_flips lg sts seed_fault flips (first_seen (map fst flips))
                                         (s\<lparr>pg_tables := tb\<rparr>)
                         in ((int (length flips), e), s1)))))"

definition reset_for_replay :: "fault \<Rightarrow> 's progress \<Rightarrow> unit res \<times> 's progress" where
  "reset_for_replay fault s =
     (let (r, tb) = tables_tx fault (pg_tables s) (\<lambda>tb. \<lparr>tb_batches = [], tb_members = []\<rparr>)
      in (r, s\<lparr>pg_cache := None, pg_tables := tb\<rparr>))"

definition project_tables :: "time \<Rightarrow> batch \<Rightarrow> batch_tables \<Rightarrow> batch_tables" where
  "project_tables now agg tb =
     (let i = ba_id agg;
          created = (case map_of (tb_batches tb) i of None \<Rightarrow> now | Some r \<Rightarrow> br_created r);
          row = \<lparr>br_total = batch_total agg, br_completed = batch_completed_count agg, br_done = batch_done agg,
                 br_stats = bt_stats agg, br_created = created, br_updated = now\<rparr>
      in tb\<lparr>tb_batches := kv_put i row (tb_batches tb),
            tb_members := foldl (\<lambda>ms m. kv_put (i, fst m) (snd m) ms) (tb_members tb) (bt_members agg)\<rparr>)"

definition project_aggregate :: "fault \<Rightarrow> time \<Rightarrow> batch \<Rightarrow> 's progress \<Rightarrow> unit res \<times> 's progress" where
  "project_aggregate fault now agg s =
     (let (r, tb) = tables_tx fault (pg_tables s) (project_tables now agg) in (r, s\<lparr>pg_tables := tb\<rparr>))"

definition prune_batches :: "fault \<Rightarrow> time \<Rightarrow> 's progress \<Rightarrow> int res \<times> 's progress" where
  "prune_batches fault before s =
     (case fault of
        Some err \<Rightarrow> (Fail (Errorf ''pruning batches'' [err]), s)
      | None \<Rightarrow>
          (let tb = prune_rows before (pg_tables s)
           in (Ok (int (length (tb_batches (pg_tables s))) - int (length (tb_batches tb))), s\<lparr>pg_tables := tb\<rparr>)))"

definition scan_snapshot :: "string \<times> batch_row \<Rightarrow> batch_snapshot" where
  "scan_snapshot r =
     \<lparr>bs_id = fst r, bs_stat = br_stats (snd r), bs_total = br_total (snd r),
      bs_completed = br_completed (snd r), bs_done = br_done (snd r)\<rparr>"

definition batch_snapshot_of :: "fault \<Rightarrow> string \<Rightarrow> 's progress \<Rightarrow> batch_snapshot option res" where
  "batch_snapshot_of fault i s =
     (case fault of
        Some err \<Rightarrow> Fail (Errorf ''reading batch'' [err])
      | None \<Rightarrow> Ok (map_option (\<lambda>r. scan_snapshot (i, r)) (map_of (tb_batches (pg_tables s)) i)))"

definition latest_snapshot :: "fault \<Rightarrow> bool \<Rightarrow> 's progress \<Rightarrow> batch_snapshot option res" where
  "latest_snapshot fault unfinished_only s =
     (case fault of
        Some err \<Rightarrow> Fail (Errorf ''reading latest batch'' [err])
      | None \<Rightarrow>
          Ok (map_option scan_snapshot
                (newest (filter (\<lambda>r. \<not> unfinished_only \<or> \<not> br_done (snd r)) (tb_batches (pg_tables s))))))"

end
