(* ===== verification/Batch_Projection.thy ===== *)
theory Batch_Projection
  imports Batch_Progress
begin

text \<open>
  The batch projection follows the batch log: a batch started and completed through the store of
  \<open>Batch_Progress\<close> over the SQLite event log has, in its tables, the counts of its aggregate.
\<close>

section \<open>Committing through the store\<close>

definition sqlite_lg :: "world log_ops" where
  "sqlite_lg = \<lparr>lg_append = sqlite_append, lg_load = sqlite_load, lg_ctx = (\<lambda>w. None)\<rparr>"

lemma sqlite_lg_simps [simp]:
  "lg_append sqlite_lg = sqlite_append" "lg_load sqlite_lg = sqlite_load"
  by (simp_all add: sqlite_lg_def)

definition calm_world :: "world \<Rightarrow> bool" where
  "calm_world w \<longleftrightarrow> store_inv (wd_db w) \<and> wd_script w = []"

text \<open>The log so far: typed as a batch stream, with identifiers made from the given uuids.\<close>

definition batch_log :: "string list \<Rightarrow> string \<Rightarrow> world \<Rightarrow> bool" where
  "batch_log used i w \<longleftrightarrow>
     calm_world w \<and> (\<forall>e\<in>set (world_history w i). ev_stype e = stream_type_batch)
   \<and> log_ids (world_history w) \<subseteq> (\<lambda>u. ''evt_'' @ u) ` set used"

lemma commit_batch:
  assumes "batch_log used i w" and "batch_state (world_history w i) i us cs b"
    and "map ev_id (ba_uncommitted b) = map (\<lambda>u. ''evt_'' @ u) new" and "distinct (used @ new)"
  shows "\<exists>w'. sqlite_append w i (expected_version b) (ba_uncommitted b) = (Ok (), w')
    \<and> batch_log (used @ new) i w' \<and> batch_state (world_history w' i) i us cs (clear_uncommitted b)"
proof -
  let ?db = "wd_db w" and ?us = "ba_uncommitted b"
  have inv: "store_inv ?db" and calm: "wd_script w = []" using assms(1) by (simp_all add: batch_log_def calm_world_def)
  have i: "ba_id b = i" and src: "batch.sourced (history ?db (ba_id b)) b"
    using assms(2) by (auto simp: batch_state_def world_history_def)
  have dist: "distinct (map ev_id ?us)"
    unfolding assms(3) using assms(4) by (simp add: distinct_map inj_on_def)
  have ids: "ev_id ` set ?us = (\<lambda>u. ''evt_'' @ u) ` set new"
    using arg_cong [OF assms(3), of set] by simp
  have fresh: "ev_id ` set ?us \<inter> log_ids (history ?db) = {}"
  proof -
    have "(\<lambda>u. ''evt_'' @ u) ` set new \<inter> (\<lambda>u. ''evt_'' @ u) ` set used = {}"
      using assms(4) by auto
    moreover have "log_ids (history ?db) \<subseteq> (\<lambda>u. ''evt_'' @ u) ` set used"
      using assms(1) by (simp add: batch_log_def world_history_def [abs_def])
    ultimately show ?thesis unfolding ids by blast
  qed
  have typed: "\<forall>e\<in>set (history ?db (ba_id b)). ev_stype e = stream_type_batch"
    using assms(1) i by (simp add: batch_log_def world_history_def)
  obtain db' where run: "append_events None ?db i (expected_version b) ?us = (Ok (), db')"
    using batch.sourced_append [OF inv src typed dist fresh] i by (metis prod.collapse)
  have h: "history db' = (history ?db)(i := history ?db i @ map strip ?us)"
    using append_events_ok(1) [OF inv, of None i "expected_version b" ?us] run by simp
  have inv': "store_inv db'" using append_events_inv [OF inv, of None i "expected_version b" ?us] run by simp
  have "batch.sourced (history db' i) (clear_uncommitted b)"
    using batch.sourced_strip [OF batch.sourced_commit [OF src]] by (simp add: h i)
  moreover have "filter (\<lambda>e. ev_type e = ev_batch_artist) (map strip ?us) =
      map strip (filter (\<lambda>e. ev_type e = ev_batch_artist) ?us)" by (simp add: filter_map comp_def)
  ultimately have st: "batch_state (history db' i) i us cs (clear_uncommitted b)"
    using assms(2) by (simp add: batch_state_def world_history_def clear_uncommitted_with h)
      (simp add: with_uncommitted_def)
  have types: "\<forall>e\<in>set ?us. ev_stype e = stream_type_batch"
  proof -
    have "validate_loop sid ty v es = Ok () \<Longrightarrow> \<forall>e\<in>set es. ev_stype e = ty" for sid ty v es
      by (induction es arbitrary: v) (auto split: if_splits)
    with src show ?thesis by (auto simp: batch.sourced_def)
  qed
  have "log_ids (history db') \<subseteq> log_ids (history ?db) \<union> ev_id ` set ?us"
  proof
    fix x assume "x \<in> log_ids (history db')"
    then obtain j where "x \<in> ev_id ` set (history db' j)" by (auto simp: log_ids_def)
    then have "x \<in> ev_id ` set (history ?db j) \<or> x \<in> ev_id ` set ?us"
      by (cases "j = i") (simp_all add: h image_Un image_image)
    then show "x \<in> log_ids (history ?db) \<union> ev_id ` set ?us" unfolding log_ids_def by blast
  qed
  moreover have "log_ids (history ?db) \<subseteq> (\<lambda>u. ''evt_'' @ u) ` set used"
    using assms(1) by (simp add: batch_log_def world_history_def [abs_def])
  ultimately have sub: "log_ids (history db') \<subseteq> (\<lambda>u. ''evt_'' @ u) ` set (used @ new)"
    unfolding ids set_append image_Un by blast
  have "\<forall>e\<in>set (history db' i). ev_stype e = stream_type_batch"
    using types typed i by (auto simp: h)
  with sub have "batch_log (used @ new) i (w\<lparr>wd_db := db'\<rparr>)"
    using inv' calm by (simp add: batch_log_def calm_world_def world_history_def [abs_def])
  with run st calm show ?thesis
    by (simp add: sqlite_append_def world_turn_def world_history_def)
qed

section \<open>One completion\<close>

definition batch_agrees :: "string list \<Rightarrow> string \<Rightarrow> string list \<Rightarrow> string set \<Rightarrow> world progress \<Rightarrow> bool" where
  "batch_agrees used i us cs s \<longleftrightarrow>
     (\<exists>agg row. pg_cache s = Some (i, agg) \<and> batch_log used i (pg_store s)
        \<and> batch_state (world_history (pg_store s) i) i us cs agg \<and> ba_uncommitted agg = []
        \<and> pg_tables s = \<lparr>tb_batches = [(i, row)], tb_members = map (\<lambda>a. ((i, a), a \<in> cs)) us\<rparr>
        \<and> br_total row = int (length us) \<and> br_completed row = int (card (set us \<inter> cs))
        \<and> (br_done row \<longleftrightarrow> set us \<subseteq> cs))"

lemma member_row: "((i, a), False) \<in> set (map (\<lambda>a. ((i, a), a \<in> cs)) us) \<longleftrightarrow> a \<in> set us - cs"
  by auto

lemma find_open_single:
  "find_open_batch \<lparr>tb_batches = [(i, row)], tb_members = map (\<lambda>a. ((i, a), a \<in> cs)) us\<rparr> a =
     (if \<not> br_done row \<and> a \<in> set us - cs then i else [])"
  by (auto simp: find_open_batch_def newest_def)

lemma mark_single:
  fixes a :: string and cs :: "string set"
  assumes "distinct us" and "us \<noteq> []" and "br_total row = int (length us)" and "\<not> br_done row"
  defines "cs' \<equiv> insert a cs"
  shows "\<exists>row'. mark_member_done None now i a
        \<lparr>tb_batches = [(i, row)], tb_members = map (\<lambda>a. ((i, a), a \<in> cs)) us\<rparr> =
        (Ok (), \<lparr>tb_batches = [(i, row')], tb_members = map (\<lambda>a. ((i, a), a \<in> cs')) us\<rparr>)
      \<and> br_total row' = int (length us) \<and> br_completed row' = int (card (set us \<inter> cs'))
      \<and> (br_done row' \<longleftrightarrow> set us \<subseteq> cs')"
proof -
  let ?tb = "\<lparr>tb_batches = [(i, row)], tb_members = map (\<lambda>x. ((i, x), x \<in> cs')) us\<rparr>"
  have m: "set_member_done i a \<lparr>tb_batches = [(i, row)], tb_members = map (\<lambda>x. ((i, x), x \<in> cs)) us\<rparr> = ?tb"
    by (auto simp: set_member_done_def cs'_def)
  have "filter (\<lambda>x. x \<in> cs') us = map fst (filter snd (marked us cs'))"
    by (simp add: marked_def filter_map comp_def)
  then have n: "length (filter (\<lambda>x. x \<in> cs') us) = card (set us \<inter> cs')"
    using marked_count [OF assms(1), of cs'] by (metis length_map)
  have c: "count_done ?tb i = int (card (set us \<inter> cs'))"
    by (simp add: count_done_def filter_map comp_def n)
  have "length us \<le> card (set us \<inter> cs') \<longleftrightarrow> set us \<subseteq> cs'"
  proof
    assume "length us \<le> card (set us \<inter> cs')"
    then have "set us \<inter> cs' = set us"
      using assms(1) by (intro card_subset_eq) (auto simp: distinct_card [OF assms(1), symmetric] intro: le_antisym card_mono)
    then show "set us \<subseteq> cs'" by blast
  qed (simp add: Int_absorb2 distinct_card [OF assms(1)])
  then show ?thesis
    using assms(2-4)
    by (simp add: mark_member_done_def tables_tx_def m recompute_locked_def recompute_row_def c close_row_def)
qed

lemma complete_step:
  assumes "batch_agrees used i us cs s" and "distinct (used @ [st_uuid (sts 0), st_uuid (sts 1)])"
    and "i \<noteq> []" and "us \<noteq> []" and "\<forall>a\<in>set us. \<not> blank a" and "in_int64 (int (length us))"
  shows "\<exists>r s'. complete_artist sqlite_lg sts None None None now a ''idle'' s = (Ok r, s')
    \<and> batch_agrees (used @ [st_uuid (sts 0), st_uuid (sts 1)]) i us (insert a cs) s'"
proof -
  from assms(1) obtain agg row where s: "pg_cache s = Some (i, agg)" "batch_log used i (pg_store s)"
      "batch_state (world_history (pg_store s) i) i us cs agg" "ba_uncommitted agg = []"
      "pg_tables s = \<lparr>tb_batches = [(i, row)], tb_members = map (\<lambda>a. ((i, a), a \<in> cs)) us\<rparr>"
      "br_total row = int (length us)" "br_completed row = int (card (set us \<inter> cs))" "br_done row \<longleftrightarrow> set us \<subseteq> cs"
    unfolding batch_agrees_def by blast
  show ?thesis
  proof (cases "a \<in> set us - cs")
    case False
    have "find_open_batch (pg_tables s) a = []"
      unfolding s(5) find_open_single using False by auto
    then have run: "complete_artist sqlite_lg sts None None None now a ''idle'' s = (Ok [], s)"
      by (simp add: complete_artist_def)
    have same: "set us \<inter> insert a cs = set us \<inter> cs" "marked us (insert a cs) = marked us cs"
      "map (\<lambda>x. ((i, x), x \<in> insert a cs)) us = map (\<lambda>x. ((i, x), x \<in> cs)) us"
      "set us \<subseteq> insert a cs \<longleftrightarrow> set us \<subseteq> cs"
      using False by (auto simp: marked_def)
    have log: "batch_log (used @ [st_uuid (sts 0), st_uuid (sts 1)]) i (pg_store s)"
      using s(2) by (auto simp: batch_log_def)
    have "batch_state (world_history (pg_store s) i) i us (insert a cs) agg"
      using s(3) by (simp add: batch_state_def same)
    with log s have "batch_agrees (used @ [st_uuid (sts 0), st_uuid (sts 1)]) i us (insert a cs) s"
      unfolding batch_agrees_def same(1,3,4) by (intro exI [of _ agg] exI [of _ row]) simp
    with run show ?thesis by blast
  next
    case True
    then have a: "\<not> blank a" and nd: "\<not> br_done row" using assms(5) s(8) by auto
    let ?h = "world_history (pg_store s) i"
    from completion_step [OF s(3), of "sts 0" a] True obtain b1 where
      b1: "batch_record_completion (sts 0) a agg = Ok (True, b1)" "batch_state ?h i us (insert a cs) b1"
        "map ev_id (ba_uncommitted b1) = [''evt_'' @ st_uuid (sts 0)]"
      using s(4) by auto
    from closing_step [OF b1(2) assms(6), of "sts 1"] obtain new b2 where
      c: "batch_record_closed (sts 1) b1 = Ok (new, b2)" by blast
    note b2 = closing_state [OF b1(2) c]
    have on: "completions_on sts agg [a] = Ok (True, b2)"
      by (simp add: completions_on_def b1(1) c [unfolded One_nat_def])
    let ?new = "st_uuid (sts 0) # (if new then [st_uuid (sts 1)] else [])"
    have ids: "map ev_id (ba_uncommitted b2) = map (\<lambda>u. ''evt_'' @ u) ?new" using b1(3) b2(2) by simp
    have "distinct (used @ ?new)" using assms(2) by (auto split: if_splits)
    from commit_batch [OF s(2) b2(1) ids this] obtain w' where
      w': "sqlite_append (pg_store s) i (expected_version b2) (ba_uncommitted b2) = (Ok (), w')"
        "batch_log (used @ ?new) i w'" "batch_state (world_history w' i) i us (insert a cs) (clear_uncommitted b2)"
      by blast
    have "batch.sourced ?h b2" "batch.sourced ?h agg" using b2(1) s(3) unfolding batch_state_def by blast+
    then have "expected_version b2 = ba_version agg"
      using s(4) batch.sourced_valid_batch(2) [of ?h b2] by (simp add: batch.sourced_def)
    with w'(1) on s(1) have app: "append_completions sqlite_lg sts None i [a] s =
        (Ok (), s\<lparr>pg_store := w', pg_cache := Some (i, clear_uncommitted b2)\<rparr>)"
      by (simp add: append_completions_def)
    have "distinct us" using s(3) by (simp add: batch_state_def)
    from mark_single [OF this assms(4) s(6) nd, of now i a cs] obtain row' where
      m: "mark_member_done None now i a (pg_tables s) =
          (Ok (), \<lparr>tb_batches = [(i, row')], tb_members = map (\<lambda>x. ((i, x), x \<in> insert a cs)) us\<rparr>)"
        "br_total row' = int (length us)" "br_completed row' = int (card (set us \<inter> insert a cs))"
        "br_done row' \<longleftrightarrow> set us \<subseteq> insert a cs"
      unfolding s(5) by blast
    let ?s' = "s\<lparr>pg_store := w', pg_cache := Some (i, clear_uncommitted b2),
        pg_tables := \<lparr>tb_batches = [(i, row')], tb_members = map (\<lambda>x. ((i, x), x \<in> insert a cs)) us\<rparr>\<rparr>"
    have "complete_artist sqlite_lg sts None None None now a ''idle'' s = (Ok i, ?s')"
      using True nd a assms(3) app m(1)
      by (simp add: complete_artist_def is_completed_status_def s(5) find_open_single)
    moreover have "batch_log (used @ [st_uuid (sts 0), st_uuid (sts 1)]) i w'"
      using w'(2) by (auto simp: batch_log_def split: if_splits)
    ultimately show ?thesis
      using w'(3) m(2-4) by (auto simp: batch_agrees_def clear_uncommitted_def)
  qed
qed

section \<open>A whole batch\<close>

definition fresh_progress :: "world progress" where
  "fresh_progress = \<lparr>pg_tables = \<lparr>tb_batches = [], tb_members = []\<rparr>, pg_cache = None,
     pg_store = \<lparr>wd_db = empty_sqlite, wd_script = []\<rparr>\<rparr>"

lemma insert_members:
  "distinct us \<Longrightarrow> set us \<inter> snd ` fst ` set ms = {} \<Longrightarrow> fst ` fst ` set ms \<subseteq> {i} \<Longrightarrow>
     foldl (\<lambda>ms a. insert_ignore (i, a) False ms) ms us = ms @ map (\<lambda>a. ((i, a), False)) us"
proof (induction us arbitrary: ms)
  case (Cons a us)
  then have "(i, a) \<notin> fst ` set ms" by force
  with Cons show ?case by (auto simp: insert_ignore_def)
qed simp

lemma first_seen_distinct: "distinct xs \<Longrightarrow> first_seen xs = xs"
  by (induction xs) (auto simp: filter_id_conv)

lemma unique_members_id: "distinct ids \<Longrightarrow> [] \<notin> set ids \<Longrightarrow> unique_members ids = ids"
  by (simp add: unique_members_def filter_id_conv first_seen_distinct) (metis filter_True)

lemma append_retry_first:
  assumes "app s i v es = (Ok (), s')" and "es \<noteq> []"
  shows "append_with_retry app load ctx s i v es = (Ok (), s')"
  using assms by (simp add: append_with_retry_def append_retry_attempts_def numeral_eq_Suc)

lemma start_agrees:
  assumes "\<not> blank i" and "distinct ids" and "ids \<noteq> []" and "\<forall>a\<in>set ids. \<not> blank a" and "stats_ok stats"
  shows "\<exists>snap s. start_batch sqlite_lg sts None now i ids stats prune_before fresh_progress = (Ok snap, s)
    \<and> batch_agrees [st_uuid (sts 0)] i ids {} s"
proof -
  let ?w = "pg_store fresh_progress"
  have ne: "i \<noteq> []" "[] \<notin> set ids" using assms(1,4) by (auto simp: blank_def)
  note un = unique_members_id [OF assms(2) ne(2)]
  from new_batch_started [OF ne(1) assms(5), of ids "sts 0" "sts 1"] assms(3) obtain b where
    b: "new_batch (sts 0) (sts 1) i ids stats = Ok b" "batch_state [] i ids {} b" "\<not> bt_closed b"
      "map ev_id (ba_uncommitted b) = map (\<lambda>u. ''evt_'' @ u) [st_uuid (sts 0)]"
    unfolding un by auto
  have h: "world_history ?w j = []" for j
    by (simp add: fresh_progress_def world_history_def history_def empty_sqlite_def)
  have log: "batch_log [] i ?w"
    by (simp add: batch_log_def h log_ids_def) (simp add: fresh_progress_def calm_world_def empty_store_inv)
  have bs: "batch_state (world_history ?w i) i ids {} b" using b(2) by (simp add: h)
  from commit_batch [OF log bs b(4)] obtain w' where
    w': "sqlite_append ?w i (expected_version b) (ba_uncommitted b) = (Ok (), w')"
      "batch_log [st_uuid (sts 0)] i w'" "batch_state (world_history w' i) i ids {} (clear_uncommitted b)"
    by auto
  have us: "ba_uncommitted b \<noteq> []" using b(4) by auto
  have "expected_version b = 0"
    using b(2) batch.sourced_valid_batch(2) [of "[]" b] by (simp add: batch_state_def)
  with w'(1) have app: "append_started sqlite_lg sts i ids stats fresh_progress =
      (Ok (), fresh_progress\<lparr>pg_store := w', pg_cache := Some (i, clear_uncommitted b)\<rparr>)"
    using us by (simp add: append_started_def b(1) [unfolded One_nat_def] append_retry_first)
  let ?row = "\<lparr>br_total = int (length ids), br_completed = 0, br_done = False, br_stats = stats,
      br_created = now, br_updated = now\<rparr>"
  let ?tb = "\<lparr>tb_batches = [(i, ?row)], tb_members = map (\<lambda>a. ((i, a), a \<in> {})) ids\<rparr>"
  have tb: "start_tables now i ids stats prune_before (pg_tables fresh_progress) = ?tb"
    using assms(2,3) insert_members [OF assms(2), of "[]" i]
    by (simp add: start_tables_def fresh_progress_def insert_ignore_def prune_rows_def Let_def)
  let ?s = "fresh_progress\<lparr>pg_store := w', pg_cache := Some (i, clear_uncommitted b), pg_tables := ?tb\<rparr>"
  have "\<exists>snap. start_batch sqlite_lg sts None now i ids stats prune_before fresh_progress = (Ok snap, ?s)"
    using assms(1,3) app tb by (simp add: start_batch_def tables_tx_def)
  moreover have "batch_agrees [st_uuid (sts 0)] i ids {} ?s"
    using w'(2,3) assms(3) unfolding batch_agrees_def
    by (intro exI [of _ "clear_uncommitted b"] exI [of _ ?row]) (simp add: clear_uncommitted_def)
  ultimately show ?thesis by blast
qed

text \<open>A run of completion reports: stamps, clock, artist.\<close>

type_synonym report = "(nat \<Rightarrow> stamp) \<times> time \<times> string"

fun report_run :: "report list \<Rightarrow> world progress \<Rightarrow> world progress" where
  "report_run [] s = s"
| "report_run ((sts, now, a) # rs) s =
     report_run rs (snd (complete_artist sqlite_lg sts None None None now a ''idle'' s))"

definition report_uuids :: "report list \<Rightarrow> string list" where
  "report_uuids rs = concat (map (\<lambda>r. [st_uuid (fst r 0), st_uuid (fst r 1)]) rs)"

definition report_artists :: "report list \<Rightarrow> string set" where
  "report_artists rs = (\<lambda>r. snd (snd r)) ` set rs"

lemma report_run_agrees:
  assumes "batch_agrees used i us cs s" and "distinct (used @ report_uuids rs)"
    and "i \<noteq> []" and "us \<noteq> []" and "\<forall>a\<in>set us. \<not> blank a" and "in_int64 (int (length us))"
  shows "batch_agrees (used @ report_uuids rs) i us (cs \<union> report_artists rs) (report_run rs s)"
  using assms(1,2)
proof (induction rs arbitrary: used cs s)
  case Nil
  then show ?case by (simp add: report_uuids_def report_artists_def)
next
  case (Cons r rs)
  obtain sts now a where r: "r = (sts, now, a)" by (cases r)
  have d: "distinct (used @ [st_uuid (sts 0), st_uuid (sts 1)])"
    "distinct ((used @ [st_uuid (sts 0), st_uuid (sts 1)]) @ report_uuids rs)"
    using Cons.prems(2) by (auto simp: report_uuids_def r)
  from complete_step [OF Cons.prems(1) d(1) assms(3-6), of now a] obtain out s1 where
    s1: "complete_artist sqlite_lg sts None None None now a ''idle'' s = (Ok out, s1)"
      "batch_agrees (used @ [st_uuid (sts 0), st_uuid (sts 1)]) i us (insert a cs) s1" by blast
  have "used @ report_uuids (r # rs) = (used @ [st_uuid (sts 0), st_uuid (sts 1)]) @ report_uuids rs"
    by (simp add: report_uuids_def r)
  moreover have "cs \<union> report_artists (r # rs) = insert a cs \<union> report_artists rs"
    by (auto simp: report_artists_def r)
  moreover have "report_run (r # rs) s = report_run rs s1" by (simp add: r s1(1))
  ultimately show ?case using Cons.IH [OF s1(2) d(2)] by (simp only:)
qed

section \<open>Properties\<close>


definition sample_supply :: "string \<Rightarrow> nat \<Rightarrow> stamp" where
  "sample_supply u k = \<lparr>st_uuid = (if k = 0 then CHR ''x'' # u else CHR ''y'' # u), st_now = 0\<rparr>"

definition sample_run :: "report list" where
  "sample_run = [(sample_supply ''1'', 5, ''b''), (sample_supply ''2'', 6, ''b''), (sample_supply ''3'', 7, ''a'')]"


text \<open>
  The projection and the log part ways when a batch is started with a repeated artist: the row
  counts the repetition in its total, which its members never reach, so it stays open although the
  aggregate is closed.
\<close>

theorem repeated_artist_never_done:
  "(case start_batch sqlite_lg (sample_supply ''0'') None 4 ''batch_1'' [''a'', ''a''] [] 0 fresh_progress of
      (_, s0) \<Rightarrow> (let s = report_run sample_run s0
         in (case batch_replay ''batch_1'' (world_history (pg_store s) ''batch_1'') of
               Inl _ \<Rightarrow> False | Inr b \<Rightarrow> batch_done b \<and> bt_closed b)
          \<and> (case batch_snapshot_of None ''batch_1'' s of
               Inr (Some snap) \<Rightarrow> bs_total snap = 2 \<and> bs_completed snap = 1 \<and> \<not> bs_done snap | _ \<Rightarrow> False)))"
  by code_simp

text \<open>
  The text order of the stored instants is not their order: of two batches updated within one
  second the older can be read as the latest, because the fraction of the text has a variable width.
\<close>

theorem latest_batch_misordered:
  "(let row = \<lparr>br_total = 1, br_completed = 0, br_done = False, br_stats = [], br_created = 0, br_updated = 0\<rparr>;
        old = (''old'', row\<lparr>br_updated := 100000000\<rparr>); young = (''young'', row\<lparr>br_updated := 120000000\<rparr>)
    in newest [old, young] = Some old
     \<and> newest [(''old'', row), (''young'', row\<lparr>br_updated := 500000000\<rparr>)] = Some (''old'', row))"
  by code_simp

end
