(* ===== verification/Command_Log.thy ===== *)
theory Command_Log
  imports Sqlite_Store Messaging_Payloads "HOL-Library.Product_Lexorder"
begin

text \<open>
  Command sourcing (\<^verbatim>\<open>internal/commands/commands.go\<close>): the append-only table of accepted scrape
  commands, its listing and the redrive. The \<^verbatim>\<open>queued_at\<close> text has a fixed width and millisecond
  precision, so it is kept as the millisecond it denotes; the byte order of request ids is the
  lexicographic order of \<^typ>\<open>string\<close>.
\<close>

section \<open>Commands and their table\<close>

definition type_refresh :: string where "type_refresh = ''refresh''"
definition type_batch :: string where "type_batch = ''batch''"
definition type_backfilled :: string where "type_backfilled = ''backfilled''"

record command =
  cm_request :: string
  cm_type :: string
  cm_artist :: string
  cm_spotify :: string
  cm_name :: string
  cm_queued :: time

record command_row =
  cr_request :: string
  cr_type :: string
  cr_artist :: string
  cr_payload :: json
  cr_queued :: int

definition millisecond :: time where "millisecond = 10 ^ 6"

text \<open>\<^verbatim>\<open>Format(timestampFormat)\<close> cuts the instant to its millisecond.\<close>

definition stamp_millis :: "time \<Rightarrow> int" where "stamp_millis t = t div millisecond"

definition marshal_payload :: "command \<Rightarrow> json" where
  "marshal_payload c = JObj [(''spotify_id'', JStr (cm_spotify c)), (''artist_name'', JStr (cm_name c))]"

definition unmarshal_payload :: "json \<Rightarrow> (string \<times> string) option" where
  "unmarshal_payload j =
     do { m \<leftarrow> json_members j;
          s \<leftarrow> read_member upd_str ''spotify_id'' [] m;
          n \<leftarrow> read_member upd_str ''artist_name'' [] m;
          Some (s, n) }"

definition known_type :: "string \<Rightarrow> bool" where
  "known_type t \<longleftrightarrow> t \<in> {type_refresh, type_batch, type_backfilled}"

definition command_row_of :: "time \<Rightarrow> command \<Rightarrow> command_row" where
  "command_row_of now c =
     \<lparr>cr_request = cm_request c, cr_type = cm_type c, cr_artist = cm_artist c,
      cr_payload = marshal_payload c,
      cr_queued = stamp_millis (if is_zero_time (cm_queued c) then now else cm_queued c)\<rparr>"

text \<open>\<^verbatim>\<open>INSERT OR IGNORE INTO commands\<close>; \<^verbatim>\<open>request_id\<close> is the primary key.\<close>

definition insert_command :: "command_row \<Rightarrow> command_row list \<Rightarrow> command_row list" where
  "insert_command r rows = (if cr_request r \<in> cr_request ` set rows then rows else rows @ [r])"

definition log_command :: "fault \<Rightarrow> time \<Rightarrow> command \<Rightarrow> command_row list \<Rightarrow> unit res \<times> command_row list" where
  "log_command fault now c rows =
     (if blank (cm_request c) then (fail_msg ''command request_id cannot be empty'', rows)
      else if blank (cm_artist c) then (fail_msg ''command artist_id cannot be empty'', rows)
      else if \<not> known_type (cm_type c) then (fail_msg ''unknown command type'', rows)
      else (case fault of
              Some err \<Rightarrow> (Fail err, rows)
            | None \<Rightarrow> (Ok (), insert_command (command_row_of now c) rows)))"

definition acceptable :: "command \<Rightarrow> bool" where
  "acceptable c \<longleftrightarrow> \<not> (blank (cm_request c) \<or> blank (cm_artist c)) \<and> known_type (cm_type c)"

text \<open>The transaction of \<^verbatim>\<open>LogBatch\<close> runs whole or not at all.\<close>

definition log_batch :: "fault \<Rightarrow> time \<Rightarrow> command list \<Rightarrow> command_row list \<Rightarrow> unit res \<times> command_row list" where
  "log_batch fault now cs rows =
     (if cs = [] then (Ok (), rows)
      else (let valid = map (command_row_of now) (filter acceptable cs)
            in if valid = [] then (Ok (), rows)
               else (case fault of
                       Some err \<Rightarrow> (Fail err, rows)
                     | None \<Rightarrow> (Ok (), foldl (\<lambda>rows r. insert_command r rows) rows valid))))"

section \<open>Listing\<close>

record command_filter =
  cf_artist :: string
  cf_type :: string
  cf_since :: time
  cf_until :: time
  cf_unresolved :: bool
  cf_limit :: int

text \<open>\<^verbatim>\<open>LEFT JOIN scrape_jobs\<close>: the jobs are pairs of request id and status.\<close>

definition unresolved :: "(string \<times> string) list \<Rightarrow> string \<Rightarrow> bool" where
  "unresolved jobs rid =
     (case map_of jobs rid of None \<Rightarrow> True | Some status \<Rightarrow> status = ''failed'')"

definition selects :: "(string \<times> string) list \<Rightarrow> command_filter \<Rightarrow> command_row \<Rightarrow> bool" where
  "selects jobs f r \<longleftrightarrow>
     (blank (cf_artist f) \<or> cr_artist r = trim_space (cf_artist f))
   \<and> (blank (cf_type f) \<or> cr_type r = trim_space (cf_type f))
   \<and> (is_zero_time (cf_since f) \<or> stamp_millis (cf_since f) \<le> cr_queued r)
   \<and> (is_zero_time (cf_until f) \<or> cr_queued r \<le> stamp_millis (cf_until f))
   \<and> (cf_unresolved f \<longrightarrow> unresolved jobs (cr_request r))"

definition row_command :: "command_row \<Rightarrow> command res" where
  "row_command r =
     bind_res (of_opt (Errorf ''decoding command payload'' []) (unmarshal_payload (cr_payload r)))
       (\<lambda>(s, n). Ok \<lparr>cm_request = cr_request r, cm_type = cr_type r, cm_artist = cr_artist r,
          cm_spotify = s, cm_name = n, cm_queued = cr_queued r * millisecond\<rparr>)"

definition newest_first :: "command_row \<Rightarrow> int \<times> string" where
  "newest_first r = (- cr_queued r, cr_request r)"

definition selected_rows :: "(string \<times> string) list \<Rightarrow> command_filter \<Rightarrow> command_row list \<Rightarrow> command_row list" where
  "selected_rows jobs f rows =
     take (nat (if cf_limit f \<le> 0 then 100 else cf_limit f))
       (sort_key newest_first (filter (selects jobs f) rows))"

definition list_commands ::
    "fault \<Rightarrow> (string \<times> string) list \<Rightarrow> command_filter \<Rightarrow> command_row list \<Rightarrow> command list res" where
  "list_commands fault jobs f rows =
     read_tx ''listing commands'' fault
       (fold_res (\<lambda>cs r. bind_res (row_command r) (\<lambda>c. Ok (cs @ [c]))) [] (selected_rows jobs f rows))"

section \<open>Redrive\<close>

record redrive_stats =
  rs_total :: int
  rs_published :: int
  rs_failed :: int
  rs_dry :: bool

text \<open>
  The publisher is the caller's; \<open>ctx k\<close> is the error of the context before the \<open>k\<close>-th command and
  \<open>now k\<close> the time text of the request built for it.
\<close>

type_synonym 'w publish_fn = "'w \<Rightarrow> scrape_requested \<Rightarrow> gerr option \<times> 'w"

fun redrive_loop ::
    "(nat \<Rightarrow> gerr option) \<Rightarrow> (nat \<Rightarrow> string) \<Rightarrow> 'w publish_fn \<Rightarrow> bool \<Rightarrow> nat \<Rightarrow> command list
     \<Rightarrow> redrive_stats \<Rightarrow> 'w \<Rightarrow> (redrive_stats \<times> gerr option) \<times> 'w" where
  "redrive_loop ctx now publish dry k [] st w = ((st, None), w)"
| "redrive_loop ctx now publish dry k (c # cs) st w =
     (case ctx k of
        Some err \<Rightarrow> ((st, Some err), w)
      | None \<Rightarrow>
          if dry then redrive_loop ctx now publish dry (Suc k) cs st w
          else (case publish w (new_scrape_requested (now k) (cm_artist c) (cm_spotify c) (cm_name c) (cm_request c)) of
                  (Some err, w') \<Rightarrow>
                    redrive_loop ctx now publish dry (Suc k) cs (st\<lparr>rs_failed := rs_failed st + 1\<rparr>) w'
                | (None, w') \<Rightarrow>
                    redrive_loop ctx now publish dry (Suc k) cs (st\<lparr>rs_published := rs_published st + 1\<rparr>) w'))"

definition redrive ::
    "fault \<Rightarrow> (nat \<Rightarrow> gerr option) \<Rightarrow> (nat \<Rightarrow> string) \<Rightarrow> 'w publish_fn \<Rightarrow> (string \<times> string) list \<Rightarrow> command_filter
     \<Rightarrow> bool \<Rightarrow> command_row list \<Rightarrow> 'w \<Rightarrow> (redrive_stats \<times> gerr option) \<times> 'w" where
  "redrive fault ctx now publish jobs f dry rows w =
     (case list_commands fault jobs f rows of
        Inl err \<Rightarrow> ((\<lparr>rs_total = 0, rs_published = 0, rs_failed = 0, rs_dry = False\<rparr>, Some err), w)
      | Inr cs \<Rightarrow>
          redrive_loop ctx now publish dry 0 cs
            \<lparr>rs_total = int (length cs), rs_published = 0, rs_failed = 0, rs_dry = dry\<rparr> w)"

section \<open>Lemmas\<close>

lemma acceptable_log:
  "snd (log_command None now c rows) =
     (if acceptable c then insert_command (command_row_of now c) rows else rows)"
  by (auto simp: log_command_def acceptable_def)

lemma fold_log:
  "foldl (\<lambda>rows c. snd (log_command None now c rows)) rows cs =
     foldl (\<lambda>rows r. insert_command r rows) rows (map (command_row_of now) (filter acceptable cs))"
  by (induction cs arbitrary: rows) (simp_all add: acceptable_log)

lemma log_batch_fold:
  "log_batch None now cs rows = (Ok (), foldl (\<lambda>rows c. snd (log_command None now c rows)) rows cs)"
  by (simp add: log_batch_def fold_log Let_def)

lemma find_append:
  "find P (xs @ ys) = (case find P xs of Some x \<Rightarrow> Some x | None \<Rightarrow> find P ys)"
  by (induction xs) auto

lemma find_insert:
  "find (\<lambda>r. cr_request r = k) (insert_command r rows) =
     (case find (\<lambda>r. cr_request r = k) rows of
        Some x \<Rightarrow> Some x | None \<Rightarrow> if cr_request r = k then Some r else None)"
proof (cases "find (\<lambda>r. cr_request r = k) rows")
  case None
  then have "k \<notin> cr_request ` set rows" by (auto simp: find_None_iff)
  then show ?thesis by (auto simp: insert_command_def find_append None)
qed (simp add: insert_command_def find_append)

lemma find_fold_insert:
  "find (\<lambda>r. cr_request r = k) (foldl (\<lambda>rows r. insert_command r rows) rows rs) =
     (case find (\<lambda>r. cr_request r = k) rows of
        Some x \<Rightarrow> Some x | None \<Rightarrow> find (\<lambda>r. cr_request r = k) rs)"
  by (induction rs arbitrary: rows) (auto simp: find_insert split: option.splits)

lemma distinct_fold_insert:
  "distinct (map cr_request rows) \<Longrightarrow>
     distinct (map cr_request (foldl (\<lambda>rows r. insert_command r rows) rows rs))"
  by (induction rs arbitrary: rows) (auto simp: insert_command_def)

lemma row_command_of:
  "row_command (command_row_of now c) =
     Ok (c\<lparr>cm_queued := stamp_millis (if is_zero_time (cm_queued c) then now else cm_queued c) * millisecond\<rparr>)"
  by (cases c) (simp add: row_command_def command_row_of_def marshal_payload_def unmarshal_payload_def
      lower_byte_def)


lemma find_map: "find P (map f xs) = map_option f (find (P \<circ> f) xs)"
  by (induction xs) auto

text \<open>The command that decides what the table holds for a request: the first acceptable one.\<close>

definition first_accepted :: "command list \<Rightarrow> string \<Rightarrow> command option" where
  "first_accepted cs k = find (\<lambda>c. cm_request c = k) (filter acceptable cs)"

definition as_logged :: "time \<Rightarrow> command \<Rightarrow> command" where
  "as_logged now c =
     c\<lparr>cm_queued := stamp_millis (if is_zero_time (cm_queued c) then now else cm_queued c) * millisecond\<rparr>"

lemma find_logged:
  "find (\<lambda>r. cr_request r = k) (snd (log_batch None now cs [])) = map_option (command_row_of now) (first_accepted cs k)"
proof -
  have "(\<lambda>r. cr_request r = k) \<circ> command_row_of now = (\<lambda>c. cm_request c = k)"
    by (auto simp: command_row_of_def)
  then show ?thesis by (simp add: log_batch_fold fold_log find_fold_insert find_map first_accepted_def)
qed

lemma distinct_logged: "distinct (map cr_request (snd (log_batch None now cs [])))"
  by (simp add: log_batch_fold fold_log distinct_fold_insert)

lemma find_distinct:
  "distinct (map g xs) \<Longrightarrow> find (\<lambda>x. g x = k) xs = Some x \<longleftrightarrow> x \<in> set xs \<and> g x = k"
  by (induction xs) (auto simp: image_iff)

lemma logged_iff:
  "r \<in> set (snd (log_batch None now cs [])) \<longleftrightarrow>
     (\<exists>c. first_accepted cs (cr_request r) = Some c \<and> r = command_row_of now c)"
  using find_distinct [OF distinct_logged [of now cs], of "cr_request r" r]
  by (auto simp: find_logged)

lemma fold_collect:
  "\<forall>r\<in>set rows. row_command r = Ok (dec r) \<Longrightarrow>
     fold_res (\<lambda>cs r. bind_res (row_command r) (\<lambda>c. Ok (cs @ [c]))) cs0 rows = Ok (cs0 @ map dec rows)"
  by (induction rows arbitrary: cs0) simp_all

lemma sort_key_strict:
  assumes "distinct (map f xs)"
  shows "sorted_wrt (\<lambda>a b. (f a :: 'k :: linorder) < f b) (sort_key f xs)"
proof -
  have "sorted (map f (sort_key f xs))" by simp
  moreover have "distinct (map f (sort_key f xs))"
    using assms by (simp add: distinct_map)
  ultimately have "sorted_wrt (<) (map f (sort_key f xs))" by (simp add: strict_sorted_iff)
  then show ?thesis by (simp add: sorted_wrt_map)
qed

lemma sorted_wrt_take_drop:
  "sorted_wrt R xs \<Longrightarrow> x \<in> set xs \<Longrightarrow> x \<in> set (take n xs) \<or> (n < length xs \<and> (\<forall>y\<in>set (take n xs). R y x))"
proof -
  assume "sorted_wrt R xs" "x \<in> set xs"
  moreover have "xs = take n xs @ drop n xs" by simp
  ultimately show ?thesis
    by (metis Un_iff drop_all empty_iff empty_set linorder_not_le set_append sorted_wrt_append)
qed

section \<open>What a listing holds\<close>

definition command_key :: "command \<Rightarrow> int \<times> string" where
  "command_key c = (- cm_queued c, cm_request c)"

definition filter_limit :: "command_filter \<Rightarrow> nat" where
  "filter_limit f = (if cf_limit f \<le> 0 then 100 else nat (cf_limit f))"

definition decoded :: "command_row \<Rightarrow> command" where
  "decoded r = (case row_command r of Inr c \<Rightarrow> c | Inl err \<Rightarrow>
     \<lparr>cm_request = [], cm_type = [], cm_artist = [], cm_spotify = [], cm_name = [], cm_queued = 0\<rparr>)"

lemma decoded_row_of: "decoded (command_row_of now c) = as_logged now c"
  by (simp add: decoded_def row_command_of as_logged_def)

lemma selected_rows_length: "length (selected_rows jobs f rows) \<le> filter_limit f"
  by (simp add: selected_rows_def filter_limit_def)

lemma selected_rows_subset: "set (selected_rows jobs f rows) \<subseteq> {r \<in> set rows. selects jobs f r}"
  by (auto simp: selected_rows_def dest: in_set_takeD)

lemma list_logged:
  "list_commands None jobs f (snd (log_batch None now cs [])) =
     Ok (map decoded (selected_rows jobs f (snd (log_batch None now cs []))))"
proof -
  let ?sel = "selected_rows jobs f (snd (log_batch None now cs []))"
  have "\<forall>r\<in>set ?sel. row_command r = Ok (decoded r)"
  proof
    fix r
    assume "r \<in> set ?sel"
    with selected_rows_subset have "r \<in> set (snd (log_batch None now cs []))" by blast
    then obtain c where "r = command_row_of now c" unfolding logged_iff by blast
    then show "row_command r = Ok (decoded r)" by (simp add: row_command_of decoded_def)
  qed
  from fold_collect [OF this, of "[]"] show ?thesis by (simp add: list_commands_def read_tx_def)
qed

lemma command_key_logged:
  "command_key (as_logged now c) < command_key (as_logged now d)
     \<longleftrightarrow> newest_first (command_row_of now c) < newest_first (command_row_of now d)"
  by (simp add: command_key_def as_logged_def newest_first_def command_row_of_def millisecond_def less_prod_def')

text \<open>The rows a listing selects from, in their order.\<close>

definition rows_in_order :: "(string \<times> string) list \<Rightarrow> command_filter \<Rightarrow> time \<Rightarrow> command list \<Rightarrow> command_row list" where
  "rows_in_order jobs f now cs = sort_key newest_first (filter (selects jobs f) (snd (log_batch None now cs [])))"

lemma selected_logged:
  "selected_rows jobs f (snd (log_batch None now cs [])) = take (filter_limit f) (rows_in_order jobs f now cs)"
  by (simp add: selected_rows_def filter_limit_def rows_in_order_def)

lemma rows_in_order_iff:
  "r \<in> set (rows_in_order jobs f now cs) \<longleftrightarrow>
     (\<exists>c. first_accepted cs (cm_request c) = Some c \<and> r = command_row_of now c \<and> selects jobs f r)"
proof
  assume "r \<in> set (rows_in_order jobs f now cs)"
  then have "r \<in> set (snd (log_batch None now cs []))" "selects jobs f r" by (simp_all add: rows_in_order_def)
  then show "\<exists>c. first_accepted cs (cm_request c) = Some c \<and> r = command_row_of now c \<and> selects jobs f r"
    unfolding logged_iff by (auto simp: command_row_of_def)
next
  assume "\<exists>c. first_accepted cs (cm_request c) = Some c \<and> r = command_row_of now c \<and> selects jobs f r"
  then have "r \<in> set (snd (log_batch None now cs []))" "selects jobs f r"
    unfolding logged_iff by (auto simp: command_row_of_def)
  then show "r \<in> set (rows_in_order jobs f now cs)" by (simp add: rows_in_order_def)
qed

lemma rows_in_order_strict:
  "sorted_wrt (\<lambda>a b. newest_first a < newest_first b) (rows_in_order jobs f now cs)"
proof -
  have "distinct (map newest_first (filter (selects jobs f) (snd (log_batch None now cs []))))"
    using distinct_logged [of now cs] by (auto simp: distinct_map newest_first_def inj_on_def)
  then show ?thesis unfolding rows_in_order_def by (rule sort_key_strict)
qed

lemma command_key_rows:
  "a \<in> set (rows_in_order jobs f now cs) \<Longrightarrow> b \<in> set (rows_in_order jobs f now cs) \<Longrightarrow>
     command_key (decoded a) < command_key (decoded b) \<longleftrightarrow> newest_first a < newest_first b"
  unfolding rows_in_order_iff by (auto simp: decoded_row_of command_key_logged)

lemma listed_strict:
  "sorted_wrt (\<lambda>a b. command_key a < command_key b) (map decoded (take n (rows_in_order jobs f now cs)))"
proof -
  have "sorted_wrt (\<lambda>a b. newest_first a < newest_first b) (take n (rows_in_order jobs f now cs))"
    using rows_in_order_strict by (rule sorted_wrt_take)
  then have "sorted_wrt (\<lambda>a b. command_key (decoded a) < command_key (decoded b)) (take n (rows_in_order jobs f now cs))"
    by (rule sorted_wrt_mono_rel [rotated]) (metis command_key_rows in_set_takeD)
  then show ?thesis by (simp add: sorted_wrt_map)
qed

lemma listed_command:
  assumes "d \<in> set (map decoded (take n (rows_in_order jobs f now cs)))"
  shows "\<exists>c. first_accepted cs (cm_request d) = Some c \<and> d = as_logged now c \<and> selects jobs f (command_row_of now c)"
proof -
  from assms obtain r where "r \<in> set (rows_in_order jobs f now cs)" "d = decoded r"
    by (auto dest: in_set_takeD)
  then obtain c where "first_accepted cs (cm_request c) = Some c" "selects jobs f (command_row_of now c)"
      "d = as_logged now c"
    unfolding rows_in_order_iff by (auto simp: decoded_row_of)
  then show ?thesis by (intro exI [of _ c]) (simp add: as_logged_def)
qed

lemma unlisted_older:
  assumes "first_accepted cs k = Some c" and "selects jobs f (command_row_of now c)"
  shows "as_logged now c \<in> set (map decoded (take n (rows_in_order jobs f now cs)))
    \<or> length (map decoded (take n (rows_in_order jobs f now cs))) = n
      \<and> (\<forall>d\<in>set (map decoded (take n (rows_in_order jobs f now cs))). command_key d < command_key (as_logged now c))"
proof -
  let ?r = "command_row_of now c"
  have "cm_request c = k" using assms(1) by (auto simp: first_accepted_def find_Some_iff)
  with assms have r: "?r \<in> set (rows_in_order jobs f now cs)" unfolding rows_in_order_iff by blast
  from sorted_wrt_take_drop [OF rows_in_order_strict r, of n] show ?thesis
  proof
    assume "?r \<in> set (take n (rows_in_order jobs f now cs))"
    then have "decoded ?r \<in> set (map decoded (take n (rows_in_order jobs f now cs)))" by force
    then show ?thesis by (simp only: decoded_row_of simp_thms)
  next
    assume l: "n < length (rows_in_order jobs f now cs)
      \<and> (\<forall>y\<in>set (take n (rows_in_order jobs f now cs)). newest_first y < newest_first ?r)"
    then have "command_key (decoded y) < command_key (as_logged now c)"
      if "y \<in> set (take n (rows_in_order jobs f now cs))" for y
      using command_key_rows [of y jobs f now cs ?r] that r unfolding decoded_row_of by (blast dest: in_set_takeD)
    with l show ?thesis by simp
  qed
qed

section \<open>What a redrive publishes\<close>

definition redrive_request :: "(nat \<Rightarrow> string) \<Rightarrow> nat \<times> command \<Rightarrow> scrape_requested" where
  "redrive_request now = (\<lambda>(k, c). new_scrape_requested (now k) (cm_artist c) (cm_spotify c) (cm_name c) (cm_request c))"

text \<open>The publisher's answers to a list of requests, and its state after them.\<close>

fun publish_all :: "'w publish_fn \<Rightarrow> scrape_requested list \<Rightarrow> 'w \<Rightarrow> gerr option list \<times> 'w" where
  "publish_all publish [] w = ([], w)"
| "publish_all publish (r # rs) w =
     (let (e, w1) = publish w r; (es, w2) = publish_all publish rs w1 in (e # es, w2))"

lemma publish_all_length: "length (fst (publish_all publish rs w)) = length rs"
  by (induction rs arbitrary: w) (auto simp: split_def Let_def)

lemma redrive_loop_open:
  assumes "\<And>j. ctx j = None"
  shows "redrive_loop ctx now publish dry k cs st w =
    (if dry then ((st, None), w)
     else (let (es, w') = publish_all publish (map (redrive_request now) (enumerate k cs)) w
           in ((st\<lparr>rs_published := rs_published st + int (length (filter (\<lambda>e. e = None) es)),
                  rs_failed := rs_failed st + int (length (filter (\<lambda>e. e \<noteq> None) es))\<rparr>, None), w')))"
proof (induction cs arbitrary: k st w)
  case Nil
  then show ?case by (cases st) simp
next
  case (Cons c cs)
  then show ?case
    by (cases st) (auto simp: assms redrive_request_def split_def Let_def split: option.splits prod.splits)
qed

lemma list_commands_rows:
  assumes "list_commands None jobs f rows = Ok cmds"
  shows "map cm_request cmds = map cr_request (selected_rows jobs f rows)"
proof -
  have "fold_res (\<lambda>cs r. bind_res (row_command r) (\<lambda>c. Ok (cs @ [c]))) cs0 rs = Ok cs1 \<Longrightarrow>
      map cm_request cs1 = map cm_request cs0 @ map cr_request rs" for rs cs0 cs1
    by (induction rs arbitrary: cs0) (auto simp: bind_res_eq_Inr row_command_def split: prod.splits)
  from this [of "[]" "selected_rows jobs f rows" cmds] assms show ?thesis
    by (simp add: list_commands_def read_tx_def)
qed

section \<open>Properties\<close>

text \<open>
  C36. Command logging is idempotent and first-wins: a batch without a database failure leaves the
  table that logging its commands one by one leaves, whatever it held; on an empty table there is
  then one row per accepted request, that of the first acceptable command with the request id,
  and logging the batch again changes nothing.
\<close>

theorem log_batch_first_wins:
  "log_batch None now cs rows = (Ok (), foldl (\<lambda>rows c. snd (log_command None now c rows)) rows cs)
   \<and> distinct (map cr_request (snd (log_batch None now cs [])))
   \<and> find (\<lambda>r. cr_request r = k) (snd (log_batch None now cs [])) =
       map_option (command_row_of now) (first_accepted cs k)
   \<and> snd (log_batch None later cs (snd (log_batch None now cs []))) = snd (log_batch None now cs [])"
proof (intro conjI)
  let ?rows = "snd (log_batch None now cs [])"
  have "foldl (\<lambda>rows r. insert_command r rows) rs xs = rs"
    if "cr_request ` set xs \<subseteq> cr_request ` set rs" for rs xs
    using that by (induction xs) (auto simp: insert_command_def)
  moreover have "cr_request ` set (map (command_row_of later) (filter acceptable cs)) \<subseteq> cr_request ` set ?rows"
  proof
    fix k
    assume "k \<in> cr_request ` set (map (command_row_of later) (filter acceptable cs))"
    then obtain c where "c \<in> set (filter acceptable cs)" "cm_request c = k"
      by (auto simp: command_row_of_def)
    then have "first_accepted cs k \<noteq> None"
      unfolding first_accepted_def find_None_iff by blast
    then have "find (\<lambda>r. cr_request r = k) ?rows \<noteq> None" by (simp add: find_logged)
    then show "k \<in> cr_request ` set ?rows" unfolding find_None_iff by force
  qed
  ultimately show "snd (log_batch None later cs ?rows) = ?rows"
    by (simp add: log_batch_fold [where now = later] fold_log [where now = later])
qed (simp_all add: log_batch_fold distinct_logged [unfolded log_batch_fold snd_conv]
    find_logged [unfolded log_batch_fold snd_conv])

text \<open>
  A listing is faithful to what was logged: on a table filled by logging it never fails, it
  lists commands as they were logged (cut to the millisecond), the first accepted one of each
  request, newest first without repetition and within the limit, each passing the filter; and
  one that passes the filter is listed, unless the limit is reached by newer ones.
\<close>

theorem list_commands_faithful:
  assumes "list_commands None jobs f (snd (log_batch None now cs [])) = out"
  shows "\<exists>cmds. out = Ok cmds \<and> sorted_wrt (\<lambda>a b. command_key a < command_key b) cmds \<and> length cmds \<le> filter_limit f
    \<and> (\<forall>d\<in>set cmds. \<exists>c. first_accepted cs (cm_request d) = Some c \<and> d = as_logged now c
         \<and> selects jobs f (command_row_of now c))
    \<and> (\<forall>k c. first_accepted cs k = Some c \<and> selects jobs f (command_row_of now c) \<longrightarrow>
         as_logged now c \<in> set cmds
       \<or> length cmds = filter_limit f \<and> (\<forall>d\<in>set cmds. command_key d < command_key (as_logged now c)))"
proof -
  let ?cmds = "map decoded (take (filter_limit f) (rows_in_order jobs f now cs))"
  have "out = Ok ?cmds" using assms list_logged selected_logged by simp
  moreover have "length ?cmds \<le> filter_limit f" by simp
  ultimately show ?thesis
    using listed_strict listed_command unlisted_older by (intro exI [of _ ?cmds] conjI ballI allI impI) blast+
qed

definition sample_command :: "string \<Rightarrow> time \<Rightarrow> command" where
  "sample_command rid t = \<lparr>cm_request = rid, cm_type = type_refresh, cm_artist = ''a1'', cm_spotify = ''sp'',
     cm_name = ''Opeth'', cm_queued = t\<rparr>"

definition all_commands :: command_filter where
  "all_commands = \<lparr>cf_artist = [], cf_type = [], cf_since = zero_time, cf_until = zero_time,
     cf_unresolved = False, cf_limit = 0\<rparr>"

theorem list_commands_faithful_witness:
  "\<exists>cmds. list_commands None [] all_commands (snd (log_batch None 5 [sample_command ''r1'' 1000000, sample_command ''r2'' 2000001] []))
       = Ok cmds
     \<and> as_logged 5 (sample_command ''r2'' 2000001) \<in> set cmds"
proof -
  let ?cs = "[sample_command ''r1'' 1000000, sample_command ''r2'' 2000001]"
  have first: "first_accepted ?cs ''r2'' = Some (sample_command ''r2'' 2000001)" by code_simp
  have sel: "selects [] all_commands (command_row_of 5 (sample_command ''r2'' 2000001))" by code_simp
  have few: "case list_commands None [] all_commands (snd (log_batch None 5 ?cs [])) of
      Inl e \<Rightarrow> False | Inr cmds \<Rightarrow> length cmds \<noteq> filter_limit all_commands" by code_simp
  from list_commands_faithful [OF refl, of "[]" all_commands 5 ?cs] first sel few show ?thesis by fastforce
qed

text \<open>
  A redrive republishes exactly what was commanded: with a live context it sends the listed
  commands, in listing order, under their logged request ids, counts every answer once, and fails
  as the listing fails; a dry run sends nothing; and with \<^verbatim>\<open>UnresolvedOnly\<close> no request whose job
  row says anything but \<^verbatim>\<open>failed\<close> goes out.
\<close>

theorem redrive_republishes:
  assumes "\<And>j. ctx j = None"
  shows "case list_commands None jobs f rows of
      Inl err \<Rightarrow> redrive None ctx now publish jobs f dry rows w
        = ((\<lparr>rs_total = 0, rs_published = 0, rs_failed = 0, rs_dry = False\<rparr>, Some err), w)
    | Inr cmds \<Rightarrow> (let reqs = (if dry then [] else map (redrive_request now) (enumerate 0 cmds));
          (es, w') = publish_all publish reqs w;
          ok = int (length (filter (\<lambda>e. e = None) es)); bad = int (length (filter (\<lambda>e. e \<noteq> None) es))
        in redrive None ctx now publish jobs f dry rows w
            = ((\<lparr>rs_total = int (length cmds), rs_published = ok, rs_failed = bad, rs_dry = dry\<rparr>, None), w')
         \<and> (dry \<or> ok + bad = int (length cmds) \<and> map sr_request reqs = map cm_request cmds)
         \<and> (cf_unresolved f \<longrightarrow> (\<forall>r\<in>set reqs. map_of jobs (sr_request r) \<in> {None, Some ''failed''})))"
proof (cases "list_commands None jobs f rows")
  case (Inr cmds)
  have req: "map sr_request (map (redrive_request now) (enumerate 0 cmds)) = map cm_request cmds"
    by (simp add: redrive_request_def new_scrape_requested_def split_def comp_def)
      (metis (no_types, lifting) comp_apply map_eq_conv map_map map_snd_enumerate)
  have unres: "map_of jobs k \<in> {None, Some ''failed''}"
    if k: "cf_unresolved f" "k \<in> set (map cm_request cmds)" for k
  proof -
    from k(2) obtain r where r: "r \<in> set (selected_rows jobs f rows)" "k = cr_request r"
      unfolding list_commands_rows [OF Inr] by auto
    with selected_rows_subset have "selects jobs f r" by blast
    with k(1) r(2) have "unresolved jobs k" unfolding selects_def by blast
    then show ?thesis by (cases "map_of jobs k") (simp_all add: unresolved_def)
  qed
  have sum: "length (filter (\<lambda>e. e = None) es) + length (filter (\<lambda>e. e \<noteq> None) es) = length es" for es :: "gerr option list"
    by (rule sum_length_filter_compl)
  show ?thesis
  proof (cases dry)
    case True
    with Inr show ?thesis by (simp add: redrive_def redrive_loop_open [OF assms])
  next
    case False
    let ?reqs = "map (redrive_request now) (enumerate 0 cmds)"
    obtain es w' where p: "publish_all publish ?reqs w = (es, w')" by (metis prod.collapse)
    have "length es = length cmds" using publish_all_length [of publish ?reqs w] p by simp
    moreover have "map_of jobs (sr_request r) \<in> {None, Some ''failed''}" if "cf_unresolved f" "r \<in> set ?reqs" for r
      using unres [OF that(1), of "sr_request r"] that(2) req by (metis image_eqI list.set_map)
    ultimately show ?thesis
      using False Inr p req sum [of es] by (simp add: redrive_def redrive_loop_open [OF assms] Let_def)
  qed
qed (simp add: redrive_def)

theorem redrive_republishes_witness:
  "\<exists>w. redrive None (\<lambda>j. None) (\<lambda>k. ''now'') (\<lambda>w r. (None, w @ [sr_request r])) [(''r1'', ''failed'')]
       (all_commands\<lparr>cf_unresolved := True\<rparr>) False
       (snd (log_batch None 5 [sample_command ''r1'' 1000000, sample_command ''r2'' 2000001] [])) []
     = ((\<lparr>rs_total = 2, rs_published = 2, rs_failed = 0, rs_dry = False\<rparr>, None), w) \<and> w = [''r2'', ''r1'']"
proof -
  let ?rows = "snd (log_batch None 5 [sample_command ''r1'' 1000000, sample_command ''r2'' 2000001] [])"
  let ?f = "all_commands\<lparr>cf_unresolved := True\<rparr>" and ?jobs = "[(''r1'', ''failed'')]"
  have l: "list_commands None ?jobs ?f ?rows =
      Ok [sample_command ''r2'' 2000000, sample_command ''r1'' 1000000]" by code_simp
  have "publish_all (\<lambda>w r. (None, w @ [sr_request r]))
      (map (redrive_request (\<lambda>k. ''now'')) (enumerate 0 [sample_command ''r2'' 2000000, sample_command ''r1'' 1000000])) []
    = ([None, None], [''r2'', ''r1''])" by code_simp
  then show ?thesis
    using redrive_republishes [where ctx = "\<lambda>j. None" and jobs = ?jobs and f = ?f and rows = ?rows
        and now = "\<lambda>k. ''now''" and publish = "\<lambda>w r. (None, w @ [sr_request r])" and dry = False and w = "[]"] l
    by simp
qed

end
