(* ===== verification/Refresh_Selection.thy ===== *)
theory Refresh_Selection
  imports LL_Prelude "HOL-Library.Product_Lexorder"
begin

text \<open>
  Which artists a batch refresh takes, and in which order: the priority tiers
  (\<^verbatim>\<open>internal/priority/priority.go\<close>), the order and the selection query of
  \<^verbatim>\<open>internal/handlers/artist_helpers.go\<close>, and the candidates of \<^verbatim>\<open>artist_refresh_queue.go\<close>.
\<close>

section \<open>Tiers\<close>

datatype tier =
    P0Queued | P1RockRecent | P2OtherRecent | P3RockNotAdded | P4OtherNotAdded
  | P5RockIncluded | P6OtherIncluded | PUnknown

primrec tier_rank :: "tier \<Rightarrow> nat" where
  "tier_rank P0Queued = 0"
| "tier_rank P1RockRecent = 1"
| "tier_rank P2OtherRecent = 2"
| "tier_rank P3RockNotAdded = 3"
| "tier_rank P4OtherNotAdded = 4"
| "tier_rank P5RockIncluded = 5"
| "tier_rank P6OtherIncluded = 6"
| "tier_rank PUnknown = 7"

text \<open>\<^verbatim>\<open>Tier\<close> is an integer type: its values compare by their number.\<close>

lemma tier_rank_inj: "tier_rank s = tier_rank t \<longleftrightarrow> s = t"
  by (cases s; cases t) simp_all

instantiation tier :: linorder
begin

definition less_eq_tier :: "tier \<Rightarrow> tier \<Rightarrow> bool" where "s \<le> t \<longleftrightarrow> tier_rank s \<le> tier_rank t"
definition less_tier :: "tier \<Rightarrow> tier \<Rightarrow> bool" where "s < t \<longleftrightarrow> tier_rank s < tier_rank t"

instance
  by standard (auto simp: less_eq_tier_def less_tier_def tier_rank_inj [symmetric])

end

definition tier_string :: "tier \<Rightarrow> string" where
  "tier_string t =
     (case t of P0Queued \<Rightarrow> ''P0Queued'' | P1RockRecent \<Rightarrow> ''P1RockRecent'' | P2OtherRecent \<Rightarrow> ''P2OtherRecent''
      | P3RockNotAdded \<Rightarrow> ''P3RockNotAdded'' | P4OtherNotAdded \<Rightarrow> ''P4OtherNotAdded''
      | P5RockIncluded \<Rightarrow> ''P5RockIncluded'' | P6OtherIncluded \<Rightarrow> ''P6OtherIncluded'' | PUnknown \<Rightarrow> ''PUnknown'')"

text \<open>The columns of an artist row the selection reads; the schema forbids nulls in them.\<close>

record artist_row =
  aw_id :: string
  aw_spotify :: string
  aw_listeners :: int
  aw_genre :: string
  aw_list :: string
  aw_fetch :: string
  aw_updated :: string

definition determine :: "artist_row \<Rightarrow> tier" where
  "determine r =
     (if aw_fetch r = ''pending'' \<or> aw_list r = ''waiting'' then P0Queued
      else (let rock = aw_genre r = ''rock_metal''
            in if aw_list r = ''recently_added'' then (if rock then P1RockRecent else P2OtherRecent)
               else if aw_list r = ''not_added'' then (if rock then P3RockNotAdded else P4OtherNotAdded)
               else if aw_list r = ''included'' then (if rock then P5RockIncluded else P6OtherIncluded)
               else PUnknown))"

section \<open>The two orders\<close>

type_synonym refresh_job = "artist_row \<times> tier"

text \<open>\<^verbatim>\<open>sort.SliceStable\<close> with the comparison of \<^verbatim>\<open>prioritizeArtistJobs\<close>.\<close>

definition job_key :: "refresh_job \<Rightarrow> tier \<times> int" where
  "job_key j = (snd j, - aw_listeners (fst j))"

definition prioritize_jobs :: "artist_row list \<Rightarrow> refresh_job list" where
  "prioritize_jobs rs = sort_key job_key (map (\<lambda>r. (r, determine r)) rs)"

text \<open>The query \<^verbatim>\<open>batchRefreshArtistSelectSQL\<close>: its \<^verbatim>\<open>CASE\<close>, its \<^verbatim>\<open>WHERE\<close>, its \<^verbatim>\<open>ORDER BY\<close>.\<close>

definition sql_tier :: "artist_row \<Rightarrow> nat" where
  "sql_tier r =
     (if aw_list r = ''waiting'' then 0
      else if aw_list r = ''recently_added'' \<and> aw_genre r = ''rock_metal'' then 1
      else if aw_list r = ''recently_added'' then 2
      else if aw_list r = ''not_added'' \<and> aw_genre r = ''rock_metal'' then 3
      else if aw_list r = ''not_added'' then 4
      else if aw_list r = ''included'' \<and> aw_genre r = ''rock_metal'' then 5
      else if aw_list r = ''included'' then 6
      else 7)"

text \<open>
  \<open>stale\<close> is the comparison of the \<^verbatim>\<open>last_updated\<close> text with the cutoff the caller passes.
\<close>

definition refreshable :: "(string \<Rightarrow> bool) \<Rightarrow> artist_row \<Rightarrow> bool" where
  "refreshable stale r \<longleftrightarrow>
     aw_spotify r \<noteq> [] \<and> aw_fetch r \<noteq> ''pending'' \<and> (aw_updated r = [] \<or> stale (aw_updated r))"

definition sql_key :: "artist_row \<Rightarrow> nat \<times> int" where
  "sql_key r = (sql_tier r, - aw_listeners r)"

definition select_refresh :: "(string \<Rightarrow> bool) \<Rightarrow> nat \<Rightarrow> artist_row list \<Rightarrow> string list" where
  "select_refresh stale n rows = map aw_id (take n (sort_key sql_key (filter (refreshable stale) rows)))"

text \<open>
  \<^verbatim>\<open>batchRefreshJobs\<close>. \<open>sqlite\<close> is the mirror, absent when the handler has none or its query
  fails; \<open>records\<close> are the records of the PocketBase query by id, absent when it fails;
  \<open>fallback\<close> is the answer of the PocketBase selection.
\<close>

definition batch_refresh_jobs ::
    "(string \<Rightarrow> bool) \<Rightarrow> artist_row list option \<Rightarrow> (string list \<Rightarrow> artist_row list option)
     \<Rightarrow> artist_row list res \<Rightarrow> int \<Rightarrow> refresh_job list res" where
  "batch_refresh_jobs stale sqlite records fallback count =
     (let n = (if count \<le> 0 then 50 else nat count);
          pocketbase = bind_res (wrap_err ''batchRefreshJobs: failed to fetch artists'' fallback)
                         (\<lambda>rs. Ok (prioritize_jobs rs))
      in case sqlite of
           None \<Rightarrow> pocketbase
         | Some rows \<Rightarrow>
             let ids = select_refresh stale n rows
             in if ids = [] then pocketbase
                else (case records ids of
                        None \<Rightarrow> pocketbase
                      | Some rs \<Rightarrow>
                          let rec_map = map_of (rev (map (\<lambda>r. (aw_id r, r)) rs))
                          in Ok (map (\<lambda>r. (r, determine r)) (List.map_filter rec_map ids))))"

section \<open>Candidates\<close>

record batch_candidate =
  bc_job :: refresh_job
  bc_request :: int
  bc_previous :: string

text \<open>The request id is \<^verbatim>\<open>strconv.FormatInt\<close> of a number and is kept as that number.\<close>

fun candidates_from :: "int \<Rightarrow> nat \<Rightarrow> nat \<Rightarrow> refresh_job list \<Rightarrow> batch_candidate list" where
  "candidates_from base k room [] = []"
| "candidates_from base k 0 (j # js) = []"
| "candidates_from base k (Suc room) (j # js) =
     \<lparr>bc_job = j, bc_request = wrap64 (base + int k), bc_previous = aw_fetch (fst j)\<rparr> #
     candidates_from base (Suc k) room js"

definition refresh_candidates :: "refresh_job list \<Rightarrow> int \<Rightarrow> time \<Rightarrow> batch_candidate list" where
  "refresh_candidates jobs count now =
     candidates_from (wrap64 now) 0 (nat (min (int (length jobs)) count)) jobs"

definition candidate_artist_ids :: "batch_candidate list \<Rightarrow> string list" where
  "candidate_artist_ids cs = map (\<lambda>c. aw_id (fst (bc_job c))) cs"

definition candidate_stats :: "batch_candidate list \<Rightarrow> (string \<times> int) list" where
  "candidate_stats cs =
     foldl (\<lambda>m c. let k = tier_string (snd (bc_job c))
                  in kv_put k (wrap64 ((case map_of m k of None \<Rightarrow> 0 | Some v \<Rightarrow> v) + 1)) m) [] cs"

section \<open>The query follows the tiers\<close>

lemma sql_tier_determine: "aw_fetch r \<noteq> ''pending'' \<Longrightarrow> sql_tier r = tier_rank (determine r)"
  by (auto simp: sql_tier_def determine_def Let_def)

lemma insort_key_agree:
  "(\<And>y. y \<in> set ys \<Longrightarrow> (f x :: 'k :: linorder) \<le> f y \<longleftrightarrow> (g x :: 'l :: linorder) \<le> g y) \<Longrightarrow>
     insort_key f x ys = insort_key g x ys"
  by (induction ys) auto

lemma sort_key_agree:
  assumes "\<And>x y. x \<in> set xs \<Longrightarrow> y \<in> set xs \<Longrightarrow> (f x :: 'k :: linorder) \<le> f y \<longleftrightarrow> (g x :: 'l :: linorder) \<le> g y"
  shows "sort_key f xs = sort_key g xs"
  using assms
proof (induction xs)
  case (Cons x xs)
  then have "sort_key f xs = sort_key g xs" by simp
  with insort_key_agree [of "sort_key g xs" f x g] Cons.prems show ?case by simp
qed simp

lemma insort_key_map: "insort_key f (h x) (map h ys) = map h (insort_key (\<lambda>x. f (h x)) x ys)"
  by (induction ys) auto

lemma sort_key_map: "sort_key f (map h xs) = map h (sort_key (\<lambda>x. f (h x)) xs)"
  by (induction xs) (simp_all add: insort_key_map)

lemma sql_key_agree:
  assumes "aw_fetch a \<noteq> ''pending''" and "aw_fetch b \<noteq> ''pending''"
  shows "job_key (a, determine a) \<le> job_key (b, determine b) \<longleftrightarrow> sql_key a \<le> sql_key b"
  by (auto simp: job_key_def sql_key_def less_eq_prod_def sql_tier_determine [OF assms(1)]
      sql_tier_determine [OF assms(2)] less_eq_tier_def less_tier_def)

text \<open>The rows a batch draws from, in the order of the Go comparison.\<close>

lemma query_order:
  "map (\<lambda>r. (r, determine r)) (sort_key sql_key (filter (refreshable stale) rows)) =
     prioritize_jobs (filter (refreshable stale) rows)"
proof -
  have "sort_key (\<lambda>r. job_key (r, determine r)) (filter (refreshable stale) rows) =
      sort_key sql_key (filter (refreshable stale) rows)"
    by (rule sort_key_agree) (simp add: sql_key_agree refreshable_def)
  then show ?thesis by (simp add: prioritize_jobs_def sort_key_map)
qed

lemma candidates_from_take:
  "candidates_from base k n js = candidates_from base k n (take n js)"
  by (induction base k n js rule: candidates_from.induct) simp_all

lemma candidates_from_jobs: "map bc_job (candidates_from base k n js) = take n js"
  by (induction base k n js rule: candidates_from.induct) simp_all

lemma candidates_from_requests:
  "map bc_request (candidates_from base k n js) =
     map (\<lambda>j. wrap64 (base + int j)) [k ..< k + min n (length js)]"
  by (induction base k n js rule: candidates_from.induct) (simp_all add: upt_rec)

lemma refresh_candidates_take:
  assumes "0 < count" and "nat count \<le> m"
  shows "refresh_candidates (take m js) count now = refresh_candidates js count now"
proof -
  have n: "nat (min (int (length (take m js))) count) = nat (min (int (length js)) count)"
    using assms by auto
  let ?n = "nat (min (int (length js)) count)"
  have "take ?n (take m js) = take ?n js" using assms by (simp add: min_def)
  then show ?thesis
    unfolding refresh_candidates_def n
    by (subst candidates_from_take, subst (2) candidates_from_take) simp
qed

lemma map_of_rev_id:
  assumes "distinct (map aw_id rs)" and "r \<in> set rs"
  shows "map_of (rev (map (\<lambda>r. (aw_id r, r)) rs)) (aw_id r) = Some r"
proof (rule map_of_is_SomeI)
  show "distinct (map fst (rev (map (\<lambda>r. (aw_id r, r)) rs)))"
    using assms(1) by (simp add: rev_map [symmetric] comp_def)
qed (use assms(2) in simp)

lemma map_filter_rows:
  assumes "\<And>r. r \<in> set sel \<Longrightarrow> m (aw_id r) = Some r"
  shows "List.map_filter m (map aw_id sel) = sel"
  using assms by (induction sel) (simp_all add: List.map_filter_def)

definition stat :: "(string \<times> int) list \<Rightarrow> tier \<Rightarrow> int" where
  "stat m t = (case map_of m (tier_string t) of None \<Rightarrow> 0 | Some v \<Rightarrow> v)"

lemma tier_string_inj: "tier_string s = tier_string t \<longleftrightarrow> s = t"
  by (cases s; cases t) (simp_all add: tier_string_def)

lemma candidate_stats_count:
  "in_int64 (int (length cs)) \<Longrightarrow>
     stat (candidate_stats cs) t = int (length (filter (\<lambda>c. snd (bc_job c) = t) cs))"
proof (induction cs rule: rev_induct)
  case (snoc c cs)
  let ?n = "\<lambda>t. int (length (filter (\<lambda>c. snd (bc_job c) = t) cs))"
  have in64: "in_int64 (?n t + 1)" for t
  proof -
    define n where "n = length (filter (\<lambda>c. snd (bc_job c) = t) cs)"
    have "n \<le> length cs" by (simp add: n_def)
    with snoc.prems show ?thesis unfolding n_def [symmetric] by (simp add: in_int64_def)
  qed
  have "in_int64 (int (length cs))" using snoc.prems by (simp add: in_int64_def)
  note IH = snoc.IH [OF this]
  have "candidate_stats (cs @ [c]) = kv_put (tier_string (snd (bc_job c)))
      (wrap64 (stat (candidate_stats cs) (snd (bc_job c)) + 1)) (candidate_stats cs)"
    by (simp add: candidate_stats_def stat_def Let_def)
  then show ?case
    using IH wrap64_id [OF in64] by (auto simp: stat_def tier_string_inj)
qed (simp add: candidate_stats_def stat_def)

text \<open>The mirror path lists a prefix of the direct order, at least as long as the batch.\<close>

lemma mirror_jobs:
  assumes "0 < count" and "distinct (map aw_id rows)"
    and found: "\<And>ids. distinct (map aw_id (found ids)) \<and> set (found ids) = {r \<in> set rows. aw_id r \<in> set ids}"
  shows "\<exists>m\<ge>nat count. batch_refresh_jobs stale (Some rows) (\<lambda>ids. Some (found ids)) (Ok (filter (refreshable stale) rows)) count
    = Ok (take m (prioritize_jobs (filter (refreshable stale) rows)))"
proof (cases "filter (refreshable stale) rows = []")
  case True
  then show ?thesis
    by (intro exI [of _ "nat count"]) (simp add: batch_refresh_jobs_def select_refresh_def prioritize_jobs_def)
next
  case False
  let ?rs = "filter (refreshable stale) rows" and ?n = "nat count"
  let ?sel = "take ?n (sort_key sql_key ?rs)"
  let ?ids = "map aw_id ?sel"
  have "map_of (rev (map (\<lambda>r. (aw_id r, r)) (found ?ids))) (aw_id r) = Some r" if "r \<in> set ?sel" for r
  proof (rule map_of_rev_id)
    show "r \<in> set (found ?ids)" using found [of ?ids] that by (auto dest: in_set_takeD)
  qed (use found in blast)
  then have "List.map_filter (map_of (rev (map (\<lambda>r. (aw_id r, r)) (found ?ids)))) ?ids = ?sel"
    by (rule map_filter_rows)
  moreover have "length ?ids = min ?n (length ?rs)" by simp
  then have "?ids \<noteq> []" using False assms(1) by (metis length_0_conv min_def nat_0_iff not_le)
  ultimately have "batch_refresh_jobs stale (Some rows) (\<lambda>ids. Some (found ids)) (Ok ?rs) count =
      Ok (map (\<lambda>r. (r, determine r)) ?sel)"
    using assms(1) by (simp add: batch_refresh_jobs_def select_refresh_def Let_def)
  then show ?thesis using query_order [of stale rows] by (intro exI [of _ ?n]) (simp add: take_map [symmetric])
qed

lemma direct_ids:
  "distinct (map aw_id rows) \<Longrightarrow> distinct (map (\<lambda>j. aw_id (fst j)) (prioritize_jobs (filter p rows)))"
  by (simp add: prioritize_jobs_def sort_key_map comp_def distinct_map inj_on_def)

lemma direct_length: "length (prioritize_jobs rs) = length rs"
  by (simp add: prioritize_jobs_def)

lemma direct_tier: "j \<in> set (prioritize_jobs rs) \<Longrightarrow> snd j = determine (fst j)"
  by (auto simp: prioritize_jobs_def)

lemma refresh_candidates_jobs:
  "0 < count \<Longrightarrow> map bc_job (refresh_candidates js count now) = take (nat count) js"
  by (simp add: refresh_candidates_def candidates_from_jobs min_def)

lemma refresh_candidates_requests:
  assumes "0 < count" and "in_int64 now" and "in_int64 (now + int (length js))"
  shows "distinct (map bc_request (refresh_candidates js count now))"
proof -
  have "inj_on (\<lambda>j. wrap64 (now + int j)) {0..<length js}"
  proof (rule inj_onI)
    fix i j
    assume ij: "i \<in> {0..<length js}" "j \<in> {0..<length js}" "wrap64 (now + int i) = wrap64 (now + int j)"
    have "in_int64 (now + int i)" "in_int64 (now + int j)" using ij(1,2) assms(2,3) by (auto simp: in_int64_def)
    with ij(3) show "i = j" by (simp add: wrap64_id)
  qed
  then show ?thesis
    using assms(1,2) by (auto simp: refresh_candidates_def candidates_from_requests wrap64_id distinct_map
        intro: inj_on_subset)
qed

section \<open>Properties\<close>


definition sample_artist :: "string \<Rightarrow> string \<Rightarrow> string \<Rightarrow> int \<Rightarrow> artist_row" where
  "sample_artist i genre list n = \<lparr>aw_id = i, aw_spotify = ''sp'', aw_listeners = n, aw_genre = genre,
     aw_list = list, aw_fetch = ''idle'', aw_updated = []\<rparr>"

definition sample_artists :: "artist_row list" where
  "sample_artists = [sample_artist ''a'' ''everything_else'' ''included'' 900, sample_artist ''b'' ''rock_metal'' ''included'' 5,
     sample_artist ''c'' ''rock_metal'' ''recently_added'' 2, (sample_artist ''d'' ''rock_metal'' ''waiting'' 7)\<lparr>aw_fetch := ''pending''\<rparr>]"


end
