(* ===== verification/Correlation_Registry.thy ===== *)
theory Correlation_Registry
  imports LL_Prelude
begin

text \<open>
  The in-memory registry that links an artist to the request refreshing it
  (\<^verbatim>\<open>internal/correlation/registry.go\<close>). Every function holds the lock for its whole body, so a run of
  the program is a sequence of whole operations; each reads the clock once.
\<close>

section \<open>Operations\<close>

record reg_entry =
  re_expires :: time
  re_request :: string

type_synonym correlation_table = "(string \<times> reg_entry) list"

definition ttl :: time where "ttl = 5 * 60 * second"

definition associate :: "time \<Rightarrow> string \<Rightarrow> string \<Rightarrow> correlation_table \<Rightarrow> correlation_table" where
  "associate now a rid reg = kv_put a \<lparr>re_expires = now + ttl, re_request = rid\<rparr> reg"

definition reg_get :: "time \<Rightarrow> string \<Rightarrow> correlation_table \<Rightarrow> string" where
  "reg_get now a reg =
     (case map_of reg a of
        None \<Rightarrow> []
      | Some e \<Rightarrow> if re_expires e < now then [] else re_request e)"

definition reg_delete :: "string \<Rightarrow> correlation_table \<Rightarrow> correlation_table" where
  "reg_delete a reg = filter (\<lambda>kv. fst kv \<noteq> a) reg"

definition reg_pop :: "time \<Rightarrow> string \<Rightarrow> correlation_table \<Rightarrow> string \<times> correlation_table" where
  "reg_pop now a reg =
     (case map_of reg a of
        None \<Rightarrow> ([], reg)
      | Some e \<Rightarrow> (if re_expires e < now then [] else re_request e, reg_delete a reg))"

definition reg_clear :: "string \<Rightarrow> correlation_table \<Rightarrow> correlation_table" where
  "reg_clear a reg = reg_delete a reg"

definition purge_expired :: "time \<Rightarrow> correlation_table \<Rightarrow> correlation_table" where
  "purge_expired now reg = filter (\<lambda>kv. \<not> re_expires (snd kv) < now) reg"

section \<open>Runs\<close>

datatype reg_op = Associate string string | Pop string | Clear string | PurgeExpired

definition reg_step :: "correlation_table \<Rightarrow> time \<times> reg_op \<Rightarrow> correlation_table" where
  "reg_step reg = (\<lambda>(now, f).
     case f of
       Associate a rid \<Rightarrow> associate now a rid reg
     | Pop a \<Rightarrow> snd (reg_pop now a reg)
     | Clear a \<Rightarrow> reg_clear a reg
     | PurgeExpired \<Rightarrow> purge_expired now reg)"

definition reg_run :: "(time \<times> reg_op) list \<Rightarrow> correlation_table" where
  "reg_run fs = foldl reg_step [] fs"

text \<open>What the registry promises, read off the history, the latest operation first.\<close>

fun last_association :: "string \<Rightarrow> (time \<times> reg_op) list \<Rightarrow> (time \<times> string) option" where
  "last_association a [] = None"
| "last_association a ((now, Associate b rid) # fs) =
     (if b = a then Some (now, rid) else last_association a fs)"
| "last_association a ((now, Pop b) # fs) = (if b = a then None else last_association a fs)"
| "last_association a ((now, Clear b) # fs) = (if b = a then None else last_association a fs)"
| "last_association a ((now, PurgeExpired) # fs) = last_association a fs"

definition promised :: "time \<Rightarrow> string \<Rightarrow> (time \<times> reg_op) list \<Rightarrow> string" where
  "promised now a fs =
     (case last_association a (rev fs) of
        None \<Rightarrow> []
      | Some (t, rid) \<Rightarrow> if now \<le> t + ttl then rid else [])"

lemma map_of_reg_delete: "map_of (reg_delete a reg) = (map_of reg)(a := None)"
  by (induction reg) (auto simp: reg_delete_def fun_eq_iff)

lemma reg_delete_distinct: "distinct (map fst reg) \<Longrightarrow> distinct (map fst (reg_delete a reg))"
  by (simp add: reg_delete_def distinct_map_filter)

lemma map_of_purge:
  "distinct (map fst reg) \<Longrightarrow> map_of (purge_expired now reg) b =
     (case map_of reg b of None \<Rightarrow> None | Some e \<Rightarrow> if re_expires e < now then None else Some e)"
proof (induction reg)
  case (Cons kv reg)
  have "map_of (purge_expired now reg) (fst kv) = None"
    using Cons.prems by (auto simp: purge_expired_def map_of_eq_None_iff)
  with Cons show ?case by (cases kv) (auto simp: purge_expired_def)
qed (simp add: purge_expired_def)

lemma reg_step_distinct: "distinct (map fst reg) \<Longrightarrow> distinct (map fst (reg_step reg f))"
  by (cases f; cases "snd f")
    (auto simp: reg_step_def associate_def distinct_kv_put reg_pop_def reg_clear_def reg_delete_distinct
      purge_expired_def distinct_map_filter split: option.splits)

lemma reg_run_distinct: "distinct (map fst (reg_run fs))"
  by (induction fs rule: rev_induct) (simp_all add: reg_run_def reg_step_distinct)

lemma reg_run_snoc [simp]: "reg_run (fs @ [f]) = reg_step (reg_run fs) f"
  by (simp add: reg_run_def)

text \<open>The entry of an artist is its last association; it is missing only when it has expired.\<close>

lemma reg_run_entry:
  assumes "\<forall>f\<in>set fs. fst f \<le> now"
  shows "case last_association a (rev fs) of
      None \<Rightarrow> map_of (reg_run fs) a = None
    | Some (t, rid) \<Rightarrow> map_of (reg_run fs) a = Some \<lparr>re_expires = t + ttl, re_request = rid\<rparr>
        \<or> map_of (reg_run fs) a = None \<and> t + ttl < now"
  using assms
proof (induction fs rule: rev_induct)
  case (snoc f fs)
  obtain t g where f: "f = (t, g)" by (cases f)
  have IH: "case last_association a (rev fs) of
      None \<Rightarrow> map_of (reg_run fs) a = None
    | Some (t, rid) \<Rightarrow> map_of (reg_run fs) a = Some \<lparr>re_expires = t + ttl, re_request = rid\<rparr>
        \<or> map_of (reg_run fs) a = None \<and> t + ttl < now"
    using snoc by simp
  have "t \<le> now" using snoc.prems f by simp
  then show ?case
    using IH unfolding f
    by (cases g) (auto simp: reg_step_def associate_def reg_pop_def reg_clear_def map_of_reg_delete
        map_of_purge reg_run_distinct simp del: map_of_eq_Some_iff split: option.splits)
qed (simp add: reg_run_def)

section \<open>Property\<close>

text \<open>
  A lookup in the correlation registry answers with the request last associated with the artist,
  unless it was popped or cleared since, or five minutes have passed; popping answers the same
  and leaves nothing; purging is never visible to a later lookup. The clock does not run back.
\<close>

theorem registry_answers_as_promised:
  assumes "\<forall>f\<in>set fs. fst f \<le> now"
  shows "reg_get now a (reg_run fs) = promised now a fs
    \<and> fst (reg_pop now a (reg_run fs)) = promised now a fs
    \<and> reg_get later a (snd (reg_pop now a (reg_run fs))) = []
    \<and> (now \<le> later \<longrightarrow> reg_get later b (reg_run (fs @ [(now, PurgeExpired)])) = reg_get later b (reg_run fs))"
proof (intro conjI impI)
  show "reg_get now a (reg_run fs) = promised now a fs" "fst (reg_pop now a (reg_run fs)) = promised now a fs"
    using reg_run_entry [OF assms, of a]
    by (auto simp: reg_get_def reg_pop_def promised_def split: option.splits)
  show "reg_get later a (snd (reg_pop now a (reg_run fs))) = []"
    by (simp add: reg_get_def reg_pop_def map_of_reg_delete split: option.splits)
  assume "now \<le> later"
  moreover have "reg_run (fs @ [(now, PurgeExpired)]) = purge_expired now (reg_run fs)"
    by (simp add: reg_step_def)
  ultimately show "reg_get later b (reg_run (fs @ [(now, PurgeExpired)])) = reg_get later b (reg_run fs)"
    by (auto simp: reg_get_def map_of_purge reg_run_distinct simp del: map_of_eq_Some_iff split: option.splits)
qed

theorem registry_answers_as_promised_witness:
  "reg_get 300000000001 ''a'' (reg_run [(0, Associate ''a'' ''r0''), (1, Associate ''a'' ''r1''), (2, Pop ''b''), (3, PurgeExpired)]) = ''r1''
   \<and> reg_get 300000000002 ''a'' (reg_run [(0, Associate ''a'' ''r0''), (1, Associate ''a'' ''r1''), (2, Pop ''b''), (3, PurgeExpired)]) = []"
proof -
  let ?fs = "[(0, Associate ''a'' ''r0''), (1, Associate ''a'' ''r1''), (2, Pop ''b''), (3, PurgeExpired)]"
  have "\<forall>f\<in>set ?fs. fst f \<le> (300000000001 :: time)" "\<forall>f\<in>set ?fs. fst f \<le> (300000000002 :: time)" by simp_all
  note this [THEN registry_answers_as_promised, of "''a''"]
  then show ?thesis by (simp add: promised_def ttl_def second_def)
qed

end
