(* ===== verification/Quota_Check.thy ===== *)
theory Quota_Check
  imports Json_Value
begin

text \<open>
  The quota checks of the scraping providers (\<^verbatim>\<open>internal/quota/quota.go\<close>). The HTTP client is outside
  the model: a check gets the reply of its endpoint. Amounts of money and memory are exact
  rationals where the code has \<^verbatim>\<open>float64\<close>; messages keep their fixed text.
\<close>

section \<open>Configuration\<close>

record quota_config =
  qc_local :: bool
  qc_local_browserless :: bool
  qc_local_endpoint :: string
  qc_browserless_token :: string
  qc_browserless_endpoint :: string
  qc_browserbase_key :: string
  qc_ant_token :: string
  qc_ant_endpoint :: string
  qc_api_token :: string
  qc_api_endpoint :: string
  qc_apify_token :: string
  qc_apify_endpoint :: string
  qc_apify_actor :: string
  qc_apify_memory :: int

definition has_local_headless :: "quota_config \<Rightarrow> bool" where "has_local_headless c = qc_local c"

definition has_local_browserless :: "quota_config \<Rightarrow> bool" where
  "has_local_browserless c \<longleftrightarrow> qc_local_browserless c \<and> trim_space (qc_local_endpoint c) \<noteq> []"

definition has_browserless :: "quota_config \<Rightarrow> bool" where
  "has_browserless c \<longleftrightarrow> qc_browserless_token c \<noteq> [] \<and> qc_browserless_endpoint c \<noteq> []"

definition has_browserbase :: "quota_config \<Rightarrow> bool" where
  "has_browserbase c \<longleftrightarrow> qc_browserbase_key c \<noteq> []"

definition has_scraping_ant :: "quota_config \<Rightarrow> bool" where
  "has_scraping_ant c \<longleftrightarrow> qc_ant_token c \<noteq> [] \<and> qc_ant_endpoint c \<noteq> []"

definition has_scraper_api :: "quota_config \<Rightarrow> bool" where
  "has_scraper_api c \<longleftrightarrow> qc_api_token c \<noteq> [] \<and> qc_api_endpoint c \<noteq> []"

definition has_apify :: "quota_config \<Rightarrow> bool" where
  "has_apify c \<longleftrightarrow> qc_apify_token c \<noteq> [] \<and> qc_apify_endpoint c \<noteq> [] \<and> qc_apify_actor c \<noteq> []"

section \<open>Replies and answers\<close>

datatype http_body = BodyUnreadable | BodyText string | BodyJson json

datatype http_reply = RequestNotBuilt string | RequestFailed string | Reply int http_body

record quota_info =
  qi_provider :: string
  qi_plan :: string
  qi_error :: string
  qi_remaining :: int
  qi_credits :: int
  qi_available :: bool

definition plain_info :: "string \<Rightarrow> bool \<Rightarrow> string \<Rightarrow> quota_info" where
  "plain_info p ok msg =
     \<lparr>qi_provider = p, qi_plan = [], qi_error = msg, qi_remaining = 0, qi_credits = 0, qi_available = ok\<rparr>"

definition is_auth_error :: "int \<Rightarrow> bool" where "is_auth_error st \<longleftrightarrow> st = 401 \<or> st = 403"

section \<open>Checks without a network call\<close>

definition check_local_headless :: "quota_config \<Rightarrow> quota_info" where
  "check_local_headless c =
     (if \<not> has_local_headless c then plain_info ''local'' False ''Local headless not enabled''
      else plain_info ''local'' True [])"

definition check_local_browserless :: "quota_config \<Rightarrow> quota_info" where
  "check_local_browserless c =
     (if \<not> has_local_browserless c then plain_info ''local-browserless'' False ''Local browserless not enabled''
      else plain_info ''local-browserless'' True [])"

definition check_mobile_ssr :: quota_info where "check_mobile_ssr = plain_info ''mobile-ssr'' True []"

definition check_browserless :: "quota_config \<Rightarrow> quota_info" where
  "check_browserless c =
     (if \<not> has_browserless c then plain_info ''browserless'' False ''Browserless not configured''
      else plain_info ''browserless'' True ''Browserless does not provide a usage API; quota assumed available'')"

definition check_browserbase :: "quota_config \<Rightarrow> quota_info" where
  "check_browserbase c =
     (if \<not> has_browserbase c then plain_info ''browserbase'' False ''Browserbase not configured''
      else plain_info ''browserbase'' True ''Browserbase does not provide a usage API; quota assumed available'')"

section \<open>ScrapingAnt\<close>

record ant_usage =
  an_plan :: string
  an_total :: int
  an_remaining :: int

definition dec_ant_usage :: "json \<Rightarrow> ant_usage option" where
  "dec_ant_usage j =
     do { m \<leftarrow> dec_obj j; p \<leftarrow> dec_str (jfield m ''plan_name''); s \<leftarrow> dec_str (jfield m ''start_date'');
          e \<leftarrow> dec_str (jfield m ''end_date''); t \<leftarrow> dec_int (jfield m ''plan_total_credits'');
          r \<leftarrow> dec_int (jfield m ''remained_credits'');
          Some \<lparr>an_plan = p, an_total = t, an_remaining = r\<rparr> }"

definition check_scraping_ant :: "quota_config \<Rightarrow> http_reply \<Rightarrow> quota_info" where
  "check_scraping_ant c reply =
     (let no = plain_info ''scrapingant'' False
      in if \<not> has_scraping_ant c then no ''ScrapingAnt not configured''
         else (case reply of
                 RequestNotBuilt err \<Rightarrow> no (''failed to create request: '' @ err)
               | RequestFailed err \<Rightarrow> no (''request failed: '' @ err)
               | Reply st body \<Rightarrow>
                   if st \<noteq> 200 then no ''API returned another status''
                   else (case body of
                           BodyUnreadable \<Rightarrow> no ''failed to read response''
                         | BodyText t \<Rightarrow> no ''failed to parse response''
                         | BodyJson j \<Rightarrow>
                             (case dec_ant_usage j of
                                None \<Rightarrow> no ''failed to parse response''
                              | Some u \<Rightarrow>
                                  \<lparr>qi_provider = ''scrapingant'', qi_plan = an_plan u, qi_error = [],
                                   qi_remaining = an_remaining u, qi_credits = an_total u,
                                   qi_available = (10 \<le> an_remaining u)\<rparr>))))"

section \<open>ScraperAPI\<close>

record api_account =
  ac_count :: int
  ac_limit :: int
  ac_plan :: string

definition dec_api_account :: "json \<Rightarrow> api_account option" where
  "dec_api_account j =
     do { m \<leftarrow> dec_obj j; n \<leftarrow> dec_int (jfield m ''requestCount''); l \<leftarrow> dec_int (jfield m ''requestLimit'');
          c \<leftarrow> dec_int (jfield m ''concurrencyLimit''); f \<leftarrow> dec_int (jfield m ''failedRequestCount'');
          p \<leftarrow> dec_str (jfield m ''planName''); s \<leftarrow> dec_str (jfield m ''accountStatus'');
          Some \<lparr>ac_count = n, ac_limit = l, ac_plan = p\<rparr> }"

definition parse_scraper_api :: "http_body \<Rightarrow> quota_info" where
  "parse_scraper_api body =
     (let maybe = plain_info ''scraperapi'' True
      in case body of
           BodyUnreadable \<Rightarrow> maybe ''failed to read response (assuming available)''
         | BodyText t \<Rightarrow> maybe ''failed to parse /account response (assuming available)''
         | BodyJson j \<Rightarrow>
             (case dec_api_account j of
                None \<Rightarrow> maybe ''failed to parse /account response (assuming available)''
              | Some a \<Rightarrow>
                  (let remaining = max (wrap64 (ac_limit a - ac_count a)) 0
                   in \<lparr>qi_provider = ''scraperapi'', qi_plan = ac_plan a, qi_error = [], qi_remaining = remaining,
                       qi_credits = ac_limit a, qi_available = (0 < remaining \<or> ac_limit a = 0)\<rparr>)))"

definition check_scraper_api :: "quota_config \<Rightarrow> http_reply \<Rightarrow> quota_info" where
  "check_scraper_api c reply =
     (if \<not> has_scraper_api c then plain_info ''scraperapi'' False ''ScraperAPI not configured''
      else (case reply of
              RequestNotBuilt err \<Rightarrow>
                plain_info ''scraperapi'' True (''failed to create request (assuming available): '' @ err)
            | RequestFailed err \<Rightarrow> plain_info ''scraperapi'' True (''request failed (assuming available): '' @ err)
            | Reply st body \<Rightarrow>
                if is_auth_error st then plain_info ''scraperapi'' False ''authentication failed''
                else if st \<noteq> 200
                then plain_info ''scraperapi'' True
                       ''ScraperAPI /account endpoint not available on current plan; quota assumed available''
                else parse_scraper_api body))"

section \<open>Apify\<close>

record apify_limits =
  al_max_usd :: rat
  al_max_memory :: rat
  al_max_jobs :: int
  al_used_usd :: rat
  al_used_memory :: rat
  al_jobs :: int

definition dec_apify_limits :: "json \<Rightarrow> apify_limits option" where
  "dec_apify_limits j =
     do { top \<leftarrow> dec_obj j; data \<leftarrow> dec_obj (jfield top ''data'');
          l \<leftarrow> dec_obj (jfield data ''limits''); c \<leftarrow> dec_obj (jfield data ''current'');
          mu \<leftarrow> dec_float (jfield l ''maxMonthlyUsageUsd''); mm \<leftarrow> dec_float (jfield l ''maxActorMemoryGbytes'');
          mj \<leftarrow> dec_int (jfield l ''maxConcurrentActorJobs'');
          uu \<leftarrow> dec_float (jfield c ''monthlyUsageUsd''); um \<leftarrow> dec_float (jfield c ''actorMemoryGbytes'');
          uj \<leftarrow> dec_int (jfield c ''activeActorJobCount'');
          Some \<lparr>al_max_usd = mu, al_max_memory = mm, al_max_jobs = mj, al_used_usd = uu,
                al_used_memory = um, al_jobs = uj\<rparr> }"

text \<open>\<^verbatim>\<open>int(math.Round(x * 100))\<close>: half away from zero.\<close>

definition cents :: "rat \<Rightarrow> int" where
  "cents x = (if 0 \<le> x then \<lfloor>x * 100 + 1 / 2\<rfloor> else \<lceil>x * 100 - 1 / 2\<rceil>)"

definition classify_apify :: "apify_limits \<Rightarrow> int \<Rightarrow> quota_info" where
  "classify_apify l memory_mb =
     (let used = cents (al_used_usd l); cap = cents (al_max_usd l);
          remaining = max (wrap64 (cap - used)) 0;
          budget = (0 < remaining \<or> cap = 0);
          requested = rat_of_int memory_mb / 1024;
          memory = (al_used_memory l + requested \<le> al_max_memory l)
      in \<lparr>qi_provider = ''apify'', qi_plan = [],
          qi_error = (if \<not> budget then ''USD budget exhausted'' else if \<not> memory then ''memory limit reached'' else []),
          qi_remaining = remaining, qi_credits = cap, qi_available = (budget \<and> memory)\<rparr>)"

definition parse_apify_limits :: "quota_config \<Rightarrow> http_body \<Rightarrow> quota_info" where
  "parse_apify_limits c body =
     (let no = plain_info ''apify'' False
      in case body of
           BodyUnreadable \<Rightarrow> no ''failed to read response''
         | BodyText t \<Rightarrow> no ''failed to parse response''
         | BodyJson j \<Rightarrow>
             (case dec_apify_limits j of
                None \<Rightarrow> no ''failed to parse response''
              | Some l \<Rightarrow> classify_apify l (qc_apify_memory c)))"

definition check_apify :: "quota_config \<Rightarrow> http_reply \<Rightarrow> quota_info" where
  "check_apify c reply =
     (let no = plain_info ''apify'' False
      in if \<not> has_apify c then no ''Apify not configured''
         else (case reply of
                 RequestNotBuilt err \<Rightarrow> no (''failed to create request: '' @ err)
               | RequestFailed err \<Rightarrow> no (''request failed: '' @ err)
               | Reply st body \<Rightarrow>
                   if is_auth_error st then no ''authentication failed''
                   else if st \<noteq> 200 then no ''API returned another status''
                   else parse_apify_limits c body))"

section \<open>All checks\<close>

text \<open>
  The three network checks run concurrently and store their result under a lock, so a run of
  \<^verbatim>\<open>CheckAll\<close> stores them in some order; \<open>finish\<close> is that order.
\<close>

datatype network_check = CheckAnt | CheckApi | CheckApify

record network_replies =
  nr_ant :: http_reply
  nr_api :: http_reply
  nr_apify :: http_reply

type_synonym quotas = "(string \<times> quota_info) list"

definition put_network :: "quota_config \<Rightarrow> network_replies \<Rightarrow> network_check \<Rightarrow> quotas \<Rightarrow> quotas" where
  "put_network c r k m =
     (case k of
        CheckAnt \<Rightarrow> if has_scraping_ant c then kv_put ''scrapingant'' (check_scraping_ant c (nr_ant r)) m else m
      | CheckApi \<Rightarrow> if has_scraper_api c then kv_put ''scraperapi'' (check_scraper_api c (nr_api r)) m else m
      | CheckApify \<Rightarrow> if has_apify c then kv_put ''apify'' (check_apify c (nr_apify r)) m else m)"

definition put_when :: "bool \<Rightarrow> string \<Rightarrow> quota_info \<Rightarrow> quotas \<Rightarrow> quotas" where
  "put_when b k i m = (if b then kv_put k i m else m)"

definition check_all :: "quota_config \<Rightarrow> network_replies \<Rightarrow> network_check list \<Rightarrow> quotas" where
  "check_all c r finish =
     (let m1 = put_when (has_local_headless c) ''local'' (check_local_headless c) [];
          m2 = put_when (has_local_browserless c) ''local-browserless'' (check_local_browserless c) m1;
          m3 = kv_put ''mobile-ssr'' check_mobile_ssr m2;
          m4 = foldl (\<lambda>m k. put_network c r k m) m3 finish;
          m5 = put_when (has_browserless c) ''browserless'' (check_browserless c) m4
      in put_when (has_browserbase c) ''browserbase'' (check_browserbase c) m5)"

definition has_available_quota :: "quota_config \<Rightarrow> bool" where
  "has_available_quota c =
     (if has_local_headless c \<and> qi_available (check_local_headless c) then True
      else if has_local_browserless c \<and> qi_available (check_local_browserless c) then True
      else qi_available check_mobile_ssr)"

definition has_available_from :: "quotas \<Rightarrow> bool" where
  "has_available_from m = list_ex (\<lambda>kv. qi_available (snd kv)) m"

definition provider_priority :: "string list" where
  "provider_priority =
     [''local'', ''local-browserless'', ''browserbase'', ''scrapingant'', ''scraperapi'', ''apify'', ''browserless'']"

definition is_provider_ready :: "string \<Rightarrow> quota_info \<Rightarrow> bool" where
  "is_provider_ready name q =
     (if \<not> qi_available q then False
      else if name = ''scrapingant'' then 0 < qi_remaining q
      else if name = ''apify'' then qi_credits q = 0 \<or> 0 < qi_remaining q
      else True)"

definition ready_in :: "quotas \<Rightarrow> string \<Rightarrow> bool" where
  "ready_in m name = (case map_of m name of None \<Rightarrow> False | Some q \<Rightarrow> is_provider_ready name q)"

definition best_from :: "quotas \<Rightarrow> string" where
  "best_from m = (case find (ready_in m) provider_priority of None \<Rightarrow> [] | Some name \<Rightarrow> name)"

definition best_provider :: "quota_config \<Rightarrow> network_replies \<Rightarrow> network_check list \<Rightarrow> string" where
  "best_provider c r finish = best_from (check_all c r finish)"

section \<open>What the checks store\<close>

primrec network_name :: "network_check \<Rightarrow> string" where
  "network_name CheckAnt = ''scrapingant''"
| "network_name CheckApi = ''scraperapi''"
| "network_name CheckApify = ''apify''"

primrec network_answer :: "quota_config \<Rightarrow> network_replies \<Rightarrow> network_check \<Rightarrow> quota_info option" where
  "network_answer c r CheckAnt = (if has_scraping_ant c then Some (check_scraping_ant c (nr_ant r)) else None)"
| "network_answer c r CheckApi = (if has_scraper_api c then Some (check_scraper_api c (nr_api r)) else None)"
| "network_answer c r CheckApify = (if has_apify c then Some (check_apify c (nr_apify r)) else None)"

lemma network_name_inj: "network_name j = network_name k \<longleftrightarrow> j = k"
  by (cases j; cases k) simp_all

lemma put_network_answer:
  "put_network c r k m = (case network_answer c r k of None \<Rightarrow> m | Some i \<Rightarrow> kv_put (network_name k) i m)"
  by (cases k) (simp_all add: put_network_def)

lemma map_of_put_networks:
  "k \<in> set finish \<Longrightarrow> map_of (foldl (\<lambda>m k. put_network c r k m) m finish) (network_name k) =
     (case network_answer c r k of None \<Rightarrow> map_of m (network_name k) | Some i \<Rightarrow> Some i)"
  "(\<And>k. name \<noteq> network_name k) \<Longrightarrow> map_of (foldl (\<lambda>m k. put_network c r k m) m finish) name = map_of m name"
proof (induction finish rule: rev_induct)
  case (snoc j finish)
  { case 1
    show ?case
    proof (cases "k \<in> set finish")
      case True
      with snoc(1) show ?thesis
        by (auto simp: put_network_answer network_name_inj split: option.splits)
    next
      case False
      then have "j = k" using 1 by simp
      moreover have "map_of (foldl (\<lambda>m k. put_network c r k m) m finish) (network_name k) = map_of m (network_name k)"
        using False by (induction finish rule: rev_induct)
          (auto simp: put_network_answer network_name_inj split: option.splits)
      ultimately show ?thesis by (simp add: put_network_answer split: option.splits)
    qed
  next
    case 2
    then show ?case using snoc(2) by (auto simp: put_network_answer split: option.splits)
  }
qed simp_all

text \<open>The answer for a provider: that of its check when it is configured.\<close>

definition provider_status :: "quota_config \<Rightarrow> network_replies \<Rightarrow> string \<Rightarrow> quota_info option" where
  "provider_status c r name =
     (let check = (\<lambda>configured info. if configured then Some info else None)
      in if name = ''local'' then check (has_local_headless c) (check_local_headless c)
         else if name = ''local-browserless'' then check (has_local_browserless c) (check_local_browserless c)
         else if name = ''mobile-ssr'' then Some check_mobile_ssr
         else if name = ''scrapingant'' then check (has_scraping_ant c) (check_scraping_ant c (nr_ant r))
         else if name = ''scraperapi'' then check (has_scraper_api c) (check_scraper_api c (nr_api r))
         else if name = ''apify'' then check (has_apify c) (check_apify c (nr_apify r))
         else if name = ''browserless'' then check (has_browserless c) (check_browserless c)
         else if name = ''browserbase'' then check (has_browserbase c) (check_browserbase c)
         else None)"

lemma map_of_put_when: "map_of (put_when b k i m) n = (if b \<and> n = k then Some i else map_of m n)"
  by (simp add: put_when_def)

lemma check_all_status:
  assumes "set finish = {CheckAnt, CheckApi, CheckApify}"
  shows "map_of (check_all c r finish) name = provider_status c r name"
proof (cases "\<exists>k. name = network_name k")
  case True
  then obtain k where k: "name = network_name k" by blast
  moreover have "k \<in> set finish" using assms by (cases k) simp_all
  ultimately show ?thesis
    by (cases k) (simp_all add: check_all_def map_of_put_when provider_status_def Let_def
        map_of_put_networks(1) [where k = CheckAnt, unfolded network_name.simps]
        map_of_put_networks(1) [where k = CheckApi, unfolded network_name.simps]
        map_of_put_networks(1) [where k = CheckApify, unfolded network_name.simps])
next
  case False
  then have "\<And>k. name \<noteq> network_name k" by blast
  note other = this [of CheckAnt] this [of CheckApi] this [of CheckApify] and kept = map_of_put_networks(2) [OF this]
  have "map_of (check_all c r finish) name =
     (if has_browserbase c \<and> name = ''browserbase'' then Some (check_browserbase c)
      else if has_browserless c \<and> name = ''browserless'' then Some (check_browserless c)
      else if name = ''mobile-ssr'' then Some check_mobile_ssr
      else if has_local_browserless c \<and> name = ''local-browserless'' then Some (check_local_browserless c)
      else if has_local_headless c \<and> name = ''local'' then Some (check_local_headless c) else None)"
    unfolding check_all_def Let_def map_of_put_when kept map_of_kv_put fun_upd_apply by simp
  with other show ?thesis by (simp add: provider_status_def Let_def)
qed

lemma best_from_cases:
  "(best_from m = [] \<and> filter (ready_in m) provider_priority = [])
   \<or> (\<exists>pre post. provider_priority = pre @ best_from m # post \<and> ready_in m (best_from m) \<and> filter (ready_in m) pre = []
        \<and> best_from m \<noteq> [])"
proof (cases "find (ready_in m) provider_priority")
  case None
  then have "best_from m = []" by (simp add: best_from_def)
  moreover have "filter (ready_in m) provider_priority = []"
    using None by (simp add: find_None_iff filter_empty_conv)
  ultimately show ?thesis by blast
next
  case (Some name)
  then obtain i where i: "i < length provider_priority" "ready_in m (provider_priority ! i)" "name = provider_priority ! i"
    "\<And>j. j < i \<Longrightarrow> \<not> ready_in m (provider_priority ! j)" by (auto simp: find_Some_iff)
  have "provider_priority = take i provider_priority @ name # drop (Suc i) provider_priority"
    using i(1,3) by (simp add: id_take_nth_drop)
  moreover have "filter (ready_in m) (take i provider_priority) = []"
    using i(1,4) by (auto simp: filter_empty_conv in_set_conv_nth)
  moreover have "[] \<notin> set provider_priority" by (simp add: provider_priority_def)
  then have "name \<noteq> []" using i(1,3) by (metis nth_mem)
  moreover have "best_from m = name" using Some by (simp add: best_from_def)
  ultimately show ?thesis using i(2,3) by (intro disjI2 exI [of _ "take i provider_priority"] exI [of _ "drop (Suc i) provider_priority"]) simp
qed

section \<open>Properties\<close>

text \<open>
  C38. The quota overview does not depend on the order in which the concurrent network checks finish,
  and always offers something: every provider has exactly the answer of its check, unconfigured
  ones none; some provider is always available; and the best provider is the first of the
  priority list whose answer makes it ready, none exactly when no answer does.
\<close>

theorem quota_overview:
  assumes "set finish = {CheckAnt, CheckApi, CheckApify}"
  shows "map_of (check_all c r finish) = provider_status c r
    \<and> has_available_from (check_all c r finish) \<and> has_available_quota c
    \<and> (let ready = (\<lambda>name. case provider_status c r name of None \<Rightarrow> False | Some q \<Rightarrow> is_provider_ready name q);
           best = best_provider c r finish
       in (best = [] \<and> filter ready provider_priority = [])
        \<or> (\<exists>pre post. provider_priority = pre @ best # post \<and> ready best \<and> filter ready pre = [] \<and> best \<noteq> []))"
proof (intro conjI)
  show status: "map_of (check_all c r finish) = provider_status c r"
    using check_all_status [OF assms] by blast
  have "provider_status c r ''mobile-ssr'' = Some check_mobile_ssr" by (simp add: provider_status_def)
  then have "map_of (check_all c r finish) ''mobile-ssr'' = Some check_mobile_ssr" by (simp only: status)
  from map_of_SomeD [OF this] show "has_available_from (check_all c r finish)"
    by (force simp: has_available_from_def list_ex_iff check_mobile_ssr_def plain_info_def)
  show "has_available_quota c" by (simp add: has_available_quota_def check_mobile_ssr_def plain_info_def)
  have "ready_in (check_all c r finish) =
      (\<lambda>name. case provider_status c r name of None \<Rightarrow> False | Some q \<Rightarrow> is_provider_ready name q)"
    by (simp add: fun_eq_iff ready_in_def status)
  then show "let ready = (\<lambda>name. case provider_status c r name of None \<Rightarrow> False | Some q \<Rightarrow> is_provider_ready name q);
           best = best_provider c r finish
       in (best = [] \<and> filter ready provider_priority = [])
        \<or> (\<exists>pre post. provider_priority = pre @ best # post \<and> ready best \<and> filter ready pre = [] \<and> best \<noteq> [])"
    using best_from_cases [of "check_all c r finish"] unfolding best_provider_def Let_def by simp
qed

definition sample_config :: quota_config where
  "sample_config = \<lparr>qc_local = False, qc_local_browserless = True, qc_local_endpoint = '' '', qc_browserless_token = [],
     qc_browserless_endpoint = [], qc_browserbase_key = [], qc_ant_token = ''t'', qc_ant_endpoint = ''e'',
     qc_api_token = ''t'', qc_api_endpoint = ''e'', qc_apify_token = ''t'', qc_apify_endpoint = ''e'',
     qc_apify_actor = ''a'', qc_apify_memory = 512\<rparr>"

definition sample_replies :: network_replies where
  "sample_replies = \<lparr>nr_ant = Reply 200 (BodyJson (JObj [(''plan_total_credits'', JInt 10000), (''remained_credits'', JInt 9)])),
     nr_api = Reply 403 (BodyText ''forbidden''),
     nr_apify = Reply 200 (BodyJson (JObj [(''data'', JObj [(''limits'', JObj [(''maxMonthlyUsageUsd'', JInt 5), (''maxActorMemoryGbytes'', JInt 8)]),
        (''current'', JObj [(''monthlyUsageUsd'', JInt 4)])])]))\<rparr>"

theorem quota_overview_witness:
  "best_provider sample_config sample_replies [CheckApify, CheckApi, CheckAnt] = ''apify''
   \<and> map_of (check_all sample_config sample_replies [CheckApi, CheckApify, CheckAnt])
     = map_of (check_all sample_config sample_replies [CheckApify, CheckApi, CheckAnt])"
proof -
  have "set [CheckApi, CheckApify, CheckAnt] = {CheckAnt, CheckApi, CheckApify}"
    "set [CheckApify, CheckApi, CheckAnt] = {CheckAnt, CheckApi, CheckApify}" by auto
  note all = this [THEN quota_overview, THEN conjunct1, of sample_config sample_replies]
  have "best_provider sample_config sample_replies [CheckApify, CheckApi, CheckAnt] = ''apify''" by code_simp
  with all show ?thesis by simp
qed

definition unanswered :: "http_reply \<Rightarrow> bool" where
  "unanswered reply =
     (case reply of
        RequestNotBuilt err \<Rightarrow> True | RequestFailed err \<Rightarrow> True
      | Reply st body \<Rightarrow> st \<noteq> 200 \<or> (case body of BodyJson j \<Rightarrow> False | _ \<Rightarrow> True))"

definition rejected :: "http_reply \<Rightarrow> bool" where
  "rejected reply = (case reply of Reply st body \<Rightarrow> is_auth_error st | _ \<Rightarrow> False)"

text \<open>
  How the network checks fail: without a readable answer a configured ScrapingAnt or Apify counts
  as unavailable and a configured ScraperAPI as available, except that a rejected token makes all
  three unavailable; an available answer of a metered provider leaves credit for a request, and
  for Apify also room for the memory of the next run.
\<close>

theorem network_check_verdicts:
  assumes "has_scraping_ant c" and "has_scraper_api c" and "has_apify c"
  shows "(unanswered reply \<longrightarrow> \<not> qi_available (check_scraping_ant c reply) \<and> \<not> qi_available (check_apify c reply)
        \<and> qi_available (check_scraper_api c reply) = (\<not> rejected reply))
    \<and> (qi_available (check_scraping_ant c reply) \<longrightarrow> 10 \<le> qi_remaining (check_scraping_ant c reply))
    \<and> (qi_available (check_scraper_api c reply) \<longrightarrow>
         0 \<le> qi_remaining (check_scraper_api c reply)
       \<and> (0 < qi_remaining (check_scraper_api c reply) \<or> qi_credits (check_scraper_api c reply) = 0))
    \<and> (qi_available (check_apify c reply) \<longrightarrow>
         (\<exists>j l. reply = Reply 200 (BodyJson j) \<and> dec_apify_limits j = Some l
           \<and> al_used_memory l + rat_of_int (qc_apify_memory c) / 1024 \<le> al_max_memory l
           \<and> (0 < qi_remaining (check_apify c reply) \<or> qi_credits (check_apify c reply) = 0)))"
proof (cases reply)
  case (Reply st body)
  with assms show ?thesis
    by (cases body)
      (auto simp: unanswered_def rejected_def check_scraping_ant_def check_scraper_api_def check_apify_def
        parse_scraper_api_def parse_apify_limits_def classify_apify_def plain_info_def is_auth_error_def Let_def
        split: option.splits)
qed (use assms in \<open>simp_all add: unanswered_def rejected_def check_scraping_ant_def check_scraper_api_def
      check_apify_def plain_info_def Let_def\<close>)

theorem network_check_verdicts_witness:
  "\<not> qi_available (check_apify sample_config (RequestFailed ''timeout''))
   \<and> qi_available (check_scraper_api sample_config (RequestFailed ''timeout''))"
proof -
  have "has_scraping_ant sample_config" "has_scraper_api sample_config" "has_apify sample_config"
    "unanswered (RequestFailed ''timeout'')" "\<not> rejected (RequestFailed ''timeout'')" by code_simp+
  with network_check_verdicts [of sample_config "RequestFailed ''timeout''"] show ?thesis by blast
qed

text \<open>
  A ScraperAPI account endpoint that answers 403 makes the provider unavailable, although the
  comment of the check announces the assumption of availability for that status; an Apify run that
  would fill the memory exactly is allowed, although the comment asks for strictly less.
\<close>

theorem quota_comments_contradicted:
  "\<not> qi_available (check_scraper_api sample_config (Reply 403 (BodyText ''forbidden'')))
   \<and> qi_available (check_scraper_api sample_config (Reply 400 (BodyText ''bad request'')))
   \<and> qi_available (classify_apify \<lparr>al_max_usd = 5, al_max_memory = 8, al_max_jobs = 0, al_used_usd = 0,
        al_used_memory = 7, al_jobs = 0\<rparr> 1024)"
  by code_simp

end
