(* ===== verification/Saga_Orchestrator.thy ===== *)
theory Saga_Orchestrator
  imports Scrape_Job_Lifecycle Command_Log
begin

text \<open>
  The saga orchestrator (\<^verbatim>\<open>internal/saga/orchestrator.go\<close>): a table of saga instances, one per scrape
  request, that every tick derives anew from the \<^verbatim>\<open>scrape_jobs\<close> rows and the job streams. Tables are
  lists of rows in rowid order. Each call of the database takes the next failure of a script, each
  reading of the clock the next instant of \<open>clock\<close>; the stored instants have a fixed width and are
  kept as milliseconds. The column \<^verbatim>\<open>created_at\<close>, which no query reads, is left out.
\<close>

section \<open>States\<close>

definition saga_requested :: string where "saga_requested = ''requested''"
definition saga_processing :: string where "saga_processing = ''processing''"
definition saga_failed :: string where "saga_failed = ''failed''"
definition saga_done :: string where "saga_done = ''done''"
definition saga_dead :: string where "saga_dead = ''dead''"

lemmas saga_states = saga_requested_def saga_processing_def saga_failed_def saga_done_def saga_dead_def

definition terminal_states :: "string list" where "terminal_states = [saga_done, saga_dead]"

definition live_scan_limit :: nat where "live_scan_limit = 200"
definition refresh_limit :: nat where "refresh_limit = 500"
definition terminal_retention :: time where "terminal_retention = 7 * 24 * 3600 * second"

definition derive_state :: "job option \<Rightarrow> string" where
  "derive_state jo =
     (case jo of
        None \<Rightarrow> saga_requested
      | Some j \<Rightarrow>
          if job_is_terminal j \<and> jb_status j = st_succeeded then saga_done
          else if job_is_terminal j then saga_dead
          else if jb_status j = st_failed then saga_failed
          else if jb_status j = st_processing then saga_processing
          else saga_requested)"

definition failed_reason :: "event \<Rightarrow> string" where
  "failed_reason e = (case decode_event dec_job_failed e of Inl err \<Rightarrow> [] | Inr pl \<Rightarrow> jf_error pl)"

section \<open>Tables\<close>

record job_row =
  sj_request :: string
  sj_artist :: string
  sj_status :: string
  sj_error :: string
  sj_queued :: string

record saga_instance =
  si_artist :: string
  si_state :: string
  si_attempts :: int
  si_last :: string
  si_error :: string
  si_updated :: int

record 's saga_world =
  sw_jobs :: "job_row list"
  sw_instances :: "(string \<times> saga_instance) list"
  sw_faults :: "fault list"
  sw_reads :: nat
  sw_store :: 's

definition db_turn :: "'s saga_world \<Rightarrow> fault \<times> 's saga_world" where
  "db_turn w = (case sw_faults w of [] \<Rightarrow> (None, w) | f # fs \<Rightarrow> (f, w\<lparr>sw_faults := fs\<rparr>))"

definition read_clock :: "(nat \<Rightarrow> time) \<Rightarrow> 's saga_world \<Rightarrow> time \<times> 's saga_world" where
  "read_clock clock w = (clock (sw_reads w), w\<lparr>sw_reads := Suc (sw_reads w)\<rparr>)"

section \<open>Refreshing one instance\<close>

definition job_row_state :: "string \<Rightarrow> 's saga_world \<Rightarrow> (string \<times> string) option res \<times> 's saga_world" where
  "job_row_state rid w =
     (case db_turn w of
        (Some err, w1) \<Rightarrow> (Fail (Errorf ''reading job row'' [err]), w1)
      | (None, w1) \<Rightarrow>
          (Ok (map_option (\<lambda>r. (sj_status r, sj_error r)) (find (\<lambda>r. sj_request r = rid) (sw_jobs w1))), w1))"

text \<open>State, last event type and failure of a request without a stream, from its row.\<close>

definition orphan_verdict :: "(string \<times> string) option \<Rightarrow> string \<times> string \<times> string" where
  "orphan_verdict row =
     (case row of
        None \<Rightarrow> (saga_dead, [], ''orphaned: no event stream and no scrape_jobs row'')
      | Some (status, err) \<Rightarrow>
          if status = st_succeeded then (saga_done, [], [])
          else if status = st_failed
          then (saga_failed, [], if trim_space err = [] then ''failed without an event stream'' else trim_space err)
          else (derive_state None, [], []))"

definition upsert_instance ::
    "(nat \<Rightarrow> time) \<Rightarrow> string \<Rightarrow> string \<Rightarrow> string \<Rightarrow> int \<Rightarrow> string \<Rightarrow> string \<Rightarrow> 's saga_world
     \<Rightarrow> unit res \<times> 's saga_world" where
  "upsert_instance clock rid artist state attempts last_ev failure w =
     (let (now, w1) = read_clock clock w
      in case db_turn w1 of
           (Some err, w2) \<Rightarrow> (Fail err, w2)
         | (None, w2) \<Rightarrow>
             (Ok (), w2\<lparr>sw_instances := kv_put rid
                \<lparr>si_artist = artist, si_state = state, si_attempts = attempts, si_last = last_ev,
                 si_error = failure, si_updated = stamp_millis now\<rparr> (sw_instances w2)\<rparr>))"

definition refresh_instance ::
    "'s load_op \<Rightarrow> (nat \<Rightarrow> time) \<Rightarrow> string \<Rightarrow> string \<Rightarrow> 's saga_world \<Rightarrow> unit res \<times> 's saga_world" where
  "refresh_instance load clock request artist w =
     (let rid = trim_space request
      in if rid = [] then (Ok (), w)
         else (case load (sw_store w) rid of
                 (Inl err, st) \<Rightarrow> (Fail (Errorf ''loading job stream'' [err]), w\<lparr>sw_store := st\<rparr>)
               | (Inr es, st) \<Rightarrow>
                   (let w1 = w\<lparr>sw_store := st\<rparr>
                    in if es \<noteq> [] then
                         (case job_replay rid es of
                            Inl err \<Rightarrow> (Fail (Errorf ''replaying job stream'' [err]), w1)
                          | Inr j \<Rightarrow>
                              upsert_instance clock rid artist (derive_state (Some j)) (jb_attempts j)
                                (ev_type (last es))
                                (if ev_type (last es) = ev_failed then failed_reason (last es) else []) w1)
                       else
                         (case job_row_state rid w1 of
                            (Inl err, w2) \<Rightarrow> (Fail err, w2)
                          | (Inr row, w2) \<Rightarrow>
                              (let (state, last_ev, failure) = orphan_verdict row
                               in upsert_instance clock rid artist state 0 last_ev failure w2)))))"

section \<open>The tick\<close>

text \<open>The loop both passes share; \<open>n\<close> counts the refreshed instances.\<close>

fun refresh_rows ::
    "'s load_op \<Rightarrow> ('s \<Rightarrow> gerr option) \<Rightarrow> (nat \<Rightarrow> time) \<Rightarrow> (string \<times> string) list \<Rightarrow> int \<Rightarrow> 's saga_world
     \<Rightarrow> (int \<times> gerr option) \<times> 's saga_world" where
  "refresh_rows load ctx clock [] n w = ((n, None), w)"
| "refresh_rows load ctx clock ((rid, artist) # rows) n w =
     (case ctx (sw_store w) of
        Some err \<Rightarrow> ((n, Some err), w)
      | None \<Rightarrow>
          (case refresh_instance load clock rid artist w of
             (Inl err, w1) \<Rightarrow> refresh_rows load ctx clock rows n w1
           | (Inr _, w1) \<Rightarrow> refresh_rows load ctx clock rows (n + 1) w1))"

text \<open>\<^verbatim>\<open>ORDER BY queued_at DESC\<close>, rows of one instant in rowid order.\<close>

definition live_rows :: "job_row list \<Rightarrow> (string \<times> string) list" where
  "live_rows rows =
     map (\<lambda>r. (sj_request r, sj_artist r))
       (take live_scan_limit
          (rev (sort_key sj_queued
             (rev (filter (\<lambda>r. sj_status r \<in> {st_queued, st_processing, st_failed}) rows)))))"

definition open_rows :: "(string \<times> saga_instance) list \<Rightarrow> (string \<times> string) list" where
  "open_rows ins =
     map (\<lambda>r. (fst r, si_artist (snd r)))
       (take refresh_limit (filter (\<lambda>r. si_state (snd r) \<notin> {saga_done, saga_dead}) ins))"

definition refresh_live_rows ::
    "'s load_op \<Rightarrow> ('s \<Rightarrow> gerr option) \<Rightarrow> (nat \<Rightarrow> time) \<Rightarrow> 's saga_world \<Rightarrow> (int \<times> gerr option) \<times> 's saga_world" where
  "refresh_live_rows load ctx clock w =
     (case db_turn w of
        (Some err, w1) \<Rightarrow> ((0, Some err), w1)
      | (None, w1) \<Rightarrow> refresh_rows load ctx clock (live_rows (sw_jobs w1)) 0 w1)"

definition refresh_open_instances ::
    "'s load_op \<Rightarrow> ('s \<Rightarrow> gerr option) \<Rightarrow> (nat \<Rightarrow> time) \<Rightarrow> 's saga_world \<Rightarrow> (int \<times> gerr option) \<times> 's saga_world" where
  "refresh_open_instances load ctx clock w =
     (case db_turn w of
        (Some err, w1) \<Rightarrow> ((0, Some err), w1)
      | (None, w1) \<Rightarrow> refresh_rows load ctx clock (open_rows (sw_instances w1)) 0 w1)"

definition prune_terminal :: "(nat \<Rightarrow> time) \<Rightarrow> 's saga_world \<Rightarrow> 's saga_world" where
  "prune_terminal clock w =
     (let (now, w1) = read_clock clock w; cutoff = stamp_millis (now - terminal_retention)
      in case db_turn w1 of
           (Some err, w2) \<Rightarrow> w2
         | (None, w2) \<Rightarrow>
             w2\<lparr>sw_instances := filter (\<lambda>r. \<not> (si_state (snd r) \<in> {saga_done, saga_dead} \<and> si_updated (snd r) < cutoff))
                                 (sw_instances w2)\<rparr>)"

definition saga_tick ::
    "'s load_op \<Rightarrow> ('s \<Rightarrow> gerr option) \<Rightarrow> (nat \<Rightarrow> time) \<Rightarrow> 's saga_world \<Rightarrow> (int \<times> gerr option) \<times> 's saga_world" where
  "saga_tick load ctx clock w =
     (case refresh_live_rows load ctx clock w of
        ((n, Some err), w1) \<Rightarrow> ((n, Some err), w1)
      | ((n, None), w1) \<Rightarrow>
          (case refresh_open_instances load ctx clock w1 of
             ((m, Some err), w2) \<Rightarrow> ((n + m, Some err), w2)
           | ((m, None), w2) \<Rightarrow> ((n + m, None), prune_terminal clock w2)))"

text \<open>\<^verbatim>\<open>Run\<close>: the first tick, then one for each tick of the timer until the context ends.\<close>

fun saga_ticks ::
    "'s load_op \<Rightarrow> ('s \<Rightarrow> gerr option) \<Rightarrow> (nat \<Rightarrow> time) \<Rightarrow> nat \<Rightarrow> 's saga_world \<Rightarrow> 's saga_world" where
  "saga_ticks load ctx clock 0 w = w"
| "saga_ticks load ctx clock (Suc k) w = saga_ticks load ctx clock k (snd (saga_tick load ctx clock w))"

definition saga_run ::
    "'s load_op \<Rightarrow> ('s \<Rightarrow> gerr option) \<Rightarrow> (nat \<Rightarrow> time) \<Rightarrow> nat \<Rightarrow> 's saga_world \<Rightarrow> 's saga_world" where
  "saga_run load ctx clock ticks w = saga_ticks load ctx clock ticks (snd (saga_tick load ctx clock w))"

end
