(* ===== verification/Saga_Properties.thy ===== *)
theory Saga_Properties
  imports Saga_Orchestrator
begin

text \<open>
  What a tick of the saga orchestrator achieves: the instances agree with the job streams and rows.
  The event log is read through the interface \<open>steady_store\<close>, which the SQLite store provides while
  nothing else happens to it.
\<close>

section \<open>Worlds\<close>

definition carries :: "(string \<times> int \<times> string \<times> string) \<Rightarrow> saga_instance \<Rightarrow> bool" where
  "carries v i \<longleftrightarrow> v = (si_state i, si_attempts i, si_last i, si_error i)"

text \<open>What a pass keeps of the world.\<close>

definition same_sources :: "'s saga_world \<Rightarrow> 's saga_world \<Rightarrow> bool" where
  "same_sources w w' \<longleftrightarrow> sw_store w' = sw_store w \<and> sw_jobs w' = sw_jobs w \<and> sw_faults w' = sw_faults w"

definition tracked :: "'s saga_world \<Rightarrow> string \<Rightarrow> bool" where
  "tracked w x \<longleftrightarrow>
     x \<in> sj_request ` {r \<in> set (sw_jobs w). sj_status r \<in> {st_queued, st_processing, st_failed}}
   \<or> (\<exists>i. map_of (sw_instances w) x = Some i \<and> si_state i \<notin> {saga_done, saga_dead})"

definition within_limits :: "'s saga_world \<Rightarrow> bool" where
  "within_limits w \<longleftrightarrow>
     length (filter (\<lambda>r. sj_status r \<in> {st_queued, st_processing, st_failed}) (sw_jobs w)) \<le> live_scan_limit
   \<and> length (sw_instances w)
     + length (filter (\<lambda>r. sj_status r \<in> {st_queued, st_processing, st_failed}) (sw_jobs w)) \<le> refresh_limit"

definition ids_ok :: "'s saga_world \<Rightarrow> bool" where
  "ids_ok w \<longleftrightarrow>
     (\<forall>r\<in>set (sw_jobs w). trim_space (sj_request r) = sj_request r \<and> sj_request r \<noteq> [])
   \<and> (\<forall>k\<in>fst ` set (sw_instances w). trim_space k = k \<and> k \<noteq> [])
   \<and> distinct (map fst (sw_instances w))"

section \<open>Reading without disturbance\<close>

locale steady_store =
  fixes load :: "'s load_op"
    and loaded :: "'s \<Rightarrow> string \<Rightarrow> event list"
    and steady :: "'s \<Rightarrow> bool"
  assumes steady_load: "steady s \<Longrightarrow> load s i = (Ok (loaded s i), s)"
begin

text \<open>The verdict on a request: state, attempts, last event type and failure; none if its replay fails.\<close>

definition verdict :: "'s \<Rightarrow> job_row list \<Rightarrow> string \<Rightarrow> (string \<times> int \<times> string \<times> string) option" where
  "verdict s jobs rid =
     (let es = loaded s rid
      in if es \<noteq> [] then
           (case job_replay rid es of
              Inl err \<Rightarrow> None
            | Inr j \<Rightarrow> Some (derive_state (Some j), jb_attempts j, ev_type (last es),
                             if ev_type (last es) = ev_failed then failed_reason (last es) else []))
         else (let (state, last_ev, failure) =
                 orphan_verdict (map_option (\<lambda>r. (sj_status r, sj_error r)) (find (\<lambda>r. sj_request r = rid) jobs))
               in Some (state, 0, last_ev, failure)))"

definition quiet :: "'s saga_world \<Rightarrow> bool" where
  "quiet w \<longleftrightarrow> steady (sw_store w) \<and> sw_faults w = []"

lemma refresh_instance_quiet:
  assumes "quiet w" and "trim_space rid = rid" and "rid \<noteq> []"
  shows "case verdict (sw_store w) (sw_jobs w) rid of
      None \<Rightarrow> \<exists>err. refresh_instance load clock rid artist w = (Fail err, w)
    | Some v \<Rightarrow> \<exists>i. refresh_instance load clock rid artist w =
          (Ok (), w\<lparr>sw_instances := kv_put rid i (sw_instances w), sw_reads := Suc (sw_reads w)\<rparr>)
        \<and> carries v i \<and> si_updated i = stamp_millis (clock (sw_reads w)) \<and> si_artist i = artist"
proof -
  let ?es = "loaded (sw_store w) rid"
  have ld: "load (sw_store w) rid = (Ok ?es, sw_store w)" and f: "sw_faults w = []"
    using assms(1) steady_load by (auto simp: quiet_def)
  have up: "upsert_instance clock rid artist st n l x w =
      (Ok (), w\<lparr>sw_instances := kv_put rid \<lparr>si_artist = artist, si_state = st, si_attempts = n, si_last = l,
         si_error = x, si_updated = stamp_millis (clock (sw_reads w))\<rparr> (sw_instances w), sw_reads := Suc (sw_reads w)\<rparr>)"
    for st n l x
    using f by (simp add: upsert_instance_def read_clock_def db_turn_def)
  show ?thesis
  proof (cases "?es = []")
    case True
    then show ?thesis
      using f assms(2,3) ld
      by (auto simp: refresh_instance_def verdict_def job_row_state_def db_turn_def up carries_def Let_def
          split: prod.splits)
  next
    case False
    then show ?thesis
      using assms(2,3) ld
      by (cases "job_replay rid ?es") (auto simp: refresh_instance_def verdict_def up carries_def Let_def)
  qed
qed

text \<open>What a pass over the given requests does to the instance of a request.\<close>

definition settled :: "(nat \<Rightarrow> time) \<Rightarrow> 's saga_world \<Rightarrow> 's saga_world \<Rightarrow> string set \<Rightarrow> string \<Rightarrow> bool" where
  "settled clock w w' rids x \<longleftrightarrow>
     (case verdict (sw_store w) (sw_jobs w) x of
        None \<Rightarrow> map_of (sw_instances w') x = map_of (sw_instances w) x
      | Some v \<Rightarrow>
          if x \<in> rids
          then \<exists>i k. map_of (sw_instances w') x = Some i \<and> carries v i \<and> si_updated i = stamp_millis (clock k)
          else map_of (sw_instances w') x = map_of (sw_instances w) x)"

lemma refresh_rows_quiet:
  assumes "quiet w" and "\<forall>r\<in>set rows. trim_space (fst r) = fst r \<and> fst r \<noteq> []"
    and "refresh_rows load (\<lambda>s. None) clock rows n w = (r, w')"
  shows "snd r = None \<and> same_sources w w'
    \<and> length (sw_instances w') \<le> length (sw_instances w) + length rows
    \<and> (distinct (map fst (sw_instances w)) \<longrightarrow> distinct (map fst (sw_instances w')))
    \<and> (\<forall>x. settled clock w w' (fst ` set rows) x)"
  using assms
proof (induction rows arbitrary: n w)
  case Nil
  then show ?case by (auto simp: same_sources_def settled_def split: option.splits)
next
  case (Cons row rows)
  obtain rid artist where row: "row = (rid, artist)" by (cases row)
  have ok: "trim_space rid = rid" "rid \<noteq> []" using Cons.prems(2) by (auto simp: row)
  note one = refresh_instance_quiet [OF Cons.prems(1) ok, of clock artist]
  show ?case
  proof (cases "verdict (sw_store w) (sw_jobs w) rid")
    case None
    with one obtain err where "refresh_instance load clock rid artist w = (Fail err, w)" by auto
    with Cons.prems(3) have run: "refresh_rows load (\<lambda>s. None) clock rows n w = (r, w')" by (simp add: row)
    from Cons.IH [OF Cons.prems(1) _ run] Cons.prems(2)
    have rest: "snd r = None \<and> same_sources w w' \<and> length (sw_instances w') \<le> length (sw_instances w) + length rows
        \<and> (distinct (map fst (sw_instances w)) \<longrightarrow> distinct (map fst (sw_instances w')))"
      "\<forall>x. settled clock w w' (fst ` set rows) x" by simp_all
    have "settled clock w w' (fst ` set (row # rows)) x" for x
      using rest(2) [rule_format, of x] None unfolding settled_def
      by (cases "x = rid") (auto simp: row split: option.splits if_splits)
    moreover have "length (sw_instances w') \<le> length (sw_instances w) + length (row # rows)"
      using rest(1) by simp
    ultimately show ?thesis using rest(1) by blast
  next
    case (Some v)
    with one obtain i where i: "refresh_instance load clock rid artist w =
        (Ok (), w\<lparr>sw_instances := kv_put rid i (sw_instances w), sw_reads := Suc (sw_reads w)\<rparr>)"
      "carries v i" "si_updated i = stamp_millis (clock (sw_reads w))" by auto
    let ?w1 = "w\<lparr>sw_instances := kv_put rid i (sw_instances w), sw_reads := Suc (sw_reads w)\<rparr>"
    from Cons.prems(3) i(1) have run: "refresh_rows load (\<lambda>s. None) clock rows (n + 1) ?w1 = (r, w')"
      by (simp add: row)
    have q: "quiet ?w1" using Cons.prems(1) by (simp add: quiet_def)
    have len: "length (kv_put rid i m) \<le> Suc (length m)" for m :: "(string \<times> saga_instance) list"
      by (induction m) auto
    from Cons.IH [OF q _ run] Cons.prems(2)
    have rest: "snd r = None" "same_sources ?w1 w'"
      "length (sw_instances w') \<le> length (sw_instances ?w1) + length rows"
      "distinct (map fst (sw_instances ?w1)) \<longrightarrow> distinct (map fst (sw_instances w'))"
      "\<forall>x. settled clock ?w1 w' (fst ` set rows) x"
      by simp_all
    have "settled clock w w' (fst ` set (row # rows)) x" for x
      using rest(5) [rule_format, of x] Some i(2,3) unfolding settled_def
      by (cases "x = rid") (auto simp: row split: option.splits if_splits)
    moreover have "length (sw_instances w') \<le> length (sw_instances w) + length (row # rows)"
      using rest(3) len [of "sw_instances w"] by simp
    moreover have "same_sources w w'" using rest(2) by (simp add: same_sources_def)
    moreover have "distinct (map fst (sw_instances w)) \<longrightarrow> distinct (map fst (sw_instances w'))"
      using rest(4) distinct_kv_put [of "sw_instances w" rid i] by simp
    ultimately show ?thesis using rest(1) by blast
  qed
qed


text \<open>The rows of both passes.\<close>

lemma live_rows_set:
  assumes "length (filter (\<lambda>r. sj_status r \<in> {st_queued, st_processing, st_failed}) jobs) \<le> live_scan_limit"
  shows "set (live_rows jobs) =
    (\<lambda>r. (sj_request r, sj_artist r)) ` {r \<in> set jobs. sj_status r \<in> {st_queued, st_processing, st_failed}}"
    "length (live_rows jobs) = length (filter (\<lambda>r. sj_status r \<in> {st_queued, st_processing, st_failed}) jobs)"
  using assms by (simp_all add: live_rows_def)

lemma open_rows_set:
  "length ins \<le> refresh_limit \<Longrightarrow>
     set (open_rows ins) = (\<lambda>r. (fst r, si_artist (snd r))) ` {r \<in> set ins. si_state (snd r) \<notin> {saga_done, saga_dead}}"
proof -
  assume "length ins \<le> refresh_limit"
  then have "take refresh_limit (filter (\<lambda>r. si_state (snd r) \<notin> {saga_done, saga_dead}) ins)
      = filter (\<lambda>r. si_state (snd r) \<notin> {saga_done, saga_dead}) ins"
    by (intro take_all) (rule order_trans [OF length_filter_le])
  then show ?thesis by (simp only: open_rows_def set_map set_filter)
qed

lemma map_of_filter_distinct:
  "distinct (map fst m) \<Longrightarrow> map_of (filter P m) x =
     (case map_of m x of None \<Rightarrow> None | Some v \<Rightarrow> if P (x, v) then Some v else None)"
proof (induction m)
  case (Cons kv m)
  have "map_of (filter P m) (fst kv) = None" using Cons.prems by (auto simp: map_of_eq_None_iff)
  with Cons show ?case by (cases kv) auto
qed simp

text \<open>The instance of a request after both passes, before pruning.\<close>

lemma both_passes:
  assumes "quiet w" and "\<forall>r\<in>set live. trim_space (fst r) = fst r \<and> fst r \<noteq> []"
    and "\<forall>k\<in>fst ` set (sw_instances w). trim_space k = k \<and> k \<noteq> []"
    and "distinct (map fst (sw_instances w))" and "length (sw_instances w) + length live \<le> refresh_limit"
    and "refresh_rows load (\<lambda>s. None) clock live 0 w = (r1, w1)"
    and "refresh_rows load (\<lambda>s. None) clock (open_rows (sw_instances w1)) 0 w1 = (r2, w2)"
  shows "snd r1 = None \<and> snd r2 = None \<and> same_sources w w2 \<and> distinct (map fst (sw_instances w2))
    \<and> (\<forall>x. case verdict (sw_store w) (sw_jobs w) x of
          None \<Rightarrow> map_of (sw_instances w2) x = map_of (sw_instances w) x
        | Some v \<Rightarrow>
            if x \<in> fst ` set live \<or> (\<exists>i. map_of (sw_instances w) x = Some i \<and> si_state i \<notin> {saga_done, saga_dead})
            then \<exists>i k. map_of (sw_instances w2) x = Some i \<and> carries v i \<and> si_updated i = stamp_millis (clock k)
            else map_of (sw_instances w2) x = map_of (sw_instances w) x)"
proof -
  note one = refresh_rows_quiet [OF assms(1,2,6)]
  have d1: "distinct (map fst (sw_instances w1))" and len: "length (sw_instances w1) \<le> refresh_limit"
    and same: "sw_store w1 = sw_store w" "sw_jobs w1 = sw_jobs w" "sw_faults w1 = sw_faults w"
    using one assms(4,5) by (auto simp: same_sources_def)
  have set1: "settled clock w w1 (fst ` set live) x" for x using one by blast
  have keys: "k \<in> fst ` set live \<or> k \<in> fst ` set (sw_instances w)" if "map_of (sw_instances w1) k \<noteq> None" for k
  proof (rule ccontr)
    assume no: "\<not> (k \<in> fst ` set live \<or> k \<in> fst ` set (sw_instances w))"
    then have "map_of (sw_instances w) k = None" by (simp add: map_of_eq_None_iff)
    with set1 [of k] no that show False unfolding settled_def by (simp split: option.splits)
  qed
  have q1: "quiet w1" using assms(1) same by (simp add: quiet_def)
  have "\<forall>r\<in>set (open_rows (sw_instances w1)). trim_space (fst r) = fst r \<and> fst r \<noteq> []"
  proof
    fix r
    assume "r \<in> set (open_rows (sw_instances w1))"
    then obtain kv where kv: "r = (fst kv, si_artist (snd kv))" "kv \<in> set (sw_instances w1)"
      unfolding open_rows_set [OF len] by blast
    have "fst kv \<in> fst ` set (sw_instances w1)" using kv(2) by (rule imageI)
    then have "fst r \<in> fst ` set (sw_instances w1)" unfolding kv(1) by simp
    then have "map_of (sw_instances w1) (fst r) \<noteq> None" by (simp add: map_of_eq_None_iff)
    from keys [OF this] show "trim_space (fst r) = fst r \<and> fst r \<noteq> []"
    proof
      assume "fst r \<in> fst ` set live"
      with assms(2) show ?thesis by (elim imageE) simp
    next
      assume "fst r \<in> fst ` set (sw_instances w)"
      with assms(3) show ?thesis by (rule bspec)
    qed
  qed
  note two = refresh_rows_quiet [OF q1 this assms(7)]
  have set2: "settled clock w1 w2 (fst ` set (open_rows (sw_instances w1))) x" for x using two by blast
  have open1: "x \<in> fst ` set (open_rows (sw_instances w1)) \<longleftrightarrow>
      (\<exists>i. map_of (sw_instances w1) x = Some i \<and> si_state i \<notin> {saga_done, saga_dead})" for x
    unfolding open_rows_set [OF len] using d1 by (force simp: image_iff)
  have "case verdict (sw_store w) (sw_jobs w) x of
          None \<Rightarrow> map_of (sw_instances w2) x = map_of (sw_instances w) x
        | Some v \<Rightarrow>
            if x \<in> fst ` set live \<or> (\<exists>i. map_of (sw_instances w) x = Some i \<and> si_state i \<notin> {saga_done, saga_dead})
            then \<exists>i k. map_of (sw_instances w2) x = Some i \<and> carries v i \<and> si_updated i = stamp_millis (clock k)
            else map_of (sw_instances w2) x = map_of (sw_instances w) x" for x
  proof (cases "verdict (sw_store w) (sw_jobs w) x")
    case None
    then show ?thesis using set1 [of x] set2 [of x] same unfolding settled_def by simp
  next
    case (Some v)
    then show ?thesis
      using set1 [of x] set2 [of x] same open1 [of x] unfolding settled_def
      by (cases "x \<in> fst ` set live") (auto split: if_splits)
  qed
  with one two d1 same show ?thesis by (auto simp: same_sources_def)
qed


lemma prune_settled:
  assumes "sw_faults w = []" and "distinct (map fst (sw_instances w))"
  shows "map_of (sw_instances (prune_terminal clock w)) x =
      (case map_of (sw_instances w) x of
         None \<Rightarrow> None
       | Some i \<Rightarrow> if si_state i \<in> {saga_done, saga_dead}
                    \<and> si_updated i < stamp_millis (clock (sw_reads w) - terminal_retention) then None else Some i)"
    and "same_sources w (prune_terminal clock w)"
  using assms
  by (auto simp: prune_terminal_def read_clock_def db_turn_def map_of_filter_distinct same_sources_def
      split: option.splits)

lemma tick_settles:
  assumes "quiet w" and "ids_ok w" and "within_limits w"
    and span: "\<And>i j. clock i \<le> clock j + terminal_retention"
    and "saga_tick load (\<lambda>s. None) clock w = (r, w')"
  shows "snd r = None \<and> same_sources w w'
    \<and> (\<forall>x. case verdict (sw_store w) (sw_jobs w) x of
          None \<Rightarrow> map_of (sw_instances w') x \<in> {None, map_of (sw_instances w) x}
        | Some v \<Rightarrow>
            if tracked w x then \<exists>i. map_of (sw_instances w') x = Some i \<and> carries v i
            else map_of (sw_instances w') x \<in> {None, map_of (sw_instances w) x})"
proof -
  let ?live = "live_rows (sw_jobs w)"
  have f: "sw_faults w = []" using assms(1) by (simp add: quiet_def)
  have lim: "length (filter (\<lambda>r. sj_status r \<in> {st_queued, st_processing, st_failed}) (sw_jobs w)) \<le> live_scan_limit"
    using assms(3) by (simp add: within_limits_def)
  note live = live_rows_set [OF lim]
  obtain r1 w1 where p1: "refresh_rows load (\<lambda>s. None) clock ?live 0 w = (r1, w1)" by (metis prod.collapse)
  obtain r2 w2 where p2: "refresh_rows load (\<lambda>s. None) clock (open_rows (sw_instances w1)) 0 w1 = (r2, w2)"
    by (metis prod.collapse)
  have "\<forall>r\<in>set ?live. trim_space (fst r) = fst r \<and> fst r \<noteq> []"
    using assms(2) unfolding live(1) ids_ok_def by auto
  moreover have "length (sw_instances w) + length ?live \<le> refresh_limit"
    using assms(3) unfolding within_limits_def live(2) by simp
  ultimately have both: "snd r1 = None" "snd r2 = None" "same_sources w w2" "distinct (map fst (sw_instances w2))"
    "\<And>x. case verdict (sw_store w) (sw_jobs w) x of
          None \<Rightarrow> map_of (sw_instances w2) x = map_of (sw_instances w) x
        | Some v \<Rightarrow>
            if x \<in> fst ` set ?live \<or> (\<exists>i. map_of (sw_instances w) x = Some i \<and> si_state i \<notin> {saga_done, saga_dead})
            then \<exists>i k. map_of (sw_instances w2) x = Some i \<and> carries v i \<and> si_updated i = stamp_millis (clock k)
            else map_of (sw_instances w2) x = map_of (sw_instances w) x"
    using both_passes [OF assms(1) _ _ _ _ p1 p2] assms(2) unfolding ids_ok_def by blast+
  have s1: "same_sources w w1" using refresh_rows_quiet [OF assms(1) _ p1] assms(2)
    unfolding live(1) ids_ok_def by auto
  then have "saga_tick load (\<lambda>s. None) clock w = ((fst r1 + fst r2, None), prune_terminal clock w2)"
    using both(1,2) p1 p2 f
    by (cases r1; cases r2) (simp add: saga_tick_def refresh_live_rows_def refresh_open_instances_def db_turn_def
        same_sources_def)
  with assms(5) have w': "w' = prune_terminal clock w2" "snd r = None" by auto
  have f2: "sw_faults w2 = []" using both(3) f by (simp add: same_sources_def)
  note pruned = prune_settled [OF f2 both(4), of clock]
  have recent: "\<not> stamp_millis (clock k) < stamp_millis (clock m - terminal_retention)" for k m
    using span [of m k] by (simp add: stamp_millis_def not_less zdiv_mono1 millisecond_def)
  have tr: "tracked w x \<longleftrightarrow> x \<in> fst ` set ?live
      \<or> (\<exists>i. map_of (sw_instances w) x = Some i \<and> si_state i \<notin> {saga_done, saga_dead})" for x
    unfolding tracked_def live(1) by (auto simp: image_iff)
  have "case verdict (sw_store w) (sw_jobs w) x of
          None \<Rightarrow> map_of (sw_instances w') x \<in> {None, map_of (sw_instances w) x}
        | Some v \<Rightarrow>
            if tracked w x then \<exists>i. map_of (sw_instances w') x = Some i \<and> carries v i
            else map_of (sw_instances w') x \<in> {None, map_of (sw_instances w) x}" for x
    using both(5) [of x] recent unfolding tr w'(1) pruned(1)
    by (auto split: option.splits if_splits)
  with w'(2) both(3) pruned(2) show ?thesis unfolding w'(1) by (auto simp: same_sources_def)
qed

end

section \<open>The SQLite store is steady\<close>

definition stored_stream :: "world \<Rightarrow> string \<Rightarrow> event list" where
  "stored_stream w i = sort_key ev_version (stream_rows (sq_events (wd_db w)) i)"

definition undisturbed :: "world \<Rightarrow> bool" where "undisturbed w \<longleftrightarrow> wd_script w = []"

interpretation sqlite_reads: steady_store sqlite_load stored_stream undisturbed
  by unfold_locales
    (simp add: undisturbed_def stored_stream_def sqlite_load_def world_turn_def load_events_def read_tx_def)

section \<open>The state of a lifecycle\<close>

definition saga_state_of :: "string \<Rightarrow> string" where
  "saga_state_of et =
     (if et = ev_succeeded then saga_done else if et = ev_dead_lettered then saga_dead
      else if et = ev_failed then saga_failed else if et = ev_started then saga_processing else saga_requested)"

lemma derive_state_lifecycle:
  assumes "lifecycle (map ev_type es)" and "job_replay i es = Ok j"
  shows "derive_state (Some j) = saga_state_of (ev_type (last es))" and "jb_attempts j = int (starts es)"
proof -
  have ne: "es \<noteq> []" using assms(1) by (auto simp: lifecycle_def)
  have run: "apply_events job_apply (empty_job i) es = Ok j"
    using assms(2) ne by (simp add: job_replay_def replay_stream_def)
  note eff = job_events_effect [OF run lifecycle_kinds [OF assms(1)]]
  show "jb_attempts j = int (starts es)" using eff by (simp add: empty_job_def)
  have "es = butlast es @ [last es]" using ne by simp
  then obtain xs e where es: "es = xs @ [e]" by blast
  have "ev_type x \<notin> set job_terminal_kinds" if "x \<in> set xs" for x
    using assms(1) that unfolding es
    by (cases xs) (auto simp: lifecycle_def job_terminal_kinds_def job_event_types)
  with eff have closed: "jb_closed j \<longleftrightarrow> ev_type e \<in> set job_terminal_kinds"
    by (auto simp: es empty_job_def)
  have status: "jb_status j = status_after (ev_type e)" using eff by (simp add: es)
  have "ev_type e \<in> set job_event_kinds" using lifecycle_kinds [OF assms(1)] by (simp add: es)
  then consider "ev_type e = ev_requested" | "ev_type e = ev_started" | "ev_type e = ev_succeeded"
    | "ev_type e = ev_failed" | "ev_type e = ev_dead_lettered" by (auto simp: job_event_kinds_def)
  then have "derive_state (Some j) = saga_state_of (ev_type e)"
    using closed status
    by cases (simp_all add: derive_state_def saga_state_of_def job_is_terminal_def status_after_def
        job_terminal_kinds_def job_event_types job_statuses)
  then show "derive_state (Some j) = saga_state_of (ev_type (last es))" by (simp add: es)
qed

section \<open>Properties\<close>


text \<open>A dead-lettered request whose row still says failed, as the worker leaves it.\<close>

definition dead_job :: "job res" where
  "dead_job =
     bind_res (new_scrape_job \<lparr>st_uuid = ''1'', st_now = 0\<rparr> ''req_1'' ''ar_1'' ''refresh'') (\<lambda>j.
     bind_res (record_dead_lettered \<lparr>st_uuid = ''2'', st_now = 1\<rparr> ''boom'' [] j) (\<lambda>r. Ok (snd r)))"

definition dead_world :: "world saga_world" where
  "dead_world =
     \<lparr>sw_jobs = [\<lparr>sj_request = ''req_1'', sj_artist = ''ar_1'', sj_status = st_failed, sj_error = ''retry_exhausted'', sj_queued = ''q''\<rparr>,
        \<lparr>sj_request = ''req_2'', sj_artist = ''ar_2'', sj_status = st_queued, sj_error = [], sj_queued = ''q''\<rparr>],
      sw_instances = [(''req_1'', \<lparr>si_artist = ''ar_1'', si_state = saga_dead, si_attempts = 0, si_last = ev_dead_lettered,
        si_error = [], si_updated = 0\<rparr>)],
      sw_faults = [], sw_reads = 0,
      sw_store = \<lparr>wd_db = (case dead_job of Inl e \<Rightarrow> empty_sqlite
        | Inr j \<Rightarrow> snd (append_events None empty_sqlite ''req_1'' 0 (ba_uncommitted j))), wd_script = []\<rparr>\<rparr>"

definition year_clock :: "nat \<Rightarrow> time" where "year_clock k = 365 * 24 * 3600 * second"


text \<open>
  A terminal saga is still refreshed while its row is live: the instance of a dead-lettered request
  whose row says \<^verbatim>\<open>failed\<close> gets a new update time on every tick, so it is not pruned either, although
  the comment on the terminal states says they are never refreshed once reached.
\<close>

theorem terminal_saga_refreshed:
  "(case map_of (sw_instances (snd (saga_tick sqlite_load (\<lambda>s. None) year_clock dead_world))) ''req_1'' of
      None \<Rightarrow> False
    | Some i \<Rightarrow> si_state i = saga_dead \<and> si_updated i = stamp_millis (year_clock 0))"
  by code_simp

end
