(* ===== verification/Read_Models.thy ===== *)
theory Read_Models
  imports Artist_Facts Catalog_Properties
begin

text \<open>
  The SQLite read models and the projections that fill them
  (\<^verbatim>\<open>internal/projections/artist_projection.go\<close> and \<^verbatim>\<open>catalog_projection.go\<close>). A table is the list of
  its rows in rowid order; the constraints of the schema are written out. Whether the connection
  enforces foreign keys is a property of the database package outside \<^verbatim>\<open>src/\<close> and a parameter.
\<close>

section \<open>Tables\<close>

record artist_model =
  am_name :: string
  am_spotify :: string
  am_listeners :: int
  am_genre :: string
  am_list :: string
  am_fetch :: string
  am_collection :: int
  am_total :: int
  am_updated :: time
  am_created :: time

record history_row =
  hr_id :: string
  hr_artist :: string
  hr_version :: int
  hr_listeners :: int
  hr_previous :: int
  hr_delta :: int
  hr_provider :: string
  hr_duration :: int
  hr_at :: time

record album_model =
  lm_title :: string
  lm_artist :: string
  lm_collection :: int
  lm_total :: int
  lm_status :: string
  lm_created :: time

record song_model =
  sm_title :: string
  sm_artist :: string
  sm_album_name :: string
  sm_release_date :: string
  sm_release_year :: int
  sm_release_type :: string
  sm_spotify :: string
  sm_recent :: bool
  sm_seq :: int
  sm_pos :: int
  sm_tidal :: string
  sm_duplicate_of :: string
  sm_created :: time

record read_models =
  rm_artists :: "(string \<times> artist_model) list"
  rm_history :: "history_row list"
  rm_job_artists :: "string list"
  rm_albums :: "(string \<times> album_model) list"
  rm_songs :: "(string \<times> song_model) list"

definition check_failed :: gerr where "check_failed = Errorf ''CHECK constraint failed'' []"

text \<open>\<^verbatim>\<open>INSERT ... ON CONFLICT(id) DO NOTHING\<close> and \<^verbatim>\<open>UPDATE ... WHERE id = ?\<close> under a \<^verbatim>\<open>CHECK\<close>.\<close>

definition insert_row :: "('r \<Rightarrow> bool) \<Rightarrow> string \<Rightarrow> 'r \<Rightarrow> (string \<times> 'r) list \<Rightarrow> (string \<times> 'r) list res" where
  "insert_row ok i r m = (if ok r then Ok (insert_ignore i r m) else Fail check_failed)"

definition update_row :: "('r \<Rightarrow> bool) \<Rightarrow> string \<Rightarrow> ('r \<Rightarrow> 'r) \<Rightarrow> (string \<times> 'r) list \<Rightarrow> (string \<times> 'r) list res" where
  "update_row ok i f m =
     (case map_of m i of
        None \<Rightarrow> Ok m
      | Some r \<Rightarrow> if ok (f r) then Ok (kv_put i (f r) m) else Fail check_failed)"

definition artist_checks :: "artist_model \<Rightarrow> bool" where
  "artist_checks r \<longleftrightarrow>
     am_genre r \<in> {''rock_metal'', ''everything_else''}
   \<and> am_list r \<in> set list_statuses \<and> am_fetch r \<in> set fetch_statuses"

definition album_checks :: "album_model \<Rightarrow> bool" where
  "album_checks r \<longleftrightarrow> valid_album_status (lm_status r)"

section \<open>The artist projection\<close>

text \<open>
  The upsert of \<^verbatim>\<open>artist_listener_history\<close>: \<^verbatim>\<open>id\<close> is the primary key, \<^verbatim>\<open>(artist_id, version)\<close> the
  conflict target, \<^verbatim>\<open>artist_id\<close> a foreign key.
\<close>

definition upsert_history :: "bool \<Rightarrow> history_row \<Rightarrow> read_models \<Rightarrow> read_models res" where
  "upsert_history fk r rm =
     (let same = (\<lambda>x. hr_artist x = hr_artist r \<and> hr_version x = hr_version r)
      in if fk \<and> hr_artist r \<notin> fst ` set (rm_artists rm) then fail_msg ''FOREIGN KEY constraint failed''
         else if \<exists>x\<in>set (rm_history rm). hr_id x = hr_id r \<and> \<not> same x then fail_msg ''UNIQUE constraint failed''
         else if \<exists>x\<in>set (rm_history rm). same x
         then Ok (rm\<lparr>rm_history := map (\<lambda>x. if same x then r else x) (rm_history rm)\<rparr>)
         else Ok (rm\<lparr>rm_history := rm_history rm @ [r]\<rparr>))"

definition created_row :: "event \<Rightarrow> artist_created \<Rightarrow> artist_model" where
  "created_row e pl =
     \<lparr>am_name = ac_name pl, am_spotify = ac_spotify pl, am_listeners = 0, am_genre = ac_genre pl,
      am_list = ac_list pl, am_fetch = ''idle'', am_collection = 0, am_total = 0,
      am_updated = ev_at e, am_created = ev_at e\<rparr>"

definition history_row_of :: "event \<Rightarrow> listeners_scraped \<Rightarrow> history_row" where
  "history_row_of e pl =
     \<lparr>hr_id = ev_id e, hr_artist = ls_artist pl, hr_version = ev_version e, hr_listeners = ls_listeners pl,
      hr_previous = ls_previous pl, hr_delta = ls_delta pl, hr_provider = ls_provider pl,
      hr_duration = ls_duration pl, hr_at = ls_at pl\<rparr>"

definition update_artist :: "string \<Rightarrow> (artist_model \<Rightarrow> artist_model) \<Rightarrow> read_models \<Rightarrow> read_models res" where
  "update_artist i f rm =
     bind_res (update_row artist_checks i f (rm_artists rm)) (\<lambda>m. Ok (rm\<lparr>rm_artists := m\<rparr>))"

definition project_artist_event :: "bool \<Rightarrow> event \<Rightarrow> read_models \<Rightarrow> read_models res" where
  "project_artist_event fk e rm =
     (let et = ev_type e in
      if et = ev_artist_created then
        bind_res (decode_event dec_artist_created e) (\<lambda>pl.
          wrap_err ''inserting artist read model''
            (bind_res (insert_row artist_checks (ac_id pl) (created_row e pl) (rm_artists rm))
               (\<lambda>m. Ok (rm\<lparr>rm_artists := m\<rparr>))))
      else if et = ev_listeners_scraped then
        bind_res (decode_event dec_listeners_scraped e) (\<lambda>pl.
          bind_res (wrap_err ''updating artist monthly listeners''
              (update_artist (ls_artist pl)
                 (\<lambda>r. r\<lparr>am_listeners := ls_listeners pl, am_updated := ls_at pl, am_fetch := ''idle''\<rparr>) rm))
            (\<lambda>rm'. wrap_err ''inserting artist listener history'' (upsert_history fk (history_row_of e pl) rm')))
      else if et = ev_artist_status then
        bind_res (decode_event dec_artist_status e) (\<lambda>pl.
          wrap_err ''updating artist list status''
            (update_artist (asc_artist pl) (\<lambda>r. r\<lparr>am_list := asc_new pl\<rparr>) rm))
      else if et = ev_fetch_status then
        bind_res (decode_event dec_fetch_status e) (\<lambda>pl.
          wrap_err ''updating artist fetch status''
            (update_artist (fsc_artist pl) (\<lambda>r. r\<lparr>am_fetch := fsc_status pl\<rparr>) rm))
      else if et = ev_collection_songs then
        bind_res (decode_event dec_collection_songs e) (\<lambda>pl.
          wrap_err ''updating artist song counts''
            (update_artist (csa_artist pl)
               (\<lambda>r. r\<lparr>am_collection := csa_collection pl, am_total := csa_total pl\<rparr>) rm))
      else Ok rm)"

text \<open>One transaction for the events of a call.\<close>

definition project_tx ::
    "string \<Rightarrow> fault \<Rightarrow> (event \<Rightarrow> read_models \<Rightarrow> read_models res) \<Rightarrow> event list \<Rightarrow> read_models
     \<Rightarrow> unit res \<times> read_models" where
  "project_tx what fault proj es rm =
     (if es = [] then (Ok (), rm)
      else (case fault of
              Some err \<Rightarrow> (Fail (Errorf what [err]), rm)
            | None \<Rightarrow>
                (case fold_res (\<lambda>rm e. proj e rm) rm es of
                   Inl err \<Rightarrow> (Fail (Errorf what [err]), rm)
                 | Inr rm' \<Rightarrow> (Ok (), rm'))))"

definition project_artist :: "fault \<Rightarrow> bool \<Rightarrow> event list \<Rightarrow> read_models \<Rightarrow> unit res \<times> read_models" where
  "project_artist fault fk = project_tx ''projecting artist events'' fault (project_artist_event fk)"

definition reset_artists :: "fault \<Rightarrow> read_models \<Rightarrow> unit res \<times> read_models" where
  "reset_artists fault rm =
     (case fault of
        Some err \<Rightarrow> (Fail (Errorf ''resetting artist projections for replay'' [err]), rm)
      | None \<Rightarrow> (Ok (), rm\<lparr>rm_history := [],
                          rm_artists := filter (\<lambda>r. fst r \<in> set (rm_job_artists rm)) (rm_artists rm)\<rparr>))"

definition listener_history :: "fault \<Rightarrow> string \<Rightarrow> int \<Rightarrow> read_models \<Rightarrow> history_row list res" where
  "listener_history fault i limit rm =
     (case fault of
        Some err \<Rightarrow> Fail err
      | None \<Rightarrow> Ok (take (nat (if limit \<le> 0 then 50 else limit))
                  (sort_key (\<lambda>r. - hr_version r) (filter (\<lambda>r. hr_artist r = i) (rm_history rm)))))"

section \<open>The catalog projection\<close>

definition update_album :: "string \<Rightarrow> (album_model \<Rightarrow> album_model) \<Rightarrow> read_models \<Rightarrow> read_models res" where
  "update_album i f rm =
     bind_res (update_row album_checks i f (rm_albums rm)) (\<lambda>m. Ok (rm\<lparr>rm_albums := m\<rparr>))"

definition update_song :: "string \<Rightarrow> (song_model \<Rightarrow> song_model) \<Rightarrow> read_models \<Rightarrow> read_models res" where
  "update_song i f rm =
     bind_res (update_row (\<lambda>r. True) i f (rm_songs rm)) (\<lambda>m. Ok (rm\<lparr>rm_songs := m\<rparr>))"

definition album_row_of :: "event \<Rightarrow> album_created \<Rightarrow> album_model" where
  "album_row_of e pl =
     \<lparr>lm_title = alc_title pl, lm_artist = alc_artist pl, lm_collection = alc_collection pl,
      lm_total = alc_total pl, lm_status = alc_status pl, lm_created = ev_at e\<rparr>"

definition song_row_of :: "event \<Rightarrow> song_created \<Rightarrow> song_model" where
  "song_row_of e pl =
     \<lparr>sm_title = soc_title pl, sm_artist = soc_artist pl, sm_album_name = soc_album pl,
      sm_release_date = soc_date pl, sm_release_year = soc_year pl, sm_release_type = soc_type pl,
      sm_spotify = soc_spotify pl, sm_recent = soc_recent pl, sm_seq = soc_seq pl, sm_pos = soc_pos pl,
      sm_tidal = [], sm_duplicate_of = [], sm_created = ev_at e\<rparr>"

definition project_album_event :: "event \<Rightarrow> read_models \<Rightarrow> read_models res" where
  "project_album_event e rm =
     (let et = ev_type e in
      if et = ev_album_created then
        bind_res (decode_event dec_album_created e) (\<lambda>pl.
          wrap_err ''inserting album read model''
            (bind_res (insert_row album_checks (alc_id pl) (album_row_of e pl) (rm_albums rm))
               (\<lambda>m. Ok (rm\<lparr>rm_albums := m\<rparr>))))
      else if et = ev_album_status then
        bind_res (decode_event dec_album_status e) (\<lambda>pl.
          wrap_err ''updating album status'' (update_album (als_album pl) (\<lambda>r. r\<lparr>lm_status := als_new pl\<rparr>) rm))
      else if et = ev_album_counts then
        bind_res (decode_event dec_album_counts e) (\<lambda>pl.
          wrap_err ''updating album song counts''
            (update_album (ala_album pl) (\<lambda>r. r\<lparr>lm_collection := ala_collection pl, lm_total := ala_total pl\<rparr>) rm))
      else Ok rm)"

definition project_song_event :: "event \<Rightarrow> read_models \<Rightarrow> read_models res" where
  "project_song_event e rm =
     (let et = ev_type e in
      if et = ev_song_created then
        bind_res (decode_event dec_song_created e) (\<lambda>pl.
          wrap_err ''inserting song read model''
            (bind_res (insert_row (\<lambda>r. True) (soc_id pl) (song_row_of e pl) (rm_songs rm))
               (\<lambda>m. Ok (rm\<lparr>rm_songs := m\<rparr>))))
      else if et = ev_recent_flag then
        bind_res (decode_event dec_recent_flag e) (\<lambda>pl.
          wrap_err ''updating song recent flag''
            (update_song (rfc_song pl) (\<lambda>r. r\<lparr>sm_recent := rfc_recent pl, sm_seq := rfc_seq pl, sm_pos := rfc_pos pl\<rparr>) rm))
      else if et = ev_song_enriched then
        bind_res (decode_event dec_song_metadata e) (\<lambda>pl.
          wrap_err ''updating song metadata''
            (update_song (sm_song pl)
               (\<lambda>r. r\<lparr>sm_album_name := sm_album pl, sm_release_date := sm_date pl, sm_release_year := sm_year pl,
                     sm_release_type := (if sm_type pl = [] then sm_release_type r else sm_type pl)\<rparr>) rm))
      else if et = ev_tidal_linked then
        bind_res (decode_event dec_tidal_linked e) (\<lambda>pl.
          wrap_err ''updating song tidal id'' (update_song (tl_song pl) (\<lambda>r. r\<lparr>sm_tidal := tl_tidal pl\<rparr>) rm))
      else if et = ev_song_corrected then
        bind_res (decode_event dec_song_metadata e) (\<lambda>pl.
          wrap_err ''correcting song metadata''
            (update_song (sm_song pl)
               (\<lambda>r. r\<lparr>sm_album_name := sm_album pl, sm_release_date := sm_date pl, sm_release_year := sm_year pl,
                     sm_release_type := sm_type pl\<rparr>) rm))
      else if et = ev_credits_corrected then
        bind_res (decode_event dec_credits e) (\<lambda>pl.
          wrap_err ''correcting song artist credits'' (update_song (cc_song pl) (\<lambda>r. r\<lparr>sm_artist := cc_artist pl\<rparr>) rm))
      else if et = ev_marked_duplicate then
        bind_res (decode_event dec_duplicate e) (\<lambda>pl.
          wrap_err ''marking song duplicate'' (update_song (md_song pl) (\<lambda>r. r\<lparr>sm_duplicate_of := md_canonical pl\<rparr>) rm))
      else Ok rm)"

definition project_catalog_event :: "event \<Rightarrow> read_models \<Rightarrow> read_models res" where
  "project_catalog_event e rm =
     (if ev_stype e = stream_type_album then project_album_event e rm
      else if ev_stype e = stream_type_song then project_song_event e rm
      else fail_msg ''unknown stream type'')"

definition project_catalog :: "fault \<Rightarrow> event list \<Rightarrow> read_models \<Rightarrow> unit res \<times> read_models" where
  "project_catalog fault = project_tx ''projecting events'' fault project_catalog_event"

definition clear_catalog :: "string \<Rightarrow> read_models \<Rightarrow> read_models" where
  "clear_catalog t rm = (if t = stream_type_album then rm\<lparr>rm_albums := []\<rparr> else rm\<lparr>rm_songs := []\<rparr>)"

definition reset_catalog :: "fault \<Rightarrow> string list \<Rightarrow> read_models \<Rightarrow> unit res \<times> read_models" where
  "reset_catalog fault types rm =
     (if \<exists>t\<in>set types. t \<noteq> stream_type_album \<and> t \<noteq> stream_type_song
      then (fail_msg ''resetting catalog projection: unsupported stream type'', rm)
      else if types = [] then (Ok (), rm)
      else (case fault of
              Some err \<Rightarrow> (Fail (Errorf ''resetting catalog projections for replay'' [err]), rm)
            | None \<Rightarrow> (Ok (), foldl (\<lambda>rm t. clear_catalog t rm) rm types)))"

end
