(* ===== verification/Projection_Properties.thy ===== *)
theory Projection_Properties
  imports Read_Models
begin

text \<open>
  The read models follow the aggregates. The interface \<open>projector\<close> is what a projection does to the
  row of one aggregate: each event that fits it has an effect on the row, nothing else happens;
  \<open>aggregate_view\<close> adds that the effect is that of the event on the aggregate. They are
  interpreted on the artist projection here, on the album and song projections in \<open>Catalog_Views\<close>.
\<close>

section \<open>Interfaces\<close>

locale projector =
  fixes proj :: "event \<Rightarrow> 'm \<Rightarrow> 'm res"
    and row :: "string \<Rightarrow> 'm \<Rightarrow> 'r option"
    and effect :: "event \<Rightarrow> 'r \<Rightarrow> 'r"
    and valid :: "'r \<Rightarrow> bool"
    and fits :: "string \<Rightarrow> event \<Rightarrow> bool"
    and free :: "string \<Rightarrow> event list \<Rightarrow> 'm \<Rightarrow> bool"
  assumes proj_row: "row i m = Some r \<Longrightarrow> valid r \<Longrightarrow> fits i e \<Longrightarrow> free i (e # es) m \<Longrightarrow>
      \<exists>m'. proj e m = Ok m' \<and> row i m' = Some (effect e r) \<and> valid (effect e r) \<and> free i es m'
         \<and> (\<forall>j. j \<noteq> i \<longrightarrow> row j m' = row j m)"
begin

lemma proj_rows:
  "row i m = Some r \<Longrightarrow> valid r \<Longrightarrow> \<forall>e\<in>set es. fits i e \<Longrightarrow> free i es m \<Longrightarrow>
     \<exists>m'. fold_res (\<lambda>m e. proj e m) m es = Ok m' \<and> row i m' = Some (fold effect es r)
        \<and> valid (fold effect es r) \<and> (\<forall>j. j \<noteq> i \<longrightarrow> row j m' = row j m)"
proof (induction es arbitrary: m r)
  case (Cons e es)
  from Cons.prems(3) have fit: "fits i e" "\<forall>e\<in>set es. fits i e" by simp_all
  from proj_row [OF Cons.prems(1,2) fit(1) Cons.prems(4)] obtain m1 where m1: "proj e m = Ok m1"
    "row i m1 = Some (effect e r)" "valid (effect e r)" "free i es m1" "\<forall>j. j \<noteq> i \<longrightarrow> row j m1 = row j m" by blast
  from Cons.IH [OF m1(2,3) fit(2) m1(4)] m1(1,5) show ?case by auto
qed simp

end

locale aggregate_view = projector proj row effect valid fits free
  for proj :: "event \<Rightarrow> 'm \<Rightarrow> 'm res" and row :: "string \<Rightarrow> 'm \<Rightarrow> 'r option"
    and effect :: "event \<Rightarrow> 'r \<Rightarrow> 'r" and valid :: "'r \<Rightarrow> bool" and fits :: "string \<Rightarrow> event \<Rightarrow> bool"
    and free :: "string \<Rightarrow> event list \<Rightarrow> 'm \<Rightarrow> bool" +
  fixes ap :: "'a apply_op" and shown :: "'a base_agg_scheme \<Rightarrow> 'r"
  assumes ap_effect: "fits i e \<Longrightarrow> ap e a = Ok a' \<Longrightarrow> shown a' = effect e (shown a)"
begin

lemma shown_fold:
  assumes "\<forall>e\<in>set es. fits i e" and "apply_events ap a es = Ok a'"
  shows "shown a' = fold effect es (shown a)"
  using assms
proof (induction es arbitrary: a)
  case (Cons e es)
  then obtain a1 where "ap e a = Ok a1" "apply_events ap a1 es = Ok a'" by (auto simp: bind_res_eq_Inr)
  with Cons ap_effect [of i e a a1] show ?case by simp
qed simp

lemma view_follows:
  assumes "row i m = Some (shown a)" and "valid (shown a)" and "\<forall>e\<in>set es. fits i e" and "free i es m"
    and "apply_events ap a es = Ok a'"
  shows "\<exists>m'. fold_res (\<lambda>m e. proj e m) m es = Ok m' \<and> row i m' = Some (shown a') \<and> valid (shown a')
    \<and> (\<forall>j. j \<noteq> i \<longrightarrow> row j m' = row j m)"
  using proj_rows [OF assms(1-4)] shown_fold [OF assms(3,5)] by simp

end

text \<open>
  An effect that on every column either keeps what is there or sets a value of its own can be
  repeated: applied again it changes nothing.
\<close>

definition keeps_or_sets :: "('r \<Rightarrow> 'c) \<Rightarrow> ('r \<Rightarrow> 'r) \<Rightarrow> bool" where
  "keeps_or_sets c u \<longleftrightarrow> (\<forall>r. c (u r) = c r) \<or> (\<exists>k. \<forall>r. c (u r) = k)"

lemma keeps_or_sets_fold:
  "\<forall>e\<in>set es. keeps_or_sets c (eff e) \<Longrightarrow> keeps_or_sets c (fold eff es)"
proof (induction es)
  case (Cons e es)
  then have "keeps_or_sets c (eff e)" "keeps_or_sets c (fold eff es)" by simp_all
  then show ?case unfolding keeps_or_sets_def by auto
qed (simp add: keeps_or_sets_def)

lemma keeps_or_sets_twice: "keeps_or_sets c u \<Longrightarrow> c (u (u r)) = c (u r)"
  by (auto simp: keeps_or_sets_def)

lemma keeps_or_sets_cases:
  "keeps_or_sets c u \<Longrightarrow> keeps_or_sets c v \<Longrightarrow> keeps_or_sets c (\<lambda>r. if b then u r else v r)"
  "(\<And>x. keeps_or_sets c (u' x)) \<Longrightarrow> (\<And>y. keeps_or_sets c (v' y)) \<Longrightarrow>
     keeps_or_sets c (\<lambda>r. case z of Inl x \<Rightarrow> u' x r | Inr y \<Rightarrow> v' y r)"
  by (cases b; simp) (cases z; simp)

section \<open>Decoding what was encoded\<close>

lemma dec_enc_exact:
  "dec_listeners_scraped (normalize_ron_time (enc_listeners_scraped l)) = Some l' \<Longrightarrow> l' = l"
  "dec_collection_songs (normalize_ron_time (enc_collection_songs c)) = Some c' \<Longrightarrow> c' = c"
  "dec_album_counts (normalize_ron_time (enc_album_counts a)) = Some a' \<Longrightarrow> a' = a"
  "dec_recent_flag (normalize_ron_time (enc_recent_flag f)) = Some f' \<Longrightarrow> f' = f"
  "dec_song_metadata (normalize_ron_time (enc_song_metadata m)) = Some m' \<Longrightarrow> m' = m"
  by (auto simp: enc_listeners_scraped_def dec_listeners_scraped_def enc_collection_songs_def
      dec_collection_songs_def enc_album_counts_def dec_album_counts_def enc_recent_flag_def dec_recent_flag_def
      enc_song_metadata_def dec_song_metadata_def utc_key_def split: if_splits)

section \<open>Rows\<close>

lemma update_row_hit:
  "map_of m i = Some r \<Longrightarrow> ok (f r) \<Longrightarrow> update_row ok i f m = Ok (kv_put i (f r) m)"
  by (simp add: update_row_def)

section \<open>Artists\<close>

definition artist_shown :: "artist \<Rightarrow> artist_model" where
  "artist_shown a =
     \<lparr>am_name = ar_name a, am_spotify = ar_spotify a, am_listeners = ar_listeners a, am_genre = ar_genre a,
      am_list = ar_list a, am_fetch = ar_fetch a, am_collection = ar_collection a, am_total = ar_total a,
      am_updated = ar_updated a, am_created = ar_created a\<rparr>"

definition artist_effect :: "event \<Rightarrow> artist_model \<Rightarrow> artist_model" where
  "artist_effect e r =
     (let et = ev_type e in
      if et = ev_listeners_scraped then
        (case decode_event dec_listeners_scraped e of Inl err \<Rightarrow> r
         | Inr pl \<Rightarrow> r\<lparr>am_listeners := ls_listeners pl, am_updated := ls_at pl, am_fetch := ''idle''\<rparr>)
      else if et = ev_artist_status then
        (case decode_event dec_artist_status e of Inl err \<Rightarrow> r | Inr pl \<Rightarrow> r\<lparr>am_list := asc_new pl\<rparr>)
      else if et = ev_fetch_status then
        (case decode_event dec_fetch_status e of Inl err \<Rightarrow> r | Inr pl \<Rightarrow> r\<lparr>am_fetch := fsc_status pl\<rparr>)
      else if et = ev_collection_songs then
        (case decode_event dec_collection_songs e of Inl err \<Rightarrow> r
         | Inr pl \<Rightarrow> r\<lparr>am_collection := csa_collection pl, am_total := csa_total pl\<rparr>)
      else r)"

text \<open>An event of the artist after its creation, with values the schema admits.\<close>

definition artist_fits :: "string \<Rightarrow> event \<Rightarrow> bool" where
  "artist_fits i e \<longleftrightarrow>
     (if ev_type e = ev_listeners_scraped then
        (case decode_event dec_listeners_scraped e of Inl err \<Rightarrow> False | Inr pl \<Rightarrow> ls_artist pl = i)
      else if ev_type e = ev_artist_status then
        (case decode_event dec_artist_status e of Inl err \<Rightarrow> False
         | Inr pl \<Rightarrow> asc_artist pl = i \<and> asc_new pl \<in> set list_statuses)
      else if ev_type e = ev_fetch_status then
        (case decode_event dec_fetch_status e of Inl err \<Rightarrow> False
         | Inr pl \<Rightarrow> fsc_artist pl = i \<and> fsc_status pl \<in> set fetch_statuses)
      else if ev_type e = ev_collection_songs then
        (case decode_event dec_collection_songs e of Inl err \<Rightarrow> False | Inr pl \<Rightarrow> csa_artist pl = i)
      else False)"

definition history_free :: "string \<Rightarrow> event list \<Rightarrow> read_models \<Rightarrow> bool" where
  "history_free i es rm \<longleftrightarrow>
     distinct (map ev_id es) \<and> distinct (map ev_version es)
   \<and> (\<forall>x\<in>set (rm_history rm). hr_id x \<notin> ev_id ` set es
        \<and> (hr_artist x = i \<longrightarrow> hr_version x \<notin> ev_version ` set es))"

definition artist_row :: "string \<Rightarrow> read_models \<Rightarrow> artist_model option" where
  "artist_row i rm = map_of (rm_artists rm) i"

text \<open>The history an artist's events leave.\<close>

definition history_of_event :: "event \<Rightarrow> history_row list" where
  "history_of_event e =
     (if ev_type e = ev_listeners_scraped then
        (case decode_event dec_listeners_scraped e of Inl err \<Rightarrow> [] | Inr pl \<Rightarrow> [history_row_of e pl])
      else [])"

lemma artist_event_types_distinct:
  "ev_artist_created \<noteq> ev_listeners_scraped" "ev_artist_created \<noteq> ev_artist_status"
  "ev_artist_created \<noteq> ev_fetch_status" "ev_artist_created \<noteq> ev_collection_songs"
  "ev_listeners_scraped \<noteq> ev_artist_status" "ev_listeners_scraped \<noteq> ev_fetch_status"
  "ev_listeners_scraped \<noteq> ev_collection_songs" "ev_artist_status \<noteq> ev_fetch_status"
  "ev_artist_status \<noteq> ev_collection_songs" "ev_fetch_status \<noteq> ev_collection_songs"
  by (simp_all add: artist_event_types)

lemmas artist_types = artist_event_types_distinct artist_event_types_distinct [symmetric]

lemma upsert_history_new:
  assumes "hr_artist r \<in> fst ` set (rm_artists rm)"
    and "\<forall>x\<in>set (rm_history rm). hr_id x \<noteq> hr_id r \<and> (hr_artist x = hr_artist r \<longrightarrow> hr_version x \<noteq> hr_version r)"
  shows "upsert_history fk r rm = Ok (rm\<lparr>rm_history := rm_history rm @ [r]\<rparr>)"
  using assms by (auto simp: upsert_history_def Let_def)

lemma project_artist_step:
  assumes "artist_row i rm = Some r" and "artist_checks r" and "artist_fits i e" and "history_free i (e # es) rm"
  shows "project_artist_event fk e rm =
      Ok (rm\<lparr>rm_artists := kv_put i (artist_effect e r) (rm_artists rm), rm_history := rm_history rm @ history_of_event e\<rparr>)
    \<and> artist_checks (artist_effect e r)"
proof -
  have key: "i \<in> fst ` set (kv_put i x (rm_artists rm))" for x
    using keys_kv_put [of i x "rm_artists rm"] by simp
  have idle: "''idle'' \<in> set fetch_statuses" by (simp add: fetch_statuses_def)
  consider "ev_type e = ev_listeners_scraped" | "ev_type e = ev_artist_status"
    | "ev_type e = ev_fetch_status" | "ev_type e = ev_collection_songs"
    using assms(3) by (auto simp: artist_fits_def split: if_splits)
  then show ?thesis
  proof cases
    case 1
    with assms(3) obtain pl where pl: "decode_event dec_listeners_scraped e = Ok pl" "ls_artist pl = i"
      by (auto simp: artist_fits_def split: sum.splits)
    let ?r = "r\<lparr>am_listeners := ls_listeners pl, am_updated := ls_at pl, am_fetch := ''idle''\<rparr>"
    have ok: "artist_checks ?r" using assms(2) idle by (simp add: artist_checks_def)
    then have up: "update_artist i (\<lambda>r. r\<lparr>am_listeners := ls_listeners pl, am_updated := ls_at pl, am_fetch := ''idle''\<rparr>) rm =
        Ok (rm\<lparr>rm_artists := kv_put i ?r (rm_artists rm)\<rparr>)"
      using assms(1) by (simp add: update_artist_def artist_row_def update_row_hit)
    have "upsert_history fk (history_row_of e pl) (rm\<lparr>rm_artists := kv_put i ?r (rm_artists rm)\<rparr>) =
        Ok (rm\<lparr>rm_artists := kv_put i ?r (rm_artists rm), rm_history := rm_history rm @ [history_row_of e pl]\<rparr>)"
      using assms(4) pl(2) key [of ?r]
      by (subst upsert_history_new) (auto simp: history_row_of_def history_free_def)
    with 1 pl up ok show ?thesis
      by (simp add: project_artist_event_def artist_types artist_effect_def history_of_event_def)
  next
    case 2
    with assms(3) obtain pl where pl: "decode_event dec_artist_status e = Ok pl" "asc_artist pl = i"
      "asc_new pl \<in> set list_statuses" by (auto simp: artist_fits_def artist_types split: sum.splits)
    then have "artist_checks (r\<lparr>am_list := asc_new pl\<rparr>)" using assms(2) by (simp add: artist_checks_def)
    with 2 pl assms(1) show ?thesis
      by (simp add: project_artist_event_def artist_types artist_effect_def history_of_event_def update_artist_def
          artist_row_def update_row_hit)
  next
    case 3
    with assms(3) obtain pl where pl: "decode_event dec_fetch_status e = Ok pl" "fsc_artist pl = i"
      "fsc_status pl \<in> set fetch_statuses" by (auto simp: artist_fits_def artist_types split: sum.splits)
    then have "artist_checks (r\<lparr>am_fetch := fsc_status pl\<rparr>)" using assms(2) by (simp add: artist_checks_def)
    with 3 pl assms(1) show ?thesis
      by (simp add: project_artist_event_def artist_types artist_effect_def history_of_event_def update_artist_def
          artist_row_def update_row_hit)
  next
    case 4
    with assms(3) obtain pl where pl: "decode_event dec_collection_songs e = Ok pl" "csa_artist pl = i"
      by (auto simp: artist_fits_def artist_types split: sum.splits)
    have "artist_checks (r\<lparr>am_collection := csa_collection pl, am_total := csa_total pl\<rparr>)"
      using assms(2) by (simp add: artist_checks_def)
    with 4 pl assms(1) show ?thesis
      by (simp add: project_artist_event_def artist_types artist_effect_def history_of_event_def update_artist_def
          artist_row_def update_row_hit)
  qed
qed

lemma history_row_keys [simp]:
  "hr_id (history_row_of e pl) = ev_id e" "hr_version (history_row_of e pl) = ev_version e"
  "hr_artist (history_row_of e pl) = ls_artist pl" "hr_listeners (history_row_of e pl) = ls_listeners pl"
  by (simp_all add: history_row_of_def)

lemma history_of_event_cases: "history_of_event e = [] \<or> (\<exists>pl. history_of_event e = [history_row_of e pl])"
  by (simp add: history_of_event_def split: sum.split) blast

lemma history_free_step:
  assumes "history_free i (e # es) rm"
  shows "history_free i es (rm\<lparr>rm_artists := m, rm_history := rm_history rm @ history_of_event e\<rparr>)"
proof -
  have new: "hr_id x = ev_id e \<and> hr_version x = ev_version e" if "x \<in> set (history_of_event e)" for x
    using that history_of_event_cases [of e] by auto
  show ?thesis
    unfolding history_free_def
  proof (intro conjI ballI)
    fix x
    assume "x \<in> set (rm_history (rm\<lparr>rm_artists := m, rm_history := rm_history rm @ history_of_event e\<rparr>))"
    then have "x \<in> set (rm_history rm) \<or> x \<in> set (history_of_event e)" by simp
    then have "hr_id x \<notin> ev_id ` set es \<and> (hr_artist x = i \<longrightarrow> hr_version x \<notin> ev_version ` set es)"
    proof
      assume "x \<in> set (rm_history rm)"
      with assms show ?thesis unfolding history_free_def by simp
    next
      assume "x \<in> set (history_of_event e)"
      from new [OF this] assms show ?thesis unfolding history_free_def by simp
    qed
    then show "hr_id x \<notin> ev_id ` set es" "hr_artist x = i \<longrightarrow> hr_version x \<notin> ev_version ` set es" by simp_all
  qed (use assms in \<open>auto simp: history_free_def\<close>)
qed

interpretation artist_view: aggregate_view "project_artist_event fk" artist_row artist_effect artist_checks
  artist_fits history_free artist_apply artist_shown
proof
  fix i rm r e es
  assume h: "artist_row i rm = Some r" "artist_checks r" "artist_fits i e" "history_free i (e # es) rm"
  let ?rm = "rm\<lparr>rm_artists := kv_put i (artist_effect e r) (rm_artists rm), rm_history := rm_history rm @ history_of_event e\<rparr>"
  have "artist_row i ?rm = Some (artist_effect e r)" "\<forall>j. j \<noteq> i \<longrightarrow> artist_row j ?rm = artist_row j rm"
    by (simp_all add: artist_row_def)
  with project_artist_step [OF h, of fk] history_free_step [OF h(4)]
  show "\<exists>m'. project_artist_event fk e rm = Ok m' \<and> artist_row i m' = Some (artist_effect e r)
      \<and> artist_checks (artist_effect e r) \<and> history_free i es m' \<and> (\<forall>j. j \<noteq> i \<longrightarrow> artist_row j m' = artist_row j rm)"
    by blast
next
  fix i e and a a' :: artist
  assume "artist_fits i e" "artist_apply e a = Ok a'"
  then show "artist_shown a' = artist_effect e (artist_shown a)"
    by (auto simp: artist_fits_def artist_apply_def artist_effect_def artist_shown_def artist_types Let_def
        split: if_splits sum.splits)
qed

text \<open>Commands record events that fit.\<close>

lemma artist_command_event:
  assumes "artist_command a a'"
  shows "a' = a \<or> (\<exists>e. ba_uncommitted a' = ba_uncommitted a @ [e] \<and> artist_fits (ba_id a) e)"
proof -
  have recorded: "ba_uncommitted a' = ba_uncommitted a @ [new_event st (ba_id a) (ba_stype a) (ba_version a + 1) et pl md]"
    if "raise_event artist_apply st et pl md a = Ok a'" for st et pl md
    using that by (auto simp: record_that_event dest: artist_apply_frame)
  from assms show ?thesis
  proof cases
    case (cmd_listeners now st n p d corr)
    let ?e = "\<lambda>pl md. new_event st (ba_id a) (ba_stype a) (ba_version a + 1) ev_listeners_scraped pl md"
    from cmd_listeners obtain x md where x: "raise_event artist_apply st ev_listeners_scraped (enc_listeners_scraped x) md a = Ok a'"
      "ls_artist x = ba_id a" "plain_meta md" unfolding record_monthly_listeners_def Let_def by (metis listeners_scraped.select_convs(1) plain_correlated(2))
    from x(1) obtain y where "dec_listeners_scraped (normalize_ron_time (enc_listeners_scraped x)) = Some y"
      by (auto simp: record_that_event artist_apply_def artist_types Let_def bind_res_eq_Inr decode_new_event [OF x(3)])
    with dec_enc_exact(1) have "dec_listeners_scraped (normalize_ron_time (enc_listeners_scraped x)) = Some x" by blast
    then have "artist_fits (ba_id a) (?e (enc_listeners_scraped x) md)"
      using x(2) by (simp add: artist_fits_def decode_new_event [OF x(3)])
    with recorded [OF x(1)] show ?thesis by blast
  next
    case (cmd_list st new reason corr)
    show ?thesis
    proof (cases "a' = a")
      case False
      with cmd_list have x: "new \<in> set list_statuses" "raise_event artist_apply st ev_artist_status
          (enc_artist_status \<lparr>asc_artist = ba_id a, asc_old = ar_list a, asc_new = new, asc_reason = reason\<rparr>)
          (correlated corr None) a = Ok a'" by (auto simp: change_list_status_def split: if_splits)
      have "artist_fits (ba_id a) (new_event st (ba_id a) (ba_stype a) (ba_version a + 1) ev_artist_status
          (enc_artist_status \<lparr>asc_artist = ba_id a, asc_old = ar_list a, asc_new = new, asc_reason = reason\<rparr>) (correlated corr None))"
        using x(1) by (simp add: artist_fits_def artist_types decode_new_event)
      with recorded [OF x(2)] show ?thesis by blast
    qed simp
  next
    case (cmd_fetch st status err corr)
    show ?thesis
    proof (cases "a' = a")
      case False
      with cmd_fetch have x: "status \<in> set fetch_statuses" "raise_event artist_apply st ev_fetch_status
          (enc_fetch_status \<lparr>fsc_artist = ba_id a, fsc_status = status, fsc_error = err\<rparr>)
          (correlated corr None) a = Ok a'" by (auto simp: set_fetch_status_def split: if_splits)
      have "artist_fits (ba_id a) (new_event st (ba_id a) (ba_stype a) (ba_version a + 1) ev_fetch_status
          (enc_fetch_status \<lparr>fsc_artist = ba_id a, fsc_status = status, fsc_error = err\<rparr>) (correlated corr None))"
        using x(1) by (simp add: artist_fits_def artist_types decode_new_event)
      with recorded [OF x(2)] show ?thesis by blast
    qed simp
  next
    case (cmd_songs st c t corr)
    show ?thesis
    proof (cases "a' = a")
      case False
      let ?x = "\<lparr>csa_artist = ba_id a, csa_collection = c, csa_total = t\<rparr>"
      from False cmd_songs have x: "raise_event artist_apply st ev_collection_songs (enc_collection_songs ?x)
          (correlated corr None) a = Ok a'" by (auto simp: adjust_collection_songs_def split: if_splits)
      then obtain y where "dec_collection_songs (normalize_ron_time (enc_collection_songs ?x)) = Some y"
        by (auto simp: record_that_event artist_apply_def artist_types Let_def bind_res_eq_Inr decode_new_event)
      with dec_enc_exact(2) have "dec_collection_songs (normalize_ron_time (enc_collection_songs ?x)) = Some ?x" by blast
      then have "artist_fits (ba_id a) (new_event st (ba_id a) (ba_stype a) (ba_version a + 1) ev_collection_songs
          (enc_collection_songs ?x) (correlated corr None))"
        by (simp add: artist_fits_def artist_types decode_new_event)
      with recorded [OF x] show ?thesis by blast
    qed simp
  qed
qed

lemma artist_commands_events:
  "artist_command\<^sup>*\<^sup>* a0 a \<Longrightarrow> \<exists>es. ba_uncommitted a = ba_uncommitted a0 @ es \<and> (\<forall>e\<in>set es. artist_fits (ba_id a0) e)"
proof (induction rule: rtranclp_induct)
  case (step b c)
  then obtain es where es: "ba_uncommitted b = ba_uncommitted a0 @ es" "\<forall>e\<in>set es. artist_fits (ba_id a0) e" by blast
  have "ba_id b = ba_id a0" using step(1) by (rule artist_commands_id)
  with artist_command_event [OF step(2)] es show ?case by auto
qed simp

text \<open>The first event of an artist.\<close>

lemma new_artist_event:
  assumes "new_artist st i name sp g l = Ok a0" and "i \<noteq> []"
  shows "\<exists>c pl a1. ba_uncommitted a0 = [c] \<and> ev_type c = ev_artist_created \<and> decode_event dec_artist_created c = Ok pl
    \<and> ac_id pl = i \<and> artist_apply c (empty_artist i) = Ok a1 \<and> artist_shown a1 = created_row c pl
    \<and> artist_checks (created_row c pl) \<and> artist_shown a1 = artist_shown a0 \<and> ba_id a0 = i"
proof -
  obtain pl where pl: "ac_id pl = i" "ac_genre pl \<in> {''rock_metal'', ''everything_else''}" "ac_list pl \<in> set list_statuses"
    "raise_event artist_apply st ev_artist_created (enc_artist_created pl) MetaNil (empty_artist i) = Ok a0"
  proof -
    define pl where "pl = \<lparr>ac_id = i, ac_name = trim_space name, ac_spotify = trim_space sp,
       ac_genre = (if g \<noteq> ''rock_metal'' \<and> g \<noteq> ''everything_else'' then ''everything_else'' else g),
       ac_list = (if l = [] then ''waiting'' else l)\<rparr>"
    from assms(1) have "raise_event artist_apply st ev_artist_created (enc_artist_created pl) MetaNil (empty_artist i) = Ok a0"
      "l \<noteq> [] \<longrightarrow> l \<in> set list_statuses"
      by (auto simp: new_artist_def Let_def pl_def split: if_splits)
    then show ?thesis by (intro that [of pl]) (auto simp: pl_def list_statuses_def)
  qed
  let ?c = "new_event st i stream_type_artist 1 ev_artist_created (enc_artist_created pl) MetaNil"
  have run: "artist_apply ?c ((empty_artist i)\<lparr>ba_version := 1, ba_uncommitted := [?c]\<rparr>) = Ok a0"
    using pl(4) by (simp add: record_that_event empty_artist_def)
  have dec: "decode_event dec_artist_created ?c = Ok pl" by (simp add: decode_new_event)
  obtain a1 where a1: "artist_apply ?c (empty_artist i) = Ok a1" "artist_shown a1 = created_row ?c pl"
    by (simp add: artist_apply_def dec artist_shown_def created_row_def empty_artist_def)
  have "artist_shown a0 = created_row ?c pl"
    using run by (auto simp: artist_apply_def dec artist_shown_def created_row_def empty_artist_def)
  moreover have "artist_checks (created_row ?c pl)"
    using pl(2,3) by (simp add: artist_checks_def created_row_def fetch_statuses_def)
  moreover have "ba_uncommitted a0 = [?c] \<and> ba_id a0 = i"
    using artist_apply_frame [OF run] by (simp add: empty_artist_def)
  ultimately show ?thesis using dec a1 pl(1) by (intro exI [of _ ?c] exI [of _ pl] exI [of _ a1]) simp
qed

text \<open>The history that a run of fitting events adds.\<close>

lemma project_artist_history:
  assumes "artist_row i rm = Some r" and "artist_checks r" and "\<forall>e\<in>set es. artist_fits i e" and "history_free i es rm"
  shows "\<exists>rm'. fold_res (\<lambda>rm e. project_artist_event fk e rm) rm es = Ok rm'
    \<and> rm_history rm' = rm_history rm @ concat (map history_of_event es)
    \<and> rm_job_artists rm' = rm_job_artists rm"
  using assms
proof (induction es arbitrary: rm r)
  case (Cons e es)
  have fit: "artist_fits i e" "\<forall>e\<in>set es. artist_fits i e" using Cons.prems(3) by simp_all
  let ?rm = "rm\<lparr>rm_artists := kv_put i (artist_effect e r) (rm_artists rm), rm_history := rm_history rm @ history_of_event e\<rparr>"
  note one = project_artist_step [OF Cons.prems(1,2) fit(1) Cons.prems(4), of fk]
  have "artist_row i ?rm = Some (artist_effect e r)" by (simp add: artist_row_def)
  from Cons.IH [OF this _ fit(2) history_free_step [OF Cons.prems(4)]] one show ?case by auto
qed simp

lemma artist_effect_keeps_or_sets:
  "keeps_or_sets am_name (artist_effect e)" "keeps_or_sets am_spotify (artist_effect e)"
  "keeps_or_sets am_listeners (artist_effect e)" "keeps_or_sets am_genre (artist_effect e)"
  "keeps_or_sets am_list (artist_effect e)" "keeps_or_sets am_fetch (artist_effect e)"
  "keeps_or_sets am_collection (artist_effect e)" "keeps_or_sets am_total (artist_effect e)"
  "keeps_or_sets am_updated (artist_effect e)" "keeps_or_sets am_created (artist_effect e)"
  unfolding artist_effect_def [abs_def] Let_def
  by (intro keeps_or_sets_cases; simp add: keeps_or_sets_def)+

lemma artist_effects_twice: "fold artist_effect es (fold artist_effect es r) = fold artist_effect es r"
proof -
  have field: "c (fold artist_effect es (fold artist_effect es r)) = c (fold artist_effect es r)"
    if "\<And>e. keeps_or_sets c (artist_effect e)" for c :: "artist_model \<Rightarrow> int"
    using that by (intro keeps_or_sets_twice keeps_or_sets_fold) simp
  have str: "c (fold artist_effect es (fold artist_effect es r)) = c (fold artist_effect es r)"
    if "\<And>e. keeps_or_sets c (artist_effect e)" for c :: "artist_model \<Rightarrow> string"
    using that by (intro keeps_or_sets_twice keeps_or_sets_fold) simp
  show ?thesis
    by (rule artist_model.equality)
      (simp_all add: field [OF artist_effect_keeps_or_sets(3)] field [OF artist_effect_keeps_or_sets(7)]
        field [OF artist_effect_keeps_or_sets(8)] field [OF artist_effect_keeps_or_sets(9)]
        field [OF artist_effect_keeps_or_sets(10)] str [OF artist_effect_keeps_or_sets(1)]
        str [OF artist_effect_keeps_or_sets(2)] str [OF artist_effect_keeps_or_sets(4)]
        str [OF artist_effect_keeps_or_sets(5)] str [OF artist_effect_keeps_or_sets(6)])
qed

text \<open>The whole stream of an artist: creation, then events that fit.\<close>

definition artist_stream :: "string \<Rightarrow> artist \<Rightarrow> event \<Rightarrow> event list \<Rightarrow> bool" where
  "artist_stream i a c es \<longleftrightarrow>
     ba_uncommitted a = c # es \<and> (\<forall>e\<in>set es. artist_fits i e) \<and> ev_type c = ev_artist_created
   \<and> sorted_wrt (<) (map ev_version (c # es))
   \<and> (\<exists>pl a1. decode_event dec_artist_created c = Ok pl \<and> ac_id pl = i \<and> artist_shown a1 = created_row c pl
        \<and> artist_checks (created_row c pl) \<and> apply_events artist_apply a1 es = Ok (with_uncommitted [] a))"

lemma validate_loop_versions:
  "validate_loop sid sty v es = Ok () \<Longrightarrow> map ev_version es = map (\<lambda>k. v + int k) [0..<length es]"
proof (induction es arbitrary: v)
  case (Cons e es)
  then have "ev_version e = v" "map ev_version es = map (\<lambda>k. v + 1 + int k) [0..<length es]"
    by (auto split: if_splits)
  then show ?case
    by (simp add: map_upt_Suc algebra_simps del: upt_Suc)
qed simp

lemma commands_stream:
  assumes "i \<noteq> []" and "new_artist st i name sp g l = Ok a0" and "artist_command\<^sup>*\<^sup>* a0 a"
  shows "\<exists>c es. artist_stream i a c es"
proof -
  from new_artist_event [OF assms(2,1)] obtain c pl a1 where c: "ba_uncommitted a0 = [c]" "ev_type c = ev_artist_created"
    "decode_event dec_artist_created c = Ok pl" "ac_id pl = i" "artist_apply c (empty_artist i) = Ok a1"
    "artist_shown a1 = created_row c pl" "artist_checks (created_row c pl)" "ba_id a0 = i" by blast
  from artist_commands_events [OF assms(3)] c(1,8) obtain es where
    es: "ba_uncommitted a = c # es" "\<forall>e\<in>set es. artist_fits i e" by auto
  have src: "artist.sourced [] a"
    using artist_commands_sourced [OF assms(3) new_artist_sourced [OF assms(2,1)]] .
  have "ba_id a = i" using artist_commands_id [OF assms(3)] c(8) by simp
  with src es(1) c(5) have "apply_events artist_apply a1 es = Ok (with_uncommitted [] a)"
    by (simp add: artist.sourced_def)
  moreover have "sorted_wrt (<) (map ev_version (c # es))"
    using src es(1) validate_loop_versions [of "ba_id a" stream_type_artist 1 "c # es"]
    by (simp add: artist.sourced_def sorted_wrt_map sorted_wrt_upt [THEN sorted_wrt_mono_rel [rotated]] del: upt_Suc)
  ultimately show ?thesis using c es unfolding artist_stream_def by blast
qed

lemma artist_shown_with [simp]: "artist_shown (with_uncommitted us a) = artist_shown a"
  by (simp add: artist_shown_def with_uncommitted_def)

text \<open>Projecting a whole stream, whether the row is new or already shows the artist.\<close>

lemma project_stream:
  assumes "artist_stream i a c es" and "distinct (map ev_id (ba_uncommitted a))"
    and "artist_row i rm \<in> {None, Some (artist_shown a)}"
    and "\<forall>x\<in>set (rm_history rm). hr_artist x \<noteq> i \<and> hr_id x \<notin> ev_id ` set (ba_uncommitted a)"
  shows "\<exists>rm'. project_artist None fk (ba_uncommitted a) rm = (Ok (), rm')
    \<and> artist_row i rm' = Some (artist_shown a) \<and> (\<forall>j. j \<noteq> i \<longrightarrow> artist_row j rm' = artist_row j rm)
    \<and> rm_history rm' = rm_history rm @ concat (map history_of_event es)
    \<and> rm_job_artists rm' = rm_job_artists rm"
proof -
  from assms(1) obtain pl a1 where pl: "ba_uncommitted a = c # es" "\<forall>e\<in>set es. artist_fits i e"
    "ev_type c = ev_artist_created" "sorted_wrt (<) (map ev_version (c # es))" "decode_event dec_artist_created c = Ok pl"
    "ac_id pl = i" "artist_shown a1 = created_row c pl" "artist_checks (created_row c pl)"
    "apply_events artist_apply a1 es = Ok (with_uncommitted [] a)" unfolding artist_stream_def by blast
  let ?rm1 = "rm\<lparr>rm_artists := insert_ignore i (created_row c pl) (rm_artists rm)\<rparr>"
  have first: "project_artist_event fk c rm = Ok ?rm1"
    using pl(3,5,6,8) by (simp add: project_artist_event_def insert_row_def)
  have free: "history_free i es ?rm1"
    using assms(2,4) pl(1) pl(4) [unfolded strict_sorted_iff] by (auto simp: history_free_def)
  have others: "\<forall>j. j \<noteq> i \<longrightarrow> artist_row j ?rm1 = artist_row j rm"
    by (simp add: artist_row_def split: option.split)
  have shown: "artist_shown a = fold artist_effect es (created_row c pl)" and ok: "artist_checks (artist_shown a)"
  proof -
    let ?m = "\<lparr>rm_artists = [(i, created_row c pl)], rm_history = [], rm_job_artists = [], rm_albums = [], rm_songs = []\<rparr>"
    have m: "artist_row i ?m = Some (created_row c pl)" "history_free i es ?m"
      using free by (simp_all add: artist_row_def history_free_def)
    from artist_view.proj_rows [OF m(1) pl(8,2) m(2), of fk]
      artist_view.view_follows [of i ?m a1 es "with_uncommitted [] a" fk] m pl(2,7,8,9)
    show "artist_shown a = fold artist_effect es (created_row c pl)" "artist_checks (artist_shown a)" by auto
  qed
  obtain r where r: "artist_row i ?rm1 = Some r" "artist_checks r" "fold artist_effect es r = artist_shown a"
  proof (cases "artist_row i rm")
    case None
    then show ?thesis using that [of "created_row c pl"] pl(8) shown by (simp add: artist_row_def)
  next
    case (Some r)
    then have "r = artist_shown a" using assms(3) by simp
    with Some show ?thesis
      using that [of r] ok artist_effects_twice [of es "created_row c pl"] shown by (simp add: artist_row_def)
  qed
  from artist_view.proj_rows [OF r(1,2) pl(2) free, of fk] project_artist_history [OF r(1,2) pl(2) free, of fk] r(3)
  obtain rm' where rm': "fold_res (\<lambda>rm e. project_artist_event fk e rm) ?rm1 es = Ok rm'"
    "artist_row i rm' = Some (artist_shown a)" "\<forall>j. j \<noteq> i \<longrightarrow> artist_row j rm' = artist_row j ?rm1"
    "rm_history rm' = rm_history rm @ concat (map history_of_event es)" "rm_job_artists rm' = rm_job_artists rm" by auto
  then have "project_artist None fk (ba_uncommitted a) rm = (Ok (), rm')"
    using first pl(1) by (simp add: project_artist_def project_tx_def)
  with rm' others show ?thesis by auto
qed

text \<open>The newest history row shows the current listeners.\<close>

definition newest_listeners :: "int \<Rightarrow> history_row list \<Rightarrow> int" where
  "newest_listeners k hs = (case rev hs of [] \<Rightarrow> k | h # _ \<Rightarrow> hr_listeners h)"

lemma newest_listeners_simps [simp]:
  "newest_listeners k [] = k" "newest_listeners k (hs @ [h]) = hr_listeners h"
  by (simp_all add: newest_listeners_def)

lemma latest_listeners:
  assumes "apply_events artist_apply a es = Ok a'" and "\<forall>e\<in>set es. artist_fits i e"
  shows "newest_listeners (ar_listeners a) (concat (map history_of_event es)) = ar_listeners a'"
  using assms
proof (induction es arbitrary: a' rule: rev_induct)
  case (snoc e es)
  from snoc.prems(1) obtain a1 where a1: "apply_events artist_apply a es = Ok a1" "artist_apply e a1 = Ok a'"
    by (auto simp: apply_events_append bind_res_eq_Inr)
  have fit: "artist_fits i e" using snoc.prems(2) by simp
  from artist_view.ap_effect [OF fit a1(2)] have "ar_listeners a' = am_listeners (artist_effect e (artist_shown a1))"
    by (metis artist_model.select_convs(3) artist_shown_def)
  then have new: "if history_of_event e = [] then ar_listeners a' = ar_listeners a1
      else \<exists>h. history_of_event e = [h] \<and> hr_listeners h = ar_listeners a'"
    by (cases "ev_type e = ev_listeners_scraped")
      (auto simp: artist_effect_def history_of_event_def artist_shown_def Let_def split: sum.split)
  from snoc.IH [OF a1(1)] snoc.prems(2) new show ?case
    by (cases "history_of_event e = []") auto
qed simp

lemma insort_key_last: "\<forall>y\<in>set ys. f y < f x \<Longrightarrow> insort_key f x ys = ys @ [x]" for f :: "'a \<Rightarrow> 'k :: linorder"
  by (induction ys) auto

lemma sort_newest_first:
  fixes f :: "'a \<Rightarrow> int"
  shows "sorted_wrt (\<lambda>x y. f x < f y) xs \<Longrightarrow> sort_key (\<lambda>x. - f x) xs = rev xs"
  by (induction xs) (simp_all add: insort_key_last)

lemma history_rows_ordered:
  "sorted_wrt (<) (map ev_version es) \<Longrightarrow>
     sorted_wrt (\<lambda>x y. hr_version x < hr_version y) (concat (map history_of_event es))"
proof (induction es)
  case (Cons e es)
  have "hr_version y \<in> ev_version ` set es" if "y \<in> set (concat (map history_of_event es))" for y
  proof -
    from that obtain d where d: "d \<in> set es" "y \<in> set (history_of_event d)" by auto
    with history_of_event_cases [of d] show ?thesis by auto
  qed
  moreover have "\<forall>v\<in>ev_version ` set es. ev_version e < v" using Cons.prems by simp
  ultimately have "\<forall>y\<in>set (concat (map history_of_event es)). ev_version e < hr_version y" by blast
  moreover have "sorted_wrt (\<lambda>x y. hr_version x < hr_version y) (concat (map history_of_event es))"
    using Cons by simp
  ultimately show ?case using history_of_event_cases [of e] by (elim disjE exE) simp_all
qed simp

lemma history_rows_artist:
  assumes "\<forall>e\<in>set es. artist_fits i e" and "x \<in> set (concat (map history_of_event es))"
  shows "hr_artist x = i"
proof -
  from assms(2) obtain e where e: "e \<in> set es" "x \<in> set (history_of_event e)" by auto
  with assms(1) have "artist_fits i e" by blast
  with e(2) show ?thesis
    by (cases "ev_type e = ev_listeners_scraped"; cases "decode_event dec_listeners_scraped e")
      (auto simp: history_of_event_def artist_fits_def)
qed

section \<open>Properties\<close>


definition sample_shown :: "artist res" where
  "sample_shown =
     bind_res (new_artist \<lparr>st_uuid = ''1'', st_now = 0\<rparr> ''ar_1'' ''Opeth'' ''sp_1'' ''rock_metal'' [])
       (record_monthly_listeners 5 \<lparr>st_uuid = ''2'', st_now = 5\<rparr> 900 ''spotify'' 30 [])"

definition other_models :: read_models where
  "other_models =
     \<lparr>rm_artists = [(''ar_0'', \<lparr>am_name = ''Katatonia'', am_spotify = [], am_listeners = 7, am_genre = ''rock_metal'',
          am_list = ''waiting'', am_fetch = ''idle'', am_collection = 0, am_total = 0, am_updated = 0, am_created = 0\<rparr>)],
      rm_history = [], rm_job_artists = [''ar_0''], rm_albums = [], rm_songs = []\<rparr>"


end
