(* ===== verification/Catalog_Views.thy ===== *)
theory Catalog_Views
  imports Projection_Properties
begin

text \<open>
  The album and song read models follow their aggregates
  (\<^verbatim>\<open>internal/projections/catalog_projection.go\<close>): both projections interpret \<open>aggregate_view\<close>.
\<close>

section \<open>Albums\<close>

definition album_row :: "string \<Rightarrow> read_models \<Rightarrow> album_model option" where
  "album_row i rm = map_of (rm_albums rm) i"

definition album_shown :: "time \<Rightarrow> album \<Rightarrow> album_model" where
  "album_shown t a =
     \<lparr>lm_title = al_title a, lm_artist = al_artist a, lm_collection = al_collection a, lm_total = al_total a,
      lm_status = al_status a, lm_created = t\<rparr>"

definition album_effect :: "event \<Rightarrow> album_model \<Rightarrow> album_model" where
  "album_effect e r =
     (if ev_type e = ev_album_status then
        (case decode_event dec_album_status e of Inl err \<Rightarrow> r | Inr pl \<Rightarrow> r\<lparr>lm_status := als_new pl\<rparr>)
      else if ev_type e = ev_album_counts then
        (case decode_event dec_album_counts e of Inl err \<Rightarrow> r
         | Inr pl \<Rightarrow> r\<lparr>lm_collection := ala_collection pl, lm_total := ala_total pl\<rparr>)
      else r)"

definition album_fits :: "string \<Rightarrow> event \<Rightarrow> bool" where
  "album_fits i e \<longleftrightarrow> ev_stype e = stream_type_album \<and>
     (if ev_type e = ev_album_status then
        (case decode_event dec_album_status e of Inl err \<Rightarrow> False
         | Inr pl \<Rightarrow> als_album pl = i \<and> valid_album_status (als_new pl))
      else if ev_type e = ev_album_counts then
        (case decode_event dec_album_counts e of Inl err \<Rightarrow> False | Inr pl \<Rightarrow> ala_album pl = i)
      else False)"

lemma album_types [simp]:
  "ev_album_created \<noteq> ev_album_status" "ev_album_created \<noteq> ev_album_counts" "ev_album_status \<noteq> ev_album_counts"
  "ev_album_status \<noteq> ev_album_created" "ev_album_counts \<noteq> ev_album_created" "ev_album_counts \<noteq> ev_album_status"
  by (simp_all add: album_event_types)

lemma album_song_streams [simp]:
  "stream_type_song \<noteq> stream_type_album" "stream_type_album \<noteq> stream_type_song"
  by (simp_all add: stream_type_song_def stream_type_album_def)

lemma update_album_hit:
  "album_row i rm = Some r \<Longrightarrow> album_checks (f r) \<Longrightarrow>
     update_album i f rm = Ok (rm\<lparr>rm_albums := kv_put i (f r) (rm_albums rm)\<rparr>)"
  by (simp add: update_album_def album_row_def update_row_hit)

lemma project_album_step:
  assumes "album_row i rm = Some r" and "album_checks r" and "album_fits i e"
  shows "project_catalog_event e rm = Ok (rm\<lparr>rm_albums := kv_put i (album_effect e r) (rm_albums rm)\<rparr>)
    \<and> album_checks (album_effect e r)"
proof -
  from assms(3) consider pl where "ev_type e = ev_album_status" "decode_event dec_album_status e = Ok pl"
      "als_album pl = i" "valid_album_status (als_new pl)"
    | pl where "ev_type e = ev_album_counts" "decode_event dec_album_counts e = Ok pl" "ala_album pl = i"
    by (auto simp: album_fits_def split: if_splits sum.splits)
  then show ?thesis
    using assms
    by cases (simp_all add: project_catalog_event_def project_album_event_def album_fits_def album_effect_def
        album_checks_def update_album_hit)
qed

interpretation album_view: aggregate_view project_catalog_event album_row album_effect album_checks album_fits
  "\<lambda>i es m. True" album_apply "album_shown t"
proof
  fix i rm r e and es :: "event list"
  assume "album_row i rm = Some r" "album_checks r" "album_fits i e"
  from project_album_step [OF this]
  show "\<exists>m'. project_catalog_event e rm = Ok m' \<and> album_row i m' = Some (album_effect e r)
      \<and> album_checks (album_effect e r) \<and> True \<and> (\<forall>j. j \<noteq> i \<longrightarrow> album_row j m' = album_row j rm)"
    by (simp add: album_row_def)
next
  fix i e and a a' :: album
  assume "album_fits i e" "album_apply e a = Ok a'"
  then show "album_shown t a' = album_effect e (album_shown t a)"
    by (auto simp: album_fits_def album_apply_def album_effect_def album_shown_def Let_def
        split: if_splits sum.splits)
qed

section \<open>Songs\<close>

definition song_row :: "string \<Rightarrow> read_models \<Rightarrow> song_model option" where
  "song_row i rm = map_of (rm_songs rm) i"

definition song_shown :: "time \<Rightarrow> song \<Rightarrow> song_model" where
  "song_shown t s =
     \<lparr>sm_title = so_title s, sm_artist = so_artist s, sm_album_name = so_album s, sm_release_date = so_date s,
      sm_release_year = so_year s, sm_release_type = so_type s, sm_spotify = so_spotify s, sm_recent = so_recent s,
      sm_seq = so_seq s, sm_pos = so_pos s, sm_tidal = so_tidal s, sm_duplicate_of = so_duplicate_of s, sm_created = t\<rparr>"

definition song_effect :: "event \<Rightarrow> song_model \<Rightarrow> song_model" where
  "song_effect e r =
     (if ev_type e = ev_recent_flag then
        (case decode_event dec_recent_flag e of Inl err \<Rightarrow> r
         | Inr pl \<Rightarrow> r\<lparr>sm_recent := rfc_recent pl, sm_seq := rfc_seq pl, sm_pos := rfc_pos pl\<rparr>)
      else if ev_type e = ev_song_enriched then
        (case decode_event dec_song_metadata e of Inl err \<Rightarrow> r
         | Inr pl \<Rightarrow> r\<lparr>sm_album_name := sm_album pl, sm_release_date := sm_date pl, sm_release_year := sm_year pl,
                sm_release_type := (if sm_type pl = [] then sm_release_type r else sm_type pl)\<rparr>)
      else if ev_type e = ev_tidal_linked then
        (case decode_event dec_tidal_linked e of Inl err \<Rightarrow> r | Inr pl \<Rightarrow> r\<lparr>sm_tidal := tl_tidal pl\<rparr>)
      else if ev_type e = ev_song_corrected then
        (case decode_event dec_song_metadata e of Inl err \<Rightarrow> r
         | Inr pl \<Rightarrow> r\<lparr>sm_album_name := sm_album pl, sm_release_date := sm_date pl, sm_release_year := sm_year pl,
                sm_release_type := sm_type pl\<rparr>)
      else if ev_type e = ev_credits_corrected then
        (case decode_event dec_credits e of Inl err \<Rightarrow> r | Inr pl \<Rightarrow> r\<lparr>sm_artist := cc_artist pl\<rparr>)
      else if ev_type e = ev_marked_duplicate then
        (case decode_event dec_duplicate e of Inl err \<Rightarrow> r | Inr pl \<Rightarrow> r\<lparr>sm_duplicate_of := md_canonical pl\<rparr>)
      else r)"

text \<open>The song an event is about, as its payload says.\<close>

definition song_of :: "event \<Rightarrow> string option" where
  "song_of e =
     (let opt = (\<lambda>f r. case r of Inl err \<Rightarrow> None | Inr pl \<Rightarrow> Some (f pl))
      in if ev_type e = ev_recent_flag then opt rfc_song (decode_event dec_recent_flag e)
         else if ev_type e = ev_song_enriched \<or> ev_type e = ev_song_corrected
         then (case decode_event dec_song_metadata e of Inl err \<Rightarrow> None | Inr pl \<Rightarrow> Some (sm_song pl))
         else if ev_type e = ev_tidal_linked
         then (case decode_event dec_tidal_linked e of Inl err \<Rightarrow> None | Inr pl \<Rightarrow> Some (tl_song pl))
         else if ev_type e = ev_credits_corrected
         then (case decode_event dec_credits e of Inl err \<Rightarrow> None | Inr pl \<Rightarrow> Some (cc_song pl))
         else if ev_type e = ev_marked_duplicate
         then (case decode_event dec_duplicate e of Inl err \<Rightarrow> None | Inr pl \<Rightarrow> Some (md_song pl))
         else None)"

definition song_fits :: "string \<Rightarrow> event \<Rightarrow> bool" where
  "song_fits i e \<longleftrightarrow> ev_stype e = stream_type_song \<and> song_of e = Some i"

lemma update_song_hit:
  "song_row i rm = Some r \<Longrightarrow> update_song i f rm = Ok (rm\<lparr>rm_songs := kv_put i (f r) (rm_songs rm)\<rparr>)"
  by (simp add: update_song_def song_row_def update_row_hit)

lemma song_fits_cases:
  assumes "song_fits i e"
  obtains (recent) pl where "ev_type e = ev_recent_flag" "decode_event dec_recent_flag e = Ok pl" "rfc_song pl = i"
  | (enriched) pl where "ev_type e = ev_song_enriched" "decode_event dec_song_metadata e = Ok pl" "sm_song pl = i"
  | (linked) pl where "ev_type e = ev_tidal_linked" "decode_event dec_tidal_linked e = Ok pl" "tl_song pl = i"
  | (corrected) pl where "ev_type e = ev_song_corrected" "decode_event dec_song_metadata e = Ok pl" "sm_song pl = i"
  | (credits) pl where "ev_type e = ev_credits_corrected" "decode_event dec_credits e = Ok pl" "cc_song pl = i"
  | (duplicate) pl where "ev_type e = ev_marked_duplicate" "decode_event dec_duplicate e = Ok pl" "md_song pl = i"
  using assms unfolding song_fits_def song_of_def Let_def by (auto split: if_splits sum.splits)

lemma project_song_step:
  assumes "song_row i rm = Some r" and "song_fits i e"
  shows "project_catalog_event e rm = Ok (rm\<lparr>rm_songs := kv_put i (song_effect e r) (rm_songs rm)\<rparr>)"
proof -
  have st: "ev_stype e = stream_type_song" using assms(2) by (simp add: song_fits_def)
  from assms(2) show ?thesis
    by (cases rule: song_fits_cases)
      (use assms(1) st in \<open>simp_all add: project_catalog_event_def project_song_event_def song_effect_def
        update_song_hit Let_def song_event_types\<close>)
qed

interpretation song_view: aggregate_view project_catalog_event song_row song_effect "\<lambda>r. True" song_fits
  "\<lambda>i es m. True" song_apply "song_shown t"
proof
  fix i rm r e and es :: "event list"
  assume "song_row i rm = Some r" "song_fits i e"
  from project_song_step [OF this]
  show "\<exists>m'. project_catalog_event e rm = Ok m' \<and> song_row i m' = Some (song_effect e r)
      \<and> True \<and> True \<and> (\<forall>j. j \<noteq> i \<longrightarrow> song_row j m' = song_row j rm)"
    by (simp add: song_row_def)
next
  fix i e and s s' :: song
  assume "song_fits i e" "song_apply e s = Ok s'"
  then show "song_shown t s' = song_effect e (song_shown t s)"
    by (cases rule: song_fits_cases)
      (auto simp: song_apply_def song_effect_def song_shown_def Let_def song_event_types)
qed

section \<open>The events of commands\<close>

lemma album_raised:
  assumes "raise_event album_apply st et pl MetaNil a = Ok a'"
  obtains e b where "e = new_event st (ba_id a) (ba_stype a) (ba_version a + 1) et pl MetaNil"
    "ba_uncommitted a' = ba_uncommitted a @ [e]" "album_apply e b = Ok a'"
proof -
  let ?e = "new_event st (ba_id a) (ba_stype a) (ba_version a + 1) et pl MetaNil"
  from assms have run: "album_apply ?e (a\<lparr>ba_version := ba_version a + 1, ba_uncommitted := ba_uncommitted a @ [?e]\<rparr>) = Ok a'"
    by (simp add: record_that_event)
  from album_apply_frame [OF this] show ?thesis by (intro that [OF refl _ run]) simp
qed

lemma song_raised:
  assumes "raise_event song_apply st et pl MetaNil s = Ok s'"
  obtains e b where "e = new_event st (ba_id s) (ba_stype s) (ba_version s + 1) et pl MetaNil"
    "ba_uncommitted s' = ba_uncommitted s @ [e]" "song_apply e b = Ok s'"
proof -
  let ?e = "new_event st (ba_id s) (ba_stype s) (ba_version s + 1) et pl MetaNil"
  from assms have run: "song_apply ?e (s\<lparr>ba_version := ba_version s + 1, ba_uncommitted := ba_uncommitted s @ [?e]\<rparr>) = Ok s'"
    by (simp add: record_that_event)
  from song_apply_frame [OF this] show ?thesis by (intro that [OF refl _ run]) simp
qed

lemma dec_enc_created:
  "dec_album_created (normalize_ron_time (enc_album_created c)) = Some c' \<Longrightarrow> c' = c"
  "dec_song_created (normalize_ron_time (enc_song_created s)) = Some s' \<Longrightarrow> s' = s"
  by (auto simp: enc_album_created_def dec_album_created_def enc_song_created_def dec_song_created_def utc_key_def
      split: if_splits)

lemma album_command_event:
  assumes "album_command a a'" and "ba_stype a = stream_type_album"
  shows "a' = a \<or> (\<exists>e. ba_uncommitted a' = ba_uncommitted a @ [e] \<and> album_fits (ba_id a) e)"
  using assms(1)
proof cases
  case (1 st new)
  show ?thesis
  proof (cases "a' = a")
    case False
    with 1 have v: "valid_album_status new" and r: "raise_event album_apply st ev_album_status
        (enc_album_status \<lparr>als_album = ba_id a, als_old = al_status a, als_new = new\<rparr>) MetaNil a = Ok a'"
      by (auto simp: album_change_status_def split: if_splits)
    from r show ?thesis
      by (rule album_raised) (use v assms(2) in \<open>auto simp: album_fits_def decode_new_event\<close>)
  qed simp
next
  case (2 st c t)
  show ?thesis
  proof (cases "a' = a")
    case False
    with 2 have r: "raise_event album_apply st ev_album_counts
        (enc_album_counts \<lparr>ala_album = ba_id a, ala_collection = c, ala_total = t\<rparr>) MetaNil a = Ok a'"
      by (auto simp: album_adjust_counts_def split: if_splits)
    from r show ?thesis
    proof (rule album_raised)
      fix e b
      assume e: "e = new_event st (ba_id a) (ba_stype a) (ba_version a + 1) ev_album_counts
          (enc_album_counts \<lparr>ala_album = ba_id a, ala_collection = c, ala_total = t\<rparr>) MetaNil"
        "ba_uncommitted a' = ba_uncommitted a @ [e]" "album_apply e b = Ok a'"
      from e(1,3) obtain x where x: "dec_album_counts (normalize_ron_time (enc_album_counts
          \<lparr>ala_album = ba_id a, ala_collection = c, ala_total = t\<rparr>)) = Some x"
        by (auto simp: album_apply_def decode_new_event bind_res_eq_Inr)
      from dec_enc_exact(3) [OF x] x have "album_fits (ba_id a) e"
        using e(1) assms(2) by (simp add: album_fits_def decode_new_event)
      with e(2) show ?thesis by blast
    qed
  qed simp
qed

lemma song_record_shapes:
  "\<exists>b x. sm_song x = ba_id s \<and> song_enrich st al d ty src s =
     (if b then Ok (False, s) else song_record st ev_song_enriched (enc_song_metadata x) s)"
  "\<exists>b x. sm_song x = ba_id s \<and> song_correct st al d ty src s =
     (if b then Ok (False, s) else song_record st ev_song_corrected (enc_song_metadata x) s)"
  unfolding song_enrich_def song_correct_def Let_def
  by (intro exI conjI; (rule refl)?; simp)+

lemma song_recordD: "song_record st et pl s = Ok (new, s') \<Longrightarrow> raise_event song_apply st et pl MetaNil s = Ok s'"
  by (auto simp: song_record_def bind_res_eq_Inr)

definition song_raises :: "song \<Rightarrow> song \<Rightarrow> bool" where
  "song_raises s s' \<longleftrightarrow>
     (\<exists>st x. raise_event song_apply st ev_recent_flag (enc_recent_flag x) MetaNil s = Ok s' \<and> rfc_song x = ba_id s)
    \<or> (\<exists>st x et. raise_event song_apply st et (enc_song_metadata x) MetaNil s = Ok s' \<and> sm_song x = ba_id s
         \<and> et \<in> {ev_song_enriched, ev_song_corrected})
    \<or> (\<exists>st x. raise_event song_apply st ev_tidal_linked (enc_tidal_linked x) MetaNil s = Ok s' \<and> tl_song x = ba_id s)
    \<or> (\<exists>st x. raise_event song_apply st ev_credits_corrected (enc_credits x) MetaNil s = Ok s' \<and> cc_song x = ba_id s)
    \<or> (\<exists>st x. raise_event song_apply st ev_marked_duplicate (enc_duplicate x) MetaNil s = Ok s' \<and> md_song x = ba_id s)"

lemma song_command_raises:
  assumes "song_command s s'"
  shows "s' = s \<or> song_raises s s'"
  using assms
proof cases
  case (1 st r q p)
  then have "s' = s \<or> raise_event song_apply st ev_recent_flag (enc_recent_flag
      \<lparr>rfc_song = ba_id s, rfc_recent = r, rfc_seq = q, rfc_pos = p\<rparr>) MetaNil s = Ok s'"
    by (auto simp: song_set_recent_def split: if_splits)
  then show ?thesis unfolding song_raises_def by (metis recent_flag_changed.select_convs(1))
next
  case (2 st al d ty src new)
  from song_record_shapes(1) [of s st al d ty src] obtain b x where "sm_song x = ba_id s"
    "song_enrich st al d ty src s = (if b then Ok (False, s) else song_record st ev_song_enriched (enc_song_metadata x) s)" by blast
  with 2 have "sm_song x = ba_id s" "s' = s \<or> raise_event song_apply st ev_song_enriched (enc_song_metadata x) MetaNil s = Ok s'"
    by (cases b; auto dest: song_recordD)+
  then show ?thesis unfolding song_raises_def by blast
next
  case (3 st t how c new)
  then have "s' = s \<or> raise_event song_apply st ev_tidal_linked (enc_tidal_linked
      \<lparr>tl_song = ba_id s, tl_tidal = trim_space t, tl_method = how, tl_confidence = c\<rparr>) MetaNil s = Ok s'"
    by (auto simp: song_link_tidal_def Let_def dest: song_recordD split: if_splits)
  then show ?thesis unfolding song_raises_def by (metis tidal_linked.select_convs(1))
next
  case (4 st al d ty src new)
  from song_record_shapes(2) [of s st al d ty src] obtain b x where "sm_song x = ba_id s"
    "song_correct st al d ty src s = (if b then Ok (False, s) else song_record st ev_song_corrected (enc_song_metadata x) s)" by blast
  with 4 have "sm_song x = ba_id s" "s' = s \<or> raise_event song_apply st ev_song_corrected (enc_song_metadata x) MetaNil s = Ok s'"
    by (cases b; auto dest: song_recordD)+
  then show ?thesis unfolding song_raises_def by blast
next
  case (5 st ar src new)
  then have "s' = s \<or> raise_event song_apply st ev_credits_corrected
      (enc_credits \<lparr>cc_song = ba_id s, cc_artist = trim_space ar, cc_source = src\<rparr>) MetaNil s = Ok s'"
    by (auto simp: song_correct_credits_def Let_def dest: song_recordD split: if_splits)
  then show ?thesis unfolding song_raises_def by (metis credits_corrected.select_convs(1))
next
  case (6 st c src new)
  then have "s' = s \<or> raise_event song_apply st ev_marked_duplicate
      (enc_duplicate \<lparr>md_song = ba_id s, md_canonical = trim_space c, md_source = src\<rparr>) MetaNil s = Ok s'"
    by (auto simp: song_mark_duplicate_def Let_def dest: song_recordD split: if_splits)
  then show ?thesis unfolding song_raises_def by (metis marked_duplicate.select_convs(1))
qed

text \<open>What \<open>apply\<close> decoded is what was encoded, so the payload is about this song.\<close>

lemma song_applied_song:
  assumes "e = new_event st i sty v et pl MetaNil" and "song_apply e s = Ok s'"
  shows "et = ev_recent_flag \<Longrightarrow> pl = enc_recent_flag f \<Longrightarrow> song_of e = Some (rfc_song f)"
    and "et \<in> {ev_song_enriched, ev_song_corrected} \<Longrightarrow> pl = enc_song_metadata m \<Longrightarrow> song_of e = Some (sm_song m)"
    and "et = ev_tidal_linked \<Longrightarrow> pl = enc_tidal_linked t \<Longrightarrow> song_of e = Some (tl_song t)"
    and "et = ev_credits_corrected \<Longrightarrow> pl = enc_credits c \<Longrightarrow> song_of e = Some (cc_song c)"
    and "et = ev_marked_duplicate \<Longrightarrow> pl = enc_duplicate d \<Longrightarrow> song_of e = Some (md_song d)"
proof -
  show "song_of e = Some (rfc_song f)" if "et = ev_recent_flag" "pl = enc_recent_flag f"
  proof -
    from assms that obtain x where x: "dec_recent_flag (normalize_ron_time (enc_recent_flag f)) = Some x"
      by (auto simp: song_apply_def Let_def decode_new_event bind_res_eq_Inr song_event_types)
    from dec_enc_exact(4) [OF x] x show ?thesis
      using assms(1) that by (simp add: song_of_def decode_new_event)
  qed
  show "song_of e = Some (sm_song m)" if "et \<in> {ev_song_enriched, ev_song_corrected}" "pl = enc_song_metadata m"
  proof -
    from assms that obtain x where x: "dec_song_metadata (normalize_ron_time (enc_song_metadata m)) = Some x"
      by (auto simp: song_apply_def Let_def decode_new_event bind_res_eq_Inr song_event_types)
    from dec_enc_exact(5) [OF x] x show ?thesis
      using assms(1) that by (auto simp: song_of_def decode_new_event song_event_types)
  qed
qed (use assms(1) in \<open>simp_all add: song_of_def decode_new_event song_event_types\<close>)

lemma song_raised_fits:
  assumes "raise_event song_apply st et pl MetaNil s = Ok s'" and "ba_stype s = stream_type_song"
    and "\<And>e b. e = new_event st (ba_id s) (ba_stype s) (ba_version s + 1) et pl MetaNil \<Longrightarrow> song_apply e b = Ok s' \<Longrightarrow>
           song_of e = Some (ba_id s)"
  shows "\<exists>e. ba_uncommitted s' = ba_uncommitted s @ [e] \<and> song_fits (ba_id s) e"
proof -
  from assms(1) obtain e b where e: "e = new_event st (ba_id s) (ba_stype s) (ba_version s + 1) et pl MetaNil"
    "ba_uncommitted s' = ba_uncommitted s @ [e]" "song_apply e b = Ok s'" by (rule song_raised)
  from assms(3) [OF e(1,3)] e(1,2) assms(2) show ?thesis unfolding song_fits_def by auto
qed

lemma song_command_event:
  assumes "song_command s s'" and "ba_stype s = stream_type_song"
  shows "s' = s \<or> (\<exists>e. ba_uncommitted s' = ba_uncommitted s @ [e] \<and> song_fits (ba_id s) e)"
  using song_command_raises [OF assms(1)]
proof
  assume "song_raises s s'"
  then have "\<exists>e. ba_uncommitted s' = ba_uncommitted s @ [e] \<and> song_fits (ba_id s) e"
    unfolding song_raises_def
  proof (elim disjE exE conjE)
    fix st x
    assume "raise_event song_apply st ev_recent_flag (enc_recent_flag x) MetaNil s = Ok s'" "rfc_song x = ba_id s"
    from song_raised_fits [OF this(1) assms(2)] song_applied_song(1) this(2) show ?thesis by metis
  next
    fix st x et
    assume "raise_event song_apply st et (enc_song_metadata x) MetaNil s = Ok s'" "sm_song x = ba_id s"
      "et \<in> {ev_song_enriched, ev_song_corrected}"
    from song_raised_fits [OF this(1) assms(2)] song_applied_song(2) this(2,3) show ?thesis by metis
  next
    fix st x
    assume "raise_event song_apply st ev_tidal_linked (enc_tidal_linked x) MetaNil s = Ok s'" "tl_song x = ba_id s"
    from song_raised_fits [OF this(1) assms(2)] song_applied_song(3) this(2) show ?thesis by metis
  next
    fix st x
    assume "raise_event song_apply st ev_credits_corrected (enc_credits x) MetaNil s = Ok s'" "cc_song x = ba_id s"
    from song_raised_fits [OF this(1) assms(2)] song_applied_song(4) this(2) show ?thesis by metis
  next
    fix st x
    assume "raise_event song_apply st ev_marked_duplicate (enc_duplicate x) MetaNil s = Ok s'" "md_song x = ba_id s"
    from song_raised_fits [OF this(1) assms(2)] song_applied_song(5) this(2) show ?thesis by metis
  qed
  then show ?thesis ..
qed simp

section \<open>Whole streams\<close>

context aggregate_view begin

text \<open>
  A creation that inserts a row unless one is there, then events that fit: the row shows the aggregate
  the events lead to, on the first delivery and on every later one.
\<close>

lemma created_stream:
  assumes "proj c m = Ok m1" and "row i m1 = (case row i m of None \<Rightarrow> Some (shown a1) | Some r \<Rightarrow> Some r)"
    and "\<forall>j. j \<noteq> i \<longrightarrow> row j m1 = row j m"
    and "valid (shown a1)" and "\<forall>e\<in>set es. fits i e" and "free i es m1" and "apply_events ap a1 es = Ok a"
    and "\<And>r. fold effect es (fold effect es r) = fold effect es r"
    and "row i m = None \<or> row i m = Some (shown a) \<and> valid (shown a)"
  shows "\<exists>m'. fold_res (\<lambda>m e. proj e m) m (c # es) = Ok m' \<and> row i m' = Some (shown a) \<and> valid (shown a)
    \<and> (\<forall>j. j \<noteq> i \<longrightarrow> row j m' = row j m)"
proof (cases "row i m")
  case None
  with assms(2) have "row i m1 = Some (shown a1)" by simp
  from view_follows [OF this assms(4-7)] assms(1,3) show ?thesis by auto
next
  case (Some r)
  with assms(2,9) have r: "row i m1 = Some (shown a)" "valid (shown a)" by simp_all
  have "shown a = fold effect es (shown a1)" using shown_fold [OF assms(5,7)] .
  then have "fold effect es (shown a) = shown a" using assms(8) by simp
  with proj_rows [OF r assms(5,6)] assms(1,3) show ?thesis by auto
qed

end

lemma effects_twice:
  "fold album_effect es (fold album_effect es r) = fold album_effect es r"
  "fold song_effect es (fold song_effect es s) = fold song_effect es s"
proof -
  have a: "keeps_or_sets lm_title (album_effect e)" "keeps_or_sets lm_artist (album_effect e)"
    "keeps_or_sets lm_collection (album_effect e)" "keeps_or_sets lm_total (album_effect e)"
    "keeps_or_sets lm_status (album_effect e)" "keeps_or_sets lm_created (album_effect e)" for e
    unfolding album_effect_def [abs_def] by (intro keeps_or_sets_cases; simp add: keeps_or_sets_def)+
  show "fold album_effect es (fold album_effect es r) = fold album_effect es r"
    by (rule album_model.equality) (simp_all add: a keeps_or_sets_twice keeps_or_sets_fold)
  have b: "keeps_or_sets sm_title (song_effect e)" "keeps_or_sets sm_artist (song_effect e)"
    "keeps_or_sets sm_album_name (song_effect e)" "keeps_or_sets sm_release_date (song_effect e)"
    "keeps_or_sets sm_release_year (song_effect e)" "keeps_or_sets sm_release_type (song_effect e)"
    "keeps_or_sets sm_spotify (song_effect e)" "keeps_or_sets sm_recent (song_effect e)"
    "keeps_or_sets sm_seq (song_effect e)" "keeps_or_sets sm_pos (song_effect e)" "keeps_or_sets sm_tidal (song_effect e)"
    "keeps_or_sets sm_duplicate_of (song_effect e)" "keeps_or_sets sm_created (song_effect e)" for e
    unfolding song_effect_def [abs_def] by (intro keeps_or_sets_cases; simp add: keeps_or_sets_def)+
  show "fold song_effect es (fold song_effect es s) = fold song_effect es s"
    by (rule song_model.equality) (simp_all add: b keeps_or_sets_twice keeps_or_sets_fold)
qed

lemma new_album_event:
  assumes "new_album st i title artist status c t = Ok a0"
  shows "\<exists>e pl a1. ba_uncommitted a0 = [e] \<and> ev_stype e = stream_type_album \<and> ev_type e = ev_album_created
    \<and> decode_event dec_album_created e = Ok pl \<and> alc_id pl = i \<and> album_apply e (empty_album i) = Ok a1
    \<and> album_shown (st_now st) a1 = album_row_of e pl \<and> album_checks (album_row_of e pl) \<and> ba_id a0 = i"
proof -
  obtain pl where pl: "alc_id pl = i" "valid_album_status (alc_status pl)"
    "raise_event album_apply st ev_album_created (enc_album_created pl) MetaNil (empty_album i) = Ok a0"
  proof -
    define pl where "pl = \<lparr>alc_id = i, alc_title = trim_space title, alc_artist = trim_space artist,
        alc_status = (if status = [] then ''waiting'' else status), alc_collection = c, alc_total = t\<rparr>"
    from assms have "raise_event album_apply st ev_album_created (enc_album_created pl) MetaNil (empty_album i) = Ok a0"
      "valid_album_status (alc_status pl)" by (simp_all add: new_album_def Let_def pl_def split: if_splits)
    then show ?thesis by (intro that [of pl]) (simp_all add: pl_def)
  qed
  let ?e = "new_event st i stream_type_album 1 ev_album_created (enc_album_created pl) MetaNil"
  from pl(3) have run: "album_apply ?e ((empty_album i)\<lparr>ba_version := 1, ba_uncommitted := [?e]\<rparr>) = Ok a0"
    by (simp add: record_that_event empty_album_def)
  then obtain x where "dec_album_created (normalize_ron_time (enc_album_created pl)) = Some x"
    by (auto simp: album_apply_def Let_def decode_new_event bind_res_eq_Inr)
  with dec_enc_created(1) have dec: "decode_event dec_album_created ?e = Ok pl"
    by (simp add: decode_new_event)
  have "album_checks (album_row_of ?e pl)" using pl(2) by (simp add: album_checks_def album_row_of_def)
  moreover have "ba_uncommitted a0 = [?e] \<and> ba_id a0 = i" using album_apply_frame [OF run] by (simp add: empty_album_def)
  moreover have "\<exists>a1. album_apply ?e (empty_album i) = Ok a1 \<and> album_shown (st_now st) a1 = album_row_of ?e pl"
    using dec by (simp add: album_apply_def album_shown_def album_row_of_def empty_album_def)
  ultimately show ?thesis using dec pl(1) by (intro exI [of _ ?e] exI [of _ pl]) simp
qed

lemma new_song_event:
  assumes "new_song st i title artist album_name date rtype spotify year seq pos recent = Ok s0"
  shows "\<exists>e pl s1. ba_uncommitted s0 = [e] \<and> ev_stype e = stream_type_song \<and> ev_type e = ev_song_created
    \<and> decode_event dec_song_created e = Ok pl \<and> soc_id pl = i \<and> song_apply e (empty_song i) = Ok s1
    \<and> song_shown (st_now st) s1 = song_row_of e pl \<and> ba_id s0 = i"
proof -
  from assms obtain pl where pl: "soc_id pl = i"
    "raise_event song_apply st ev_song_created (enc_song_created pl) MetaNil (empty_song i) = Ok s0"
    by (auto simp: new_song_def Let_def split: if_splits intro: that [rotated])
  let ?e = "new_event st i stream_type_song 1 ev_song_created (enc_song_created pl) MetaNil"
  from pl(2) have run: "song_apply ?e ((empty_song i)\<lparr>ba_version := 1, ba_uncommitted := [?e]\<rparr>) = Ok s0"
    by (simp add: record_that_event empty_song_def)
  then obtain x where "dec_song_created (normalize_ron_time (enc_song_created pl)) = Some x"
    by (auto simp: song_apply_def Let_def decode_new_event bind_res_eq_Inr)
  with dec_enc_created(2) have dec: "decode_event dec_song_created ?e = Ok pl"
    by (simp add: decode_new_event)
  have "ba_uncommitted s0 = [?e] \<and> ba_id s0 = i" using song_apply_frame [OF run] by (simp add: empty_song_def)
  moreover have "\<exists>s1. song_apply ?e (empty_song i) = Ok s1 \<and> song_shown (st_now st) s1 = song_row_of ?e pl"
    using dec by (simp add: song_apply_def song_shown_def song_row_of_def empty_song_def)
  ultimately show ?thesis using dec pl(1) by (intro exI [of _ ?e] exI [of _ pl]) simp
qed

lemma album_commands_events:
  "album_command\<^sup>*\<^sup>* a0 a \<Longrightarrow> album.sourced [] a0 \<Longrightarrow>
     \<exists>es. ba_uncommitted a = ba_uncommitted a0 @ es \<and> (\<forall>e\<in>set es. album_fits (ba_id a0) e)"
proof (induction rule: rtranclp_induct)
  case (step b c)
  then obtain es where es: "ba_uncommitted b = ba_uncommitted a0 @ es" "\<forall>e\<in>set es. album_fits (ba_id a0) e" by blast
  from album_commands_sourced [OF step(1,4)] have "ba_id b = ba_id a0" "ba_stype b = stream_type_album"
    by (simp_all add: album.sourced_def)
  with album_command_event [OF step(2)] es show ?case by auto
qed simp

lemma song_commands_events:
  "song_command\<^sup>*\<^sup>* s0 s \<Longrightarrow> song.sourced [] s0 \<Longrightarrow>
     \<exists>es. ba_uncommitted s = ba_uncommitted s0 @ es \<and> (\<forall>e\<in>set es. song_fits (ba_id s0) e)"
proof (induction rule: rtranclp_induct)
  case (step b c)
  then obtain es where es: "ba_uncommitted b = ba_uncommitted s0 @ es" "\<forall>e\<in>set es. song_fits (ba_id s0) e" by blast
  from song_commands_sourced [OF step(1,4)] have "ba_id b = ba_id s0" "ba_stype b = stream_type_song"
    by (simp_all add: song.sourced_def)
  with song_command_event [OF step(2)] es show ?case by auto
qed simp

text \<open>The two tables do not touch each other, nor those of the artists.\<close>

lemma project_catalog_event_frame:
  assumes "project_catalog_event e rm = Ok rm'"
  shows "ev_stype e = stream_type_album \<Longrightarrow> rm' = rm\<lparr>rm_albums := rm_albums rm'\<rparr>"
    and "ev_stype e = stream_type_song \<Longrightarrow> rm' = rm\<lparr>rm_songs := rm_songs rm'\<rparr>"
  using assms unfolding project_catalog_event_def project_album_event_def project_song_event_def Let_def
    update_album_def update_song_def
  by (auto simp: bind_res_eq_Inr split: if_splits)

lemma project_catalog_frame:
  assumes "fold_res (\<lambda>rm e. project_catalog_event e rm) rm es = Ok rm'"
  shows "\<forall>e\<in>set es. ev_stype e = stream_type_album \<Longrightarrow> rm' = rm\<lparr>rm_albums := rm_albums rm'\<rparr>"
    and "\<forall>e\<in>set es. ev_stype e = stream_type_song \<Longrightarrow> rm' = rm\<lparr>rm_songs := rm_songs rm'\<rparr>"
  using assms
proof (induction es arbitrary: rm)
  case (Cons e es)
  {
    case 1
    then obtain rm1 where "project_catalog_event e rm = Ok rm1" "fold_res (\<lambda>rm e. project_catalog_event e rm) rm1 es = Ok rm'"
      by (auto simp: bind_res_eq_Inr)
    with project_catalog_event_frame(1) [of e rm rm1] Cons.IH(1) [of rm1] 1(1) show ?case
      by (metis (no_types, lifting) list.set_intros read_models.unfold_congs(4) read_models.update_convs(4) read_models.surjective)
  next
    case 2
    then obtain rm1 where "project_catalog_event e rm = Ok rm1" "fold_res (\<lambda>rm e. project_catalog_event e rm) rm1 es = Ok rm'"
      by (auto simp: bind_res_eq_Inr)
    with project_catalog_event_frame(2) [of e rm rm1] Cons.IH(2) [of rm1] 2(1) show ?case
      by (metis (no_types, lifting) list.set_intros read_models.update_convs(5) read_models.surjective)
  }
qed simp_all

text \<open>Projecting what commands on a new album recorded.\<close>

lemma project_album:
  assumes "new_album st i title artist status c t = Ok a0" and "i \<noteq> []" and "album_command\<^sup>*\<^sup>* a0 a"
    and "album_row i rm = None \<or> album_row i rm = Some (album_shown (st_now st) a) \<and> album_checks (album_shown (st_now st) a)"
  shows "\<exists>rm'. fold_res (\<lambda>rm e. project_catalog_event e rm) rm (ba_uncommitted a) = Ok rm'
    \<and> album_row i rm' = Some (album_shown (st_now st) a) \<and> album_checks (album_shown (st_now st) a)
    \<and> (\<forall>j. j \<noteq> i \<longrightarrow> album_row j rm' = album_row j rm) \<and> rm' = rm\<lparr>rm_albums := rm_albums rm'\<rparr>"
proof -
  from new_album_event [OF assms(1)] obtain e pl a1 where e: "ba_uncommitted a0 = [e]" "ev_stype e = stream_type_album"
    "ev_type e = ev_album_created" "decode_event dec_album_created e = Ok pl" "alc_id pl = i"
    "album_apply e (empty_album i) = Ok a1" "album_shown (st_now st) a1 = album_row_of e pl"
    "album_checks (album_row_of e pl)" "ba_id a0 = i" by blast
  note src = new_album_sourced [OF assms(1,2)]
  from album_commands_events [OF assms(3) src] e(1,9) obtain es where
    es: "ba_uncommitted a = e # es" "\<forall>e\<in>set es. album_fits i e" by auto
  from album_commands_sourced [OF assms(3) src] e(9) have "album.sourced [] a" "ba_id a = i" by simp_all
  with e(6) es(1) have run: "apply_events album_apply a1 es = Ok (with_uncommitted [] a)" by (simp add: album.sourced_def)
  let ?rm = "rm\<lparr>rm_albums := insert_ignore i (album_row_of e pl) (rm_albums rm)\<rparr>"
  have "project_catalog_event e rm = Ok ?rm"
    using e by (simp add: project_catalog_event_def project_album_event_def insert_row_def)
  moreover have "album_shown t (with_uncommitted [] a) = album_shown t a" for t
    by (simp add: album_shown_def with_uncommitted_def)
  moreover have "\<forall>d\<in>set (ba_uncommitted a). ev_stype d = stream_type_album"
    using es e(2) by (auto simp: album_fits_def)
  ultimately show ?thesis
    using project_catalog_frame(1) [of rm "ba_uncommitted a"] album_view.created_stream [of e rm ?rm i "st_now st" a1 es "with_uncommitted [] a"] e(7,8) es run effects_twice(1)
      assms(4) by (auto simp: album_row_def split: option.split)
qed

lemma project_song:
  assumes "new_song st i title artist album_name date rtype spotify year seq pos recent = Ok s0" and "i \<noteq> []"
    and "song_command\<^sup>*\<^sup>* s0 s" and "song_row i rm = None \<or> song_row i rm = Some (song_shown (st_now st) s)"
  shows "\<exists>rm'. fold_res (\<lambda>rm e. project_catalog_event e rm) rm (ba_uncommitted s) = Ok rm'
    \<and> song_row i rm' = Some (song_shown (st_now st) s) \<and> (\<forall>j. j \<noteq> i \<longrightarrow> song_row j rm' = song_row j rm)
    \<and> rm' = rm\<lparr>rm_songs := rm_songs rm'\<rparr>"
proof -
  from new_song_event [OF assms(1)] obtain e pl s1 where e: "ba_uncommitted s0 = [e]" "ev_stype e = stream_type_song"
    "ev_type e = ev_song_created" "decode_event dec_song_created e = Ok pl" "soc_id pl = i"
    "song_apply e (empty_song i) = Ok s1" "song_shown (st_now st) s1 = song_row_of e pl" "ba_id s0 = i" by blast
  note src = new_song_sourced [OF assms(1,2)]
  from song_commands_events [OF assms(3) src] e(1,8) obtain es where
    es: "ba_uncommitted s = e # es" "\<forall>e\<in>set es. song_fits i e" by auto
  from song_commands_sourced [OF assms(3) src] e(8) have "song.sourced [] s" "ba_id s = i" by simp_all
  with e(6) es(1) have run: "apply_events song_apply s1 es = Ok (with_uncommitted [] s)" by (simp add: song.sourced_def)
  let ?rm = "rm\<lparr>rm_songs := insert_ignore i (song_row_of e pl) (rm_songs rm)\<rparr>"
  have "project_catalog_event e rm = Ok ?rm"
    using e by (simp add: project_catalog_event_def project_song_event_def insert_row_def)
  moreover have "song_shown t (with_uncommitted [] s) = song_shown t s" for t
    by (simp add: song_shown_def with_uncommitted_def)
  moreover have "\<forall>d\<in>set (ba_uncommitted s). ev_stype d = stream_type_song"
    using es e(2) by (auto simp: song_fits_def)
  ultimately show ?thesis
    using project_catalog_frame(2) [of rm "ba_uncommitted s"] song_view.created_stream [of e rm ?rm i "st_now st" s1 es "with_uncommitted [] s"] e(7) es run effects_twice(2)
      assms(4) by (auto simp: song_row_def split: option.split)
qed

section \<open>Properties\<close>

text \<open>
  C28. The catalog read models follow the catalog aggregates: after any commands on a new album and a
  new song, one call that projects the events of both gives rows that show the aggregates, leaves
  every other row and table alone, and a redelivery of the same events changes neither row.
\<close>

theorem catalog_projection_follows:
  assumes "new_album st ia title artist status c t = Ok a0" and "ia \<noteq> []" and "album_command\<^sup>*\<^sup>* a0 a"
    and "new_song st' is stitle sartist salbum date rtype spotify year seq pos recent = Ok s0" and "is \<noteq> []"
    and "song_command\<^sup>*\<^sup>* s0 s"
    and "map_of (rm_albums rm) ia = None" and "map_of (rm_songs rm) is = None"
  shows "\<exists>rm' rm2. project_catalog None (ba_uncommitted a @ ba_uncommitted s) rm = (Ok (), rm')
    \<and> project_catalog None (ba_uncommitted a @ ba_uncommitted s) rm' = (Ok (), rm2)
    \<and> (\<forall>r\<in>set [rm', rm2].
         map_of (rm_albums r) ia = Some (album_shown (st_now st) a)
       \<and> map_of (rm_songs r) is = Some (song_shown (st_now st') s)
       \<and> (\<forall>j. j \<noteq> ia \<longrightarrow> map_of (rm_albums r) j = map_of (rm_albums rm) j)
       \<and> (\<forall>j. j \<noteq> is \<longrightarrow> map_of (rm_songs r) j = map_of (rm_songs rm) j)
       \<and> rm_artists r = rm_artists rm \<and> rm_history r = rm_history rm)"
proof -
  let ?run = "\<lambda>r es. fold_res (\<lambda>rm e. project_catalog_event e rm) r es"
  let ?es = "ba_uncommitted a @ ba_uncommitted s"
  let ?shown = "\<lambda>r. album_row ia r = Some (album_shown (st_now st) a) \<and> song_row is r = Some (song_shown (st_now st') s)
     \<and> album_checks (album_shown (st_now st) a)"
  have pass: "\<exists>r'. project_catalog None ?es r = (Ok (), r') \<and> ?shown r'
      \<and> (\<forall>j. j \<noteq> ia \<longrightarrow> album_row j r' = album_row j r) \<and> (\<forall>j. j \<noteq> is \<longrightarrow> song_row j r' = song_row j r)
      \<and> rm_artists r' = rm_artists r \<and> rm_history r' = rm_history r"
    if r: "album_row ia r = None \<and> song_row is r = None \<or> ?shown r" for r
  proof -
    from project_album [OF assms(1-3), of r] r obtain r1 where r1: "?run r (ba_uncommitted a) = Ok r1"
      "album_row ia r1 = Some (album_shown (st_now st) a)" "album_checks (album_shown (st_now st) a)"
      "\<forall>j. j \<noteq> ia \<longrightarrow> album_row j r1 = album_row j r" "r1 = r\<lparr>rm_albums := rm_albums r1\<rparr>" by blast
    have s1: "song_row j r1 = song_row j r" "rm_artists r1 = rm_artists r" "rm_history r1 = rm_history r" for j
      by (subst r1(5); simp add: song_row_def)+
    from project_song [OF assms(4-6), of r1] r s1(1) obtain r2 where r2: "?run r1 (ba_uncommitted s) = Ok r2"
      "song_row is r2 = Some (song_shown (st_now st') s)" "\<forall>j. j \<noteq> is \<longrightarrow> song_row j r2 = song_row j r1"
      "r2 = r1\<lparr>rm_songs := rm_songs r2\<rparr>" by auto
    have s2: "album_row j r2 = album_row j r1" "rm_artists r2 = rm_artists r1" "rm_history r2 = rm_history r1" for j
      by (subst r2(4); simp add: album_row_def)+
    have "?run r ?es = Ok r2" using r1(1) r2(1) by (simp add: fold_res_append)
    then have "project_catalog None ?es r = (Ok (), r2)"
      by (auto simp: project_catalog_def project_tx_def)
    with r1 r2 s1 s2 show ?thesis by (intro exI [of _ r2]) simp
  qed
  from pass [of rm] assms(7,8) obtain rm' where one: "project_catalog None ?es rm = (Ok (), rm')" "?shown rm'"
    "\<forall>j. j \<noteq> ia \<longrightarrow> album_row j rm' = album_row j rm" "\<forall>j. j \<noteq> is \<longrightarrow> song_row j rm' = song_row j rm"
    "rm_artists rm' = rm_artists rm" "rm_history rm' = rm_history rm" by (auto simp: album_row_def song_row_def)
  from pass [of rm'] one(2) obtain rm2 where "project_catalog None ?es rm' = (Ok (), rm2)" "?shown rm2"
    "\<forall>j. j \<noteq> ia \<longrightarrow> album_row j rm2 = album_row j rm'" "\<forall>j. j \<noteq> is \<longrightarrow> song_row j rm2 = song_row j rm'"
    "rm_artists rm2 = rm_artists rm'" "rm_history rm2 = rm_history rm'" by blast
  with one show ?thesis
    by (intro exI [of _ rm'] exI [of _ rm2]) (simp add: album_row_def song_row_def)
qed

definition catalog_stamp :: "string \<Rightarrow> stamp" where
  "catalog_stamp u = \<lparr>st_uuid = u, st_now = 7\<rparr>"

theorem catalog_projection_follows_witness:
  "\<exists>a s rm'. al_status a = ''full'' \<and> so_tidal s = ''t_9''
     \<and> project_catalog None (ba_uncommitted a @ ba_uncommitted s) other_models = (Ok (), rm')
     \<and> map_of (rm_albums rm') ''al_1'' = Some (album_shown 7 a)
     \<and> map_of (rm_songs rm') ''so_1'' = Some (song_shown 7 s)"
proof -
  let ?new = "new_album (catalog_stamp ''1'') ''al_1'' ''Damnation'' ''Opeth'' [] 3 8"
  let ?status = "album_change_status (catalog_stamp ''2'') ''full''"
  let ?song = "new_song (catalog_stamp ''3'') ''so_1'' ''Windowpane'' ''Opeth'' ''Damnation'' ''2003-04-22'' ''album'' ''sp1'' 2003 1 1 False"
  let ?link = "song_link_tidal (catalog_stamp ''4'') ''t_9'' ''isrc'' 1"
  have "case ?new of Inl e \<Rightarrow> False | Inr a0 \<Rightarrow> (case ?status a0 of Inl e \<Rightarrow> False | Inr a \<Rightarrow> al_status a = ''full'')"
    "case ?song of Inl e \<Rightarrow> False | Inr s0 \<Rightarrow> (case ?link s0 of Inl e \<Rightarrow> False | Inr s \<Rightarrow> fst s \<and> so_tidal (snd s) = ''t_9'')"
    by code_simp+
  then obtain a0 a s0 n s where a: "?new = Ok a0" "?status a0 = Ok a" "al_status a = ''full''"
    and s: "?song = Ok s0" "?link s0 = Ok (n, s)" "so_tidal s = ''t_9''"
    by (elim case_okE conjE) (metis prod.collapse)
  have "album_command\<^sup>*\<^sup>* a0 a" "song_command\<^sup>*\<^sup>* s0 s"
    using a(2) s(2) album_command.intros(1) song_command.intros(3) by blast+
  from catalog_projection_follows [OF a(1) _ this(1) s(1) _ this(2), of other_models] a(3) s(3) show ?thesis
    by (auto simp: other_models_def catalog_stamp_def)
qed

end
