(* ===== verification/Worker_Jobs.thy ===== *)
theory Worker_Jobs
  imports Scrape_Job_Lifecycle Command_Log Artist_Repository Read_Models
begin

text \<open>
  The scrape jobs of the worker (\<^verbatim>\<open>internal/worker/jobs.go\<close>): the facts it appends to the stream of a
  request, the row of the request in SQLite and its mirror in PocketBase, and the sweeps that repair
  rows whose worker died. The worker runs with a database, so its event store, artist repository and
  projection are there; PocketBase is optional. Tables are lists of rows in rowid order; the instants
  in them have a fixed width and are kept as milliseconds. Each call of a database takes the next
  failure of a script, each reading of the clock, and each new identifier, the next stamp.
\<close>

section \<open>State\<close>

record scrape_row =
  sr_request :: string
  sr_artist :: string
  sr_status :: string
  sr_error :: string
  sr_attempts :: int
  sr_queued :: int
  sr_started :: "int option"
  sr_finished :: "int option"

record pb_row = scrape_row +
  pj_id :: string

record pb_artist =
  pa_id :: string
  pa_name :: string
  pa_spotify :: string
  pa_genre :: string
  pa_list :: string
  pa_fetch :: string
  pa_listeners :: int
  pa_updated :: time

record pocketbase =
  pb_jobs :: "pb_row list"
  pb_artists :: "pb_artist list"

record 's jobs_world =
  jw_rows :: "scrape_row list"
  jw_models :: read_models
  jw_pb :: "pocketbase option"
  jw_faults :: "fault list"
  jw_reads :: nat
  jw_store :: 's
  jw_cache :: "(string \<times> time) list"
  jw_cursor :: "(int \<times> string) option"
  jw_purged :: time

text \<open>\<open>we_ctx\<close> is the error of the context, asked in a state; \<open>we_fk\<close> whether foreign keys are enforced.\<close>

record 's worker_env =
  we_ops :: "'s store_ops"
  we_ctx :: "'s jobs_world \<Rightarrow> gerr option"
  we_stamp :: "nat \<Rightarrow> stamp"
  we_fk :: bool
  we_retention :: time

definition turn :: "'s jobs_world \<Rightarrow> fault \<times> 's jobs_world" where
  "turn w = (case jw_faults w of [] \<Rightarrow> (None, w) | f # fs \<Rightarrow> (f, w\<lparr>jw_faults := fs\<rparr>))"

definition next_stamp :: "'s worker_env \<Rightarrow> 's jobs_world \<Rightarrow> stamp \<times> 's jobs_world" where
  "next_stamp env w = (we_stamp env (jw_reads w), w\<lparr>jw_reads := Suc (jw_reads w)\<rparr>)"

definition clock_now :: "'s worker_env \<Rightarrow> 's jobs_world \<Rightarrow> time \<times> 's jobs_world" where
  "clock_now env w = (let (st, w') = next_stamp env w in (st_now st, w'))"

text \<open>One \<^verbatim>\<open>UPDATE\<close> of the rows that satisfy \<open>P\<close>: whether any changed.\<close>

definition update_rows ::
    "(scrape_row \<Rightarrow> bool) \<Rightarrow> (scrape_row \<Rightarrow> scrape_row) \<Rightarrow> 's jobs_world \<Rightarrow> bool res \<times> 's jobs_world" where
  "update_rows P f w =
     (case turn w of
        (Some err, w1) \<Rightarrow> (Fail err, w1)
      | (None, w1) \<Rightarrow>
          (Ok (\<exists>r\<in>set (jw_rows w1). P r),
           w1\<lparr>jw_rows := map (\<lambda>r. if P r then f r else r) (jw_rows w1)\<rparr>))"

section \<open>Job facts\<close>

text \<open>
  The three stamps are those of the seed and of the at most two facts \<open>rec\<close> adds.
\<close>

definition record_job_event ::
    "'s worker_env \<Rightarrow> string \<Rightarrow> string \<Rightarrow> (stamp \<Rightarrow> stamp \<Rightarrow> job \<Rightarrow> (bool \<times> job) res) \<Rightarrow> 's jobs_world
     \<Rightarrow> unit res \<times> 's jobs_world" where
  "record_job_event env rid artist_id rec w =
     (if trim_space rid = [] then (Ok (), w)
      else (case so_load (we_ops env) (jw_store w) rid of
              (Inl err, s) \<Rightarrow> (Fail (Errorf ''load job stream'' [err]), w\<lparr>jw_store := s\<rparr>)
            | (Inr es, s) \<Rightarrow>
                (let w1 = w\<lparr>jw_store := s\<rparr>; (st0, w2) = next_stamp env w1; (st1, w3) = next_stamp env w2;
                     (st2, w4) = next_stamp env w3
                 in case (if es = [] then wrap_err ''seed job stream'' (new_scrape_job st0 rid artist_id [])
                          else wrap_err ''replay job stream'' (job_replay rid es)) of
                      Inl err \<Rightarrow> (Fail err, w4)
                    | Inr agg \<Rightarrow>
                        (case rec st1 st2 agg of
                           Inl err \<Rightarrow> (Fail err, w4)
                         | Inr (new, agg') \<Rightarrow>
                             if ba_uncommitted agg' = [] then (Ok (), w4)
                             else (case append_with_retry (so_append (we_ops env)) (so_load (we_ops env))
                                          (so_ctx (we_ops env)) (jw_store w4) rid
                                          (if es = [] then 0 else ba_version agg) (ba_uncommitted agg') of
                                     (Inl err, s') \<Rightarrow> (Fail (Errorf ''append job stream'' [err]), w4\<lparr>jw_store := s'\<rparr>)
                                   | (Inr _, s') \<Rightarrow> (Ok (), w4\<lparr>jw_store := s'\<rparr>))))))"

definition record_job_event_warn ::
    "'s worker_env \<Rightarrow> string \<Rightarrow> string \<Rightarrow> (stamp \<Rightarrow> stamp \<Rightarrow> job \<Rightarrow> (bool \<times> job) res) \<Rightarrow> 's jobs_world \<Rightarrow> 's jobs_world" where
  "record_job_event_warn env rid artist_id rec w = snd (record_job_event env rid artist_id rec w)"

definition for_request :: "string \<Rightarrow> correlation list" where
  "for_request rid = [\<lparr>co_request = rid, co_batch = []\<rparr>]"

section \<open>Rows\<close>

definition find_pb_job :: "string \<Rightarrow> 's jobs_world \<Rightarrow> pb_row option res \<times> 's jobs_world" where
  "find_pb_job rid w =
     (case jw_pb w of
        None \<Rightarrow> (Ok None, w)
      | Some pb \<Rightarrow>
          if rid = [] then (Ok None, w)
          else (case turn w of
                  (Some err, w1) \<Rightarrow> (Fail err, w1)
                | (None, w1) \<Rightarrow> (Ok (find (\<lambda>r. sr_request r = rid) (pb_jobs pb)), w1)))"

definition save_pb_job :: "pb_row \<Rightarrow> 's jobs_world \<Rightarrow> unit res \<times> 's jobs_world" where
  "save_pb_job job w =
     (case turn w of
        (Some err, w1) \<Rightarrow> (Fail err, w1)
      | (None, w1) \<Rightarrow>
          (Ok (), w1\<lparr>jw_pb := map_option (\<lambda>pb. pb\<lparr>pb_jobs := map (\<lambda>r. if pj_id r = pj_id job then job else r)
                                                       (pb_jobs pb)\<rparr>) (jw_pb w1)\<rparr>))"

definition set_scrape_job_processing :: "'s worker_env \<Rightarrow> string \<Rightarrow> 's jobs_world \<Rightarrow> 's jobs_world" where
  "set_scrape_job_processing env rid w =
     (if rid = [] then w
      else (let (now, w1) = clock_now env w;
                (_, w2) = update_rows (\<lambda>r. sr_request r = rid)
                  (\<lambda>r. r\<lparr>sr_status := st_processing, sr_attempts := sr_attempts r + 1,
                        sr_started := Some (stamp_millis now), sr_error := []\<rparr>) w1
            in case find_pb_job rid w2 of
                 (Inr (Some job), w3) \<Rightarrow>
                   (let (now', w4) = clock_now env w3
                    in snd (save_pb_job (job\<lparr>sr_status := st_processing, sr_attempts := sr_attempts job + 1,
                              sr_started := Some (stamp_millis now'), sr_error := []\<rparr>) w4))
               | (_, w3) \<Rightarrow> w3))"

text \<open>\<^verbatim>\<open>setScrapeJobFinishedWithContext\<close>; \<^verbatim>\<open>setScrapeJobFinished\<close> only warns about its errors.\<close>

definition finish_scrape_job ::
    "'s worker_env \<Rightarrow> string \<Rightarrow> string \<Rightarrow> string \<Rightarrow> 's jobs_world \<Rightarrow> unit res \<times> 's jobs_world" where
  "finish_scrape_job env rid status err w =
     (if rid = [] then (Ok (), w)
      else (let (now, w1) = clock_now env w;
                (_, w2) = update_rows (\<lambda>r. sr_request r = rid)
                  (\<lambda>r. r\<lparr>sr_status := status, sr_finished := Some (stamp_millis now), sr_error := err\<rparr>) w1
            in case find_pb_job rid w2 of
                 (Inl e, w3) \<Rightarrow> (Fail (Errorf ''find scrape job'' [e]), w3)
               | (Inr None, w3) \<Rightarrow> (Ok (), w3)
               | (Inr (Some job), w3) \<Rightarrow>
                   (let (now', w4) = clock_now env w3
                    in case save_pb_job (job\<lparr>sr_status := status, sr_finished := Some (stamp_millis now'),
                              sr_error := err\<rparr>) w4 of
                         (Inl e, w5) \<Rightarrow> (Fail (Errorf ''save scrape job'' [e]), w5)
                       | (Inr _, w5) \<Rightarrow> (Ok (), w5))))"

definition set_scrape_job_finished ::
    "'s worker_env \<Rightarrow> string \<Rightarrow> string \<Rightarrow> string \<Rightarrow> 's jobs_world \<Rightarrow> 's jobs_world" where
  "set_scrape_job_finished env rid status err w = snd (finish_scrape_job env rid status err w)"

section \<open>Has the request succeeded?\<close>

definition request_success_cache_ttl :: time where "request_success_cache_ttl = 30 * 60 * second"
definition orphaned_queued_reason :: string where "orphaned_queued_reason = ''orphaned_no_dispatch''"

definition prune_succeeded :: "time \<Rightarrow> (string \<times> time) list \<Rightarrow> (string \<times> time) list" where
  "prune_succeeded now cache = filter (\<lambda>c. now - snd c \<le> request_success_cache_ttl) cache"

definition mark_request_succeeded :: "'s worker_env \<Rightarrow> string \<Rightarrow> 's jobs_world \<Rightarrow> 's jobs_world" where
  "mark_request_succeeded env request w =
     (let rid = trim_space request
      in if rid = [] then w
         else (let (now, w1) = clock_now env w
               in w1\<lparr>jw_cache := kv_put rid now (prune_succeeded now (jw_cache w1))\<rparr>))"

definition orphan_failure :: "event \<Rightarrow> bool" where
  "orphan_failure e \<longleftrightarrow> ev_type e = ev_failed \<and>
     (case decode_event dec_job_failed e of Inl err \<Rightarrow> False | Inr pl \<Rightarrow> jf_error pl = orphaned_queued_reason)"

fun is_orphaned_queued_verdict :: "event list \<Rightarrow> bool" where
  "is_orphaned_queued_verdict [e, f] \<longleftrightarrow> ev_type e = ev_requested \<and> orphan_failure f"
| "is_orphaned_queued_verdict _ \<longleftrightarrow> False"

text \<open>\<open>zero_time\<close> when there is no verdict.\<close>

definition orphaned_queued_verdict_at :: "event list \<Rightarrow> time" where
  "orphaned_queued_verdict_at es =
     (case es of
        [] \<Rightarrow> zero_time
      | e # _ \<Rightarrow>
          if ev_type e \<noteq> ev_requested then zero_time
          else (case find orphan_failure es of None \<Rightarrow> zero_time | Some f \<Rightarrow> ev_at f))"

text \<open>The row of the request, asked when the stream does not settle the matter.\<close>

definition row_verdict :: "'s worker_env \<Rightarrow> string \<Rightarrow> time \<Rightarrow> 's jobs_world \<Rightarrow> (bool \<times> time) \<times> 's jobs_world" where
  "row_verdict env rid orphaned w =
     (case find_pb_job rid w of
        (Inr (Some job), w1) \<Rightarrow>
          (if sr_status job = st_succeeded then ((True, orphaned), mark_request_succeeded env rid w1)
           else ((False, orphaned), w1))
      | (_, w1) \<Rightarrow> ((False, orphaned), w1))"

definition request_stream_verdict ::
    "'s worker_env \<Rightarrow> string \<Rightarrow> 's jobs_world \<Rightarrow> (bool \<times> time) \<times> 's jobs_world" where
  "request_stream_verdict env request w =
     (let rid = trim_space request
      in if rid = [] then ((False, zero_time), w)
         else (let (now, w1) = clock_now env w; w2 = w1\<lparr>jw_cache := prune_succeeded now (jw_cache w1)\<rparr>
               in if rid \<in> fst ` set (jw_cache w2) then ((True, zero_time), w2)
                  else (case so_load (we_ops env) (jw_store w2) rid of
                          (Inl err, s) \<Rightarrow> row_verdict env rid zero_time (w2\<lparr>jw_store := s\<rparr>)
                        | (Inr es, s) \<Rightarrow>
                            (let w3 = w2\<lparr>jw_store := s\<rparr>; orphaned = orphaned_queued_verdict_at es
                             in if es = [] then row_verdict env rid zero_time w3
                                else if is_orphaned_queued_verdict es then ((False, ev_at (es ! 1)), w3)
                                else (case job_replay rid es of
                                        Inl err \<Rightarrow> row_verdict env rid orphaned w3
                                      | Inr agg \<Rightarrow>
                                          if jb_status agg = st_succeeded
                                          then ((True, orphaned), mark_request_succeeded env rid w3)
                                          else if job_is_terminal agg then ((False, orphaned), w3)
                                          else row_verdict env rid orphaned w3)))))"

definition is_request_already_succeeded :: "'s worker_env \<Rightarrow> string \<Rightarrow> 's jobs_world \<Rightarrow> bool \<times> 's jobs_world" where
  "is_request_already_succeeded env rid w =
     (let ((succeeded, _), w') = request_stream_verdict env rid w in (succeeded, w'))"

section \<open>Artist status facts\<close>

text \<open>\<^verbatim>\<open>artistProjection.Project\<close> on the read models, its failure taken from the script.\<close>

definition project_models :: "'s worker_env \<Rightarrow> event list \<Rightarrow> 's jobs_world \<Rightarrow> 's jobs_world" where
  "project_models env es w =
     (if es = [] then w
      else (let (fault, w1) = turn w; (_, rm) = project_artist fault (we_fk env) es (jw_models w1)
            in w1\<lparr>jw_models := rm\<rparr>))"

definition record_artist_fetch_status_warn ::
    "'s worker_env \<Rightarrow> string \<Rightarrow> string \<Rightarrow> string \<Rightarrow> 's jobs_world \<Rightarrow> 's jobs_world" where
  "record_artist_fetch_status_warn env artist_id status rid w =
     (if trim_space artist_id = [] then w
      else (let (now, w0) = clock_now env w; (r, s) = load_artist (we_ops env) now (jw_store w0) artist_id;
                w1 = w0\<lparr>jw_store := s\<rparr>
            in case r of
                 Inl err \<Rightarrow> w1
               | Inr agg \<Rightarrow>
                   if ar_fetch agg \<noteq> ''pending'' then w1
                   else (let (st, w2) = next_stamp env w1
                         in case set_fetch_status st status ''stale sweep'' (for_request rid) agg of
                              Inl err \<Rightarrow> w2
                            | Inr agg' \<Rightarrow>
                                (let (res, _, s') = save_artist (we_ops env) (st_now st) (jw_store w2) agg';
                                     w3 = w2\<lparr>jw_store := s'\<rparr>
                                 in case res of Inl err \<Rightarrow> w3 | Inr es \<Rightarrow> project_models env es w3))))"

end
