(* ===== verification/Worker_Sweeps.thy ===== *)
theory Worker_Sweeps
  imports Worker_Jobs "HOL-Library.Product_Lexorder"
begin

text \<open>
  The periodic sweeps of the worker over the scrape jobs (\<^verbatim>\<open>internal/worker/jobs.go\<close>): rows that stay
  in processing, queued rows whose request was never dispatched, failed rows that a later success
  makes obsolete, and the purge of old successes.
\<close>

definition stale_job_threshold :: time where "stale_job_threshold = 5 * 60 * second"
definition orphaned_queued_grace :: time where "orphaned_queued_grace = 15 * 60 * second"
definition orphaned_queued_scan_limit :: nat where "orphaned_queued_scan_limit = 100"
definition job_purge_interval :: time where "job_purge_interval = 3600 * second"
definition default_scrape_job_retention :: time where "default_scrape_job_retention = 7 * 24 * 3600 * second"

definition before_cutoff :: "int option \<Rightarrow> int \<Rightarrow> bool" where
  "before_cutoff stored cutoff = (case stored of None \<Rightarrow> False | Some t \<Rightarrow> t < cutoff)"

section \<open>Stale processing rows\<close>

definition converge_stale_row :: "'s worker_env \<Rightarrow> string \<Rightarrow> 's jobs_world \<Rightarrow> 's jobs_world" where
  "converge_stale_row env rid w =
     (if trim_space rid = [] then w
      else (let (now, w1) = clock_now env w
            in snd (update_rows (\<lambda>r. sr_request r = rid \<and> sr_status r = st_processing)
                 (\<lambda>r. r\<lparr>sr_status := st_succeeded, sr_finished := Some (stamp_millis now),
                       sr_error := ''recovered_after_success''\<rparr>) w1)))"

definition mark_stale_row_failed :: "'s worker_env \<Rightarrow> string \<Rightarrow> int \<Rightarrow> 's jobs_world \<Rightarrow> 's jobs_world" where
  "mark_stale_row_failed env rid cutoff w =
     (if trim_space rid = [] then w
      else (let (now, w1) = clock_now env w
            in snd (update_rows
                 (\<lambda>r. sr_request r = rid \<and> sr_status r = st_processing \<and> before_cutoff (sr_started r) cutoff)
                 (\<lambda>r. r\<lparr>sr_status := st_failed, sr_finished := Some (stamp_millis now),
                       sr_error := ''stale_timeout''\<rparr>) w1)))"

definition fail_with :: "string \<Rightarrow> string \<Rightarrow> stamp \<Rightarrow> stamp \<Rightarrow> job \<Rightarrow> (bool \<times> job) res" where
  "fail_with reason rid st st' j = record_failed st reason (for_request rid) j"

fun stale_loop :: "'s worker_env \<Rightarrow> int \<Rightarrow> (string \<times> string) list \<Rightarrow> 's jobs_world \<Rightarrow> 's jobs_world" where
  "stale_loop env cutoff [] w = w"
| "stale_loop env cutoff ((rid, artist_id) # jobs) w =
     (if we_ctx env w \<noteq> None then w
      else (let (done, w1) = is_request_already_succeeded env rid w
            in if done then stale_loop env cutoff jobs (converge_stale_row env rid w1)
               else (case record_job_event env rid artist_id (fail_with ''stale_timeout'' rid) w1 of
                       (Inl err, w2) \<Rightarrow>
                         (let (done', w3) = is_request_already_succeeded env rid w2
                          in stale_loop env cutoff jobs (if done' then converge_stale_row env rid w3 else w3))
                     | (Inr _, w2) \<Rightarrow>
                         stale_loop env cutoff jobs
                           (record_artist_fetch_status_warn env artist_id ''failed'' rid
                             (mark_stale_row_failed env rid cutoff w2)))))"

definition mark_stale_jobs_sqlite :: "'s worker_env \<Rightarrow> int \<Rightarrow> 's jobs_world \<Rightarrow> 's jobs_world" where
  "mark_stale_jobs_sqlite env cutoff w =
     (case turn w of
        (Some err, w1) \<Rightarrow> w1
      | (None, w1) \<Rightarrow>
          stale_loop env cutoff
            (map (\<lambda>r. (sr_request r, sr_artist r))
               (take 500 (filter (\<lambda>r. sr_status r = st_processing \<and> before_cutoff (sr_started r) cutoff) (jw_rows w1))))
            w1)"

section \<open>PocketBase transactions\<close>

text \<open>\<^verbatim>\<open>RunInTransaction\<close>: an error puts the tables of PocketBase back.\<close>

definition pb_tx :: "('s jobs_world \<Rightarrow> 'a res \<times> 's jobs_world) \<Rightarrow> 's jobs_world \<Rightarrow> 'a res \<times> 's jobs_world" where
  "pb_tx f w = (case f w of (Inl err, w') \<Rightarrow> (Fail err, w'\<lparr>jw_pb := jw_pb w\<rparr>) | (Inr x, w') \<Rightarrow> (Ok x, w'))"

definition pb_query :: "(pocketbase \<Rightarrow> 'a) \<Rightarrow> 'a \<Rightarrow> 's jobs_world \<Rightarrow> 'a res \<times> 's jobs_world" where
  "pb_query q none w =
     (case turn w of
        (Some err, w1) \<Rightarrow> (Fail err, w1)
      | (None, w1) \<Rightarrow> (Ok (case jw_pb w1 of None \<Rightarrow> none | Some pb \<Rightarrow> q pb), w1))"

definition save_pb_artist :: "pb_artist \<Rightarrow> 's jobs_world \<Rightarrow> unit res \<times> 's jobs_world" where
  "save_pb_artist a w =
     (case turn w of
        (Some err, w1) \<Rightarrow> (Fail err, w1)
      | (None, w1) \<Rightarrow>
          (Ok (), w1\<lparr>jw_pb := map_option (\<lambda>pb. pb\<lparr>pb_artists := map (\<lambda>x. if pa_id x = pa_id a then a else x)
                                                       (pb_artists pb)\<rparr>) (jw_pb w1)\<rparr>))"

definition mark_stale_job_artist_failed :: "'s worker_env \<Rightarrow> string \<Rightarrow> 's jobs_world \<Rightarrow> bool res \<times> 's jobs_world" where
  "mark_stale_job_artist_failed env artist_id w =
     (if artist_id = [] then (Ok False, w)
      else (case pb_query (\<lambda>pb. find (\<lambda>a. pa_id a = artist_id) (pb_artists pb)) None w of
              (Inl err, w1) \<Rightarrow> (Fail (Errorf ''failed to load artist for stale job'' [err]), w1)
            | (Inr None, w1) \<Rightarrow> (Ok False, w1)
            | (Inr (Some a), w1) \<Rightarrow>
                if pa_fetch a \<noteq> ''pending'' then (Ok False, w1)
                else (case we_ctx env w1 of
                        Some err \<Rightarrow> (Fail err, w1)
                      | None \<Rightarrow>
                          (case save_pb_artist (a\<lparr>pa_fetch := ''failed''\<rparr>) w1 of
                             (Inl err, w2) \<Rightarrow> (Fail (Errorf ''failed to save artist for stale job'' [err]), w2)
                           | (Inr _, w2) \<Rightarrow> (Ok True, w2)))))"

definition mark_single_stale_job :: "'s worker_env \<Rightarrow> int \<Rightarrow> pb_row \<Rightarrow> 's jobs_world \<Rightarrow> bool res \<times> 's jobs_world" where
  "mark_single_stale_job env cutoff job =
     pb_tx (\<lambda>w.
       case pb_query (\<lambda>pb. find (\<lambda>r. pj_id r = pj_id job) (pb_jobs pb)) None w of
         (Inl err, w1) \<Rightarrow> (Fail (Errorf ''failed to reload job'' [err]), w1)
       | (Inr None, w1) \<Rightarrow> (fail_msg ''failed to reload job'', w1)
       | (Inr (Some fresh), w1) \<Rightarrow>
           (case pb_query (\<lambda>pb. \<exists>r\<in>set (pb_jobs pb). pj_id r = pj_id fresh \<and> sr_status r = st_processing
                                   \<and> before_cutoff (sr_started r) cutoff) False w1 of
              (Inl err, w2) \<Rightarrow> (Fail (Errorf ''failed to re-check stale guard'' [err]), w2)
            | (Inr False, w2) \<Rightarrow> (Ok False, w2)
            | (Inr True, w2) \<Rightarrow>
                (let (now, w3) = clock_now env w2
                 in case we_ctx env w3 of
                      Some err \<Rightarrow> (Fail err, w3)
                    | None \<Rightarrow>
                        (case save_pb_job (fresh\<lparr>sr_status := st_failed, sr_finished := Some (stamp_millis now),
                                sr_error := ''stale_timeout''\<rparr>) w3 of
                           (Inl err, w4) \<Rightarrow> (Fail (Errorf ''failed to save job'' [err]), w4)
                         | (Inr _, w4) \<Rightarrow>
                             (case mark_stale_job_artist_failed env (sr_artist fresh) w4 of
                                (Inl err, w5) \<Rightarrow> (Fail err, w5) | (Inr _, w5) \<Rightarrow> (Ok True, w5))))))"

fun stale_pb_loop :: "'s worker_env \<Rightarrow> int \<Rightarrow> pb_row list \<Rightarrow> 's jobs_world \<Rightarrow> 's jobs_world" where
  "stale_pb_loop env cutoff [] w = w"
| "stale_pb_loop env cutoff (job # jobs) w =
     (if we_ctx env w \<noteq> None then w
      else (let (done, w1) = is_request_already_succeeded env (sr_request job) w
            in if done then stale_pb_loop env cutoff jobs w1
               else (case mark_single_stale_job env cutoff job w1 of
                       (Inr True, w2) \<Rightarrow>
                         stale_pb_loop env cutoff jobs
                           (record_artist_fetch_status_warn env (sr_artist job) ''failed'' (sr_request job) w2)
                     | (_, w2) \<Rightarrow> stale_pb_loop env cutoff jobs w2)))"

section \<open>Queued rows that were never dispatched\<close>

definition mark_orphaned_row_failed :: "'s worker_env \<Rightarrow> string \<Rightarrow> int \<Rightarrow> 's jobs_world \<Rightarrow> bool \<times> 's jobs_world" where
  "mark_orphaned_row_failed env rid cutoff w =
     (if trim_space rid = [] then (False, w)
      else (let (now, w1) = clock_now env w
            in case update_rows (\<lambda>r. sr_request r = rid \<and> sr_status r = st_queued \<and> sr_queued r < cutoff)
                      (\<lambda>r. r\<lparr>sr_status := st_failed, sr_finished := Some (stamp_millis now),
                            sr_error := orphaned_queued_reason\<rparr>) w1 of
                 (Inl err, w2) \<Rightarrow> (False, w2) | (Inr changed, w2) \<Rightarrow> (changed, w2)))"

definition live_job :: "string \<Rightarrow> ('a scrape_row_scheme) list \<Rightarrow> bool" where
  "live_job artist_id rows \<longleftrightarrow> (\<exists>r\<in>set rows. sr_artist r = artist_id \<and> sr_status r \<in> {st_queued, st_processing})"

definition mark_artist_failed_sqlite :: "string \<Rightarrow> 's jobs_world \<Rightarrow> bool \<times> 's jobs_world" where
  "mark_artist_failed_sqlite artist_id w =
     (if trim_space artist_id = [] then (False, w)
      else (case turn w of
              (Some err, w1) \<Rightarrow> (False, w1)
            | (None, w1) \<Rightarrow>
                (case map_of (rm_artists (jw_models w1)) artist_id of
                   None \<Rightarrow> (False, w1)
                 | Some a \<Rightarrow>
                     if am_fetch a = ''pending'' \<and> \<not> live_job artist_id (jw_rows w1)
                     then (True, w1\<lparr>jw_models := (jw_models w1)\<lparr>rm_artists :=
                             kv_put artist_id (a\<lparr>am_fetch := ''failed''\<rparr>) (rm_artists (jw_models w1))\<rparr>\<rparr>)
                     else (False, w1))))"

definition mark_orphaned_job_failed_pb ::
    "'s worker_env \<Rightarrow> string \<Rightarrow> int \<Rightarrow> 's jobs_world \<Rightarrow> (bool \<times> bool) \<times> 's jobs_world" where
  "mark_orphaned_job_failed_pb env rid cutoff w0 =
     (if jw_pb w0 = None \<or> trim_space rid = [] then ((False, False), w0)
      else (case pb_tx (\<lambda>w.
              case pb_query (\<lambda>pb. find (\<lambda>r. sr_request r = rid \<and> sr_status r = st_queued \<and> sr_queued r < cutoff)
                                     (pb_jobs pb)) None w of
                (Inl err, w1) \<Rightarrow> (Fail (Errorf ''re-check orphaned job guard'' [err]), w1)
              | (Inr None, w1) \<Rightarrow> (Ok (False, False), w1)
              | (Inr (Some job), w1) \<Rightarrow>
                  (let (now, w2) = clock_now env w1
                   in case save_pb_job (job\<lparr>sr_status := st_failed, sr_finished := Some (stamp_millis now),
                             sr_error := orphaned_queued_reason\<rparr>) w2 of
                        (Inl err, w3) \<Rightarrow> (Fail (Errorf ''fail orphaned job'' [err]), w3)
                      | (Inr _, w3) \<Rightarrow>
                          (case pb_query (\<lambda>pb. live_job (sr_artist job) (pb_jobs pb)) False w3 of
                             (Inl err, w4) \<Rightarrow> (Fail (Errorf ''check live jobs for artist'' [err]), w4)
                           | (Inr True, w4) \<Rightarrow> (Ok (True, False), w4)
                           | (Inr False, w4) \<Rightarrow>
                               (case mark_stale_job_artist_failed env (sr_artist job) w4 of
                                  (Inl err, w5) \<Rightarrow> (Fail err, w5)
                                | (Inr flipped, w5) \<Rightarrow> (Ok (True, flipped), w5))))) w0 of
              (Inl err, w) \<Rightarrow> ((False, False), w) | (Inr r, w) \<Rightarrow> (r, w)))"

definition orphan_key :: "scrape_row \<Rightarrow> int \<times> string" where "orphan_key r = (sr_queued r, sr_request r)"

text \<open>The keyset page: \<^verbatim>\<open>ORDER BY queued_at, request_id\<close> after the cursor.\<close>

definition past_cursor :: "(int \<times> string) option \<Rightarrow> scrape_row \<Rightarrow> bool" where
  "past_cursor c r =
     (case c of None \<Rightarrow> True
      | Some (t, rid) \<Rightarrow> t < sr_queued r \<or> sr_queued r = t \<and> rid < sr_request r)"

definition orphan_candidates :: "int \<Rightarrow> 's jobs_world \<Rightarrow> scrape_row list" where
  "orphan_candidates cutoff w =
     take orphaned_queued_scan_limit
       (sort_key orphan_key
          (filter (\<lambda>r. sr_status r = st_queued \<and> sr_queued r < cutoff \<and> past_cursor (jw_cursor w) r) (jw_rows w)))"

text \<open>The repair of one candidate whose stream is empty or holds only the verdict.\<close>

definition repair_orphan :: "'s worker_env \<Rightarrow> int \<Rightarrow> scrape_row \<Rightarrow> 's jobs_world \<Rightarrow> 's jobs_world" where
  "repair_orphan env cutoff job w =
     (let (flipped, w1) = mark_orphaned_row_failed env (sr_request job) cutoff w;
          (artist_flipped, w2) = (if flipped then mark_artist_failed_sqlite (sr_artist job) w1 else (False, w1));
          (_, w3) = mark_orphaned_job_failed_pb env (sr_request job) cutoff w2
      in if flipped \<and> artist_flipped
         then record_artist_fetch_status_warn env (sr_artist job) ''failed'' (sr_request job) w3 else w3)"

definition check_orphan :: "'s worker_env \<Rightarrow> int \<Rightarrow> scrape_row \<Rightarrow> 's jobs_world \<Rightarrow> 's jobs_world" where
  "check_orphan env cutoff job w =
     (if trim_space (sr_request job) = [] then w
      else (case so_load (we_ops env) (jw_store w) (sr_request job) of
              (Inl err, s) \<Rightarrow> w\<lparr>jw_store := s\<rparr>
            | (Inr es, s) \<Rightarrow>
                (let w1 = w\<lparr>jw_store := s\<rparr>
                 in if es \<noteq> [] \<and> \<not> is_orphaned_queued_verdict es then w1
                    else if length es = 2 \<and> ev_at (es ! 1) < sr_queued job * millisecond then w1
                    else if es = [] then
                      (case record_job_event env (sr_request job) (sr_artist job)
                              (fail_with orphaned_queued_reason (sr_request job)) w1 of
                         (Inl err, w2) \<Rightarrow> w2 | (Inr _, w2) \<Rightarrow> repair_orphan env cutoff job w2)
                    else repair_orphan env cutoff job w1)))"

fun orphan_loop :: "'s worker_env \<Rightarrow> int \<Rightarrow> scrape_row list \<Rightarrow> 's jobs_world \<Rightarrow> 's jobs_world" where
  "orphan_loop env cutoff [] w = w"
| "orphan_loop env cutoff (job # jobs) w =
     (if we_ctx env w \<noteq> None then w\<lparr>jw_cursor := None\<rparr>
      else orphan_loop env cutoff jobs (check_orphan env cutoff job w))"

definition mark_orphaned_queued_jobs :: "'s worker_env \<Rightarrow> int \<Rightarrow> 's jobs_world \<Rightarrow> 's jobs_world" where
  "mark_orphaned_queued_jobs env cutoff w =
     (case turn w of
        (Some err, w1) \<Rightarrow> w1
      | (None, w1) \<Rightarrow>
          (let page = orphan_candidates cutoff w1
           in if page = [] then w1\<lparr>jw_cursor := None\<rparr>
              else orphan_loop env cutoff page
                     (w1\<lparr>jw_cursor := (if length page < orphaned_queued_scan_limit then None
                                      else Some (orphan_key (last page)))\<rparr>)))"

definition mark_stale_jobs :: "'s worker_env \<Rightarrow> 's jobs_world \<Rightarrow> 's jobs_world" where
  "mark_stale_jobs env w =
     (if we_ctx env w \<noteq> None then w
      else (let (now, w1) = clock_now env w; cutoff = stamp_millis (now - stale_job_threshold);
                w2 = mark_stale_jobs_sqlite env cutoff w1;
                (now', w3) = clock_now env w2;
                w4 = mark_orphaned_queued_jobs env (stamp_millis (now' - orphaned_queued_grace)) w3
            in if jw_pb w4 = None then w4
               else (case pb_query (\<lambda>pb. take 50 (filter (\<lambda>r. sr_status r = st_processing
                                       \<and> before_cutoff (sr_started r) cutoff) (pb_jobs pb))) [] w4 of
                       (Inl err, w5) \<Rightarrow> w5 | (Inr jobs, w5) \<Rightarrow> stale_pb_loop env cutoff jobs w5)))"

section \<open>Rows a later success makes obsolete, and old successes\<close>

definition reconciliation_note :: "string \<Rightarrow> string" where
  "reconciliation_note rid = (if trim_space rid \<noteq> [] then ''recovered_by_retry:'' @ rid else ''recovered_by_retry'')"

definition recover_with :: "string \<Rightarrow> stamp \<Rightarrow> stamp \<Rightarrow> job \<Rightarrow> (bool \<times> job) res" where
  "recover_with rid st st' j = record_succeeded st ''reconcile'' 0 (for_request rid) j"

text \<open>The guarded updates of one transaction; \<open>changed\<close> are the jobs whose row was still failed.\<close>

fun flip_failed ::
    "'s worker_env \<Rightarrow> int \<Rightarrow> string \<Rightarrow> (string \<times> string) list \<Rightarrow> (string \<times> string) list \<Rightarrow> 's jobs_world
     \<Rightarrow> (string \<times> string) list res \<times> 's jobs_world" where
  "flip_failed env now note [] changed w = (Ok changed, w)"
| "flip_failed env now note (job # jobs) changed w =
     (if we_ctx env w \<noteq> None then (Ok changed, w)
      else (case update_rows (\<lambda>r. sr_request r = fst job \<and> sr_status r = st_failed)
                   (\<lambda>r. r\<lparr>sr_status := st_succeeded, sr_finished := Some now, sr_error := note\<rparr>) w of
              (Inl err, w1) \<Rightarrow> (Fail err, w1)
            | (Inr hit, w1) \<Rightarrow> flip_failed env now note jobs (if hit then changed @ [job] else changed) w1))"

definition without_cancel :: "'s worker_env \<Rightarrow> 's worker_env" where
  "without_cancel env = env\<lparr>we_ops := (we_ops env)\<lparr>so_ctx := \<lambda>s. None\<rparr>, we_ctx := \<lambda>w. None\<rparr>"

definition reconcile_failed_jobs_sqlite ::
    "'s worker_env \<Rightarrow> (string \<times> string) list \<Rightarrow> string \<Rightarrow> 's jobs_world \<Rightarrow> 's jobs_world" where
  "reconcile_failed_jobs_sqlite env jobs note w =
     (if jobs = [] then w
      else (let (now, w1) = clock_now env w
            in case flip_failed env (stamp_millis now) note jobs [] w1 of
                 (Inl err, w2) \<Rightarrow> w2\<lparr>jw_rows := jw_rows w\<rparr>
               | (Inr changed, w2) \<Rightarrow>
                   foldl (\<lambda>w (rid, artist_id).
                            record_job_event_warn (without_cancel env) rid artist_id (recover_with rid) w) w2 changed))"

fun reconcile_failed_jobs :: "'s worker_env \<Rightarrow> pb_row list \<Rightarrow> string \<Rightarrow> 's jobs_world \<Rightarrow> 's jobs_world" where
  "reconcile_failed_jobs env [] note w = w"
| "reconcile_failed_jobs env (r # rs) note w =
     (if we_ctx env w \<noteq> None then w
      else (let w1 = record_job_event_warn env (sr_request r) (sr_artist r) (recover_with (sr_request r)) w;
                (now, w2) = clock_now env w1
            in reconcile_failed_jobs env rs note
                 (snd (save_pb_job (r\<lparr>sr_status := st_succeeded, sr_finished := Some (stamp_millis now),
                    sr_error := (if sr_error r = [] then note else note @ '' | '' @ sr_error r)\<rparr>) w2))))"

definition clear_failed_jobs_for_artist :: "'s worker_env \<Rightarrow> string \<Rightarrow> string \<Rightarrow> 's jobs_world \<Rightarrow> 's jobs_world" where
  "clear_failed_jobs_for_artist env artist_id rid w =
     (if artist_id = [] \<or> we_ctx env w \<noteq> None then w
      else (let note = reconciliation_note rid;
                failed = (\<lambda>r. sr_artist r = artist_id \<and> sr_status r = st_failed \<and> sr_request r \<noteq> rid)
            in case turn w of
                 (Some err, w1) \<Rightarrow> w1
               | (None, w1) \<Rightarrow>
                   (let w2 = reconcile_failed_jobs_sqlite env
                               (map (\<lambda>r. (sr_request r, sr_artist r)) (take 500 (filter failed (jw_rows w1)))) note w1
                    in if jw_pb w2 = None then w2
                       else (case pb_query (\<lambda>pb. take 500 (filter (\<lambda>r. sr_artist r = artist_id \<and> sr_status r = st_failed
                                               \<and> sr_request r \<noteq> rid) (pb_jobs pb))) [] w2 of
                               (Inl err, w3) \<Rightarrow> w3
                             | (Inr records, w3) \<Rightarrow> reconcile_failed_jobs env records note w3))))"

definition purgeable :: "int \<Rightarrow> ('a scrape_row_scheme) \<Rightarrow> bool" where
  "purgeable cutoff r \<longleftrightarrow> sr_status r = st_succeeded \<and>
     (case sr_finished r of None \<Rightarrow> sr_queued r < cutoff | Some t \<Rightarrow> t < cutoff)"

definition purge_old_succeeded_jobs :: "'s worker_env \<Rightarrow> 's jobs_world \<Rightarrow> int res \<times> 's jobs_world" where
  "purge_old_succeeded_jobs env w =
     (if we_retention env = 0 then (Ok 0, w)
      else (let retention = (if we_retention env < 0 then default_scrape_job_retention else we_retention env);
                (now, w1) = clock_now env w; cutoff = stamp_millis (now - retention)
            in case turn w1 of
                 (Some err, w2) \<Rightarrow> (Fail (Errorf ''purge old succeeded jobs in SQLite'' [err]), w2)
               | (None, w2) \<Rightarrow>
                   (let gone = int (length (filter (purgeable cutoff) (jw_rows w2)));
                        w3 = w2\<lparr>jw_rows := filter (\<lambda>r. \<not> purgeable cutoff r) (jw_rows w2)\<rparr>
                    in case jw_pb w3 of
                         None \<Rightarrow> (Ok gone, w3)
                       | Some pb \<Rightarrow>
                           (case turn w3 of
                              (Some err, w4) \<Rightarrow> (Fail (Errorf ''delete succeeded jobs'' [err]), w4)
                            | (None, w4) \<Rightarrow>
                                (Ok (gone + int (length (filter (purgeable cutoff) (pb_jobs pb)))),
                                 w4\<lparr>jw_pb := Some (pb\<lparr>pb_jobs := filter (\<lambda>r. \<not> purgeable cutoff r) (pb_jobs pb)\<rparr>)\<rparr>)))))"

definition maybe_purge_old_jobs :: "'s worker_env \<Rightarrow> 's jobs_world \<Rightarrow> 's jobs_world" where
  "maybe_purge_old_jobs env w =
     (let (now, w1) = clock_now env w
      in if is_zero_time (jw_purged w1) \<or> job_purge_interval \<le> now - jw_purged w1
         then (case purge_old_succeeded_jobs env w1 of
                 (Inl err, w2) \<Rightarrow> w2
               | (Inr n, w2) \<Rightarrow> (let (now', w3) = clock_now env w2 in w3\<lparr>jw_purged := now'\<rparr>))
         else w1)"

text \<open>One tick of \<^verbatim>\<open>sweepStaleJobs\<close>.\<close>

definition sweep_tick :: "'s worker_env \<Rightarrow> 's jobs_world \<Rightarrow> 's jobs_world" where
  "sweep_tick env w = maybe_purge_old_jobs env (mark_stale_jobs env w)"

end
