(* ===== verification/Calm_Store.thy ===== *)
theory Calm_Store
  imports Scrape_Job_Lifecycle Artist_Snapshots
begin

text \<open>
  The event store while no call fails and nobody else writes, as an interface (\<open>calm_store\<close>): what an
  append and a read do to the streams and to the identifiers in use, and from that what a retried
  append, a save and a load of an artist do. The SQLite store provides it.
\<close>

section \<open>The store without disturbance\<close>

locale calm_store =
  fixes ops :: "'s store_ops"
    and stored :: "'s \<Rightarrow> string \<Rightarrow> event list"
    and ids :: "'s \<Rightarrow> string set"
    and calm :: "'s \<Rightarrow> bool"
  assumes load: "calm s \<Longrightarrow> \<exists>es. so_load ops s i = (Ok es, s) \<and> map strip es = stored s i"
    and append_frame: "calm s \<Longrightarrow> so_append ops s i v es = (r, s') \<Longrightarrow>
          calm s' \<and> (\<forall>j. j \<noteq> i \<longrightarrow> stored s' j = stored s j) \<and> ids s' \<subseteq> ids s \<union> ev_id ` set es"
    and append_new: "calm s \<Longrightarrow> stored s (ba_id j) = [] \<Longrightarrow> job.sourced [] j \<Longrightarrow> distinct (map ev_id (ba_uncommitted j)) \<Longrightarrow>
          ev_id ` set (ba_uncommitted j) \<inter> ids s = {} \<Longrightarrow>
          \<exists>s'. so_append ops s (ba_id j) 0 (ba_uncommitted j) = (Ok (), s') \<and> stored s' (ba_id j) = map strip (ba_uncommitted j)"
    and snapshot_frame: "calm s \<Longrightarrow> so_snapshots ops = Some sp \<Longrightarrow>
          s' \<in> {snd (sp_load sp s i), snd (sp_save sp s snap), snd (sp_after sp s i v)} \<Longrightarrow>
          calm s' \<and> stored s' = stored s \<and> ids s' = ids s"
begin

lemma snapshot_frames:
  assumes "calm s" and "so_snapshots ops = Some sp"
  shows "calm (snd (sp_load sp s i))" "stored (snd (sp_load sp s i)) = stored s" "ids (snd (sp_load sp s i)) = ids s"
    and "calm (snd (sp_save sp s snap))" "stored (snd (sp_save sp s snap)) = stored s" "ids (snd (sp_save sp s snap)) = ids s"
    and "calm (snd (sp_after sp s i v))" "stored (snd (sp_after sp s i v)) = stored s" "ids (snd (sp_after sp s i v)) = ids s"
  using snapshot_frame [OF assms, of "snd (sp_load sp s i)" i snap v] snapshot_frame [OF assms, of "snd (sp_save sp s snap)" i snap v]
    snapshot_frame [OF assms, of "snd (sp_after sp s i v)" i snap v] by simp_all

definition kept :: "string set \<Rightarrow> string set \<Rightarrow> 's \<Rightarrow> 's \<Rightarrow> bool" where
  "kept T N s s' \<longleftrightarrow> calm s' \<and> (\<forall>j. j \<notin> T \<longrightarrow> stored s' j = stored s j) \<and> ids s' \<subseteq> ids s \<union> N"

lemma kept_refl: "calm s \<Longrightarrow> kept T N s s"
  by (simp add: kept_def)

lemma kept_trans: "kept T N s s' \<Longrightarrow> kept T N s' s'' \<Longrightarrow> kept T N s s''"
  by (auto simp: kept_def)

lemma append_kept: "calm s \<Longrightarrow> so_append ops s i v es = (r, s') \<Longrightarrow> ev_id ` set es \<subseteq> N \<Longrightarrow> kept {i} N s s'"
  using append_frame [of s i v es r s'] unfolding kept_def by blast

lemma load_same: "calm s \<Longrightarrow> so_load ops s i = (r, s') \<Longrightarrow> s' = s"
  using load [of s i] by auto

lemma retry_loop_kept:
  assumes "calm s" and "ev_id ` set es \<subseteq> N"
    and "append_retry_loop (so_append ops) (so_load ops) ctx i n prev s base es = (r, s')"
  shows "kept {i} N s s'"
  using assms
proof (induction n arbitrary: prev s base es)
  case 0
  then show ?case by (auto intro: kept_refl)
next
  case (Suc n)
  obtain r1 s1 where a: "so_append ops s i base es = (r1, s1)" by (cases "so_append ops s i base es")
  note k1 = append_kept [OF Suc.prems(1) a Suc.prems(2)]
  then have c1: "calm s1" by (simp add: kept_def)
  obtain l s2 where l: "so_load ops s1 i = (l, s2)" by (cases "so_load ops s1 i")
  then have s2: "s2 = s1" using load_same [OF c1] by blast
  from a l Suc.prems(3) show ?case
  proof (cases rule: append_retry_attempt)
    case (again err loaded)
    with Suc.IH [OF _ Suc.prems(2)] c1 s2 have "kept {i} N s1 s'" by blast
    with k1 show ?thesis by (rule kept_trans)
  next
    case (tail err loaded)
    have "ev_id ` set (drop (present_prefix loaded es) es) \<subseteq> N"
      using Suc.prems(2) set_drop_subset [of "present_prefix loaded es" es] by blast
    from Suc.IH [OF _ this] tail(3) c1 s2 have "kept {i} N s1 s'" by blast
    with k1 show ?thesis by (rule kept_trans)
  qed (use k1 s2 in auto)
qed

lemma retry_kept:
  "calm s \<Longrightarrow> append_with_retry (so_append ops) (so_load ops) ctx s i v es = (r, s') \<Longrightarrow> kept {i} (ev_id ` set es) s s'"
  using retry_loop_kept [of s es "ev_id ` set es"] kept_refl
  by (auto simp: append_with_retry_def split: if_splits)

lemma save_snapshot_kept:
  "calm s \<Longrightarrow> save_artist_snapshot ops now s a = (a', s') \<Longrightarrow> kept T N s s'"
  by (auto simp: save_artist_snapshot_def kept_def case_prod_beta snapshot_frames split: option.splits)

lemma save_artist_kept:
  assumes "calm s" and "save_artist ops now s a = (r, a', s')"
  shows "kept {ba_id a} (ev_id ` set (ba_uncommitted a)) s s'"
proof (cases "ba_uncommitted a = []")
  case True
  with assms show ?thesis by (simp add: save_artist_def kept_refl)
next
  case False
  obtain q s1 where q: "append_with_retry (so_append ops) (so_load ops) (so_ctx ops) s (ba_id a) (expected_version a)
      (ba_uncommitted a) = (q, s1)" by fastforce
  note k = retry_kept [OF assms(1) q]
  then have c: "calm s1" by (simp add: kept_def)
  show ?thesis
  proof (cases q)
    case (Inl err)
    with assms(2) q k False show ?thesis by (auto simp: save_artist_def)
  next
    case (Inr u)
    obtain b s2 where b: "maybe_snapshot ops now s1 (clear_uncommitted a) (int (length (ba_uncommitted a))) = (b, s2)"
      by fastforce
    then have "kept {ba_id a} (ev_id ` set (ba_uncommitted a)) s1 s2"
      using save_snapshot_kept [OF c] kept_refl [OF c] by (auto simp: maybe_snapshot_def split: if_splits)
    with k have "kept {ba_id a} (ev_id ` set (ba_uncommitted a)) s s2" by (rule kept_trans)
    with assms(2) q Inr b False show ?thesis by (auto simp: save_artist_def)
  qed
qed

text \<open>A loaded artist has nothing uncommitted, and loading changes no stream.\<close>

lemma apply_tail_frame:
  "apply_tail a es = Ok a' \<Longrightarrow> ba_uncommitted a' = ba_uncommitted a \<and> ba_id a' = ba_id a"
  unfolding apply_tail_eq by (induction es arbitrary: a) (auto simp: bind_res_eq_Inr dest: artist_apply_frame)

lemma load_in_full_kept:
  assumes "calm s" and "load_in_full ops now missing s i = (r, s')"
  shows "kept {} {} s s' \<and> (\<forall>a. r = Ok a \<longrightarrow> ba_uncommitted a = [] \<and> ba_id a = i)"
proof -
  obtain es where es: "so_load ops s i = (Ok es, s)" using load [OF assms(1)] by blast
  show ?thesis
  proof (cases "artist_replay i es")
    case (Inl err)
    with assms es show ?thesis by (auto simp: load_in_full_def kept_refl)
  next
    case (Inr a)
    note a = replay_keep(3,4) [OF Inr]
    obtain a' s2 where b: "save_artist_snapshot ops now s a = (a', s2)" by fastforce
    have "ba_uncommitted a' = [] \<and> ba_id a' = i"
      using b a by (auto simp: save_artist_snapshot_def marshal_snapshot_def last_listeners_request_def Let_def
          split: option.splits prod.splits)
    with assms es Inr a b save_snapshot_kept [OF assms(1) b] kept_refl [OF assms(1)] show ?thesis
      by (auto simp: load_in_full_def split: if_splits)
  qed
qed

lemma load_artist_kept:
  assumes "calm s" and "load_artist ops now s i = (r, s')"
  shows "kept {} {} s s' \<and> (\<forall>a. r = Ok a \<longrightarrow> ba_uncommitted a = [] \<and> ba_id a = i)"
proof (cases "so_snapshots ops")
  case None
  with assms show ?thesis using load_in_full_kept by (simp add: load_artist_def)
next
  case (Some sp)
  obtain q s1 where q: "load_from_snapshot sp s i = (q, s1)" by fastforce
  have k: "kept {} {} s s1" and a: "\<forall>a. q = Ok a \<longrightarrow> ba_uncommitted a = [] \<and> ba_id a = i"
  proof -
    let ?s1 = "snd (sp_load sp s i)"
    note f = snapshot_frames [OF assms(1) Some]
    have "s1 = ?s1 \<or> (\<exists>v. s1 = snd (sp_after sp ?s1 i v))"
      using q by (auto simp: load_from_snapshot_def split: sum.splits prod.splits if_splits) (metis snd_conv)+
    then show "kept {} {} s s1" using f snapshot_frames [OF f(1) Some] by (auto simp: kept_def)
    show "\<forall>a. q = Ok a \<longrightarrow> ba_uncommitted a = [] \<and> ba_id a = i"
      using q by (auto simp: load_from_snapshot_def restore_from_snapshot_def bind_res_eq_Inr empty_artist_def
          dest!: apply_tail_frame split: sum.splits prod.splits if_splits encoded.splits)
  qed
  from k have c: "calm s1" by (simp add: kept_def)
  show ?thesis
  proof (cases q)
    case (Inr x)
    with assms(2) Some q k a show ?thesis by (auto simp: load_artist_def)
  next
    case (Inl err)
    with assms(2) Some q have "load_in_full ops now (errors_is ErrSnapshotNotFound err) s1 i = (r, s')"
      by (simp add: load_artist_def)
    from load_in_full_kept [OF c this] k show ?thesis by (auto intro: kept_trans)
  qed
qed

end

end
