(* ===== verification/Worker_Sweep_Steps.thy ===== *)
theory Worker_Sweep_Steps
  imports Worker_Sweeps Calm_Store
begin

text \<open>
  What the sweep of queued rows does with one candidate, over every store that is a \<open>calm_store\<close>: what
  every call it makes leaves as it was, and the relation \<open>swept\<close> of the changes a sweep may make.
\<close>

section \<open>The verdict\<close>

definition orphaned :: "event list \<Rightarrow> bool" where
  "orphaned es \<longleftrightarrow> es = [] \<or> is_orphaned_queued_verdict es"

definition flipped_row :: "scrape_row \<Rightarrow> scrape_row \<Rightarrow> bool" where
  "flipped_row r r' \<longleftrightarrow> sr_status r = st_queued \<and> sr_status r' = st_failed \<and> sr_error r' = orphaned_queued_reason
     \<and> sr_request r' = sr_request r \<and> sr_artist r' = sr_artist r \<and> sr_queued r' = sr_queued r"

definition fails_now :: "string \<Rightarrow> int \<Rightarrow> scrape_row \<Rightarrow> bool" where
  "fails_now rid cutoff r \<longleftrightarrow> sr_request r = rid \<and> sr_status r = st_queued \<and> sr_queued r < cutoff"

lemma for_request_plain: "plain_meta (job_meta (for_request rid))"
  by (auto simp: plain_meta_def job_meta_def correlation_metadata_def for_request_def Let_def
      schema_version_key_def split: option.splits)

text \<open>A job made and failed by the sweep is a stream of two events, which the sweep recognises.\<close>

lemma new_job_failed:
  assumes "rid \<noteq> []" and "artist_id \<noteq> []"
  obtains agg agg' where "new_scrape_job st0 rid artist_id [] = Ok agg"
    and "fail_with orphaned_queued_reason rid st1 st2 agg = Ok (True, agg')"
    and "map ev_id (ba_uncommitted agg') = [''evt_'' @ st_uuid st0, ''evt_'' @ st_uuid st1]" and "ba_id agg' = rid"
    and "is_orphaned_queued_verdict (map strip (ba_uncommitted agg'))" and "job.sourced [] agg'"
proof -
  let ?e = "new_event st0 rid stream_type_job 1 ev_requested
    (enc_job_requested \<lparr>jr_request = rid, jr_artist = artist_id, jr_command = []\<rparr>) MetaNil"
  let ?agg = "(empty_job rid)\<lparr>ba_version := 1, ba_uncommitted := [?e], jb_request := rid, jb_artist := artist_id, jb_status := st_queued\<rparr>"
  let ?f = "new_event st1 rid stream_type_job 2 ev_failed
    (enc_job_failed \<lparr>jf_request = rid, jf_artist = artist_id, jf_error = orphaned_queued_reason\<rparr>) (job_meta (for_request rid))"
  let ?agg' = "?agg\<lparr>ba_version := 2, ba_uncommitted := [?e, ?f], jb_status := st_failed\<rparr>"
  have d: "decode_event dec_job_requested ?e = Ok \<lparr>jr_request = rid, jr_artist = artist_id, jr_command = []\<rparr>"
    "decode_event dec_job_failed ?f = Ok \<lparr>jf_request = rid, jf_artist = artist_id, jf_error = orphaned_queued_reason\<rparr>"
    by (simp_all add: decode_new_event plain_meta_def for_request_plain [unfolded plain_meta_def])
  have one: "new_scrape_job st0 rid artist_id [] = Ok ?agg"
    using assms d(1) by (simp add: new_scrape_job_def raise_event_def record_that_def Let_def job_apply_def empty_job_def)
  have two: "fail_with orphaned_queued_reason rid st1 st2 ?agg = Ok (True, ?agg')"
    using d(2) by (simp add: fail_with_def record_failed_def job_record_def raise_event_def record_that_def Let_def
        job_apply_def empty_job_def job_event_types)
  have "job_reachable rid [] ?agg'"
    using job_moved [OF job_fresh [OF one] cmd_failed [OF two [unfolded fail_with_def]]] by simp
  then have "job.sourced [] ?agg'" by (simp add: job_reachable_sourced)
  moreover have "is_orphaned_queued_verdict (map strip (ba_uncommitted ?agg'))"
    using d(2) by (simp add: orphan_failure_def)
  ultimately show thesis by (intro that [OF one two]) (simp_all add: empty_job_def)
qed

lemma verdict_strip [simp]: "is_orphaned_queued_verdict (map strip es) = is_orphaned_queued_verdict es"
  by (cases es rule: is_orphaned_queued_verdict.cases) (simp_all add: orphan_failure_def)

lemma verdict_ne: "is_orphaned_queued_verdict es \<Longrightarrow> es \<noteq> []"
  by auto

context calm_store
begin

section \<open>Frames of the steps\<close>

definition new_ids :: "'s worker_env \<Rightarrow> 's jobs_world \<Rightarrow> 's jobs_world \<Rightarrow> string set" where
  "new_ids env w w' = (\<lambda>k. ''evt_'' @ st_uuid (we_stamp env k)) ` {jw_reads w..<jw_reads w'}"

definition quiet :: "'s jobs_world \<Rightarrow> bool" where "quiet w \<longleftrightarrow> jw_faults w = [] \<and> calm (jw_store w)"

definition stepped :: "'s worker_env \<Rightarrow> string set \<Rightarrow> 's jobs_world \<Rightarrow> 's jobs_world \<Rightarrow> bool" where
  "stepped env T w w' \<longleftrightarrow> jw_faults w' = [] \<and> jw_reads w \<le> jw_reads w' \<and> jw_cursor w' = jw_cursor w
     \<and> kept T (new_ids env w w') (jw_store w) (jw_store w')"

lemma stepped_quiet: "stepped env T w w' \<Longrightarrow> quiet w'"
  by (simp add: stepped_def quiet_def kept_def)

lemma stepped_refl: "quiet w \<Longrightarrow> stepped env T w w"
  by (simp add: stepped_def quiet_def kept_refl)

lemma stepped_trans:
  assumes "stepped env T w w1" and "stepped env U w1 w2" and "T \<subseteq> V" and "U \<subseteq> V"
  shows "stepped env V w w2"
proof -
  have "new_ids env w w1 \<union> new_ids env w1 w2 \<subseteq> new_ids env w w2"
    using assms(1,2) unfolding stepped_def new_ids_def by (auto intro!: image_eqI)
  moreover have "\<forall>j. j \<notin> V \<longrightarrow> stored (jw_store w2) j = stored (jw_store w) j"
    using assms unfolding stepped_def kept_def by (metis subsetD)
  moreover have "ids (jw_store w2) \<subseteq> ids (jw_store w1) \<union> new_ids env w1 w2" "ids (jw_store w1) \<subseteq> ids (jw_store w) \<union> new_ids env w w1"
    using assms(1,2) unfolding stepped_def kept_def by blast+
  ultimately have "ids (jw_store w2) \<subseteq> ids (jw_store w) \<union> new_ids env w w2" "\<forall>j. j \<notin> V \<longrightarrow> stored (jw_store w2) j = stored (jw_store w) j"
    by blast+
  with assms(1,2) show ?thesis by (simp add: stepped_def kept_def)
qed

text \<open>Steps that do not reach the store.\<close>

lemma stepped_local:
  assumes "quiet w" and "jw_store w' = jw_store w" and "jw_faults w' = []" and "jw_cursor w' = jw_cursor w"
    and "jw_reads w \<le> jw_reads w'"
  shows "stepped env T w w'"
  using assms by (simp add: stepped_def quiet_def kept_def)

lemma store_then_reads: "w\<lparr>jw_reads := n, jw_store := s\<rparr> = w\<lparr>jw_store := s, jw_reads := n\<rparr>"
  by simp

lemma turn_quiet: "jw_faults w = [] \<Longrightarrow> turn w = (None, w)"
  by (simp add: turn_def)

lemma project_models_stepped:
  "quiet w \<Longrightarrow> stepped env T w (project_models env es w) \<and> jw_rows (project_models env es w) = jw_rows w"
  by (auto simp: project_models_def quiet_def turn_def case_prod_beta intro: stepped_local [unfolded quiet_def])

lemma set_fetch_status_uncommitted:
  assumes "set_fetch_status st status reason corr a = Ok a'" and "ba_uncommitted a = []"
  shows "ev_id ` set (ba_uncommitted a') \<subseteq> {''evt_'' @ st_uuid st} \<and> ba_id a' = ba_id a"
  using assms
  by (auto simp: set_fetch_status_def record_that_event split: if_splits dest!: artist_apply_frame)

lemma fetch_status_stepped:
  assumes "quiet w" and "we_ops env = ops"
  shows "stepped env {artist_id} w (record_artist_fetch_status_warn env artist_id status rid w)
    \<and> jw_rows (record_artist_fetch_status_warn env artist_id status rid w) = jw_rows w"
proof (cases "trim_space artist_id = []")
  case True
  with assms show ?thesis by (simp add: record_artist_fetch_status_warn_def stepped_refl)
next
  case False
  let ?now = "st_now (we_stamp env (jw_reads w))"
  obtain r s where r: "load_artist ops ?now (jw_store w) artist_id = (r, s)" by fastforce
  let ?w1 = "w\<lparr>jw_store := s, jw_reads := Suc (jw_reads w)\<rparr>"
  from load_artist_kept [OF _ r] assms(1) have k: "kept {} {} (jw_store w) s"
    and a: "\<forall>a. r = Ok a \<longrightarrow> ba_uncommitted a = [] \<and> ba_id a = artist_id" by (auto simp: quiet_def)
  have one: "stepped env {artist_id} w ?w1" using k assms(1) by (auto simp: stepped_def kept_def quiet_def)
  let ?st = "we_stamp env (Suc (jw_reads w))"
  let ?w2 = "w\<lparr>jw_store := s, jw_reads := Suc (Suc (jw_reads w))\<rparr>"
  have two: "stepped env {artist_id} w ?w2" using one by (auto simp: stepped_def kept_def new_ids_def)
  note unfold = record_artist_fetch_status_warn_def [of env artist_id status rid w] False assms(2) r
    clock_now_def next_stamp_def store_then_reads
  show ?thesis
  proof (cases r)
    case (Inl err)
    with one show ?thesis by (simp add: unfold)
  next
    case (Inr agg)
    with a have agg: "ba_uncommitted agg = []" "ba_id agg = artist_id" by simp_all
    show ?thesis
    proof (cases "ar_fetch agg = ''pending''")
      case False
      with one Inr show ?thesis by (simp add: unfold)
    next
      case True
      show ?thesis
      proof (cases "set_fetch_status ?st status ''stale sweep'' (for_request rid) agg")
        case (Inl err)
        with two Inr True show ?thesis by (simp add: unfold)
      next
        case (Inr agg')
        note u = set_fetch_status_uncommitted [OF Inr agg(1)]
        obtain res a2 s' where sv: "save_artist ops (st_now ?st) s agg' = (res, a2, s')" by (metis prod_cases3)
        have "calm s" using k by (simp add: kept_def)
        from save_artist_kept [OF this sv] have k': "kept {artist_id} (ev_id ` set (ba_uncommitted agg')) s s'"
          using u agg(2) by simp
        let ?w3 = "w\<lparr>jw_store := s', jw_reads := Suc (Suc (jw_reads w))\<rparr>"
        have "''evt_'' @ st_uuid ?st \<in> new_ids env w ?w3" by (auto simp: new_ids_def)
        with u have "ev_id ` set (ba_uncommitted agg') \<subseteq> new_ids env w ?w3" by auto
        with k k' have three: "stepped env {artist_id} w ?w3"
          using assms(1) unfolding stepped_def kept_def quiet_def by (simp; blast)
        show ?thesis
        proof (cases res)
          case (Inl err)
          with three True \<open>r = Ok agg\<close> \<open>set_fetch_status _ _ _ _ _ = Ok agg'\<close> sv show ?thesis by (simp add: unfold)
        next
          case (Inr es)
          note p = project_models_stepped [OF stepped_quiet [OF three], of env "{artist_id}" es]
          then have "stepped env {artist_id} w (project_models env es ?w3)"
            using stepped_trans [OF three, of "{artist_id}"] by blast
          with p Inr True \<open>r = Ok agg\<close> \<open>set_fetch_status _ _ _ _ _ = Ok agg'\<close> sv show ?thesis by (simp add: unfold)
        qed
      qed
    qed
  qed
qed

text \<open>The PocketBase mirror.\<close>

lemma quiet_calls:
  "jw_faults w = [] \<Longrightarrow> pb_query q none w = (Ok (case jw_pb w of None \<Rightarrow> none | Some pb \<Rightarrow> q pb), w)"
  "jw_faults w = [] \<Longrightarrow> \<exists>pb. save_pb_job job w = (Ok (), w\<lparr>jw_pb := pb\<rparr>)"
  "jw_faults w = [] \<Longrightarrow> \<exists>pb. save_pb_artist a w = (Ok (), w\<lparr>jw_pb := pb\<rparr>)"
  by (auto simp: pb_query_def save_pb_job_def save_pb_artist_def turn_quiet)

lemma artist_failed_pb_frame:
  assumes "jw_faults w = []" shows "\<exists>r pb. mark_stale_job_artist_failed env i w = (r, w\<lparr>jw_pb := pb\<rparr>)"
proof -
  have same: "\<exists>pb. w = w\<lparr>jw_pb := pb\<rparr>" by (intro exI [of _ "jw_pb w"]) simp
  obtain sv where "\<And>a. save_pb_artist a w = (Ok (), w\<lparr>jw_pb := sv a\<rparr>)" using quiet_calls(3) [OF assms] by metis
  then show ?thesis using same
    by (auto simp: mark_stale_job_artist_failed_def quiet_calls(1) assms split: option.splits)
qed

definition pb_only :: "'s jobs_world \<Rightarrow> 's jobs_world \<Rightarrow> bool" where
  "pb_only w w' \<longleftrightarrow> (\<exists>pb n. w' = w\<lparr>jw_pb := pb, jw_reads := n\<rparr> \<and> jw_reads w \<le> n)"

lemma pb_onlyI: "w' = w\<lparr>jw_pb := pb, jw_reads := n\<rparr> \<Longrightarrow> jw_reads w \<le> n \<Longrightarrow> pb_only w w'"
  by (auto simp: pb_only_def)

lemma orphaned_job_pb_frame:
  assumes "jw_faults w = []"
  shows "pb_only w (snd (mark_orphaned_job_failed_pb env rid cutoff w))"
proof -
  have same: "pb_only w w" by (rule pb_onlyI [where pb = "jw_pb w" and n = "jw_reads w"]) simp_all
  show ?thesis
  proof (cases "jw_pb w = None \<or> trim_space rid = []")
    case True
    then show ?thesis by (simp add: mark_orphaned_job_failed_pb_def same)
  next
    case False
    then obtain pb where pb: "jw_pb w = Some pb" by auto
    note body = mark_orphaned_job_failed_pb_def [of env rid cutoff w] pb_tx_def quiet_calls(1) clock_now_def next_stamp_def
    show ?thesis
    proof (cases "find (\<lambda>r. sr_request r = rid \<and> sr_status r = st_queued \<and> sr_queued r < cutoff) (pb_jobs pb)")
      case None
      with False pb assms same show ?thesis by (simp add: body)
    next
      case (Some job)
      let ?w1 = "w\<lparr>jw_reads := Suc (jw_reads w)\<rparr>"
      let ?job = "job\<lparr>sr_status := st_failed, sr_finished := Some (stamp_millis (st_now (we_stamp env (jw_reads w)))),
        sr_error := orphaned_queued_reason\<rparr>"
      obtain p1 where sv: "save_pb_job ?job ?w1 = (Ok (), ?w1\<lparr>jw_pb := p1\<rparr>)"
        using quiet_calls(2) [of ?w1 ?job] assms by auto
      obtain q p2 where f: "mark_stale_job_artist_failed env (sr_artist job) (?w1\<lparr>jw_pb := p1\<rparr>) = (q, ?w1\<lparr>jw_pb := p1, jw_pb := p2\<rparr>)"
        using artist_failed_pb_frame [of "?w1\<lparr>jw_pb := p1\<rparr>" env "sr_artist job"] assms by auto
      have "\<exists>p3. snd (mark_orphaned_job_failed_pb env rid cutoff w) = ?w1\<lparr>jw_pb := p3\<rparr>"
        using False pb assms Some sv f
        by (auto simp: body split: bool.splits sum.splits option.splits)
      moreover have "pb_only w (?w1\<lparr>jw_pb := p3\<rparr>)" for p3
        by (rule pb_onlyI [where pb = p3 and n = "Suc (jw_reads w)"]) simp_all
      ultimately show ?thesis by metis
    qed
  qed
qed

lemma pb_only_frame:
  assumes "pb_only w w'" and "quiet w"
  shows "stepped env T w w'" and "jw_rows w' = jw_rows w" and "jw_store w' = jw_store w"
  using assms by (auto simp: pb_only_def quiet_def intro!: stepped_local [unfolded quiet_def])

section \<open>One candidate\<close>

definition artists :: "'s jobs_world \<Rightarrow> string set" where "artists w = sr_artist ` set (jw_rows w)"
definition requests :: "'s jobs_world \<Rightarrow> string set" where "requests w = sr_request ` set (jw_rows w)"

text \<open>What the sweep may do: flip queued orphans to failed, and write their verdicts.\<close>

definition swept :: "'s worker_env \<Rightarrow> 's jobs_world \<Rightarrow> 's jobs_world \<Rightarrow> bool" where
  "swept env w w' \<longleftrightarrow>
     stepped env (artists w \<union> requests w) (w\<lparr>jw_cursor := None\<rparr>) (w'\<lparr>jw_cursor := None\<rparr>)
   \<and> (\<exists>f. jw_rows w' = map f (jw_rows w) \<and>
        (\<forall>r\<in>set (jw_rows w). f r = r \<or> flipped_row r (f r) \<and> orphaned (stored (jw_store w) (sr_request r))))
   \<and> (\<forall>j. j \<notin> artists w \<longrightarrow> stored (jw_store w') j = stored (jw_store w) j
        \<or> stored (jw_store w) j = [] \<and> is_orphaned_queued_verdict (stored (jw_store w') j))"

definition sweepable :: "'s worker_env \<Rightarrow> 's jobs_world \<Rightarrow> bool" where
  "sweepable env w \<longleftrightarrow> quiet w \<and> distinct (map sr_request (jw_rows w)) \<and> artists w \<inter> requests w = {}
     \<and> (\<forall>k\<ge>jw_reads w. ''evt_'' @ st_uuid (we_stamp env k) \<notin> ids (jw_store w))
     \<and> inj (\<lambda>k. st_uuid (we_stamp env k))"

lemma swept_rows:
  assumes "swept env w w'"
  shows "map sr_request (jw_rows w') = map sr_request (jw_rows w)" and "map sr_artist (jw_rows w') = map sr_artist (jw_rows w)"
    and "artists w' = artists w" and "requests w' = requests w"
proof -
  from assms obtain f where f: "jw_rows w' = map f (jw_rows w)" "\<forall>r\<in>set (jw_rows w). f r = r \<or> flipped_row r (f r)"
    unfolding swept_def by blast
  then show a: "map sr_request (jw_rows w') = map sr_request (jw_rows w)" and b: "map sr_artist (jw_rows w') = map sr_artist (jw_rows w)"
    by (auto simp: flipped_row_def)
  show "artists w' = artists w" using arg_cong [OF b, of set] by (simp add: artists_def)
  show "requests w' = requests w" using arg_cong [OF a, of set] by (simp add: requests_def)
qed

lemma swept_sweepable:
  assumes "swept env w w'" and "sweepable env w"
  shows "sweepable env w'"
proof -
  have st: "stepped env (artists w \<union> requests w) (w\<lparr>jw_cursor := None\<rparr>) (w'\<lparr>jw_cursor := None\<rparr>)"
    using assms(1) by (simp add: swept_def)
  have q: "quiet w'" using stepped_quiet [OF st] by (simp add: quiet_def)
  have sub: "ids (jw_store w') \<subseteq> ids (jw_store w) \<union> (\<lambda>k. ''evt_'' @ st_uuid (we_stamp env k)) ` {jw_reads w..<jw_reads w'}"
    and le: "jw_reads w \<le> jw_reads w'"
    using st by (simp_all add: stepped_def kept_def new_ids_def)
  have "''evt_'' @ st_uuid (we_stamp env k) \<notin> ids (jw_store w')" if "jw_reads w' \<le> k" for k
  proof
    assume "''evt_'' @ st_uuid (we_stamp env k) \<in> ids (jw_store w')"
    from subsetD [OF sub this]
    have "''evt_'' @ st_uuid (we_stamp env k) \<in> ids (jw_store w) \<or> (\<exists>k'<jw_reads w'. st_uuid (we_stamp env k) = st_uuid (we_stamp env k'))"
      by auto
    moreover have "''evt_'' @ st_uuid (we_stamp env k) \<notin> ids (jw_store w)"
      using assms(2) le that by (simp add: sweepable_def)
    ultimately obtain k' where "k' < jw_reads w'" "st_uuid (we_stamp env k) = st_uuid (we_stamp env k')"
      by blast
    moreover have "st_uuid (we_stamp env k) = st_uuid (we_stamp env k') \<Longrightarrow> k = k'"
      using assms(2) unfolding sweepable_def inj_def by blast
    ultimately show False using that by simp
  qed
  with q assms(2) swept_rows [OF assms(1)] show ?thesis by (simp add: sweepable_def)
qed

lemma swept_refl: "quiet w \<Longrightarrow> swept env w w"
  unfolding swept_def by (intro conjI stepped_refl exI [of _ "\<lambda>r. r"]) (simp_all add: quiet_def)

lemma swept_trans:
  assumes "swept env w w1" and "swept env w1 w2" and "sweepable env w"
  shows "swept env w w2"
proof -
  note same = swept_rows [OF assms(1)]
  let ?A = "artists w \<union> requests w"
  have steps: "stepped env ?A (w\<lparr>jw_cursor := None\<rparr>) (w2\<lparr>jw_cursor := None\<rparr>)"
    using assms(1,2) same(3,4) by (auto simp: swept_def intro: stepped_trans [of env ?A _ _ ?A])
  from assms(1) obtain f where f: "jw_rows w1 = map f (jw_rows w)"
    "\<forall>r\<in>set (jw_rows w). f r = r \<or> flipped_row r (f r) \<and> orphaned (stored (jw_store w) (sr_request r))"
    unfolding swept_def by blast
  from assms(2) obtain g where g: "jw_rows w2 = map g (jw_rows w1)"
    "\<forall>r\<in>set (jw_rows w1). g r = r \<or> flipped_row r (g r) \<and> orphaned (stored (jw_store w1) (sr_request r))"
    unfolding swept_def by blast
  have st: "stored (jw_store w1) j = stored (jw_store w) j
        \<or> stored (jw_store w) j = [] \<and> is_orphaned_queued_verdict (stored (jw_store w1) j)" if "j \<notin> artists w" for j
    using assms(1) that by (simp add: swept_def)
  have flips: "(g \<circ> f) r = r \<or> flipped_row r ((g \<circ> f) r) \<and> orphaned (stored (jw_store w) (sr_request r))"
    if r: "r \<in> set (jw_rows w)" for r
  proof -
    have out: "sr_request r \<notin> artists w" using assms(3) r by (auto simp: sweepable_def requests_def)
    have g_r: "g (f r) = f r \<or> flipped_row (f r) (g (f r)) \<and> orphaned (stored (jw_store w1) (sr_request (f r)))"
      using g(2) f(1) r by auto
    consider "f r = r" | "flipped_row r (f r)" "orphaned (stored (jw_store w) (sr_request r))" using f(2) r by blast
    then show ?thesis
    proof cases
      case 1
      with g_r st [OF out] show ?thesis by (auto simp: orphaned_def)
    next
      case 2
      then have "\<not> flipped_row (f r) (g (f r))" by (auto simp: flipped_row_def job_statuses)
      with g_r 2 show ?thesis by auto
    qed
  qed
  have streams: "stored (jw_store w2) j = stored (jw_store w) j
        \<or> stored (jw_store w) j = [] \<and> is_orphaned_queued_verdict (stored (jw_store w2) j)" if "j \<notin> artists w" for j
    using assms(2) that same(3) st [OF that] by (auto simp: swept_def)
  have "jw_rows w2 = map (g \<circ> f) (jw_rows w)" using f(1) g(1) by simp
  with steps flips streams show ?thesis unfolding swept_def by blast
qed

text \<open>The facts a repair needs: a row that is queued and old enough, and a request that is not blank.\<close>

lemma first_append:
  assumes "calm s" and "stored s rid = []" and "job.sourced [] agg" and "ba_id agg = rid" and "ba_uncommitted agg \<noteq> []"
    and "distinct (map ev_id (ba_uncommitted agg))" and "ev_id ` set (ba_uncommitted agg) \<inter> ids s = {}"
  obtains s' where "append_with_retry (so_append ops) (so_load ops) ctx s rid 0 (ba_uncommitted agg) = (Ok (), s')"
    and "stored s' rid = map strip (ba_uncommitted agg)" and "kept {rid} (ev_id ` set (ba_uncommitted agg)) s s'"
proof -
  from append_new [of s agg] assms obtain s' where s: "so_append ops s rid 0 (ba_uncommitted agg) = (Ok (), s')"
    "stored s' rid = map strip (ba_uncommitted agg)" by auto
  have "append_with_retry (so_append ops) (so_load ops) ctx s rid 0 (ba_uncommitted agg) = (Ok (), s')"
    using assms(5) s(1) by (simp add: append_with_retry_def append_retry_attempts_def numeral_eq_Suc)
  with s append_kept [OF assms(1) s(1) subset_refl] show thesis by (intro that)
qed

lemma orphan_event:
  assumes "sweepable env w" and "we_ops env = ops" and "stored (jw_store w) rid = []" and "trim_space rid \<noteq> []"
    and "artist_id \<noteq> []" and "record_job_event env rid artist_id (fail_with orphaned_queued_reason rid) w = (r, w')"
  shows "r = Ok ()" and "stepped env {rid} w w'" and "jw_rows w' = jw_rows w"
    and "is_orphaned_queued_verdict (stored (jw_store w') rid)"
proof -
  have c: "calm (jw_store w)" and f: "jw_faults w = []" using assms(1) by (auto simp: sweepable_def quiet_def)
  obtain es where "so_load ops (jw_store w) rid = (Ok es, jw_store w)" "map strip es = stored (jw_store w) rid"
    using load [OF c] by blast
  with assms(3) have l: "so_load ops (jw_store w) rid = (Ok [], jw_store w)" by simp
  let ?st = "\<lambda>k. we_stamp env (jw_reads w + k)"
  have rid: "rid \<noteq> []" using assms(4) by auto
  obtain agg agg' where j: "new_scrape_job (?st 0) rid artist_id [] = Ok agg"
    "fail_with orphaned_queued_reason rid (?st 1) (?st 2) agg = Ok (True, agg')"
    "map ev_id (ba_uncommitted agg') = [''evt_'' @ st_uuid (?st 0), ''evt_'' @ st_uuid (?st 1)]" "ba_id agg' = rid"
    "is_orphaned_queued_verdict (map strip (ba_uncommitted agg'))" "job.sourced [] agg'"
    by (rule new_job_failed [OF rid assms(5), of "?st 0" "?st 1" "?st 2"])
  have us: "ev_id ` set (ba_uncommitted agg') = {''evt_'' @ st_uuid (?st 0), ''evt_'' @ st_uuid (?st 1)}"
    using arg_cong [OF j(3), of set] by simp
  have ne: "ba_uncommitted agg' \<noteq> []" using j(3) by auto
  have fresh: "ev_id ` set (ba_uncommitted agg') \<inter> ids (jw_store w) = {}" "distinct (map ev_id (ba_uncommitted agg'))"
  proof -
    have "st_uuid (?st 0) \<noteq> st_uuid (?st 1)" using assms(1) unfolding sweepable_def inj_def by fastforce
    then show "distinct (map ev_id (ba_uncommitted agg'))" by (simp add: j(3))
    show "ev_id ` set (ba_uncommitted agg') \<inter> ids (jw_store w) = {}"
      unfolding us using assms(1) unfolding sweepable_def by (simp add: disjoint_insert)
  qed
  obtain s' where a: "append_with_retry (so_append ops) (so_load ops) (so_ctx ops) (jw_store w) rid 0 (ba_uncommitted agg') = (Ok (), s')"
    "stored s' rid = map strip (ba_uncommitted agg')" "kept {rid} (ev_id ` set (ba_uncommitted agg')) (jw_store w) s'"
    by (rule first_append [OF c assms(3) j(6,4) ne fresh(2,1)])
  have run: "r = Ok ()" "w' = w\<lparr>jw_store := s', jw_reads := jw_reads w + 3\<rparr>"
    using assms(4,6) l j(1,2) a(1) ne
    by (simp_all add: record_job_event_def assms(2) next_stamp_def store_then_reads numeral_eq_Suc Let_def)
  show "r = Ok ()" "jw_rows w' = jw_rows w" using run by simp_all
  show "is_orphaned_queued_verdict (stored (jw_store w') rid)" using run j(5) a(2) by simp
  have "ev_id ` set (ba_uncommitted agg') \<subseteq> new_ids env w w'"
    unfolding us new_ids_def run(2) by (auto intro!: image_eqI)
  with a(3) f run(2) show "stepped env {rid} w w'" unfolding stepped_def kept_def by (simp; blast)
qed

lemma stepped_mono: "stepped env T w w' \<Longrightarrow> T \<subseteq> U \<Longrightarrow> stepped env U w w'"
  by (auto simp: stepped_def kept_def)

lemma sweptI:
  assumes "stepped env T w w'" and "T \<subseteq> artists w \<union> requests w" and "jw_rows w' = map f (jw_rows w)"
    and "\<And>r. r \<in> set (jw_rows w) \<Longrightarrow> f r = r \<or> flipped_row r (f r) \<and> orphaned (stored (jw_store w) (sr_request r))"
    and "\<And>j. j \<in> T - artists w \<Longrightarrow> stored (jw_store w') j = stored (jw_store w) j
        \<or> stored (jw_store w) j = [] \<and> is_orphaned_queued_verdict (stored (jw_store w') j)"
  shows "swept env w w'"
proof -
  have "stepped env (artists w \<union> requests w) (w\<lparr>jw_cursor := None\<rparr>) (w'\<lparr>jw_cursor := None\<rparr>)"
    using stepped_mono [OF assms(1,2)] by (simp add: stepped_def new_ids_def)
  moreover have "\<forall>j. j \<notin> artists w \<longrightarrow> stored (jw_store w') j = stored (jw_store w) j
        \<or> stored (jw_store w) j = [] \<and> is_orphaned_queued_verdict (stored (jw_store w') j)"
    using assms(1,5) unfolding stepped_def kept_def by blast
  ultimately show ?thesis using assms(3,4) unfolding swept_def by blast
qed

lemma artist_failed_local:
  "jw_faults w = [] \<Longrightarrow> \<exists>b m. mark_artist_failed_sqlite i w = (b, w\<lparr>jw_models := m\<rparr>)"
proof -
  have same: "\<exists>m. w = w\<lparr>jw_models := m\<rparr>" by (intro exI [of _ "jw_models w"]) simp
  assume "jw_faults w = []"
  with same show ?thesis by (auto simp: mark_artist_failed_sqlite_def turn_quiet split: option.splits)
qed

lemma repair_swept:
  assumes "sweepable env w" and "we_ops env = ops" and "trim_space (sr_request job) \<noteq> []"
    and "orphaned (stored (jw_store w) (sr_request job))" and "sr_artist job \<in> artists w"
  shows "swept env w (repair_orphan env cutoff job w)"
    and "r \<in> set (jw_rows w) \<Longrightarrow> fails_now (sr_request job) cutoff r \<Longrightarrow>
           \<exists>r'\<in>set (jw_rows (repair_orphan env cutoff job w)). flipped_row r r'"
    and "jw_cursor (repair_orphan env cutoff job w) = jw_cursor w"
    and "\<forall>j. j \<noteq> sr_artist job \<longrightarrow> stored (jw_store (repair_orphan env cutoff job w)) j = stored (jw_store w) j"
    and "\<forall>x\<in>set (jw_rows w). sr_request x \<noteq> sr_request job \<longrightarrow> x \<in> set (jw_rows (repair_orphan env cutoff job w))"
proof -
  let ?rid = "sr_request job" and ?a = "sr_artist job" and ?now = "stamp_millis (st_now (we_stamp env (jw_reads w)))"
  let ?f = "\<lambda>r. if fails_now ?rid cutoff r
    then r\<lparr>sr_status := st_failed, sr_finished := Some ?now, sr_error := orphaned_queued_reason\<rparr> else r"
  have q: "quiet w" "jw_faults w = []" using assms(1) by (auto simp: sweepable_def quiet_def)
  let ?w1 = "w\<lparr>jw_reads := Suc (jw_reads w), jw_rows := map ?f (jw_rows w)\<rparr>"
  obtain hit where m: "mark_orphaned_row_failed env ?rid cutoff w = (hit, ?w1)"
    using q(2) assms(3)
    by (simp add: mark_orphaned_row_failed_def clock_now_def next_stamp_def update_rows_def turn_quiet fails_now_def)
  have s1: "stepped env {?a} w ?w1" using q by (intro stepped_local) simp_all
  obtain flip w2 where two: "(if hit then mark_artist_failed_sqlite ?a ?w1 else (False, ?w1)) = (flip, w2)"
    by (rule prod.exhaust)
  have "\<exists>md. w2 = ?w1\<lparr>jw_models := md\<rparr>"
  proof (cases hit)
    case True
    have "\<exists>b md. mark_artist_failed_sqlite ?a ?w1 = (b, ?w1\<lparr>jw_models := md\<rparr>)"
      by (rule artist_failed_local) (simp add: q(2))
    then obtain b md where "mark_artist_failed_sqlite ?a ?w1 = (b, ?w1\<lparr>jw_models := md\<rparr>)" by blast
    with True two show ?thesis by auto
  next
    case False
    with two have "w2 = ?w1" by simp
    then show ?thesis by (intro exI [of _ "jw_models w"]) simp
  qed
  then obtain md where w2: "w2 = ?w1\<lparr>jw_models := md\<rparr>" by blast
  have s2: "stepped env {?a} w w2"
    by (rule stepped_local [OF q(1)]) (simp_all add: w2 q(2))
  have r2: "jw_rows w2 = map ?f (jw_rows w)" by (simp add: w2)
  define w3 where "w3 = snd (mark_orphaned_job_failed_pb env ?rid cutoff w2)"
  have "jw_faults w2 = []" using s2 by (simp add: stepped_def)
  then have "pb_only w2 w3" unfolding w3_def by (rule orphaned_job_pb_frame)
  note f3 = pb_only_frame [OF this stepped_quiet [OF s2]]
  have s3: "stepped env {?a} w w3" "jw_rows w3 = map ?f (jw_rows w)"
    using stepped_trans [OF s2 f3(1), of "{?a}" "{?a}"] by (simp_all add: r2 f3(2))
  let ?w4 = "repair_orphan env cutoff job w"
  have w4: "?w4 = (if hit \<and> flip then record_artist_fetch_status_warn env ?a ''failed'' ?rid w3 else w3)"
    unfolding repair_orphan_def m Let_def prod.case two w3_def by (simp add: case_prod_beta)
  have s4: "stepped env {?a} w ?w4" "jw_rows ?w4 = map ?f (jw_rows w)"
    using s3 fetch_status_stepped [OF stepped_quiet [OF s3(1)] assms(2), of ?a "''failed''" ?rid]
      stepped_trans [OF s3(1), of "{?a}"] unfolding w4 by auto
  show "swept env w ?w4"
    using assms(4,5) by (intro sweptI [OF s4(1) _ s4(2)]) (auto simp: flipped_row_def fails_now_def)
  show "\<exists>r'\<in>set (jw_rows ?w4). flipped_row r r'" if "r \<in> set (jw_rows w)" "fails_now ?rid cutoff r"
  proof (rule bexI [of _ "?f r"])
    show "flipped_row r (?f r)" using that by (simp add: flipped_row_def fails_now_def)
    show "?f r \<in> set (jw_rows ?w4)" using that(1) by (simp add: s4(2))
  qed
  show "jw_cursor ?w4 = jw_cursor w" using s4(1) by (simp add: stepped_def)
  show "\<forall>j. j \<noteq> ?a \<longrightarrow> stored (jw_store ?w4) j = stored (jw_store w) j"
    using s4(1) by (simp add: stepped_def kept_def)
  show "\<forall>x\<in>set (jw_rows w). sr_request x \<noteq> ?rid \<longrightarrow> x \<in> set (jw_rows ?w4)"
    by (force simp: s4(2) fails_now_def)
qed

definition waiting :: "scrape_row \<Rightarrow> 's jobs_world \<Rightarrow> bool" where
  "waiting r w \<longleftrightarrow> r \<in> set (jw_rows w) \<and> sr_status r = st_queued \<and> stored (jw_store w) (sr_request r) = []"

definition settled :: "string \<Rightarrow> 's jobs_world \<Rightarrow> bool" where
  "settled rid w \<longleftrightarrow> (\<exists>r\<in>set (jw_rows w). sr_request r = rid \<and> sr_status r = st_failed \<and> sr_error r = orphaned_queued_reason)
     \<and> is_orphaned_queued_verdict (stored (jw_store w) rid)"

lemma flipped_settles:
  "\<exists>r'\<in>set (jw_rows w). flipped_row r r' \<Longrightarrow> is_orphaned_queued_verdict (stored (jw_store w) (sr_request r)) \<Longrightarrow>
     settled (sr_request r) w"
  by (auto simp: settled_def flipped_row_def)

lemma settled_stays:
  assumes "settled rid w" and "swept env w w'" and "sweepable env w"
  shows "settled rid w'"
proof -
  from assms(1) obtain r where r: "r \<in> set (jw_rows w)" "sr_request r = rid" "sr_status r = st_failed"
    "sr_error r = orphaned_queued_reason" and v: "is_orphaned_queued_verdict (stored (jw_store w) rid)"
    by (auto simp: settled_def)
  from assms(2) obtain f where f: "jw_rows w' = map f (jw_rows w)" "\<forall>r\<in>set (jw_rows w). f r = r \<or> flipped_row r (f r)"
    unfolding swept_def by blast
  have "f r = r" using f(2) r(1,3) by (auto simp: flipped_row_def job_statuses)
  then have "r \<in> set (jw_rows w')" using f(1) r(1) by (auto intro: rev_image_eqI)
  moreover have "rid \<notin> artists w" using assms(3) r by (auto simp: sweepable_def requests_def)
  then have "is_orphaned_queued_verdict (stored (jw_store w') rid)"
    using assms(2) v verdict_ne [OF v] by (auto simp: swept_def)
  ultimately show ?thesis using r by (auto simp: settled_def)
qed

text \<open>What a step that handles the request \<open>rid\<close> does to it and to the others.\<close>

definition handled :: "'s worker_env \<Rightarrow> string \<Rightarrow> string \<Rightarrow> 's jobs_world \<Rightarrow> 's jobs_world \<Rightarrow> bool" where
  "handled env rid artist_id w w' \<longleftrightarrow> swept env w w' \<and> jw_cursor w' = jw_cursor w
     \<and> (\<forall>j. j \<noteq> rid \<and> j \<noteq> artist_id \<longrightarrow> stored (jw_store w') j = stored (jw_store w) j)
     \<and> (\<forall>x\<in>set (jw_rows w). sr_request x \<noteq> rid \<longrightarrow> x \<in> set (jw_rows w'))"

lemma handled_trans:
  assumes "handled env rid i w w1" and "handled env rid i w1 w2" and "sweepable env w"
  shows "handled env rid i w w2"
  using assms swept_trans [of env w w1 w2] unfolding handled_def by metis

lemma handled_local:
  assumes "quiet w" and "jw_store w' = jw_store w" and "jw_rows w' = jw_rows w" and "jw_faults w' = []"
    and "jw_cursor w' = jw_cursor w" and "jw_reads w \<le> jw_reads w'"
  shows "handled env rid i w w'"
proof -
  have "stepped env {} w w'" using assms by (intro stepped_local)
  then have "swept env w w'" by (rule sweptI [where f = "\<lambda>r. r"]) (simp_all add: assms)
  with assms show ?thesis by (simp add: handled_def)
qed

lemma handled_waiting:
  "handled env rid i w w' \<Longrightarrow> waiting r w \<Longrightarrow> sr_request r \<noteq> rid \<Longrightarrow> sr_request r \<noteq> i \<Longrightarrow> waiting r w'"
  by (auto simp: handled_def waiting_def)

lemma repair_handled:
  assumes "sweepable env w" and "we_ops env = ops" and "trim_space (sr_request job) \<noteq> []"
    and "orphaned (stored (jw_store w) (sr_request job))" and "sr_artist job \<in> artists w"
  shows "handled env (sr_request job) (sr_artist job) w (repair_orphan env cutoff job w)"
  using repair_swept [OF assms] by (simp add: handled_def)

lemma event_handled:
  assumes "sweepable env w" and "we_ops env = ops" and "stored (jw_store w) rid = []" and "trim_space rid \<noteq> []"
    and "artist_id \<noteq> []" and "rid \<in> requests w"
    and "record_job_event env rid artist_id (fail_with orphaned_queued_reason rid) w = (r, w')"
  shows "handled env rid artist_id w w'"
proof -
  note e = orphan_event [OF assms(1-5,7)]
  have "swept env w w'" by (rule sweptI [OF e(2), where f = "\<lambda>r. r"]) (use assms(3,6) e(3,4) in auto)
  with e(2,3) show ?thesis by (auto simp: handled_def stepped_def kept_def)
qed

lemma event_refused:
  assumes "calm (jw_store w)" and "we_ops env = ops" and "stored (jw_store w) rid = []" and "trim_space rid \<noteq> []"
  shows "\<exists>err. record_job_event env rid [] rec w = (Fail err, w\<lparr>jw_reads := jw_reads w + 3\<rparr>)"
proof -
  have "so_load ops (jw_store w) rid = (Ok [], jw_store w)" using load [OF assms(1), of rid] assms(3) by auto
  with assms(2,4) show ?thesis
    by (auto simp: record_job_event_def next_stamp_def new_scrape_job_def numeral_eq_Suc Let_def)
qed

lemma check_handled:
  assumes "sweepable env w" and "we_ops env = ops" and "sr_artist job \<in> artists w" and "sr_request job \<in> requests w"
  shows "handled env (sr_request job) (sr_artist job) w (check_orphan env cutoff job w)"
    and "waiting r w \<Longrightarrow> sr_request r = sr_request job \<Longrightarrow> trim_space (sr_request job) \<noteq> [] \<Longrightarrow> sr_artist job \<noteq> [] \<Longrightarrow>
           sr_queued r < cutoff \<Longrightarrow> settled (sr_request r) (check_orphan env cutoff job w)"
proof -
  let ?rid = "sr_request job" and ?a = "sr_artist job"
  have q: "quiet w" "calm (jw_store w)" "jw_faults w = []" using assms(1) by (auto simp: sweepable_def quiet_def)
  obtain es where l: "so_load ops (jw_store w) ?rid = (Ok es, jw_store w)"
    "map strip es = stored (jw_store w) ?rid" using load [OF q(2)] by blast
  then have nil: "stored (jw_store w) ?rid = [] \<longleftrightarrow> es = []" by auto
  have v: "is_orphaned_queued_verdict (stored (jw_store w) ?rid) = is_orphaned_queued_verdict es"
    using l(2) verdict_strip by metis
  have same: "handled env ?rid ?a w w" by (rule handled_local) (simp_all add: q)
  note body = check_orphan_def [of env cutoff job w] assms(2) l(1)
  obtain r1 w1 where rec: "record_job_event env ?rid ?a (fail_with orphaned_queued_reason ?rid) w = (r1, w1)"
    by (rule prod.exhaust)
  have fresh: "r1 = Ok () \<and> handled env ?rid ?a w w1 \<and> sweepable env w1 \<and> jw_rows w1 = jw_rows w
      \<and> is_orphaned_queued_verdict (stored (jw_store w1) ?rid) \<and> ?a \<in> artists w1"
    if "es = []" "trim_space ?rid \<noteq> []" "?a \<noteq> []"
  proof -
    have s: "stored (jw_store w) ?rid = []" using nil that by simp
    note e = orphan_event [OF assms(1,2) s that(2,3) rec] and h = event_handled [OF assms(1,2) s that(2,3) assms(4) rec]
    then have "sweepable env w1" using swept_sweepable [OF _ assms(1)] by (simp add: handled_def)
    with e h assms(3) show ?thesis by (simp add: artists_def)
  qed
  show "handled env ?rid ?a w (check_orphan env cutoff job w)"
  proof (cases "trim_space ?rid = []")
    case True
    with same show ?thesis by (simp add: check_orphan_def)
  next
    case False
    show ?thesis
    proof (cases "es = []")
      case True
      show ?thesis
      proof (cases "?a = []")
        case a: True
        obtain err where "record_job_event env ?rid [] (fail_with orphaned_queued_reason ?rid) w = (Fail err, w\<lparr>jw_reads := jw_reads w + 3\<rparr>)"
          using event_refused [OF q(2) assms(2) _ False] nil True by blast
        then have "check_orphan env cutoff job w = w\<lparr>jw_reads := jw_reads w + 3\<rparr>"
          using False True a by (simp add: body)
        then show ?thesis by (simp add: handled_local q)
      next
        case a: False
        note f = fresh [OF True False a]
        with repair_handled [of env w1 job cutoff] assms(2) False
        have "handled env ?rid ?a w1 (repair_orphan env cutoff job w1)" by (simp add: orphaned_def)
        with f have "handled env ?rid ?a w (repair_orphan env cutoff job w1)"
          using handled_trans [OF _ _ assms(1)] by blast
        with f False True rec show ?thesis by (simp add: body)
      qed
    next
      case ne: False
      show ?thesis
      proof (cases "is_orphaned_queued_verdict es")
        case True
        with repair_handled [OF assms(1,2) False _ assms(3), of cutoff] same False ne v show ?thesis
          by (simp add: body orphaned_def Let_def)
      next
        case nv: False
        with same False ne show ?thesis by (simp add: body Let_def)
      qed
    qed
  qed
  show "settled (sr_request r) (check_orphan env cutoff job w)"
    if "waiting r w" "sr_request r = ?rid" "trim_space ?rid \<noteq> []" "?a \<noteq> []" "sr_queued r < cutoff"
  proof -
    have es: "es = []" using that(1,2) nil by (simp add: waiting_def)
    note f = fresh [OF es that(3,4)]
    have w': "check_orphan env cutoff job w = repair_orphan env cutoff job w1"
      using f es that(3) rec by (simp add: body)
    have o: "orphaned (stored (jw_store w1) ?rid)" using f by (simp add: orphaned_def)
    note rep = repair_swept [OF conjunct1 [OF conjunct2 [OF conjunct2 [OF f]]] assms(2) that(3) o, where cutoff = cutoff]
    have "r \<in> set (jw_rows w1)" "fails_now ?rid cutoff r"
      using f that by (auto simp: waiting_def fails_now_def)
    with rep(2) f have "\<exists>r'\<in>set (jw_rows (repair_orphan env cutoff job w1)). flipped_row r r'" by simp
    moreover have "?rid \<noteq> ?a" using assms(1,3,4) by (auto simp: sweepable_def)
    with rep(4) f that(2) have "is_orphaned_queued_verdict (stored (jw_store (repair_orphan env cutoff job w1)) (sr_request r))"
      by simp
    ultimately show ?thesis unfolding w' by (rule flipped_settles)
  qed
qed

end

end
