(* ===== verification/Worker_Sweep_Properties.thy ===== *)
theory Worker_Sweep_Properties
  imports Worker_Sweep_Steps
begin

text \<open>
  What the sweep of queued rows achieves: no orphan starves behind rows that were dispatched, and no
  dispatched row is touched. It is proved over every \<open>calm_store\<close>, and holds for the SQLite store.
\<close>

context calm_store
begin

section \<open>One sweep\<close>

lemma loop_handled:
  assumes "sweepable env w" and "we_ops env = ops" and "we_ctx env = (\<lambda>w. None)"
    and "\<forall>job\<in>set jobs. sr_artist job \<in> artists w \<and> sr_request job \<in> requests w"
  shows "swept env w (orphan_loop env cutoff jobs w) \<and> jw_cursor (orphan_loop env cutoff jobs w) = jw_cursor w
    \<and> (\<forall>r. waiting r w \<and> (r \<in> set jobs \<longrightarrow> trim_space (sr_request r) \<noteq> [] \<and> sr_artist r \<noteq> [] \<and> sr_queued r < cutoff) \<and>
          (\<forall>job\<in>set jobs. sr_request job = sr_request r \<longrightarrow> job = r) \<longrightarrow>
        (if r \<in> set jobs then settled (sr_request r) (orphan_loop env cutoff jobs w)
         else waiting r (orphan_loop env cutoff jobs w)))"
  using assms(1,4)
proof (induction jobs arbitrary: w)
  case Nil
  then show ?case by (simp add: swept_refl sweepable_def)
next
  case (Cons job jobs)
  let ?w1 = "check_orphan env cutoff job w" and ?w2 = "orphan_loop env cutoff jobs (check_orphan env cutoff job w)"
  have job: "sr_artist job \<in> artists w" "sr_request job \<in> requests w" using Cons.prems(2) by simp_all
  note one = check_handled [OF Cons.prems(1) assms(2) job, where cutoff = cutoff]
  have s1: "swept env w ?w1" "jw_cursor ?w1 = jw_cursor w" using one(1) by (simp_all add: handled_def)
  note ok = swept_sweepable [OF s1(1) Cons.prems(1)]
  have jobs: "\<forall>job\<in>set jobs. sr_artist job \<in> artists ?w1 \<and> sr_request job \<in> requests ?w1"
    using Cons.prems(2) swept_rows(3,4) [OF s1(1)] by simp
  note rest = Cons.IH [OF ok jobs]
  have run: "orphan_loop env cutoff (job # jobs) w = ?w2" by (simp add: assms(3))
  have "if r \<in> set (job # jobs) then settled (sr_request r) ?w2 else waiting r ?w2"
    if w: "waiting r w"
      and ok_r: "r \<in> set (job # jobs) \<Longrightarrow> trim_space (sr_request r) \<noteq> [] \<and> sr_artist r \<noteq> [] \<and> sr_queued r < cutoff"
      and own: "\<forall>x\<in>set (job # jobs). sr_request x = sr_request r \<longrightarrow> x = r" for r
  proof (cases "sr_request job = sr_request r")
    case True
    with own have "job = r" by simp
    with one(2) [OF w] ok_r have "settled (sr_request r) ?w1" by simp
    from settled_stays [OF this conjunct1 [OF rest] ok] \<open>job = r\<close> show ?thesis by simp
  next
    case False
    have "sr_request r \<in> requests w" using w by (simp add: waiting_def requests_def)
    moreover have "artists w \<inter> requests w = {}" using Cons.prems(1) by (simp add: sweepable_def)
    ultimately have "sr_request r \<noteq> sr_artist job" using job(1) by (auto simp: disjoint_iff)
    from handled_waiting [OF one(1) w False [symmetric] this] have "waiting r ?w1" .
    moreover have "r \<noteq> job" using False by auto
    ultimately show ?thesis
      using conjunct2 [OF conjunct2 [OF rest], rule_format, of r] own ok_r by (cases "r \<in> set jobs") simp_all
  qed
  with swept_trans [OF s1(1) conjunct1 [OF rest] Cons.prems(1)] conjunct1 [OF conjunct2 [OF rest]] s1(2)
  show ?case unfolding run by (intro conjI allI impI) (simp, simp, blast)
qed

definition queued_past :: "'s jobs_world \<Rightarrow> scrape_row set" where
  "queued_past w = {x \<in> set (jw_rows w). sr_status x = st_queued \<and> past_cursor (jw_cursor w) x}"

definition before :: "scrape_row \<Rightarrow> 's jobs_world \<Rightarrow> scrape_row set" where
  "before r w = {x \<in> queued_past w. orphan_key x < orphan_key r}"

text \<open>The keyset of the page that follows the cursor.\<close>

lemma past_key: "past_cursor (Some k) x \<longleftrightarrow> k < orphan_key x"
  by (cases k) (auto simp: past_cursor_def orphan_key_def less_prod_def')

lemma swept_cursor: "swept env (w\<lparr>jw_cursor := c\<rparr>) w' \<longleftrightarrow> swept env w w'"
  by (simp add: swept_def artists_def requests_def)

lemma cursor_frame:
  "sweepable env (w\<lparr>jw_cursor := c\<rparr>) \<longleftrightarrow> sweepable env w" "artists (w\<lparr>jw_cursor := c\<rparr>) = artists w"
  "requests (w\<lparr>jw_cursor := c\<rparr>) = requests w" "waiting r (w\<lparr>jw_cursor := c\<rparr>) \<longleftrightarrow> waiting r w"
  by (simp_all add: sweepable_def quiet_def artists_def requests_def waiting_def)

lemma sweep_shape:
  fixes cutoff :: int
  assumes "jw_faults w = []"
  defines "page \<equiv> orphan_candidates cutoff w"
  shows "mark_orphaned_queued_jobs env cutoff w =
     orphan_loop env cutoff page (w\<lparr>jw_cursor := (if length page < orphaned_queued_scan_limit then None
                                                  else Some (orphan_key (last page)))\<rparr>)"
  using assms(1) by (simp add: mark_orphaned_queued_jobs_def turn_quiet page_def Let_def orphaned_queued_scan_limit_def)

lemma page_rows:
  "set (orphan_candidates cutoff w) \<subseteq> {x \<in> queued_past w. sr_queued x < cutoff}"
  using set_take_subset by (fastforce simp: orphan_candidates_def queued_past_def)

lemma sweep_swept:
  fixes cutoff :: int
  assumes "sweepable env w" and "we_ops env = ops" and "we_ctx env = (\<lambda>w. None)"
  defines "page \<equiv> orphan_candidates cutoff w" and "w' \<equiv> mark_orphaned_queued_jobs env cutoff w"
  shows "swept env w w'"
    and "jw_cursor w' = (if length page < orphaned_queued_scan_limit then None else Some (orphan_key (last page)))"
    and "waiting r w \<Longrightarrow> r \<in> set page \<Longrightarrow> trim_space (sr_request r) \<noteq> [] \<Longrightarrow> sr_artist r \<noteq> [] \<Longrightarrow> settled (sr_request r) w'"
    and "waiting r w \<Longrightarrow> r \<notin> set page \<Longrightarrow> waiting r w'"
proof -
  let ?c = "if length page < orphaned_queued_scan_limit then None else Some (orphan_key (last page))"
  have f: "jw_faults w = []" using assms(1) by (simp add: sweepable_def quiet_def)
  have w': "w' = orphan_loop env cutoff page (w\<lparr>jw_cursor := ?c\<rparr>)"
    unfolding w'_def page_def by (rule sweep_shape [OF f])
  have sub: "set page \<subseteq> {x \<in> set (jw_rows w). sr_queued x < cutoff}"
    using page_rows [of cutoff w] by (auto simp: page_def queued_past_def)
  have jobs: "\<forall>job\<in>set page. sr_artist job \<in> artists (w\<lparr>jw_cursor := ?c\<rparr>) \<and> sr_request job \<in> requests (w\<lparr>jw_cursor := ?c\<rparr>)"
    using sub by (auto simp: artists_def requests_def)
  have "sweepable env (w\<lparr>jw_cursor := ?c\<rparr>)" using assms(1) by (simp only: cursor_frame)
  note l = loop_handled [OF this assms(2,3) jobs, of cutoff, folded w', unfolded swept_cursor cursor_frame]
  show "swept env w w'" "jw_cursor w' = ?c" using l by simp_all
  have own: "\<forall>job\<in>set page. sr_request job = sr_request r \<longrightarrow> job = r" if "r \<in> set (jw_rows w)"
    using sub that assms(1) by (auto simp: sweepable_def distinct_map inj_on_def)
  show "settled (sr_request r) w'"
    if "waiting r w" "r \<in> set page" "trim_space (sr_request r) \<noteq> []" "sr_artist r \<noteq> []"
    using conjunct2 [OF conjunct2 [OF l], rule_format, of r] that own sub by (auto simp: waiting_def)
  show "waiting r w'" if "waiting r w" "r \<notin> set page"
    using conjunct2 [OF conjunct2 [OF l], rule_format, of r] that own by (auto simp: waiting_def)
qed

section \<open>Every orphan is reached\<close>

lemma queued_shrink:
  assumes "swept env w w'"
  shows "{x \<in> set (jw_rows w'). sr_status x = st_queued} \<subseteq> {x \<in> set (jw_rows w). sr_status x = st_queued}"
proof
  from assms obtain f where f: "jw_rows w' = map f (jw_rows w)" "\<forall>r\<in>set (jw_rows w). f r = r \<or> flipped_row r (f r)"
    unfolding swept_def by blast
  fix x assume x: "x \<in> {x \<in> set (jw_rows w'). sr_status x = st_queued}"
  then obtain r where r: "r \<in> set (jw_rows w)" "x = f r" using f(1) by auto
  with f(2) x have "x = r" by (auto simp: flipped_row_def job_statuses)
  with x r show "x \<in> {x \<in> set (jw_rows w). sr_status x = st_queued}" by simp
qed

lemma keys_distinct:
  assumes "distinct (map sr_request rows)" and "set xs \<subseteq> set rows" and "distinct xs"
  shows "distinct (map orphan_key xs)"
proof -
  have "inj_on sr_request (set xs)" using assms(1,2) by (auto simp: distinct_map intro: inj_on_subset)
  then have "inj_on orphan_key (set xs)" by (simp add: inj_on_def orphan_key_def)
  with assms(3) show ?thesis by (simp add: distinct_map)
qed

lemma page_sorted:
  assumes "sweepable env w" and "x \<in> set (orphan_candidates cutoff w)"
  shows "orphan_key x \<le> orphan_key (last (orphan_candidates cutoff w))"
    and "y \<in> queued_past w \<Longrightarrow> sr_queued y < cutoff \<Longrightarrow> y \<notin> set (orphan_candidates cutoff w) \<Longrightarrow>
           length (orphan_candidates cutoff w) = orphaned_queued_scan_limit \<and> orphan_key x < orphan_key y"
    and "distinct (orphan_candidates cutoff w)"
proof -
  define E where "E = filter (\<lambda>r. sr_status r = st_queued \<and> sr_queued r < cutoff \<and> past_cursor (jw_cursor w) r) (jw_rows w)"
  let ?S = "sort_key orphan_key E" and ?n = orphaned_queued_scan_limit
  have page: "orphan_candidates cutoff w = take ?n ?S" by (simp add: orphan_candidates_def E_def)
  have dr: "distinct (map sr_request (jw_rows w))" using assms(1) by (simp add: sweepable_def)
  have d: "distinct ?S" using dr by (simp add: E_def distinct_map)
  have k: "distinct (map orphan_key ?S)" by (rule keys_distinct [OF dr _ d]) (auto simp: E_def)
  have s: "sorted (map orphan_key ?S)" by simp
  show "distinct (orphan_candidates cutoff w)" using d by (simp add: page)
  have "sorted (map orphan_key (take ?n ?S))" using s by (metis sorted_wrt_take take_map)
  then show "orphan_key x \<le> orphan_key (last (orphan_candidates cutoff w))"
    using assms(2) unfolding page by (cases "take ?n ?S" rule: rev_cases) (auto simp: sorted_append)
  assume y: "y \<in> queued_past w" "sr_queued y < cutoff" "y \<notin> set (orphan_candidates cutoff w)"
  then have "y \<in> set ?S" by (simp add: E_def queued_past_def)
  then have yd: "y \<in> set (drop ?n ?S)" using y(3) unfolding page by (metis UnE append_take_drop_id set_append)
  then have "?n < length ?S" by (cases "?n < length ?S") simp_all
  moreover have "orphan_key x \<le> orphan_key y" "orphan_key x \<noteq> orphan_key y"
  proof -
    have "map orphan_key ?S = map orphan_key (take ?n ?S) @ map orphan_key (drop ?n ?S)"
      by (metis append_take_drop_id map_append)
    with s k assms(2) yd show "orphan_key x \<le> orphan_key y" "orphan_key x \<noteq> orphan_key y"
      unfolding page by (auto simp: sorted_append)
  qed
  ultimately show "length (orphan_candidates cutoff w) = ?n \<and> orphan_key x < orphan_key y" by (simp add: page)
qed

lemma full_page:
  assumes "sweepable env w" and "swept env w w'" and "length (orphan_candidates cutoff w) = orphaned_queued_scan_limit"
    and "jw_cursor w' = Some (orphan_key (last (orphan_candidates cutoff w)))"
  shows "queued_past w' \<inter> set (orphan_candidates cutoff w) = {}" and "queued_past w' \<subseteq> queued_past w"
    and "set (orphan_candidates cutoff w) \<subseteq> queued_past w" and "card (set (orphan_candidates cutoff w)) = 100"
    and "last (orphan_candidates cutoff w) \<in> queued_past w"
proof -
  let ?page = "orphan_candidates cutoff w"
  have ne: "?page \<noteq> []" using assms(3) by (auto simp: orphaned_queued_scan_limit_def)
  show sub: "set ?page \<subseteq> queued_past w" using page_rows [of cutoff w] by blast
  then show lp: "last ?page \<in> queued_past w" using ne by auto
  have "distinct ?page" using page_sorted(3) [OF assms(1)] ne by (meson last_in_set)
  then show "card (set ?page) = 100" using assms(3) by (simp add: distinct_card orphaned_queued_scan_limit_def)
  have cur: "orphan_key (last ?page) < orphan_key x" if "x \<in> queued_past w'" for x
    using that by (simp add: queued_past_def assms(4) past_key)
  show "queued_past w' \<inter> set ?page = {}" using cur page_sorted(1) [OF assms(1)] by fastforce
  show "queued_past w' \<subseteq> queued_past w"
  proof
    fix x assume x: "x \<in> queued_past w'"
    have "past_cursor (jw_cursor w) x"
    proof (cases "jw_cursor w")
      case (Some k)
      with lp have "k < orphan_key (last ?page)" by (simp add: queued_past_def past_key)
      with cur [OF x] Some show ?thesis by (simp add: past_key)
    qed (simp add: past_cursor_def)
    with x queued_shrink [OF assms(2)] show "x \<in> queued_past w" by (auto simp: queued_past_def)
  qed
qed

definition sweeps_left :: "nat \<Rightarrow> scrape_row \<Rightarrow> 's jobs_world \<Rightarrow> nat" where
  "sweeps_left n r w =
     (if past_cursor (jw_cursor w) r then card (before r w) div 100 + 1
      else card (queued_past w) div 100 + 1 + (n div 100 + 1))"

lemma card_fewer:
  "finite A \<Longrightarrow> B \<inter> P = {} \<Longrightarrow> B \<union> P \<subseteq> A \<Longrightarrow> card P = 100 \<Longrightarrow> card B div 100 < card A div 100"
proof -
  assume a: "finite A" "B \<inter> P = {}" "B \<union> P \<subseteq> A" "card P = 100"
  then have "finite B" "finite P" by (meson finite_Un finite_subset)+
  with a have "card B + 100 \<le> card A" using card_mono [OF a(1,3)] by (simp add: card_Un_disjoint)
  then show ?thesis by linarith
qed

lemma sweep_progress:
  fixes cutoff :: int
  assumes "sweepable env w" and "we_ops env = ops" and "we_ctx env = (\<lambda>w. None)" and "waiting r w"
    and "sr_queued r < cutoff" and "trim_space (sr_request r) \<noteq> []" and "sr_artist r \<noteq> []"
    and "card {x \<in> set (jw_rows w). sr_status x = st_queued} \<le> n"
  defines "w' \<equiv> mark_orphaned_queued_jobs env cutoff w"
  shows "settled (sr_request r) w' \<or> waiting r w' \<and> sweeps_left n r w' < sweeps_left n r w"
proof (cases "r \<in> set (orphan_candidates cutoff w)")
  case True
  with sweep_swept(3) [OF assms(1-3), of r cutoff] assms show ?thesis by simp
next
  case False
  let ?page = "orphan_candidates cutoff w"
  note sw = sweep_swept [OF assms(1-3), where cutoff = cutoff, folded w'_def]
  have w: "waiting r w'" using sw(4) assms(4) False by blast
  have fin: "finite (queued_past w)" "finite (before r w)" by (simp_all add: queued_past_def before_def)
  have "sweeps_left n r w' < sweeps_left n r w"
  proof (cases "past_cursor (jw_cursor w) r")
    case past: True
    then have r: "r \<in> queued_past w" using assms(4) by (simp add: waiting_def queued_past_def)
    show ?thesis
    proof (cases "?page = []")
      case True
      have "r \<in> set (sort_key orphan_key (filter (\<lambda>r. sr_status r = st_queued \<and> sr_queued r < cutoff \<and> past_cursor (jw_cursor w) r) (jw_rows w)))"
        using r assms(5) by (simp add: queued_past_def)
      with True show ?thesis
        by (auto simp: orphan_candidates_def orphaned_queued_scan_limit_def)
    next
      case ne: False
      then have l: "last ?page \<in> set ?page" by simp
      note full = page_sorted(2) [OF assms(1) l r assms(5) False]
      then have cur: "jw_cursor w' = Some (orphan_key (last ?page))" using sw(2) by simp
      note fp = full_page [OF assms(1) sw(1) conjunct1 [OF full] cur]
      have "before r w' \<union> set ?page \<subseteq> before r w" "before r w' \<inter> set ?page = {}"
        using fp(1-3) page_sorted(2) [OF assms(1) _ r assms(5) False] by (auto simp: before_def)
      from card_fewer [OF fin(2) this(2,1) fp(4)] past full cur show ?thesis
        by (simp add: sweeps_left_def past_key)
    qed
  next
    case npast: False
    show ?thesis
    proof (cases "length ?page < orphaned_queued_scan_limit")
      case True
      then have "past_cursor (jw_cursor w') r" using sw(2) by (simp add: past_cursor_def)
      moreover have "card (before r w') \<le> n"
      proof -
        have "card (before r w') \<le> card {x \<in> set (jw_rows w). sr_status x = st_queued}"
          using queued_shrink [OF sw(1)] by (intro card_mono) (auto simp: before_def queued_past_def)
        with assms(8) show ?thesis by simp
      qed
      then have "card (before r w') div 100 \<le> n div 100" by (rule div_le_mono)
      ultimately show ?thesis using npast by (simp add: sweeps_left_def)
    next
      case False
      then have full: "length ?page = orphaned_queued_scan_limit" by (simp add: orphan_candidates_def)
      have cur: "jw_cursor w' = Some (orphan_key (last ?page))" using sw(2) False by simp
      note fp = full_page [OF assms(1) sw(1) full cur]
      obtain k where k: "jw_cursor w = Some k" using npast by (cases "jw_cursor w") (auto simp: past_cursor_def)
      then have "k < orphan_key (last ?page)" "\<not> k < orphan_key r"
        using fp(5) npast by (simp_all add: queued_past_def past_key)
      then have "\<not> past_cursor (jw_cursor w') r" by (simp add: cur past_key)
      with card_fewer [OF fin(1) fp(1) _ fp(4)] fp(2,3) npast show ?thesis by (simp add: sweeps_left_def)
    qed
  qed
  with w show ?thesis by simp
qed

lemma sweeps_settle:
  assumes "sweepable env w" and "we_ops env = ops" and "we_ctx env = (\<lambda>w. None)"
    and "settled (sr_request r) w \<or> waiting r w \<and> sweeps_left n r w \<le> length cutoffs"
    and "trim_space (sr_request r) \<noteq> []" and "sr_artist r \<noteq> []" and "\<forall>c\<in>set cutoffs. sr_queued r < c"
    and "card {x \<in> set (jw_rows w). sr_status x = st_queued} \<le> n"
  defines "sweeps \<equiv> foldl (\<lambda>w c. mark_orphaned_queued_jobs env c w)"
  shows "settled (sr_request r) (sweeps w cutoffs)" and "swept env w (sweeps w cutoffs)"
proof -
  have "settled (sr_request r) (sweeps w cutoffs) \<and> swept env w (sweeps w cutoffs)"
    using assms(1,4,7,8)
  proof (induction cutoffs arbitrary: w)
    case Nil
    then have "swept env w w" by (simp add: swept_refl sweepable_def)
    moreover have "0 < sweeps_left n r w" by (simp add: sweeps_left_def)
    ultimately show ?case using Nil by (auto simp: sweeps_def)
  next
    case (Cons c cutoffs)
    let ?w1 = "mark_orphaned_queued_jobs env c w"
    have s: "swept env w ?w1" by (rule sweep_swept(1) [OF Cons.prems(1) assms(2,3)])
    note ok = swept_sweepable [OF s Cons.prems(1)]
    have "settled (sr_request r) ?w1 \<or> waiting r ?w1 \<and> sweeps_left n r ?w1 \<le> length cutoffs"
      using Cons.prems(2)
    proof
      assume "settled (sr_request r) w"
      then show ?thesis using settled_stays [OF _ s Cons.prems(1)] by blast
    next
      assume a: "waiting r w \<and> sweeps_left n r w \<le> length (c # cutoffs)"
      have "sr_queued r < c" using Cons.prems(3) by simp
      from sweep_progress [OF Cons.prems(1) assms(2,3) _ this assms(5,6) Cons.prems(4)] a show ?thesis by fastforce
    qed
    moreover have "card {x \<in> set (jw_rows ?w1). sr_status x = st_queued} \<le> n"
      using card_mono [OF _ queued_shrink [OF s]] Cons.prems(4) by fastforce
    ultimately have "settled (sr_request r) (sweeps ?w1 cutoffs) \<and> swept env ?w1 (sweeps ?w1 cutoffs)"
      using Cons.IH [OF ok] Cons.prems(3) by simp
    then show ?case using swept_trans [OF s _ Cons.prems(1)] by (simp add: sweeps_def)
  qed
  then show "settled (sr_request r) (sweeps w cutoffs)" "swept env w (sweeps w cutoffs)" by simp_all
qed

lemma swept_dispatched:
  assumes "swept env w w'" and "sweepable env w" and "x \<in> set (jw_rows w)"
    and "\<not> orphaned (stored (jw_store w) (sr_request x))"
  shows "x \<in> set (jw_rows w')" and "stored (jw_store w') (sr_request x) = stored (jw_store w) (sr_request x)"
proof -
  from assms(1,3,4) obtain f where "jw_rows w' = map f (jw_rows w)" "f x = x" unfolding swept_def by blast
  with assms(3) show "x \<in> set (jw_rows w')" by (auto intro: rev_image_eqI)
  have "sr_request x \<notin> artists w" using assms(2,3) by (auto simp: sweepable_def requests_def)
  with assms(1,4) show "stored (jw_store w') (sr_request x) = stored (jw_store w) (sr_request x)"
    by (auto simp: swept_def orphaned_def)
qed

end

section \<open>The SQLite store\<close>

definition calm_world :: "world \<Rightarrow> bool" where "calm_world s \<longleftrightarrow> store_inv (wd_db s) \<and> wd_script s = []"
definition world_ids :: "world \<Rightarrow> string set" where "world_ids s = ev_id ` set (sq_events (wd_db s))"

lemma calm_turn: "calm_world s \<Longrightarrow> world_turn s = ((wd_db s, None), s)"
  by (simp add: calm_world_def world_turn_def)

lemma calm_load: "calm_world s \<Longrightarrow> sqlite_load s i = (Ok (stream_rows (sq_events (wd_db s)) i), s)"
  by (simp add: sqlite_load_def calm_turn calm_world_def load_events_def read_tx_def store_inv_def log_ok_stream)

interpretation sqlite_calm: calm_store "sqlite_ops t (\<lambda>w. None)" world_history world_ids calm_world for t
proof unfold_locales
  fix s i show "\<exists>es. so_load (sqlite_ops t (\<lambda>w. None)) s i = (Ok es, s) \<and> map strip es = world_history s i"
    if "calm_world s"
    using that by (simp add: calm_load world_history_def history_def)
next
  fix s i v es r s'
  assume c: "calm_world s" and a: "so_append (sqlite_ops t (\<lambda>w. None)) s i v es = (r, s')"
  let ?db = "snd (append_events None (wd_db s) i v es)"
  have inv: "store_inv (wd_db s)" using c by (simp add: calm_world_def)
  have s': "s' = s\<lparr>wd_db := ?db\<rparr>" and r: "r = fst (append_events None (wd_db s) i v es)"
    using a by (auto simp: sqlite_append_def calm_turn [OF c] case_prod_beta)
  have "history ?db = history (wd_db s) \<or> history ?db = (history (wd_db s))(i := history (wd_db s) i @ map strip es)"
  proof (cases "fst (append_events None (wd_db s) i v es)")
    case (Inl err)
    then show ?thesis by (auto simp: append_events_def append_batch_atomic split: if_splits)
  next
    case (Inr u)
    then show ?thesis using append_events_ok(1) [OF inv, of None i v es] by simp
  qed
  then have "(\<forall>j. j \<noteq> i \<longrightarrow> history ?db j = history (wd_db s) j) \<and> log_ids (history ?db) \<subseteq> log_ids (history (wd_db s)) \<union> ev_id ` set es"
    by (fastforce simp: log_ids_def split: if_splits)
  then show "calm_world s' \<and> (\<forall>j. j \<noteq> i \<longrightarrow> world_history s' j = world_history s j) \<and> world_ids s' \<subseteq> world_ids s \<union> ev_id ` set es"
    using append_events_inv [OF inv, of None i v es] c
    by (simp add: s' calm_world_def world_history_def world_ids_def log_ids_history)
next
  fix s j
  assume c: "calm_world s" and h: "world_history s (ba_id j) = []" and sj: "job.sourced [] j"
    and d: "distinct (map ev_id (ba_uncommitted j))" "ev_id ` set (ba_uncommitted j) \<inter> world_ids s = {}"
  have inv: "store_inv (wd_db s)" and e: "history (wd_db s) (ba_id j) = []"
    using c h by (simp_all add: calm_world_def world_history_def)
  have v: "expected_version j = 0" using job.sourced_valid_batch(2) [OF sj] by simp
  have "fst (append_events None (wd_db s) (ba_id j) 0 (ba_uncommitted j)) = Ok ()"
    using job.sourced_append [OF inv, of j] sj d by (simp add: e v world_ids_def log_ids_history)
  with append_events_ok(1) [OF inv this]
  show "\<exists>s'. so_append (sqlite_ops t (\<lambda>w. None)) s (ba_id j) 0 (ba_uncommitted j) = (Ok (), s')
      \<and> world_history s' (ba_id j) = map strip (ba_uncommitted j)"
    by (simp add: sqlite_append_def calm_turn [OF c] case_prod_beta world_history_def e)
next
  fix s sp s' i snap v
  assume c: "calm_world s" and sp: "so_snapshots (sqlite_ops t (\<lambda>w. None)) = Some sp"
    and s': "s' \<in> {snd (sp_load sp s i), snd (sp_save sp s snap), snd (sp_after sp s i v)}"
  have "s' = s \<or> s' = s\<lparr>wd_db := snd (save_snapshot None t (wd_db s) snap)\<rparr>"
    using s' sp by (auto simp: sqlite_load_snapshot_def sqlite_save_snapshot_def sqlite_load_after_def calm_turn [OF c] case_prod_beta)
  with c show "calm_world s' \<and> world_history s' = world_history s \<and> world_ids s' = world_ids s"
    by (auto simp: calm_world_def world_history_def world_ids_def history_def fun_eq_iff save_snapshot_frame small_writes_inv)
qed

text \<open>
  C8. No orphaned request starves: take any state of the tables and of the scan cursor, with SQLite
  working, requests listed once and new identifiers unused. A queued request that was never
  dispatched is failed, in its row and in its stream, after \<open>2 * (n div 100 + 1)\<close> sweeps, where \<open>n\<close> is
  the number of queued rows, though a sweep looks at a hundred rows only and keeps its place between
  ticks. No row whose request was dispatched changes, nor does its stream.
\<close>

theorem orphan_sweeps_settle:
  fixes w :: "world jobs_world"
  assumes "we_ops env = sqlite_ops t (\<lambda>s. None)" and "we_ctx env = (\<lambda>w. None)"
    and "jw_faults w = []" and "calm_world (jw_store w)"
    and "distinct (map sr_request (jw_rows w))"
    and "sr_artist ` set (jw_rows w) \<inter> sr_request ` set (jw_rows w) = {}"
    and "inj (\<lambda>k. st_uuid (we_stamp env k))"
    and "\<And>k. jw_reads w \<le> k \<Longrightarrow> ''evt_'' @ st_uuid (we_stamp env k) \<notin> world_ids (jw_store w)"
    and "r \<in> set (jw_rows w)" and "sr_status r = st_queued" and "world_history (jw_store w) (sr_request r) = []"
    and "trim_space (sr_request r) \<noteq> []" and "sr_artist r \<noteq> []" and "\<And>c. c \<in> set cutoffs \<Longrightarrow> sr_queued r < c"
    and "2 * (length (filter (\<lambda>x. sr_status x = st_queued) (jw_rows w)) div 100 + 1) \<le> length cutoffs"
  defines "w' \<equiv> foldl (\<lambda>w c. mark_orphaned_queued_jobs env c w) w cutoffs"
  shows "(\<exists>r'\<in>set (jw_rows w'). sr_request r' = sr_request r \<and> sr_status r' = st_failed \<and> sr_error r' = orphaned_queued_reason)
    \<and> is_orphaned_queued_verdict (world_history (jw_store w') (sr_request r))
    \<and> {x \<in> set (jw_rows w). \<not> orphaned (world_history (jw_store w) (sr_request x))} \<subseteq>
       {x \<in> set (jw_rows w'). world_history (jw_store w') (sr_request x) = world_history (jw_store w) (sr_request x)}"
proof -
  let ?n = "length (filter (\<lambda>x. sr_status x = st_queued) (jw_rows w))"
  note sweepable = sqlite_calm.sweepable_def sqlite_calm.quiet_def sqlite_calm.artists_def sqlite_calm.requests_def
  have ok: "sqlite_calm.sweepable env w" using assms(3-8) by (simp add: sweepable)
  have q: "card {x \<in> set (jw_rows w). sr_status x = st_queued} \<le> ?n"
    using card_length [of "filter (\<lambda>x. sr_status x = st_queued) (jw_rows w)"] by simp
  have "sqlite_calm.queued_past w \<subseteq> {x \<in> set (jw_rows w). sr_status x = st_queued}"
    "sqlite_calm.before r w \<subseteq> {x \<in> set (jw_rows w). sr_status x = st_queued}"
    by (auto simp: sqlite_calm.queued_past_def sqlite_calm.before_def)
  from this [THEN card_mono [rotated]] q
  have "card (sqlite_calm.queued_past w) \<le> ?n" "card (sqlite_calm.before r w) \<le> ?n" by simp_all
  from this [THEN div_le_mono, of 100] have "sqlite_calm.sweeps_left ?n r w \<le> length cutoffs"
    using assms(15) by (simp add: sqlite_calm.sweeps_left_def)
  moreover have "sqlite_calm.waiting r w" using assms(9-11) by (simp add: sqlite_calm.waiting_def)
  ultimately have "sqlite_calm.settled (sr_request r) w'" "sqlite_calm.swept env w w'"
    using sqlite_calm.sweeps_settle [OF ok assms(1,2) _ assms(12,13) _ q] assms(14) unfolding w'_def by blast+
  with sqlite_calm.swept_dispatched [OF _ ok] show ?thesis by (auto simp: sqlite_calm.settled_def)
qed

text \<open>Two queued rows, one of which was dispatched.\<close>

definition sample_row :: "string \<Rightarrow> string \<Rightarrow> scrape_row" where
  "sample_row rid artist_id = \<lparr>sr_request = rid, sr_artist = artist_id, sr_status = st_queued, sr_error = [],
     sr_attempts = 0, sr_queued = 5, sr_started = None, sr_finished = None\<rparr>"

definition sample_sweep :: "world jobs_world" where
  "sample_sweep = \<lparr>jw_rows = [sample_row ''ar_1'' ''a'', sample_row ''rq'' ''a''], jw_models = \<lparr>rm_artists = [], rm_history = [], rm_job_artists = [], rm_albums = [], rm_songs = []\<rparr>, jw_pb = None,
     jw_faults = [], jw_reads = 0, jw_store = \<lparr>wd_db = sample_log, wd_script = []\<rparr>, jw_cache = [],
     jw_cursor = Some (7, ''x''), jw_purged = 0\<rparr>"

definition sample_env :: "world worker_env" where
  "sample_env = \<lparr>we_ops = sqlite_ops 0 (\<lambda>s. None), we_ctx = \<lambda>w. None,
     we_stamp = \<lambda>k. \<lparr>st_uuid = replicate k CHR ''u'', st_now = int k\<rparr>, we_fk = True, we_retention = 0\<rparr>"

theorem orphan_sweeps_settle_witness:
  "\<exists>r'\<in>set (jw_rows (foldl (\<lambda>w c. mark_orphaned_queued_jobs sample_env c w) sample_sweep [9, 9])).
     sr_request r' = ''rq'' \<and> sr_status r' = st_failed \<and> sr_error r' = orphaned_queued_reason"
proof -
  have h: "history sample_log ''rq'' = []" by code_simp
  have i: "world_ids (jw_store sample_sweep) = {''e1''}" by code_simp
  have b: "trim_space ''rq'' \<noteq> []" by code_simp
  have j: "inj (\<lambda>k. replicate k CHR ''u'')" by (rule injI) (metis length_replicate)
  note small = sample_sweep_def sample_env_def sample_row_def
  show ?thesis
    using orphan_sweeps_settle [of sample_env 0 sample_sweep "sample_row ''rq'' ''a''" "[9, 9]"]
      h i j b sample_log_inv
    by (simp add: small calm_world_def world_history_def)
qed

end
