(* ===== verification/Fetcher.thy ===== *)
theory Fetcher
  imports Messaging_Subjects "HOL-Library.Sublist"
begin

text \<open>
  Fetching listener counts (\<^verbatim>\<open>internal/fetcher/fetcher.go\<close>): the retry loop around the client, the
  batch path and the worker pool. The client talks to the scraping providers and is a parameter, an
  answer that may depend on everything called before; so are the context, the jitter and whether a
  network error is a timeout. The log of a state lists the calls and the pauses so far.
\<close>

section \<open>Providers and errors\<close>

datatype provider =
    ProviderAny
  | ProviderLocalHeadless
  | ProviderBrowserless
  | ProviderScrapingAnt
  | ProviderScraperAPI
  | ProviderApify
  | ProviderLocalBrowserless
  | ProviderBrowserbase
  | ProviderMobileSSR

text \<open>\<^verbatim>\<open>RetryAfter\<close>: the first \<^verbatim>\<open>RateLimitError\<close> in the tree of wrapped errors.\<close>

fun rate_limit_delay :: "gerr \<Rightarrow> time option" where
  "rate_limit_delay (RateLimitError provider after status) = Some after"
| "rate_limit_delay (Sentinel s) = None"
| "rate_limit_delay (Errorf m es) =
     (case filter (\<lambda>d. d \<noteq> None) (map rate_limit_delay es) of [] \<Rightarrow> None | d # _ \<Rightarrow> d)"

definition retry_after :: "gerr \<Rightarrow> time option" where
  "retry_after err =
     (case rate_limit_delay err of None \<Rightarrow> None | Some d \<Rightarrow> if d \<le> 0 then None else Some d)"

text \<open>The text of an error mentions a timeout, in whatever case (the letters are ASCII).\<close>

fun mentions :: "string \<Rightarrow> gerr \<Rightarrow> bool" where
  "mentions t (Sentinel s) \<longleftrightarrow> False"
| "mentions t (RateLimitError provider after status) \<longleftrightarrow> sublist t (map lower_byte provider)"
| "mentions t (Errorf m es) \<longleftrightarrow> sublist t (map lower_byte m) \<or> True \<in> set (map (mentions t) es)"

definition timeout_words :: "gerr \<Rightarrow> bool" where
  "timeout_words err \<longleftrightarrow> mentions ''deadline exceeded'' err \<or> mentions ''timeout'' err \<or> mentions ''context canceled'' err"

record fetch_log =
  fl_calls :: "(string \<times> provider) list"
  fl_waits :: "time list"
  fl_batches :: "string list list"

record fetch_env =
  fe_answer :: "fetch_log \<Rightarrow> string \<Rightarrow> provider \<Rightarrow> int res"
  fe_batch :: "fetch_log \<Rightarrow> string list \<Rightarrow> (string \<times> int) list res"
  fe_ctx :: "fetch_log \<Rightarrow> gerr option"
  fe_interrupt :: "fetch_log \<Rightarrow> gerr option"
  fe_jitter :: "fetch_log \<Rightarrow> time"
  fe_net_timeout :: "gerr \<Rightarrow> bool"

definition is_timeout_error :: "fetch_env \<Rightarrow> gerr \<Rightarrow> bool" where
  "is_timeout_error env err \<longleftrightarrow> errors_is ErrContextDone err \<or> fe_net_timeout env err \<or> timeout_words err"

definition should_stop_retry_on_timeout :: "fetch_env \<Rightarrow> provider \<Rightarrow> gerr \<Rightarrow> bool" where
  "should_stop_retry_on_timeout env p err \<longleftrightarrow>
     is_timeout_error env err \<and> (p = ProviderLocalHeadless \<or> p = ProviderScraperAPI)"

section \<open>One artist\<close>

definition max_jitter :: time where "max_jitter = 250 * 10 ^ 6"

definition retry_backoff :: "int \<Rightarrow> time \<Rightarrow> time" where
  "retry_backoff attempt jitter = ((\<lambda>b. b * 2) ^^ nat (min (attempt - 1) 5)) second + jitter"

definition pause :: "fetch_env \<Rightarrow> int \<Rightarrow> fetch_log \<Rightarrow> gerr option \<times> fetch_log" where
  "pause env attempt l =
     (let l1 = l\<lparr>fl_waits := fl_waits l @ [retry_backoff attempt (fe_jitter env l)]\<rparr> in (fe_interrupt env l1, l1))"

definition call_client :: "fetch_env \<Rightarrow> string \<Rightarrow> provider \<Rightarrow> fetch_log \<Rightarrow> int res \<times> fetch_log" where
  "call_client env artist_id p l = (fe_answer env l artist_id p, l\<lparr>fl_calls := fl_calls l @ [(artist_id, p)]\<rparr>)"

text \<open>The attempts that are left, the number of the next one, and \<^verbatim>\<open>lastErr\<close>.\<close>

fun fetch_loop ::
    "fetch_env \<Rightarrow> string \<Rightarrow> provider \<Rightarrow> nat \<Rightarrow> int \<Rightarrow> gerr option \<Rightarrow> fetch_log \<Rightarrow> int res \<times> fetch_log" where
  "fetch_loop env artist_id p 0 attempt last_err l =
     (Fail (Errorf ''after attempts'' (case last_err of None \<Rightarrow> [] | Some e \<Rightarrow> [e])), l)"
| "fetch_loop env artist_id p (Suc n) attempt last_err l =
     (case (if attempt > 0 then pause env attempt l else (None, l)) of
        (Some cerr, l1) \<Rightarrow> (Fail cerr, l1)
      | (None, l1) \<Rightarrow>
          (case call_client env artist_id p l1 of
             (Inr count, l2) \<Rightarrow> (Ok count, l2)
           | (Inl err, l2) \<Rightarrow>
               if errors_is ErrQuotaExhausted err \<or> errors_is ErrRateLimited err
                  \<or> should_stop_retry_on_timeout env p err \<or> fe_ctx env l2 \<noteq> None
               then (Fail (Errorf ''after attempts'' [err]), l2)
               else fetch_loop env artist_id p n (attempt + 1) (Some err) l2))"

definition fetch_with_retry ::
    "fetch_env \<Rightarrow> int \<Rightarrow> string \<Rightarrow> provider \<Rightarrow> fetch_log \<Rightarrow> int res \<times> fetch_log" where
  "fetch_with_retry env max_retries artist_id p l = fetch_loop env artist_id p (nat (max_retries + 1)) 0 None l"

definition fetch_one ::
    "fetch_env \<Rightarrow> int \<Rightarrow> string \<Rightarrow> provider \<Rightarrow> fetch_log \<Rightarrow> int res \<times> fetch_log" where
  "fetch_one env max_retries artist_id p l =
     (if artist_id = [] then (fail_msg ''artist id is required'', l)
      else fetch_with_retry env max_retries artist_id p l)"

section \<open>The batch path\<close>

fun retry_batch_missed ::
    "fetch_env \<Rightarrow> int \<Rightarrow> string list \<Rightarrow> (string \<times> int) list \<Rightarrow> fetch_log
     \<Rightarrow> string list \<times> (string \<times> int) list \<times> fetch_log" where
  "retry_batch_missed env n [] results l = ([], results, l)"
| "retry_batch_missed env n (i # ids) results l =
     (if fe_ctx env l \<noteq> None then (i # ids, results, l)
      else (case fetch_with_retry env n i ProviderApify l of
              (Inl err, l1) \<Rightarrow>
                (let (missed, results', l2) = retry_batch_missed env n ids results l1 in (i # missed, results', l2))
            | (Inr count, l1) \<Rightarrow> retry_batch_missed env n ids (kv_put i count results) l1))"

definition process_batch ::
    "fetch_env \<Rightarrow> int \<Rightarrow> string list \<Rightarrow> (string \<times> int) list \<Rightarrow> fetch_log
     \<Rightarrow> string list \<times> (string \<times> int) list \<times> fetch_log" where
  "process_batch env n batch results l =
     (let answer = fe_batch env l batch; l1 = l\<lparr>fl_batches := fl_batches l @ [batch]\<rparr>
      in case answer of
           Inl err \<Rightarrow> retry_batch_missed env n batch results l1
         | Inr found \<Rightarrow>
             (let results' = foldl (\<lambda>m i. case map_of found i of None \<Rightarrow> m | Some c \<Rightarrow> kv_put i c m) results batch;
                  missed = filter (\<lambda>i. map_of found i = None) batch
              in if missed = [] then ([], results', l1) else retry_batch_missed env n missed results' l1))"

definition apify_batch_size :: "int \<Rightarrow> nat" where
  "apify_batch_size configured = nat (if configured \<le> 0 then 5 else configured)"

lemma apify_batch_size_pos [simp]: "0 < apify_batch_size configured"
  by (simp add: apify_batch_size_def)

function batch_loop ::
    "fetch_env \<Rightarrow> int \<Rightarrow> int \<Rightarrow> string list \<Rightarrow> (string \<times> int) list \<Rightarrow> fetch_log
     \<Rightarrow> (string \<times> int) list \<times> string list \<times> fetch_log" where
  "batch_loop env n bs ids results l =
     (if ids = [] then (results, [], l)
      else if fe_ctx env l \<noteq> None then (results, ids, l)
      else (let (missed, results', l1) = process_batch env n (take (apify_batch_size bs) ids) results l;
                (results'', missed', l2) = batch_loop env n bs (drop (apify_batch_size bs) ids) results' l1
            in (results'', missed @ missed', l2)))"
  by pat_completeness auto
termination by (relation "measure (\<lambda>(env, n, bs, ids, results, l). length ids)") auto

declare batch_loop.simps [simp del]

definition fetch_all_batch ::
    "fetch_env \<Rightarrow> int \<Rightarrow> int \<Rightarrow> string list \<Rightarrow> fetch_log \<Rightarrow> (string \<times> int) list \<times> string list \<times> fetch_log" where
  "fetch_all_batch env n bs ids l = batch_loop env n bs ids [] l"

section \<open>The worker pool\<close>

text \<open>
  The pool of \<^verbatim>\<open>FetchAll\<close> as a step relation: the ids not yet sent, those being fetched, the workers
  that wait, the results, the misses, and the ids a cancelled run has dropped.
\<close>

record pool =
  pl_pending :: "string list"
  pl_fetching :: "string list"
  pl_idle :: nat
  pl_results :: "(string \<times> int) list"
  pl_missed :: "string list"
  pl_dropped :: "string list"
  pl_cancelled :: bool

definition pool_workers :: "int \<Rightarrow> nat" where
  "pool_workers configured = nat (if configured \<le> 0 then 1 else configured)"

definition new_pool :: "int \<Rightarrow> string list \<Rightarrow> pool" where
  "new_pool concurrency ids =
     \<lparr>pl_pending = ids, pl_fetching = [], pl_idle = pool_workers concurrency, pl_results = [], pl_missed = [],
      pl_dropped = [], pl_cancelled = False\<rparr>"

definition record_miss :: "string \<Rightarrow> string list \<Rightarrow> string list" where
  "record_miss i missed = (if i \<in> set missed then missed else missed @ [i])"

inductive pool_step :: "pool \<Rightarrow> pool \<Rightarrow> bool" where
  pool_take: "pl_pending p = i # is \<Longrightarrow> pl_idle p = Suc n \<Longrightarrow> \<not> pl_cancelled p \<Longrightarrow>
     pool_step p (p\<lparr>pl_pending := is, pl_idle := n, pl_fetching := i # pl_fetching p\<rparr>)"
| pool_leave: "pl_pending p = i # is \<Longrightarrow> pl_idle p = Suc n \<Longrightarrow> pl_cancelled p \<Longrightarrow>
     pool_step p (p\<lparr>pl_pending := is, pl_idle := n, pl_dropped := i # pl_dropped p\<rparr>)"
| pool_found: "i \<in> set (pl_fetching p) \<Longrightarrow>
     pool_step p (p\<lparr>pl_fetching := remove1 i (pl_fetching p), pl_idle := Suc (pl_idle p),
                    pl_results := kv_put i c (pl_results p)\<rparr>)"
| pool_failed: "i \<in> set (pl_fetching p) \<Longrightarrow>
     pool_step p (p\<lparr>pl_fetching := remove1 i (pl_fetching p), pl_idle := Suc (pl_idle p),
                    pl_missed := record_miss i (pl_missed p)\<rparr>)"
| pool_cancel: "pool_step p (p\<lparr>pl_cancelled := True\<rparr>)"
| pool_break: "pl_cancelled p \<Longrightarrow> pool_step p (p\<lparr>pl_pending := [], pl_dropped := pl_pending p @ pl_dropped p\<rparr>)"

definition pool_done :: "pool \<Rightarrow> bool" where
  "pool_done p \<longleftrightarrow> pl_pending p = [] \<and> pl_fetching p = []"

section \<open>The retry loop ends\<close>

lemma retry_backoff_base: "retry_backoff attempt jitter = second * 2 ^ nat (min (attempt - 1) 5) + jitter"
proof -
  have "((\<lambda>b. b * 2) ^^ n) second = second * 2 ^ n" for n
    by (induction n) simp_all
  then show ?thesis by (simp add: retry_backoff_def)
qed

lemma fetch_step:
  assumes "fetch_loop env i p (Suc n) a prev l = (r, l')" and "0 < a"
  obtains (interrupted) "l' = snd (pause env a l)" "\<exists>e. r = Fail e"
  | (ended) "l' = (snd (pause env a l))\<lparr>fl_calls := fl_calls l @ [(i, p)]\<rparr>"
  | (again) err where "fetch_loop env i p n (a + 1) (Some err) ((snd (pause env a l))\<lparr>fl_calls := fl_calls l @ [(i, p)]\<rparr>) = (r, l')"
  using assms by (auto simp: pause_def call_client_def Let_def split: option.splits sum.splits if_splits)

lemma fetch_loop_bounded:
  assumes "fetch_loop env i p n a prev l = (r, l')" and "0 < a"
    and "\<And>l. 0 \<le> fe_jitter env l \<and> fe_jitter env l \<le> max_jitter"
  shows "\<exists>k ws. fl_calls l' = fl_calls l @ replicate k (i, p) \<and> fl_waits l' = fl_waits l @ ws \<and> k \<le> n \<and> length ws \<le> n
    \<and> (\<forall>j<length ws. second * 2 ^ nat (min (a + int j - 1) 5) \<le> ws ! j \<and> ws ! j \<le> second * 2 ^ nat (min (a + int j - 1) 5) + max_jitter)
    \<and> fl_batches l' = fl_batches l"
  using assms(1,2)
proof (induction n arbitrary: a prev l)
  case 0
  then show ?case by (auto intro!: exI [of _ "0 :: nat"])
next
  case (Suc n)
  let ?w = "retry_backoff a (fe_jitter env l)"
  have w: "second * 2 ^ nat (min (a - 1) 5) \<le> ?w" "?w \<le> second * 2 ^ nat (min (a - 1) 5) + max_jitter"
    using assms(3) [of l] by (simp_all add: retry_backoff_base)
  have pz: "snd (pause env a l) = l\<lparr>fl_waits := fl_waits l @ [?w]\<rparr>" by (simp add: pause_def Let_def)
  from Suc.prems show ?case
  proof (cases rule: fetch_step)
    case interrupted
    with w pz show ?thesis by (intro exI [of _ "0 :: nat"] exI [of _ "[?w]"]) simp
  next
    case ended
    with w pz show ?thesis by (intro exI [of _ "1 :: nat"] exI [of _ "[?w]"]) simp
  next
    case (again err)
    from Suc.IH [OF this] Suc.prems(2) obtain k ws where
      k: "fl_calls l' = fl_calls l @ (i, p) # replicate k (i, p)" "fl_waits l' = fl_waits l @ ?w # ws" "k \<le> n" "length ws \<le> n"
        "fl_batches l' = fl_batches l"
      and b: "\<And>j. j < length ws \<Longrightarrow> second * 2 ^ nat (min (a + 1 + int j - 1) 5) \<le> ws ! j
        \<and> ws ! j \<le> second * 2 ^ nat (min (a + 1 + int j - 1) 5) + max_jitter"
      by (auto simp: pz)
    have "second * 2 ^ nat (min (a + int j - 1) 5) \<le> (?w # ws) ! j \<and> (?w # ws) ! j \<le> second * 2 ^ nat (min (a + int j - 1) 5) + max_jitter"
      if "j < length (?w # ws)" for j
      using that w b [of "j - 1"] by (cases j) (auto simp: algebra_simps)
    with k show ?thesis by (intro exI [of _ "Suc k"] exI [of _ "?w # ws"]) simp
  qed
qed

lemma fetch_loop_answer:
  "fetch_loop env i p n a prev l = (Ok c, l') \<Longrightarrow> \<exists>l0. fe_answer env l0 i p = Ok c \<and> fl_calls l' = fl_calls l0 @ [(i, p)]"
proof (induction n arbitrary: a prev l)
  case (Suc n)
  then show ?case
    by (auto simp: call_client_def pause_def Let_def split: option.splits sum.splits if_splits; (metis fetch_log.select_convs(1))?)
qed (simp split: option.splits)

text \<open>A spent quota or a rate limit ends the fetch at once, and the caller still sees which it was.\<close>

lemma fetch_gives_up:
  assumes "fe_answer env l i p = Fail err" and "errors_is ErrQuotaExhausted err \<or> errors_is ErrRateLimited err"
    and "0 \<le> max_retries"
  shows "fetch_with_retry env max_retries i p l = (Fail (Errorf ''after attempts'' [err]), l\<lparr>fl_calls := fl_calls l @ [(i, p)]\<rparr>)"
proof -
  obtain n where "nat (max_retries + 1) = Suc n" using assms(3) by (cases "nat (max_retries + 1)") simp_all
  with assms(1,2) show ?thesis by (auto simp: fetch_with_retry_def call_client_def)
qed


definition sample_fetch :: fetch_env where
  "sample_fetch = \<lparr>fe_answer = \<lambda>l i p. if length (fl_calls l) < 2 then fail_msg ''connection reset'' else Ok 42,
     fe_batch = \<lambda>l ids. Ok [(''b'', 7)], fe_ctx = \<lambda>l. None, fe_interrupt = \<lambda>l. None, fe_jitter = \<lambda>l. 5,
     fe_net_timeout = \<lambda>e. False\<rparr>"

definition no_calls :: fetch_log where "no_calls = \<lparr>fl_calls = [], fl_waits = [], fl_batches = []\<rparr>"


section \<open>Every artist of a batch run is accounted for\<close>

lemma keys_kv_put_fst: "fst ` set (kv_put k v m) = insert k (fst ` set m)"
  using keys_kv_put [of k v m] by simp

lemma retry_batch_missed_split:
  assumes "retry_batch_missed env n ids results l = (missed, results', l')" and "distinct ids"
  shows "set missed \<subseteq> set ids \<and> fst ` set results' = fst ` set results \<union> (set ids - set missed)
    \<and> distinct missed"
  using assms
proof (induction ids arbitrary: missed results l)
  case (Cons i ids)
  show ?case
  proof (cases "fe_ctx env l = None")
    case False
    with Cons.prems show ?thesis by auto
  next
    case ctx: True
    obtain r l1 where f: "fetch_with_retry env n i ProviderApify l = (r, l1)" by (rule prod.exhaust)
    show ?thesis
    proof (cases r)
      case (Inl err)
      with Cons.prems ctx f obtain m where "retry_batch_missed env n ids results l1 = (m, results', l')" "missed = i # m"
        by (auto split: prod.splits)
      with Cons.IH [OF this(1)] Cons.prems(2) show ?thesis by auto
    next
      case (Inr c)
      with Cons.prems ctx f have "retry_batch_missed env n ids (kv_put i c results) l1 = (missed, results', l')" by simp
      with Cons.IH [OF this] Cons.prems(2) show ?thesis by (auto simp: keys_kv_put_fst)
    qed
  qed
qed auto

lemma take_found_keys:
  "fst ` set (foldl (\<lambda>m i. case map_of found i of None \<Rightarrow> m | Some c \<Rightarrow> kv_put i c m) results batch)
     = fst ` set results \<union> {i \<in> set batch. map_of found i \<noteq> None}"
  by (induction batch arbitrary: results) (auto simp: keys_kv_put_fst split: option.splits)

lemma process_batch_split:
  assumes "process_batch env n batch results l = (missed, results', l')" and "distinct batch"
  shows "set missed \<subseteq> set batch \<and> fst ` set results' = fst ` set results \<union> (set batch - set missed) \<and> distinct missed"
proof (cases "fe_batch env l batch")
  case (Inl err)
  with assms(1) have "retry_batch_missed env n batch results (l\<lparr>fl_batches := fl_batches l @ [batch]\<rparr>) = (missed, results', l')"
    by (simp add: process_batch_def Let_def)
  from retry_batch_missed_split [OF this assms(2)] show ?thesis by simp
next
  case (Inr found)
  let ?m = "filter (\<lambda>i. map_of found i = None) batch"
  let ?r = "foldl (\<lambda>m i. case map_of found i of None \<Rightarrow> m | Some c \<Rightarrow> kv_put i c m) results batch"
  show ?thesis
  proof (cases "?m = []")
    case True
    with assms(1) Inr have "missed = []" "results' = ?r" by (simp_all add: process_batch_def Let_def)
    moreover have "{i \<in> set batch. map_of found i \<noteq> None} = set batch" using True by (auto simp: filter_empty_conv)
    ultimately show ?thesis by (simp only: take_found_keys) simp
  next
    case False
    with assms(1) Inr have run: "retry_batch_missed env n ?m ?r (l\<lparr>fl_batches := fl_batches l @ [batch]\<rparr>) = (missed, results', l')"
      by (simp add: process_batch_def Let_def)
    from retry_batch_missed_split [OF this] assms(2) show ?thesis by (auto simp: take_found_keys)
  qed
qed

text \<open>
  A batch run accounts for every artist: over distinct ids, however the batches and the single
  retries are answered and whenever the context ends, an id has a result or is reported as missed,
  never both, and nothing else is.
\<close>

theorem fetch_all_batch_accounts:
  assumes "fetch_all_batch env n size_limit ids l = (results, missed, l')" and "distinct ids"
  shows "fst ` set results \<union> set missed = set ids \<and> fst ` set results \<inter> set missed = {} \<and> distinct missed"
proof -
  have "set missed \<subseteq> set ids \<and> fst ` set results = fst ` set r0 \<union> (set ids - set missed) \<and> distinct missed"
    if "batch_loop env n b ids r0 l = (results, missed, l')" "distinct ids" for b ids r0 l results missed l'
    using that
  proof (induction env n b ids r0 l arbitrary: results missed l' rule: batch_loop.induct)
    case (1 env n b ids r0 l)
    show ?case
    proof (cases "ids = [] \<or> fe_ctx env l \<noteq> None")
      case True
      then have "batch_loop env n b ids r0 l = (r0, ids, l)" by (subst batch_loop.simps) auto
      with 1(2) show ?thesis using 1(3) by auto
    next
      case False
      let ?k = "apify_batch_size b"
      obtain m1 r1 l1 where p: "process_batch env n (take ?k ids) r0 l = (m1, r1, l1)" by (metis prod_cases3)
      obtain r2 m2 l2 where q: "batch_loop env n b (drop ?k ids) r1 l1 = (r2, m2, l2)" by (metis prod_cases3)
      have d: "distinct (take ?k ids)" "distinct (drop ?k ids)" "set (take ?k ids) \<inter> set (drop ?k ids) = {}"
        "set ids = set (take ?k ids) \<union> set (drop ?k ids)"
        using 1(3) by (simp_all add: set_take_disj_set_drop_if_distinct flip: set_append)
      from 1(1) [of "(m1, r1, l1)"] False p q d(2)
      have "set m2 \<subseteq> set (drop ?k ids) \<and> fst ` set r2 = fst ` set r1 \<union> (set (drop ?k ids) - set m2) \<and> distinct m2"
        by auto
      moreover note process_batch_split [OF p d(1)]
      moreover have "results = r2" "missed = m1 @ m2" using 1(2) False p q by (auto simp: batch_loop.simps)
      ultimately show ?thesis using d(3,4) by auto
    qed
  qed
  from this [of size_limit ids "[]" l] assms show ?thesis by (auto simp: fetch_all_batch_def)
qed

theorem fetch_all_batch_accounts_witness:
  "\<exists>results missed l'. fetch_all_batch sample_fetch 0 2 [''a'', ''b'', ''c''] no_calls = (results, missed, l')
     \<and> fst ` set results \<union> set missed = {''a'', ''b'', ''c''} \<and> fst ` set results \<inter> set missed = {}"
proof -
  obtain results missed l' where run: "fetch_all_batch sample_fetch 0 2 [''a'', ''b'', ''c''] no_calls = (results, missed, l')"
    by (metis prod_cases3)
  from fetch_all_batch_accounts [OF run] run show ?thesis by auto
qed

section \<open>The pool and its context\<close>

inductive_cases pool_stepE: "pool_step p p'"

definition pool_ids :: "pool \<Rightarrow> string set" where
  "pool_ids p = set (pl_pending p) \<union> set (pl_fetching p) \<union> fst ` set (pl_results p) \<union> set (pl_missed p) \<union> set (pl_dropped p)"

definition pool_inv :: "int \<Rightarrow> string list \<Rightarrow> pool \<Rightarrow> bool" where
  "pool_inv concurrency ids p \<longleftrightarrow>
     pool_ids p = set ids \<and> (pl_dropped p \<noteq> [] \<longrightarrow> pl_cancelled p)
   \<and> length (pl_fetching p) + pl_idle p \<le> pool_workers concurrency"

lemma remove1_facts:
  "i \<in> set xs \<Longrightarrow> insert i (set (remove1 i xs)) = set xs \<and> length xs = Suc (length (remove1 i xs))"
  by (induction xs) auto

lemma pool_step_inv: "pool_step p p' \<Longrightarrow> pool_inv n ids p \<Longrightarrow> pool_inv n ids p'"
proof (induction rule: pool_step.induct)
  case (pool_found i p c)
  then show ?case using remove1_facts [OF pool_found(1)] by (auto simp: pool_inv_def pool_ids_def keys_kv_put_fst)
next
  case (pool_failed i p)
  then show ?case using remove1_facts [OF pool_failed(1)] by (auto simp: pool_inv_def pool_ids_def record_miss_def)
qed (auto simp: pool_inv_def pool_ids_def)

lemma pool_run_inv: "pool_step\<^sup>*\<^sup>* (new_pool n ids) p \<Longrightarrow> pool_inv n ids p"
proof (induction rule: rtranclp_induct)
  case base
  show ?case by (simp add: pool_inv_def pool_ids_def new_pool_def)
qed (rule pool_step_inv)


lemma pool_run_refl: "pool_step\<^sup>*\<^sup>* p p"
  by simp

lemma pool_run_step: "pool_step\<^sup>*\<^sup>* p q \<Longrightarrow> pool_step q r \<Longrightarrow> pool_step\<^sup>*\<^sup>* p r"
  by simp


end
