(* ===== verification/Worker_Messages.thy ===== *)
theory Worker_Messages
  imports Worker_Sweeps Fetcher Quota_Check Messaging_Payloads
begin

text \<open>
  The messages of the worker (\<^verbatim>\<open>internal/worker/processing.go\<close>, \<^verbatim>\<open>dlq.go\<close>, \<^verbatim>\<open>dispatch.go\<close>,
  \<^verbatim>\<open>artist_updates.go\<close>, \<^verbatim>\<open>metrics.go\<close>): a scrape request is fetched by the provider of the pool that
  took it, its outcome is recorded, and the message is acknowledged, returned or dead-lettered.
  JetStream is a script of answers, one for every call made on a message; the calls are listed.
\<close>

section \<open>State\<close>

record msg_meta =
  mt_delivered :: nat
  mt_time :: time
  mt_stream :: string
  mt_consumer :: string
  mt_stream_seq :: nat
  mt_consumer_seq :: nat

record dead_letter =
  dl_reason :: string
  dl_at :: time
  dl_subject :: string
  dl_payload :: encoded
  dl_request :: string
  dl_artist :: string
  dl_spotify :: string
  dl_meta :: "msg_meta option"

datatype action = DoubleAck | PlainAck | NakNow | NakAfter time | TermMsg | PublishDead dead_letter

datatype msg_result = MsgOK | MsgQuotaExpired

record msg_envelope =
  en_subject :: string
  en_data :: encoded
  en_meta :: "msg_meta option"
  en_req :: scrape_requested
  en_label :: string

record provider_metrics =
  pm_attempts :: int
  pm_first :: int
  pm_redelivered :: int
  pm_succeeded :: int
  pm_dedup :: int
  pm_retryable :: int
  pm_timeout :: int
  pm_limited :: int
  pm_quota :: int
  pm_dlq :: int
  pm_ack_errors :: int
  pm_terminal :: int
  pm_latency :: int

record 's msg_state =
  ms_jobs :: "'s jobs_world"
  ms_fetch :: fetch_log
  ms_actions :: "action list"
  ms_answers :: "fault list"
  ms_metrics :: "(string \<times> provider_metrics) list"
  ms_ranks :: "string list"

record 's msg_env =
  me_jobs :: "'s worker_env"
  me_fetch :: fetch_env
  me_fetcher :: bool
  me_retries :: int
  me_backoff :: "time list"
  me_max_deliver :: int
  me_providers :: int
  me_config :: quota_config
  me_apify :: "'s msg_state \<Rightarrow> http_reply"
  me_random :: "time \<Rightarrow> time"

definition ctx_error :: "'s msg_env \<Rightarrow> 's msg_state \<Rightarrow> gerr option" where
  "ctx_error env st = we_ctx (me_jobs env) (ms_jobs st)"

definition on_jobs :: "('s jobs_world \<Rightarrow> 's jobs_world) \<Rightarrow> 's msg_state \<Rightarrow> 's msg_state" where
  "on_jobs f st = st\<lparr>ms_jobs := f (ms_jobs st)\<rparr>"

text \<open>A call on the message, or the publication of a dead letter: its answer is the next of the script.\<close>

definition perform :: "action \<Rightarrow> 's msg_state \<Rightarrow> fault \<times> 's msg_state" where
  "perform act st =
     (case ms_answers st of
        [] \<Rightarrow> (None, st\<lparr>ms_actions := ms_actions st @ [act]\<rparr>)
      | a # rest \<Rightarrow> (a, st\<lparr>ms_actions := ms_actions st @ [act], ms_answers := rest\<rparr>))"

section \<open>Metrics\<close>

definition no_metrics :: provider_metrics where
  "no_metrics = \<lparr>pm_attempts = 0, pm_first = 0, pm_redelivered = 0, pm_succeeded = 0, pm_dedup = 0, pm_retryable = 0,
     pm_timeout = 0, pm_limited = 0, pm_quota = 0, pm_dlq = 0, pm_ack_errors = 0, pm_terminal = 0, pm_latency = 0\<rparr>"

definition provider_metrics_of :: "string \<Rightarrow> 's msg_state \<Rightarrow> provider_metrics" where
  "provider_metrics_of label st = (case map_of (ms_metrics st) label of None \<Rightarrow> no_metrics | Some m \<Rightarrow> m)"

definition count_on :: "string \<Rightarrow> (provider_metrics \<Rightarrow> provider_metrics) \<Rightarrow> 's msg_state \<Rightarrow> 's msg_state" where
  "count_on label f st = st\<lparr>ms_metrics := kv_put label (f (provider_metrics_of label st)) (ms_metrics st)\<rparr>"

definition record_attempt :: "string \<Rightarrow> nat \<Rightarrow> 's msg_state \<Rightarrow> 's msg_state" where
  "record_attempt label delivered =
     count_on label (\<lambda>m. let m' = m\<lparr>pm_attempts := pm_attempts m + 1\<rparr>
       in if delivered \<le> 1 then m'\<lparr>pm_first := pm_first m + 1\<rparr> else m'\<lparr>pm_redelivered := pm_redelivered m + 1\<rparr>)"

definition count_succeeded :: "string \<Rightarrow> time \<Rightarrow> 's msg_state \<Rightarrow> 's msg_state" where
  "count_succeeded label duration =
     count_on label (\<lambda>m. m\<lparr>pm_succeeded := pm_succeeded m + 1, pm_latency := pm_latency m + duration\<rparr>)"

definition count_dedup_skipped :: "string \<Rightarrow> 's msg_state \<Rightarrow> 's msg_state" where
  "count_dedup_skipped label = count_on label (\<lambda>m. m\<lparr>pm_dedup := pm_dedup m + 1\<rparr>)"

definition is_timeout_err :: "gerr \<Rightarrow> bool" where
  "is_timeout_err err \<longleftrightarrow> errors_is ErrContextDone err \<or> timeout_words err"

definition count_retryable :: "string \<Rightarrow> gerr \<Rightarrow> 's msg_state \<Rightarrow> 's msg_state" where
  "count_retryable label err =
     count_on label (\<lambda>m. let m' = m\<lparr>pm_retryable := pm_retryable m + 1\<rparr>
       in if is_timeout_err err then m'\<lparr>pm_timeout := pm_timeout m + 1\<rparr> else m')"

definition count_rate_limited :: "string \<Rightarrow> 's msg_state \<Rightarrow> 's msg_state" where
  "count_rate_limited label = count_on label (\<lambda>m. m\<lparr>pm_limited := pm_limited m + 1\<rparr>)"

definition count_quota_exhausted :: "string \<Rightarrow> 's msg_state \<Rightarrow> 's msg_state" where
  "count_quota_exhausted label = count_on label (\<lambda>m. m\<lparr>pm_quota := pm_quota m + 1\<rparr>)"

definition count_dlq :: "string \<Rightarrow> 's msg_state \<Rightarrow> 's msg_state" where
  "count_dlq label = count_on label (\<lambda>m. m\<lparr>pm_dlq := pm_dlq m + 1\<rparr>)"

definition count_ack_error :: "string \<Rightarrow> 's msg_state \<Rightarrow> 's msg_state" where
  "count_ack_error label = count_on label (\<lambda>m. m\<lparr>pm_ack_errors := pm_ack_errors m + 1\<rparr>)"

definition count_terminal_failure :: "string \<Rightarrow> 's msg_state \<Rightarrow> 's msg_state" where
  "count_terminal_failure label = count_on label (\<lambda>m. m\<lparr>pm_terminal := pm_terminal m + 1\<rparr>)"

definition local_pool_failure_threshold :: int where "local_pool_failure_threshold = 12"

definition should_park_local_pool :: "int \<Rightarrow> string \<Rightarrow> 's msg_state \<Rightarrow> bool" where
  "should_park_local_pool providers label st \<longleftrightarrow>
     1 < providers \<and>
     (case map_of (ms_metrics st) label of
        None \<Rightarrow> False
      | Some m \<Rightarrow> local_pool_failure_threshold \<le> pm_attempts m \<and> pm_succeeded m = 0
                   \<and> local_pool_failure_threshold \<le> pm_retryable m)"

section \<open>Delays and acknowledgements\<close>

definition retry_delay :: "time list \<Rightarrow> msg_meta option \<Rightarrow> time" where
  "retry_delay backoff meta =
     (if backoff = [] then 10 * second
      else (case meta of
              None \<Rightarrow> backoff ! 0
            | Some m \<Rightarrow>
                if mt_delivered m = 0 then backoff ! 0
                else (let i = mt_delivered m - 1 in backoff ! (if length backoff \<le> i then length backoff - 1 else i))))"

definition with_jitter :: "(time \<Rightarrow> time) \<Rightarrow> time \<Rightarrow> time \<Rightarrow> time" where
  "with_jitter random base most = (if base \<le> 0 \<or> most \<le> 0 then base else base + random most)"

fun ack_attempts :: "nat \<Rightarrow> 's msg_state \<Rightarrow> fault \<times> 's msg_state" where
  "ack_attempts 0 st = perform PlainAck st"
| "ack_attempts (Suc n) st =
     (case perform DoubleAck st of (None, st1) \<Rightarrow> (None, st1) | (Some err, st1) \<Rightarrow> ack_attempts n st1)"

definition ack_msg :: "'s msg_state \<Rightarrow> fault \<times> 's msg_state" where "ack_msg = ack_attempts 3"

text \<open>Acknowledging, with the error counted: the end of every handler that is done with a message.\<close>

definition ack_or_count :: "string \<Rightarrow> 's msg_state \<Rightarrow> msg_result \<times> 's msg_state" where
  "ack_or_count label st =
     (case ack_msg st of (None, st1) \<Rightarrow> (MsgOK, st1) | (Some err, st1) \<Rightarrow> (MsgOK, count_ack_error label st1))"

definition handle_dedup_skip :: "msg_envelope \<Rightarrow> 's msg_state \<Rightarrow> msg_result \<times> 's msg_state" where
  "handle_dedup_skip en st = ack_or_count (en_label en) (count_dedup_skipped (en_label en) st)"

definition handle_orphaned_queued_skip :: "msg_envelope \<Rightarrow> 's msg_state \<Rightarrow> msg_result \<times> 's msg_state" where
  "handle_orphaned_queued_skip en st = ack_or_count (en_label en) st"

definition handle_terminal_failure :: "msg_envelope \<Rightarrow> 's msg_state \<Rightarrow> msg_result \<times> 's msg_state" where
  "handle_terminal_failure en st = ack_or_count (en_label en) (count_terminal_failure (en_label en) st)"

definition delivered_after_orphan_verdict :: "msg_meta option \<Rightarrow> time \<Rightarrow> bool" where
  "delivered_after_orphan_verdict meta verdict_at \<longleftrightarrow>
     (case meta of None \<Rightarrow> False | Some m \<Rightarrow> \<not> is_zero_time verdict_at \<and> verdict_at < mt_time m)"

section \<open>The artist\<close>

text \<open>\<^verbatim>\<open>artistRepo.Load\<close>, which may take a snapshot and so reads the clock.\<close>

definition load_artist_at ::
    "'s worker_env \<Rightarrow> string \<Rightarrow> 's jobs_world \<Rightarrow> artist res \<times> 's jobs_world" where
  "load_artist_at env i w =
     (let (now, w1) = clock_now env w; (r, s) = load_artist (we_ops env) now (jw_store w1) i in (r, w1\<lparr>jw_store := s\<rparr>))"

definition save_and_project :: "'s worker_env \<Rightarrow> time \<Rightarrow> artist \<Rightarrow> 's jobs_world \<Rightarrow> unit res \<times> 's jobs_world" where
  "save_and_project env now agg w =
     (let (res, _, s) = save_artist (we_ops env) now (jw_store w) agg; w1 = w\<lparr>jw_store := s\<rparr>
      in case res of Inl err \<Rightarrow> (Fail err, w1) | Inr es \<Rightarrow> (Ok (), project_models env es w1))"

definition update_status_event :: "'s worker_env \<Rightarrow> string \<Rightarrow> string \<Rightarrow> string \<Rightarrow> 's jobs_world \<Rightarrow> 's jobs_world" where
  "update_status_event env i status rid w =
     (case load_artist_at env i w of
        (Inl err, w1) \<Rightarrow> w1
      | (Inr agg, w1) \<Rightarrow>
          (let (st, w2) = next_stamp env w1
           in case set_fetch_status st status [] (for_request rid) agg of
                Inl err \<Rightarrow> w2
              | Inr agg' \<Rightarrow> snd (save_and_project env (st_now st) agg' w2)))"

definition update_artist_status ::
    "'s worker_env \<Rightarrow> string \<Rightarrow> string \<Rightarrow> string \<Rightarrow> 's jobs_world \<Rightarrow> unit res \<times> 's jobs_world" where
  "update_artist_status env i status rid w =
     (case we_ctx env w of
        Some err \<Rightarrow> (Fail (Errorf ''check cancellation before loading artist'' [err]), w)
      | None \<Rightarrow>
          (let w1 = update_status_event env i status rid w
           in if jw_pb w1 = None then (Ok (), w1)
              else (case pb_query (\<lambda>pb. find (\<lambda>a. pa_id a = i) (pb_artists pb)) None w1 of
                      (Inl err, w2) \<Rightarrow> (Fail (Errorf ''load artist for status update'' [err]), w2)
                    | (Inr None, w2) \<Rightarrow> (Ok (), w2)
                    | (Inr (Some a), w2) \<Rightarrow>
                        if pa_fetch a = status then (Ok (), w2)
                        else (case we_ctx env w2 of
                                Some err \<Rightarrow> (Fail (Errorf ''check cancellation before saving status'' [err]), w2)
                              | None \<Rightarrow>
                                  (case save_pb_artist (a\<lparr>pa_fetch := status\<rparr>) w2 of
                                     (Inl err, w3) \<Rightarrow> (Fail (Errorf ''save fetch_status'' [err]), w3)
                                   | (Inr _, w3) \<Rightarrow> (Ok (), w3))))))"

text \<open>The PocketBase part of \<^verbatim>\<open>updateArtistListeners\<close>: \<open>None\<close> when there is no row and the update is over.\<close>

definition update_listeners_pb ::
    "'s worker_env \<Rightarrow> string \<Rightarrow> int \<Rightarrow> 's jobs_world \<Rightarrow> pb_artist option option res \<times> 's jobs_world" where
  "update_listeners_pb env i listeners w =
     (if jw_pb w = None then (Ok (Some None), w)
      else (case pb_query (\<lambda>pb. find (\<lambda>a. pa_id a = i) (pb_artists pb)) None w of
              (Inl err, w1) \<Rightarrow> (Fail (Errorf ''load artist for listener update'' [err]), w1)
            | (Inr None, w1) \<Rightarrow> (Ok None, w1)
            | (Inr (Some a), w1) \<Rightarrow>
                (let (now, w2) = clock_now env w1;
                     a' = a\<lparr>pa_listeners := listeners, pa_updated := now, pa_fetch := ''idle''\<rparr>
                 in case we_ctx env w2 of
                      Some err \<Rightarrow> (Fail (Errorf ''check cancellation before saving listeners'' [err]), w2)
                    | None \<Rightarrow>
                        (case save_pb_artist a' w2 of
                           (Inl err, w3) \<Rightarrow> (Fail (Errorf ''save listeners'' [err]), w3)
                         | (Inr _, w3) \<Rightarrow> (Ok (Some (Some a')), w3)))))"

text \<open>The aggregate to record on: the loaded one, or a new one for an artist older than the log.\<close>

definition listener_aggregate ::
    "'s worker_env \<Rightarrow> string \<Rightarrow> pb_artist option \<Rightarrow> 's jobs_world \<Rightarrow> artist res \<times> 's jobs_world" where
  "listener_aggregate env i record w =
     (case load_artist_at env i w of
        (Inr agg, w1) \<Rightarrow> (Ok agg, w1)
      | (Inl err, w1) \<Rightarrow>
          if \<not> errors_is ErrStreamNotFound err then (Fail (Errorf ''load artist aggregate'' [err]), w1)
          else (let (st, w2) = next_stamp env w1
                in case record of
                     Some a \<Rightarrow>
                       (wrap_err ''create artist aggregate'' (new_artist st i (pa_name a) (pa_spotify a) (pa_genre a) (pa_list a)), w2)
                   | None \<Rightarrow>
                       if jw_pb w2 \<noteq> None then (fail_msg ''seed artist aggregate: PocketBase row missing'', w2)
                       else (wrap_err ''create artist aggregate'' (new_artist st i i [] ''everything_else'' ''included''), w2)))"

definition update_artist_listeners ::
    "'s worker_env \<Rightarrow> string \<Rightarrow> int \<Rightarrow> string \<Rightarrow> int \<Rightarrow> string \<Rightarrow> 's jobs_world \<Rightarrow> unit res \<times> 's jobs_world" where
  "update_artist_listeners env i listeners provider duration rid w =
     (case we_ctx env w of
        Some err \<Rightarrow> (Fail (Errorf ''check cancellation before loading artist'' [err]), w)
      | None \<Rightarrow>
          (case update_listeners_pb env i listeners w of
             (Inl err, w1) \<Rightarrow> (Fail err, w1)
           | (Inr None, w1) \<Rightarrow> (Ok (), w1)
           | (Inr (Some record), w1) \<Rightarrow>
               (case listener_aggregate env i record w1 of
                  (Inl err, w2) \<Rightarrow> (Fail err, w2)
                | (Inr agg, w2) \<Rightarrow>
                    (case has_recorded_listeners rid agg of
                       (True, _) \<Rightarrow> (Ok (), w2)
                     | (False, agg1) \<Rightarrow>
                         (let (now, w3) = clock_now env w2; (st, w4) = next_stamp env w3
                          in case record_monthly_listeners now st listeners provider duration (for_request rid) agg1 of
                               Inl err \<Rightarrow> (Fail (Errorf ''record monthly listeners'' [err]), w4)
                             | Inr agg2 \<Rightarrow>
                                 (case save_and_project env (st_now st) agg2 w4 of
                                    (Inl err, w5) \<Rightarrow> (Fail (Errorf ''save artist aggregate'' [err]), w5)
                                  | (Inr _, w5) \<Rightarrow> (Ok (), w5)))))))"

section \<open>Ranks\<close>

definition queue_rank_refresh :: "string \<Rightarrow> 's msg_state \<Rightarrow> 's msg_state" where
  "queue_rank_refresh i st =
     (if trim_space i = [] then st
      else st\<lparr>ms_ranks := (if i \<in> set (ms_ranks st) then ms_ranks st else ms_ranks st @ [i])\<rparr>)"

fun rank_genres_for_artists ::
    "'s worker_env \<Rightarrow> string list \<Rightarrow> string list \<Rightarrow> 's jobs_world \<Rightarrow> string list res \<times> 's jobs_world" where
  "rank_genres_for_artists env [] genres w = (Ok genres, w)"
| "rank_genres_for_artists env (i # is) genres w =
     (case we_ctx env w of
        Some err \<Rightarrow> (Fail (Errorf ''rank genre lookup cancelled'' [err]), w)
      | None \<Rightarrow>
          (case pb_query (\<lambda>pb. find (\<lambda>a. pa_id a = i) (pb_artists pb)) None w of
             (Inl err, w1) \<Rightarrow> (Fail (Errorf ''find artist'' [err]), w1)
           | (Inr None, w1) \<Rightarrow> rank_genres_for_artists env is genres w1
           | (Inr (Some a), w1) \<Rightarrow>
               rank_genres_for_artists env is
                 (if pa_list a \<noteq> ''waiting'' \<and> pa_genre a \<in> {''rock_metal'', ''everything_else''} \<and> pa_genre a \<notin> set genres
                  then genres @ [pa_genre a] else genres) w1))"

text \<open>\<^verbatim>\<open>flushRankRefresh\<close>: the subjects that are published, one for every genre that is not blank.\<close>

definition flush_rank_refresh :: "'s msg_env \<Rightarrow> 's msg_state \<Rightarrow> string list \<times> 's msg_state" where
  "flush_rank_refresh env st =
     (let pending = ms_ranks st; st1 = st\<lparr>ms_ranks := []\<rparr>
      in if pending = [] then ([], st1)
         else (let (r, w) = (if jw_pb (ms_jobs st1) = None then (Ok [], ms_jobs st1)
                             else rank_genres_for_artists (me_jobs env) pending [] (ms_jobs st1))
               in case r of
                    Inl err \<Rightarrow> ([], st1\<lparr>ms_jobs := w\<rparr>)
                  | Inr genres \<Rightarrow>
                      (map subject_ranks_updated_for_genre (filter (\<lambda>g. trim_space g \<noteq> []) genres), st1\<lparr>ms_jobs := w\<rparr>)))"

section \<open>Processing a request\<close>

definition start_with :: "string \<Rightarrow> stamp \<Rightarrow> stamp \<Rightarrow> job \<Rightarrow> (bool \<times> job) res" where
  "start_with rid st st' j = record_started st (for_request rid) j"

definition succeed_with :: "string \<Rightarrow> int \<Rightarrow> string \<Rightarrow> stamp \<Rightarrow> stamp \<Rightarrow> job \<Rightarrow> (bool \<times> job) res" where
  "succeed_with provider duration rid st st' j = record_succeeded st provider duration (for_request rid) j"

definition dead_letter_with :: "string \<Rightarrow> string \<Rightarrow> stamp \<Rightarrow> stamp \<Rightarrow> job \<Rightarrow> (bool \<times> job) res" where
  "dead_letter_with reason rid st st' j =
     bind_res (record_failed st reason (for_request rid) j)
       (\<lambda>(_, j'). record_dead_lettered st' reason (for_request rid) j')"

abbreviation req_id :: "msg_envelope \<Rightarrow> string" where "req_id en \<equiv> scrape_requested.sr_request (en_req en)"
abbreviation req_artist :: "msg_envelope \<Rightarrow> string" where "req_artist en \<equiv> scrape_requested.sr_artist (en_req en)"

definition handle_fetcher_unavailable :: "'s worker_env \<Rightarrow> msg_envelope \<Rightarrow> 's jobs_world \<Rightarrow> gerr \<times> 's jobs_world" where
  "handle_fetcher_unavailable env en w =
     (case update_artist_status env (req_artist en) ''failed'' (req_id en) w of
        (Inl err, w1) \<Rightarrow> (Errorf ''set failed'' [err], w1)
      | (Inr _, w1) \<Rightarrow>
          (Sentinel ErrTerminalFailure,
           set_scrape_job_finished env (req_id en) st_failed ''fetcher_unavailable''
             (record_job_event_warn env (req_id en) (req_artist en) (fail_with ''fetcher_unavailable'' (req_id en)) w1)))"

definition fetch_listeners :: "'s msg_env \<Rightarrow> msg_envelope \<Rightarrow> provider \<Rightarrow> 's msg_state \<Rightarrow> int res \<times> 's msg_state" where
  "fetch_listeners env en p st =
     (case fetch_one (me_fetch env) (me_retries env) (sr_spotify (en_req en)) p (ms_fetch st) of
        (Inr n, l) \<Rightarrow> (Ok n, st\<lparr>ms_fetch := l\<rparr>)
      | (Inl err, l) \<Rightarrow>
          (let st1 = st\<lparr>ms_fetch := l\<rparr>
           in if errors_is ErrQuotaExhausted err \<or> errors_is ErrRateLimited err
              then (Fail (Errorf ''fetch failed'' [err]), st1)
              else (let (done, w) = is_request_already_succeeded (me_jobs env) (req_id en) (ms_jobs st1);
                        st2 = st1\<lparr>ms_jobs := w\<rparr>
                    in if done then (Fail (Sentinel ErrRequestAlreadySucceeded), st2)
                       else (Fail (Errorf ''fetch failed'' [err]), st2))))"

definition persist_listeners ::
    "'s msg_env \<Rightarrow> msg_envelope \<Rightarrow> int \<Rightarrow> time \<Rightarrow> 's msg_state \<Rightarrow> unit res \<times> 's msg_state" where
  "persist_listeners env en listeners started st =
     (let e = me_jobs env; (now, w0) = clock_now e (ms_jobs st); duration = (now - started) div millisecond
      in case update_artist_listeners e (req_artist en) listeners (en_label en) duration (req_id en) w0 of
           (Inl err, w1) \<Rightarrow> (Fail (Errorf ''update listeners'' [err]), st\<lparr>ms_jobs := w1\<rparr>)
         | (Inr _, w1) \<Rightarrow>
             (let w2 = record_job_event_warn e (req_id en) (req_artist en) (succeed_with (en_label en) duration (req_id en)) w1
              in case finish_scrape_job e (req_id en) st_succeeded [] w2 of
                   (Inl err, w3) \<Rightarrow> (Fail (Errorf ''mark scrape job succeeded'' [err]), st\<lparr>ms_jobs := w3\<rparr>)
                 | (Inr _, w3) \<Rightarrow>
                     (let w4 = mark_request_succeeded e (req_id en) w3; (now', w5) = clock_now e w4;
                          st1 = queue_rank_refresh (req_artist en)
                                  (count_succeeded (en_label en) (now' - started) (st\<lparr>ms_jobs := w5\<rparr>))
                      in (Ok (), on_jobs (clear_failed_jobs_for_artist e (req_artist en) (req_id en)) st1))))"

definition process_request :: "'s msg_env \<Rightarrow> msg_envelope \<Rightarrow> provider \<Rightarrow> 's msg_state \<Rightarrow> unit res \<times> 's msg_state" where
  "process_request env en p st =
     (let e = me_jobs env; (started, w0) = clock_now e (ms_jobs st);
          (done, w1) = (if p = ProviderApify then is_request_already_succeeded e (req_id en) w0 else (False, w0))
      in if done then (Fail (Sentinel ErrRequestAlreadySucceeded), st\<lparr>ms_jobs := w1\<rparr>)
         else (let w2 = record_job_event_warn e (req_id en) (req_artist en) (start_with (req_id en)) w1;
                   w3 = set_scrape_job_processing e (req_id en) w2
               in case update_artist_status e (req_artist en) ''pending'' (req_id en) w3 of
                    (Inl err, w4) \<Rightarrow> (Fail (Errorf ''set pending'' [err]), st\<lparr>ms_jobs := w4\<rparr>)
                  | (Inr _, w4) \<Rightarrow>
                      if \<not> me_fetcher env
                      then (let (err, w5) = handle_fetcher_unavailable e en w4 in (Fail err, st\<lparr>ms_jobs := w5\<rparr>))
                      else (case fetch_listeners env en p (st\<lparr>ms_jobs := w4\<rparr>) of
                              (Inl err, st1) \<Rightarrow> (Fail err, st1)
                            | (Inr listeners, st1) \<Rightarrow>
                                (let (done', w5) = is_request_already_succeeded e (req_id en) (ms_jobs st1);
                                     st2 = st1\<lparr>ms_jobs := w5\<rparr>
                                 in if done' then (Fail (Sentinel ErrRequestAlreadySucceeded), st2)
                                    else persist_listeners env en listeners started st2))))"

section \<open>Dead letters\<close>

text \<open>The text of an error: its own, then those of the errors it wraps.\<close>

fun sentinel_text :: "sentinel \<Rightarrow> string" where
  "sentinel_text ErrConcurrencyConflict = ''eventsourcing: optimistic concurrency conflict''"
| "sentinel_text ErrAppendIndeterminate = ''eventsourcing: append outcome indeterminate''"
| "sentinel_text ErrStreamNotFound = ''eventsourcing: stream not found''"
| "sentinel_text ErrSnapshotNotFound = ''eventsourcing: snapshot not found''"
| "sentinel_text ErrContextDone = ''context canceled''"
| "sentinel_text ErrEmptyArtistName = ''artist: name cannot be empty''"
| "sentinel_text ErrInvalidListStatus = ''artist: invalid list status''"
| "sentinel_text ErrInvalidFetchStatus = ''artist: invalid fetch status''"
| "sentinel_text ErrEmptyTitle = ''album: title cannot be empty''"
| "sentinel_text ErrEmptyArtist = ''album: artist name cannot be empty''"
| "sentinel_text ErrInvalidStatus = ''album: invalid status''"
| "sentinel_text ErrEmptySongTitle = ''song: title cannot be empty''"
| "sentinel_text ErrQuotaExhausted = ''provider quota exhausted''"
| "sentinel_text ErrRateLimited = ''provider rate limited''"
| "sentinel_text ErrRequestAlreadySucceeded = ''request already succeeded''"
| "sentinel_text ErrTerminalFailure = ''terminal failure''"

fun error_text :: "gerr \<Rightarrow> string" where
  "error_text (Sentinel s) = sentinel_text s"
| "error_text (RateLimitError provider after status) = provider @ '' rate limited''"
| "error_text (Errorf m es) = m @ concat (map (\<lambda>e. '': '' @ error_text e) es)"

definition publish_scrape_dlq :: "'s msg_env \<Rightarrow> msg_envelope \<Rightarrow> string \<Rightarrow> 's msg_state \<Rightarrow> unit res \<times> 's msg_state" where
  "publish_scrape_dlq env en reason st =
     (let (now, w) = clock_now (me_jobs env) (ms_jobs st);
          letter = \<lparr>dl_reason = reason, dl_at = now, dl_subject = en_subject en, dl_payload = en_data en,
                    dl_request = req_id en, dl_artist = req_artist en, dl_spotify = sr_spotify (en_req en),
                    dl_meta = en_meta en\<rparr>
      in case perform (PublishDead letter) (st\<lparr>ms_jobs := w\<rparr>) of
           (None, st1) \<Rightarrow> (Ok (), st1)
         | (Some err, st1) \<Rightarrow> (Fail (Errorf ''publish DLQ message'' [err]), st1))"

definition handle_dlq :: "'s msg_env \<Rightarrow> msg_envelope \<Rightarrow> gerr \<Rightarrow> 's msg_state \<Rightarrow> msg_result \<times> 's msg_state" where
  "handle_dlq env en err st =
     (let e = me_jobs env; reason = ''retry_exhausted: '' @ error_text err
      in case publish_scrape_dlq env en reason st of
           (Inl _, st1) \<Rightarrow> (MsgOK, snd (perform NakNow st1))
         | (Inr _, st1) \<Rightarrow>
             (case perform TermMsg st1 of
                (Some _, st2) \<Rightarrow> (MsgOK, st2)
              | (None, st2) \<Rightarrow>
                  (let (_, w1) = update_artist_status e (req_artist en) ''failed'' (req_id en) (ms_jobs st2);
                       w2 = set_scrape_job_finished e (req_id en) st_failed ''retry_exhausted'' w1;
                       w3 = record_job_event_warn e (req_id en) (req_artist en) (dead_letter_with reason (req_id en)) w2
                   in (MsgOK, count_dlq (en_label en) (st2\<lparr>ms_jobs := w3\<rparr>)))))"

section \<open>What becomes of the message\<close>

definition is_context_error :: "gerr \<Rightarrow> bool" where "is_context_error err \<longleftrightarrow> errors_is ErrContextDone err"

definition handle_quota_exhausted :: "msg_envelope \<Rightarrow> 's msg_state \<Rightarrow> msg_result \<times> 's msg_state" where
  "handle_quota_exhausted en st =
     (MsgQuotaExpired, snd (perform NakNow (count_quota_exhausted (en_label en) st)))"

definition rate_limit_pause :: "'s msg_env \<Rightarrow> msg_envelope \<Rightarrow> gerr \<Rightarrow> time" where
  "rate_limit_pause env en err =
     (let d = retry_delay (me_backoff env) (en_meta en);
          d' = (case retry_after err of None \<Rightarrow> d | Some a \<Rightarrow> if d < a then a else d)
      in with_jitter (me_random env) d' (min (2 * second) (d' div 4)))"

definition handle_rate_limited :: "'s msg_env \<Rightarrow> msg_envelope \<Rightarrow> gerr \<Rightarrow> 's msg_state \<Rightarrow> msg_result \<times> 's msg_state" where
  "handle_rate_limited env en err st =
     (MsgOK, snd (perform (NakAfter (rate_limit_pause env en err)) (count_rate_limited (en_label en) st)))"

definition handle_retryable_error :: "'s msg_env \<Rightarrow> msg_envelope \<Rightarrow> gerr \<Rightarrow> 's msg_state \<Rightarrow> msg_result \<times> 's msg_state" where
  "handle_retryable_error env en err st =
     (let st1 = count_retryable (en_label en) err st
      in case en_meta en of
           Some m \<Rightarrow>
             (if me_max_deliver env \<le> int (mt_delivered m) then handle_dlq env en err st1
              else (MsgOK, snd (perform (NakAfter (retry_delay (me_backoff env) (en_meta en))) st1)))
         | None \<Rightarrow> (MsgOK, snd (perform (NakAfter (retry_delay (me_backoff env) (en_meta en))) st1)))"

definition handle_process_error :: "'s msg_env \<Rightarrow> msg_envelope \<Rightarrow> gerr \<Rightarrow> 's msg_state \<Rightarrow> msg_result \<times> 's msg_state" where
  "handle_process_error env en err st =
     (if errors_is ErrRequestAlreadySucceeded err then handle_dedup_skip en st
      else if errors_is ErrTerminalFailure err then handle_terminal_failure en st
      else if is_context_error err then (MsgOK, snd (perform NakNow st))
      else if errors_is ErrQuotaExhausted err then handle_quota_exhausted en st
      else if errors_is ErrRateLimited err then handle_rate_limited env en err st
      else handle_retryable_error env en err st)"

definition check_local_provider_health :: "'s msg_env \<Rightarrow> msg_envelope \<Rightarrow> 's msg_state \<Rightarrow> msg_result option \<times> 's msg_state" where
  "check_local_provider_health env en st =
     (if \<not> should_park_local_pool (me_providers env) (en_label en) st then (None, st)
      else (Some MsgQuotaExpired, snd (perform (NakAfter (3 * second)) st)))"

definition check_apify_preflight ::
    "'s msg_env \<Rightarrow> provider \<Rightarrow> msg_envelope \<Rightarrow> 's msg_state \<Rightarrow> msg_result option \<times> 's msg_state" where
  "check_apify_preflight env p en st =
     (if p \<noteq> ProviderApify then (None, st)
      else if qi_available (check_apify (me_config env) (me_apify env st)) then (None, st)
      else (Some MsgQuotaExpired, snd (perform NakNow (count_quota_exhausted (en_label en) st))))"

definition run_provider_preflight ::
    "'s msg_env \<Rightarrow> provider \<Rightarrow> msg_envelope \<Rightarrow> 's msg_state \<Rightarrow> msg_result option \<times> 's msg_state" where
  "run_provider_preflight env p en st =
     (case (if p = ProviderLocalHeadless \<or> p = ProviderLocalBrowserless then check_local_provider_health env en st
            else (None, st)) of
        (Some r, st1) \<Rightarrow> (Some r, st1)
      | (None, st1) \<Rightarrow> check_apify_preflight env p en st1)"

definition handle_msg :: "'s msg_env \<Rightarrow> msg_envelope \<Rightarrow> provider \<Rightarrow> 's msg_state \<Rightarrow> msg_result \<times> 's msg_state" where
  "handle_msg env en p st0 =
     (let delivered = (case en_meta en of None \<Rightarrow> 0 | Some m \<Rightarrow> mt_delivered m);
          st1 = record_attempt (en_label en) delivered st0;
          ((succeeded, orphaned_at), w) = request_stream_verdict (me_jobs env) (req_id en) (ms_jobs st1);
          st2 = st1\<lparr>ms_jobs := w\<rparr>
      in if succeeded then handle_dedup_skip en st2
         else if \<not> is_zero_time orphaned_at \<and> \<not> delivered_after_orphan_verdict (en_meta en) orphaned_at
         then handle_orphaned_queued_skip en st2
         else (case run_provider_preflight env p en st2 of
                 (Some r, st3) \<Rightarrow> (r, st3)
               | (None, st3) \<Rightarrow>
                   (case process_request env en p st3 of
                      (Inl err, st4) \<Rightarrow> handle_process_error env en err st4
                    | (Inr _, st4) \<Rightarrow> ack_or_count (en_label en) st4)))"

section \<open>Dispatch\<close>

definition no_request :: scrape_requested where
  "no_request = \<lparr>sr_version = [], sr_request = [], sr_artist = [], sr_spotify = [], sr_name = [], sr_queued = []\<rparr>"

text \<open>\<^verbatim>\<open>parseDispatchRequest\<close>: a message that cannot be read is a poison message.\<close>

definition parse_dispatch_request ::
    "'s msg_env \<Rightarrow> string \<Rightarrow> encoded \<Rightarrow> msg_meta option \<Rightarrow> 's msg_state \<Rightarrow> scrape_requested option \<times> 's msg_state" where
  "parse_dispatch_request env subject data meta st =
     (case (case data of Encoded j \<Rightarrow> unmarshal_scrape_requested j | _ \<Rightarrow> fail_msg ''json'') of
        Inr req \<Rightarrow> (Some req, st)
      | Inl err \<Rightarrow>
          (case publish_scrape_dlq env \<lparr>en_subject = subject, en_data = data, en_meta = meta, en_req = no_request, en_label = []\<rparr>
                  ''unmarshal_error'' st of
             (Inl _, st1) \<Rightarrow> (None, snd (perform NakNow st1))
           | (Inr _, st1) \<Rightarrow> (None, snd (perform TermMsg st1))))"

text \<open>
  How a parsed message leaves \<^verbatim>\<open>dispatchToChannel\<close>: into the channel, or back to JetStream because
  the dispatcher no longer accepts, every pool is dead, or the worker stops.
\<close>

datatype dispatch_outcome = Enqueued | NotAccepting | AllGroupsDead | ShuttingDown

definition dispatch_to_channel ::
    "'s msg_env \<Rightarrow> dispatch_outcome \<Rightarrow> string \<Rightarrow> string \<Rightarrow> encoded \<Rightarrow> msg_meta option \<Rightarrow> 's msg_state
     \<Rightarrow> msg_envelope option \<times> 's msg_state" where
  "dispatch_to_channel env outcome label subject data meta st =
     (case parse_dispatch_request env subject data meta st of
        (None, st1) \<Rightarrow> (None, st1)
      | (Some req, st1) \<Rightarrow>
          (case outcome of
             Enqueued \<Rightarrow> (Some \<lparr>en_subject = subject, en_data = data, en_meta = meta, en_req = req, en_label = label\<rparr>, st1)
           | _ \<Rightarrow> (None, snd (perform NakNow st1))))"

text \<open>\<^verbatim>\<open>rejectQueuedWork\<close>: what waits in the channel at shutdown goes back.\<close>

fun reject_queued_work :: "msg_envelope list \<Rightarrow> 's msg_state \<Rightarrow> 's msg_state" where
  "reject_queued_work [] st = st"
| "reject_queued_work (en # queue) st = reject_queued_work queue (snd (perform NakNow st))"

definition provider_label :: "provider \<Rightarrow> string" where
  "provider_label p =
     (case p of
        ProviderAny \<Rightarrow> scrape_provider_any
      | ProviderLocalHeadless \<Rightarrow> ''local''
      | ProviderBrowserless \<Rightarrow> ''browserless''
      | ProviderScrapingAnt \<Rightarrow> ''scrapingant''
      | ProviderScraperAPI \<Rightarrow> ''scraperapi''
      | ProviderApify \<Rightarrow> ''apify''
      | ProviderLocalBrowserless \<Rightarrow> ''local-browserless''
      | ProviderBrowserbase \<Rightarrow> ''browserbase''
      | ProviderMobileSSR \<Rightarrow> ''mobile-ssr'')"

text \<open>
  One slot of a pool, from the queue and state it finds to those it leaves: it may stop when the
  channel is empty or its group is cancelled, and stops when the quota is spent.
\<close>

inductive slot_run ::
    "'s msg_env \<Rightarrow> provider \<Rightarrow> msg_envelope list \<Rightarrow> 's msg_state \<Rightarrow> msg_envelope list \<Rightarrow> 's msg_state \<Rightarrow> bool"
  for env :: "'s msg_env" and p :: provider where
  slot_stop: "queue = [] \<or> ctx_error env st \<noteq> None \<Longrightarrow> slot_run env p queue st queue st"
| slot_quota: "handle_msg env en p st = (MsgQuotaExpired, st1) \<Longrightarrow> slot_run env p (en # queue) st queue st1"
| slot_next: "handle_msg env en p st = (MsgOK, st1) \<Longrightarrow> slot_run env p queue st1 queue' st' \<Longrightarrow>
     slot_run env p (en # queue) st queue' st'"

end
