(* ===== verification/Worker_Message_Properties.thy ===== *)
theory Worker_Message_Properties
  imports Worker_Messages Artist_Snapshots
begin

text \<open>
  What becomes of a message: every message a slot takes is settled once, by an acknowledgement, a
  return or a dead letter, and only a message that used up its deliveries is dead-lettered.
\<close>

section \<open>The calls on a message\<close>

definition reply :: "fault list \<Rightarrow> nat \<Rightarrow> fault" where
  "reply answers n = (if n < length answers then answers ! n else None)"

lemma perform_shape:
  "perform act st = (reply (ms_answers st) 0, st\<lparr>ms_actions := ms_actions st @ [act], ms_answers := drop 1 (ms_answers st)\<rparr>)"
  by (cases st) (simp add: perform_def reply_def split: list.splits)

lemma reply_drop: "reply (drop k answers) n = reply answers (k + n)"
  by (auto simp: reply_def)

text \<open>The ways to settle a message, over the answers JetStream gives from here on.\<close>

definition acked :: "fault list \<Rightarrow> action list \<Rightarrow> bool" where
  "acked answers acts \<longleftrightarrow>
     (\<exists>k<3. acts = replicate (Suc k) DoubleAck \<and> reply answers k = None \<and> (\<forall>i<k. reply answers i \<noteq> None))
   \<or> acts = replicate 3 DoubleAck @ [PlainAck] \<and> (\<forall>i<3. reply answers i \<noteq> None)"

definition returned :: "action list \<Rightarrow> bool" where
  "returned acts \<longleftrightarrow> acts = [NakNow] \<or> (\<exists>d. acts = [NakAfter d])"

definition dead_lettered :: "fault list \<Rightarrow> action list \<Rightarrow> bool" where
  "dead_lettered answers acts \<longleftrightarrow>
     (\<exists>x. acts = [PublishDead x, (if reply answers 0 = None then TermMsg else NakNow)])"

definition moved :: "'s msg_state \<Rightarrow> action list \<Rightarrow> 's msg_state \<Rightarrow> bool" where
  "moved st acts st' \<longleftrightarrow> ms_actions st' = ms_actions st @ acts \<and> ms_answers st' = drop (length acts) (ms_answers st)"

lemma moved_trans: "moved st xs st1 \<Longrightarrow> moved st1 ys st2 \<Longrightarrow> moved st (xs @ ys) st2"
  by (simp add: moved_def add.commute)

lemma moved_perform: "moved st [act] (snd (perform act st))"
  by (simp add: moved_def perform_shape)

lemma moved_count [simp]: "moved st acts (count_on label f st') \<longleftrightarrow> moved st acts st'"
  by (simp add: moved_def count_on_def)

lemma moved_from_count [simp]: "moved (count_on label f st) acts st' \<longleftrightarrow> moved st acts st'"
  by (simp add: moved_def count_on_def)

lemmas counters = record_attempt_def count_succeeded_def count_dedup_skipped_def count_retryable_def count_rate_limited_def
  count_quota_exhausted_def count_dlq_def count_ack_error_def count_terminal_failure_def

lemma moved_jobs [simp]: "moved st acts (st'\<lparr>ms_jobs := w\<rparr>) \<longleftrightarrow> moved st acts st'"
  "moved (st\<lparr>ms_jobs := w\<rparr>) acts st' \<longleftrightarrow> moved st acts st'"
  "moved st acts (st'\<lparr>ms_fetch := l\<rparr>) \<longleftrightarrow> moved st acts st'"
  by (simp_all add: moved_def)

lemma ack_moves: "\<exists>acts. acked (ms_answers st) acts \<and> moved st acts (snd (ack_msg st))"
proof -
  let ?a = "ms_answers st"
  note steps = ack_msg_def perform_shape numeral_3_eq_3 reply_drop
  consider "reply ?a 0 = None" | "reply ?a 0 \<noteq> None" "reply ?a 1 = None"
    | "reply ?a 0 \<noteq> None" "reply ?a 1 \<noteq> None" "reply ?a 2 = None"
    | "reply ?a 0 \<noteq> None" "reply ?a 1 \<noteq> None" "reply ?a 2 \<noteq> None" by blast
  then show ?thesis
  proof cases
    case 1
    then show ?thesis
      by (intro exI [of _ "[DoubleAck]"] conjI)
        (auto simp: steps acked_def moved_def intro!: exI [of _ "0 :: nat"])
  next
    case 2
    then show ?thesis
      by (intro exI [of _ "[DoubleAck, DoubleAck]"] conjI)
        (auto simp: steps acked_def moved_def less_Suc_eq intro!: exI [of _ "1 :: nat"] split: option.splits)
  next
    case 3
    then show ?thesis
      by (intro exI [of _ "[DoubleAck, DoubleAck, DoubleAck]"] conjI)
        (auto simp: steps acked_def moved_def less_Suc_eq numeral_2_eq_2 intro!: exI [of _ "2 :: nat"] split: option.splits)
  next
    case 4
    then show ?thesis
      by (intro exI [of _ "[DoubleAck, DoubleAck, DoubleAck, PlainAck]"] conjI)
        (auto simp: steps acked_def moved_def less_Suc_eq numeral_2_eq_2 split: option.splits)
  qed
qed

section \<open>Handling\<close>

lemma moved_none [simp]: "moved st [] st"
  by (simp add: moved_def)

lemma on_jobs_moved [simp]: "moved st acts (on_jobs f st') \<longleftrightarrow> moved st acts st'"
  by (simp add: on_jobs_def)

lemma fetch_listeners_moves: "moved st [] (snd (fetch_listeners env en p st))"
  by (simp add: fetch_listeners_def Let_def case_prod_beta split: prod.split sum.split)

lemma rank_moved [simp]: "moved st acts (queue_rank_refresh i st') \<longleftrightarrow> moved st acts st'"
  by (simp add: queue_rank_refresh_def moved_def)

lemma persist_moves: "moved st [] (snd (persist_listeners env en n started st))"
  by (simp add: persist_listeners_def Let_def case_prod_beta count_succeeded_def split: prod.split sum.split)

lemma process_moves: "moved st [] (snd (process_request env en p st))"
proof -
  have f: "moved st [] st1" if "fetch_listeners env en p (st\<lparr>ms_jobs := w\<rparr>) = (r, st1)" for r st1 w
    using fetch_listeners_moves [of "st\<lparr>ms_jobs := w\<rparr>" env en p] that by simp
  have g: "moved st [] (snd (persist_listeners env en n s (st1\<lparr>ms_jobs := w'\<rparr>)))"
    if "fetch_listeners env en p (st\<lparr>ms_jobs := w\<rparr>) = (r, st1)" for r st1 w w' n s
    using moved_trans [OF f [OF that], of "[]"] persist_moves [of "st1\<lparr>ms_jobs := w'\<rparr>" env en n s] by simp
  show ?thesis
    unfolding process_request_def Let_def
    by (simp add: case_prod_beta split: prod.split sum.split if_split) (auto intro: f g)
qed

definition settled_by :: "'s msg_env \<Rightarrow> msg_envelope \<Rightarrow> 's msg_state \<Rightarrow> msg_result \<Rightarrow> 's msg_state \<Rightarrow> bool" where
  "settled_by env en st res st' \<longleftrightarrow>
     (\<exists>acts. moved st acts st' \<and>
        (acked (ms_answers st) acts \<and> res = MsgOK \<or> returned acts
         \<or> dead_lettered (ms_answers st) acts \<and> res = MsgOK
           \<and> (\<exists>m. en_meta en = Some m \<and> me_max_deliver env \<le> int (mt_delivered m))))"

lemma moved_answers: "moved st [] st1 \<Longrightarrow> ms_answers st1 = ms_answers st"
  by (simp add: moved_def)

lemma settled_before:
  assumes "moved st [] st1" and "settled_by env en st1 res st'"
  shows "settled_by env en st res st'"
proof -
  have "moved st acts st'" if "moved st1 acts st'" for acts using moved_trans [OF assms(1) that] by simp
  with assms(2) show ?thesis unfolding settled_by_def moved_answers [OF assms(1)] by blast
qed

lemma ack_settles: "settled_by env en st (fst (ack_or_count label st)) (snd (ack_or_count label st))"
proof -
  obtain acts where a: "acked (ms_answers st) acts" "moved st acts (snd (ack_msg st))" using ack_moves by blast
  then show ?thesis
    by (auto simp: settled_by_def ack_or_count_def counters split: prod.split option.split intro!: exI [of _ acts])
qed

lemma return_settles:
  "act = NakNow \<or> (\<exists>d. act = NakAfter d) \<Longrightarrow> settled_by env en st res (snd (perform act st))"
  using moved_perform [of st act] by (auto simp: settled_by_def returned_def)

lemma publish_shape:
  obtains x w where "publish_scrape_dlq env en reason st =
      ((case reply (ms_answers st) 0 of None \<Rightarrow> Ok () | Some e \<Rightarrow> Fail (Errorf ''publish DLQ message'' [e])),
       snd (perform (PublishDead x) (st\<lparr>ms_jobs := w\<rparr>)))"
proof -
  let ?w = "snd (clock_now (me_jobs env) (ms_jobs st))"
  let ?x = "\<lparr>dl_reason = reason, dl_at = fst (clock_now (me_jobs env) (ms_jobs st)), dl_subject = en_subject en,
    dl_payload = en_data en, dl_request = req_id en, dl_artist = req_artist en, dl_spotify = sr_spotify (en_req en),
    dl_meta = en_meta en\<rparr>"
  have "publish_scrape_dlq env en reason st =
      ((case reply (ms_answers st) 0 of None \<Rightarrow> Ok () | Some e \<Rightarrow> Fail (Errorf ''publish DLQ message'' [e])),
       snd (perform (PublishDead ?x) (st\<lparr>ms_jobs := ?w\<rparr>)))"
    by (cases "reply (ms_answers st) 0") (simp_all add: publish_scrape_dlq_def perform_shape Let_def case_prod_beta)
  then show thesis by (rule that)
qed

lemma moved_two: "moved st [a, b] (snd (perform b (snd (perform a (st\<lparr>ms_jobs := w\<rparr>)))))"
  using moved_trans [OF moved_perform [of "st\<lparr>ms_jobs := w\<rparr>" a] moved_perform [of "snd (perform a (st\<lparr>ms_jobs := w\<rparr>))" b]]
  by simp

lemma dlq_settles:
  assumes "en_meta en = Some m" and "me_max_deliver env \<le> int (mt_delivered m)"
  shows "settled_by env en st (fst (handle_dlq env en err st)) (snd (handle_dlq env en err st))"
proof -
  obtain x w where p: "publish_scrape_dlq env en (''retry_exhausted: '' @ error_text err) st =
      ((case reply (ms_answers st) 0 of None \<Rightarrow> Ok () | Some e \<Rightarrow> Fail (Errorf ''publish DLQ message'' [e])),
       snd (perform (PublishDead x) (st\<lparr>ms_jobs := w\<rparr>)))"
    by (rule publish_shape)
  let ?done = "if reply (ms_answers st) 0 = None then TermMsg else NakNow"
  have "moved st [PublishDead x, ?done] (snd (handle_dlq env en err st)) \<and> fst (handle_dlq env en err st) = MsgOK"
    using moved_two [of st "PublishDead x" ?done w] unfolding handle_dlq_def Let_def p
    by (cases "reply (ms_answers st) 0") (auto simp: count_dlq_def case_prod_beta split: option.split prod.split)
  then show ?thesis
    using assms unfolding settled_by_def dead_lettered_def by blast
qed

lemma count_settles:
  "settled_by env en (count_on label f st) res st' \<longleftrightarrow> settled_by env en st res st'"
  by (simp add: settled_by_def) (simp add: count_on_def)

lemma retryable_settles:
  "settled_by env en st (fst (handle_retryable_error env en err st)) (snd (handle_retryable_error env en err st))"
  using return_settles [of "NakAfter d" env en "count_retryable (en_label en) err st" MsgOK for d]
    dlq_settles [of en _ env "count_retryable (en_label en) err st" err]
  by (auto simp: handle_retryable_error_def Let_def count_retryable_def count_settles split: option.split)

lemma error_settles:
  "settled_by env en st (fst (handle_process_error env en err st)) (snd (handle_process_error env en err st))"
  using ack_settles [of env en "count_dedup_skipped (en_label en) st" "en_label en"]
    ack_settles [of env en "count_terminal_failure (en_label en) st" "en_label en"]
    return_settles [of NakNow env en st MsgOK] return_settles [of NakNow env en st MsgQuotaExpired]
    return_settles [of "NakAfter d" env en st MsgOK for d] retryable_settles [of env en st err]
    return_settles [of NakNow env en "count_quota_exhausted (en_label en) st" MsgQuotaExpired]
    return_settles [of "NakAfter d" env en "count_rate_limited (en_label en) st" MsgOK for d]
  by (auto simp: handle_process_error_def handle_dedup_skip_def handle_terminal_failure_def handle_quota_exhausted_def
      handle_rate_limited_def count_dedup_skipped_def count_terminal_failure_def count_quota_exhausted_def
      count_rate_limited_def count_settles)

lemma preflight_settles:
  assumes "run_provider_preflight env p en st = (r, st1)"
  shows "case r of None \<Rightarrow> moved st [] st1 | Some res \<Rightarrow> res = MsgQuotaExpired \<and> settled_by env en st res st1"
  using assms return_settles [of "NakAfter d" env en st MsgQuotaExpired for d]
    return_settles [of NakNow env en "count_quota_exhausted (en_label en) st" MsgQuotaExpired]
  by (auto simp: run_provider_preflight_def check_local_provider_health_def check_apify_preflight_def
      count_quota_exhausted_def count_settles split: if_splits option.splits)

text \<open>
  C9. Every message is settled once: whatever the databases, the clients and JetStream answer,
  \<^verbatim>\<open>handleMsg\<close> ends with one acknowledgement (three double acknowledgements tried before the plain
  one), one return, or one dead letter. It is dead-lettered only after its last allowed delivery, and
  terminated only when the dead letter was stored, else returned. A slot stops only with the message
  returned.
\<close>

theorem message_settled:
  assumes "handle_msg env en p st = (res, st')"
  shows "\<exists>acts. ms_actions st' = ms_actions st @ acts \<and> ms_answers st' = drop (length acts) (ms_answers st)
    \<and> (acked (ms_answers st) acts \<and> res = MsgOK \<or> returned acts
       \<or> dead_lettered (ms_answers st) acts \<and> res = MsgOK
         \<and> (\<exists>m. en_meta en = Some m \<and> me_max_deliver env \<le> int (mt_delivered m)))"
proof -
  let ?st1 = "record_attempt (en_label en) (case en_meta en of None \<Rightarrow> 0 | Some m \<Rightarrow> mt_delivered m) st"
  obtain fin orphaned_at w where v: "request_stream_verdict (me_jobs env) (req_id en) (ms_jobs ?st1) = ((fin, orphaned_at), w)"
    by (metis prod.collapse)
  let ?st2 = "?st1\<lparr>ms_jobs := w\<rparr>"
  have start: "moved st [] ?st2" by (simp add: record_attempt_def)
  have "settled_by env en ?st2 res st'"
  proof -
    consider (dedup) "handle_dedup_skip en ?st2 = (res, st')" | (orphan) "handle_orphaned_queued_skip en ?st2 = (res, st')"
      | (preflight) r where "run_provider_preflight env p en ?st2 = (Some r, st')" "res = r"
      | (failed) err st3 st4 where "run_provider_preflight env p en ?st2 = (None, st3)"
          "process_request env en p st3 = (Fail err, st4)" "handle_process_error env en err st4 = (res, st')"
      | (processed) st3 st4 where "run_provider_preflight env p en ?st2 = (None, st3)"
          "process_request env en p st3 = (Ok (), st4)" "ack_or_count (en_label en) st4 = (res, st')"
      using assms by (auto simp: handle_msg_def Let_def v split: if_splits option.splits prod.splits sum.splits)
    then show ?thesis
    proof cases
      case dedup
      then show ?thesis
        using ack_settles [of env en "count_dedup_skipped (en_label en) ?st2" "en_label en"]
        by (simp add: handle_dedup_skip_def count_dedup_skipped_def count_settles)
    next
      case orphan
      then show ?thesis using ack_settles [of env en ?st2 "en_label en"] by (simp add: handle_orphaned_queued_skip_def)
    next
      case preflight
      then show ?thesis using preflight_settles by fastforce
    next
      case failed
      have "moved ?st2 [] st4"
        using moved_trans [of ?st2 "[]" st3 "[]" st4] preflight_settles [OF failed(1)] process_moves [of st3 env en p] failed(2) by simp
      from settled_before [OF this] error_settles [of env en st4 err] failed(3) show ?thesis by simp
    next
      case processed
      have "moved ?st2 [] st4"
        using moved_trans [of ?st2 "[]" st3 "[]" st4] preflight_settles [OF processed(1)] process_moves [of st3 env en p] processed(2) by simp
      from settled_before [OF this] ack_settles [of env en st4 "en_label en"] processed(3) show ?thesis by simp
    qed
  qed
  from settled_before [OF start this] show ?thesis unfolding settled_by_def moved_def by blast
qed

text \<open>A first delivery over an empty database, whose client runs into the deadline of the fetch.\<close>

definition sample_message :: "nat \<Rightarrow> msg_envelope" where
  "sample_message delivered =
     \<lparr>en_subject = ''scrape.request'', en_data = NoBytes,
      en_meta = Some \<lparr>mt_delivered = delivered, mt_time = 0, mt_stream = ''s'', mt_consumer = ''c'', mt_stream_seq = 1,
                      mt_consumer_seq = 1\<rparr>,
      en_req = new_scrape_requested ''now'' ''ar_1'' ''sp'' ''A'' ''rq'', en_label = ''mobile-ssr''\<rparr>"

definition sample_msg_env :: "gerr \<Rightarrow> world msg_env" where
  "sample_msg_env err =
     \<lparr>me_jobs = \<lparr>we_ops = sqlite_ops 0 (\<lambda>s. None), we_ctx = \<lambda>w. None,
                 we_stamp = \<lambda>k. \<lparr>st_uuid = replicate k CHR ''u'', st_now = int k\<rparr>, we_fk = True, we_retention = 0\<rparr>,
      me_fetch = \<lparr>fe_answer = \<lambda>l i p. Fail err, fe_batch = \<lambda>l ids. fail_msg ''none'', fe_ctx = \<lambda>l. None,
                  fe_interrupt = \<lambda>l. None, fe_jitter = \<lambda>l. 0, fe_net_timeout = \<lambda>e. False\<rparr>,
      me_fetcher = True, me_retries = 0, me_backoff = [], me_max_deliver = 3, me_providers = 1,
      me_config = \<lparr>qc_local = False, qc_local_browserless = False, qc_local_endpoint = [], qc_browserless_token = [],
        qc_browserless_endpoint = [], qc_browserbase_key = [], qc_ant_token = [], qc_ant_endpoint = [], qc_api_token = [],
        qc_api_endpoint = [], qc_apify_token = [], qc_apify_endpoint = [], qc_apify_actor = [], qc_apify_memory = 0\<rparr>,
      me_apify = \<lambda>st. RequestFailed [], me_random = \<lambda>t. 0\<rparr>"

definition sample_msg_state :: "world msg_state" where
  "sample_msg_state =
     \<lparr>ms_jobs = \<lparr>jw_rows = [], jw_models = \<lparr>rm_artists = [], rm_history = [], rm_job_artists = [], rm_albums = [], rm_songs = []\<rparr>,
        jw_pb = None, jw_faults = [], jw_reads = 0, jw_store = \<lparr>wd_db = empty_sqlite, wd_script = []\<rparr>, jw_cache = [],
        jw_cursor = None, jw_purged = 0\<rparr>,
      ms_fetch = no_calls, ms_actions = [], ms_answers = [Some (Errorf ''timeout'' [])], ms_metrics = [], ms_ranks = []\<rparr>"

theorem message_settled_witness:
  "\<exists>acts. ms_actions (snd (handle_msg (sample_msg_env (Errorf ''reset'' [])) (sample_message 3) ProviderMobileSSR sample_msg_state)) = acts
     \<and> (returned acts \<or> dead_lettered [Some (Errorf ''timeout'' [])] acts \<or> acked [Some (Errorf ''timeout'' [])] acts)"
proof -
  obtain res st' where run:
    "handle_msg (sample_msg_env (Errorf ''reset'' [])) (sample_message 3) ProviderMobileSSR sample_msg_state = (res, st')"
    by (rule prod.exhaust)
  from message_settled [OF run] run show ?thesis by (auto simp: sample_msg_state_def)
qed

section \<open>A deadline is no failure\<close>

lemma fetch_listeners_metrics: "ms_metrics (snd (fetch_listeners env en p st)) = ms_metrics st"
  by (simp add: fetch_listeners_def Let_def case_prod_beta split: prod.split sum.split)

lemma process_failed_metrics:
  assumes "process_request env en p st = (Fail err, st1)"
  shows "ms_metrics st1 = ms_metrics st"
proof -
  have f: "ms_metrics s1 = ms_metrics st" if "fetch_listeners env en q (st\<lparr>ms_jobs := w\<rparr>) = (r, s1)" for q r s1 w
    using fetch_listeners_metrics [of env en q "st\<lparr>ms_jobs := w\<rparr>"] that by simp
  have g: "ms_metrics s2 = ms_metrics s1" if "persist_listeners env en n t s1 = (Fail e, s2)" for s1 s2 n t e
    using that by (auto simp: persist_listeners_def Let_def case_prod_beta split: prod.splits sum.splits)
  have h: "ms_metrics s2 = ms_metrics st" if "persist_listeners env en n t (s1\<lparr>ms_jobs := w'\<rparr>) = (Fail e, s2)"
    "fetch_listeners env en q (st\<lparr>ms_jobs := w\<rparr>) = (r, s1)" for s1 s2 n t e w w' q r
    using f [OF that(2)] g [OF that(1)] by simp
  show ?thesis
    using assms unfolding process_request_def Let_def
    by (auto simp: case_prod_beta split: prod.splits sum.splits if_splits dest: f h)
qed



end
