(* ===== verification/Worker_Tuning.thy ===== *)
theory Worker_Tuning
  imports Worker_Messages
begin

text \<open>
  The timing of the worker (\<^verbatim>\<open>internal/worker/worker.go\<close>, \<^verbatim>\<open>dispatch.go\<close>, \<^verbatim>\<open>processing.go\<close>): the
  provider pools, the longest fetch, and the redelivery schedule derived from the configuration and
  from what the server reports about its consumer.
\<close>

section \<open>Provider pools\<close>

record provider_slot =
  sl_provider :: provider
  sl_concurrency :: int

record worker_config =
  wc_quota :: quota_config
  wc_mobile_ssr :: int
  wc_local :: int
  wc_browserless :: int
  wc_max_concurrency :: int
  wc_scraper_api :: int
  wc_local_browserless :: int
  wc_browserbase :: int
  wc_request_timeout :: time
  wc_max_deliver :: int
  wc_backoff :: "time list"
  wc_ack_wait :: time
  wc_progress :: time

definition normalize_concurrency :: "int \<Rightarrow> int" where
  "normalize_concurrency n = (if n \<le> 0 then 1 else n)"

definition append_provider_slot :: "provider_slot list \<Rightarrow> bool \<Rightarrow> provider \<Rightarrow> int \<Rightarrow> provider_slot list" where
  "append_provider_slot slots enabled p n =
     (if \<not> enabled then slots else slots @ [\<lparr>sl_provider = p, sl_concurrency = normalize_concurrency n\<rparr>])"

definition provider_slots :: "worker_config \<Rightarrow> provider_slot list" where
  "provider_slots c =
     (let q = wc_quota c;
          s1 = append_provider_slot [] True ProviderMobileSSR (wc_mobile_ssr c);
          s2 = append_provider_slot s1 (has_local_headless q) ProviderLocalHeadless (wc_local c);
          s3 = append_provider_slot s2 (has_browserless q) ProviderBrowserless (wc_browserless c);
          s4 = append_provider_slot s3 (has_scraping_ant q) ProviderScrapingAnt (wc_max_concurrency c);
          s5 = append_provider_slot s4 (has_scraper_api q) ProviderScraperAPI (wc_scraper_api c);
          s6 = append_provider_slot s5 (has_apify q) ProviderApify 1;
          s7 = append_provider_slot s6 (has_local_browserless q) ProviderLocalBrowserless (wc_local_browserless c)
      in append_provider_slot s7 (has_browserbase q) ProviderBrowserbase (wc_browserbase c))"

definition total_concurrency :: "worker_config \<Rightarrow> int" where
  "total_concurrency c =
     (let t = foldl (\<lambda>t s. t + sl_concurrency s) 0 (provider_slots c) in if t \<le> 0 then 1 else t)"

section \<open>Timeouts\<close>

fun provider_min_timeout :: "provider \<Rightarrow> time" where
  "provider_min_timeout ProviderApify = 350 * second"
| "provider_min_timeout ProviderScrapingAnt = 180 * second"
| "provider_min_timeout ProviderScraperAPI = 180 * second"
| "provider_min_timeout ProviderLocalHeadless = 300 * second"
| "provider_min_timeout ProviderLocalBrowserless = 60 * second"
| "provider_min_timeout ProviderBrowserless = 30 * second"
| "provider_min_timeout ProviderBrowserbase = 120 * second"
| "provider_min_timeout p = 30 * second"

definition fetch_timeout :: "worker_config \<Rightarrow> provider \<Rightarrow> time" where
  "fetch_timeout c p = max (wc_request_timeout c) (provider_min_timeout p)"

definition max_fetch_timeout :: "worker_config \<Rightarrow> time" where
  "max_fetch_timeout c =
     foldl (\<lambda>worst s. let t = fetch_timeout c (sl_provider s) in if worst < t then t else worst) (30 * second) (provider_slots c)"

section \<open>Tuning\<close>

record tuning =
  tn_max_deliver :: int
  tn_backoff :: "time list"
  tn_ack_wait :: time
  tn_progress :: time

definition min_safe_ack_wait :: "worker_config \<Rightarrow> time list \<Rightarrow> time" where
  "min_safe_ack_wait c backoff =
     foldl (\<lambda>floor d. if floor < d then d else floor) (max (2 * max_fetch_timeout c) (120 * second)) backoff"

definition resolve_tuning :: "worker_config \<Rightarrow> tuning" where
  "resolve_tuning c =
     (let deliver = (if wc_max_deliver c \<le> 0 then 3 else wc_max_deliver c);
          backoff = (if wc_backoff c = [] then [10 * second, 30 * second, 120 * second] else wc_backoff c);
          floor = min_safe_ack_wait c backoff;
          ack = (if wc_ack_wait c < floor then floor else wc_ack_wait c);
          progress = (if wc_progress c \<le> 0 then 20 * second else wc_progress c);
          most = max (ack div 2) second
      in \<lparr>tn_max_deliver = deliver, tn_backoff = backoff, tn_ack_wait = ack,
          tn_progress = (if most < progress then most else progress)\<rparr>)"

definition server_backoff :: "worker_config \<Rightarrow> tuning \<Rightarrow> time list" where
  "server_backoff c t = [min_safe_ack_wait c (tn_backoff t)]"

text \<open>What the server says about the consumer.\<close>

record consumer_info =
  ci_max_deliver :: int
  ci_ack_wait :: time
  ci_backoff :: "time list"

definition align_from_consumer_info :: "worker_config \<Rightarrow> consumer_info option \<Rightarrow> tuning \<Rightarrow> tuning" where
  "align_from_consumer_info c info t =
     (case info of
        None \<Rightarrow> t
      | Some i \<Rightarrow>
          (let t1 = (if 0 < ci_max_deliver i then t\<lparr>tn_max_deliver := ci_max_deliver i\<rparr> else t);
               t2 = (if min_safe_ack_wait c (tn_backoff t) \<le> ci_ack_wait i then t1\<lparr>tn_ack_wait := ci_ack_wait i\<rparr> else t1);
               most = max (tn_ack_wait t2 div 2) second
           in if most < tn_progress t2 then t2\<lparr>tn_progress := most\<rparr> else t2))"

text \<open>The consumer as the server stores it, and the server's answers to the calls of the repair.\<close>

record heal_answers =
  ha_stream :: fault
  ha_delete :: fault
  ha_create :: fault

definition wanted_consumer :: "worker_config \<Rightarrow> tuning \<Rightarrow> consumer_info" where
  "wanted_consumer c t =
     \<lparr>ci_max_deliver = tn_max_deliver t, ci_ack_wait = tn_ack_wait t, ci_backoff = server_backoff c t\<rparr>"

text \<open>
  \<^verbatim>\<open>healConsumerTuning\<close>: the first argument is the stored consumer, unknown when its info cannot be
  read. The result is the consumer stored afterwards, \<open>None\<close> inside when it was deleted and not made again.
\<close>

definition heal_consumer_tuning ::
    "worker_config \<Rightarrow> tuning \<Rightarrow> heal_answers \<Rightarrow> bool \<Rightarrow> consumer_info \<Rightarrow> unit res \<times> consumer_info option" where
  "heal_consumer_tuning c t ans readable stored =
     (let floor = min_safe_ack_wait c (tn_backoff t);
          stale = (ci_backoff stored = [] \<or> ci_backoff stored ! 0 < floor)
      in if \<not> readable then (Ok (), Some stored)
         else if floor \<le> ci_ack_wait stored \<and> \<not> stale then (Ok (), Some stored)
         else (case ha_stream ans of
                 Some err \<Rightarrow> (Fail (Errorf ''heal consumer: load scrape stream'' [err]), Some stored)
               | None \<Rightarrow>
                   (case ha_delete ans of
                      Some err \<Rightarrow> (Fail (Errorf ''heal consumer: delete stale consumer'' [err]), Some stored)
                    | None \<Rightarrow>
                        (case ha_create ans of
                           Some err \<Rightarrow> (Fail (Errorf ''heal consumer: recreate consumer'' [err]), None)
                         | None \<Rightarrow> (Ok (), Some (wanted_consumer c t))))))"

section \<open>The schedule is safe\<close>

lemma keep_max:
  fixes f :: "'a \<Rightarrow> int"
  defines "keep \<equiv> foldl (\<lambda>m x. if m < f x then f x else m)"
  shows "m0 \<le> keep m0 xs \<and> (\<forall>x\<in>set xs. f x \<le> keep m0 xs)"
proof (induction xs arbitrary: m0)
  case (Cons x xs)
  let ?m = "if m0 < f x then f x else m0"
  have "keep m0 (x # xs) = keep ?m xs" by (simp add: keep_def)
  moreover have "m0 \<le> ?m" "f x \<le> ?m" by simp_all
  ultimately show ?case using Cons.IH [of ?m] by (metis order_trans set_ConsD)
qed (simp add: keep_def)

lemma fetch_timeout_le: "s \<in> set (provider_slots c) \<Longrightarrow> fetch_timeout c (sl_provider s) \<le> max_fetch_timeout c"
  using keep_max [of "30 * second" "\<lambda>s. fetch_timeout c (sl_provider s)" "provider_slots c"]
  by (simp add: max_fetch_timeout_def Let_def)

lemma min_safe_bounds:
  "2 * max_fetch_timeout c \<le> min_safe_ack_wait c backoff" "120 * second \<le> min_safe_ack_wait c backoff"
  "d \<in> set backoff \<Longrightarrow> d \<le> min_safe_ack_wait c backoff"
  using keep_max [of "max (2 * max_fetch_timeout c) (120 * second)" "\<lambda>d. d" backoff]
  by (auto simp: min_safe_ack_wait_def)

definition tuning_safe :: "worker_config \<Rightarrow> tuning \<Rightarrow> bool" where
  "tuning_safe c t \<longleftrightarrow> min_safe_ack_wait c (tn_backoff t) \<le> tn_ack_wait t \<and> 0 < tn_progress t
     \<and> 2 * tn_progress t \<le> tn_ack_wait t \<and> 0 < tn_max_deliver t \<and> tn_backoff t \<noteq> []"

lemma clamp_progress:
  fixes ack :: int
  assumes "120 * second \<le> ack" and "0 < p"
  shows "0 < (if max (ack div 2) second < p then max (ack div 2) second else p)
    \<and> 2 * (if max (ack div 2) second < p then max (ack div 2) second else p) \<le> ack"
proof -
  have "second \<le> ack div 2" "0 < second" using assms(1) by (simp_all add: second_def)
  moreover have "2 * (ack div 2) \<le> ack" by presburger
  ultimately show ?thesis using assms(2) by (cases "ack div 2 < p") (simp_all add: max_absorb1, linarith?)
qed

lemma resolve_safe: "tuning_safe c (resolve_tuning c)"
proof -
  define backoff where "backoff = (if wc_backoff c = [] then [10 * second, 30 * second, 120 * second] else wc_backoff c)"
  define ack where "ack = (if wc_ack_wait c < min_safe_ack_wait c backoff then min_safe_ack_wait c backoff else wc_ack_wait c)"
  define p where "p = (if wc_progress c \<le> 0 then 20 * second else wc_progress c)"
  define q where "q = (if max (ack div 2) second < p then max (ack div 2) second else p)"
  have floor: "min_safe_ack_wait c backoff \<le> ack" "0 < p" by (simp_all add: ack_def p_def second_def)
  then have "0 < q \<and> 2 * q \<le> ack"
    unfolding q_def by (intro clamp_progress) (use min_safe_bounds(2) [of c backoff] in linarith)+
  moreover have "resolve_tuning c = \<lparr>tn_max_deliver = (if wc_max_deliver c \<le> 0 then 3 else wc_max_deliver c),
      tn_backoff = backoff, tn_ack_wait = ack, tn_progress = q\<rparr>"
    unfolding resolve_tuning_def Let_def q_def ack_def p_def backoff_def by (rule refl)
  moreover have "backoff \<noteq> []" by (simp add: backoff_def)
  ultimately show ?thesis using floor by (simp add: tuning_safe_def)
qed

lemma align_safe: "tuning_safe c t \<Longrightarrow> tuning_safe c (align_from_consumer_info c info t)"
proof (cases info)
  case (Some i)
  assume t: "tuning_safe c t"
  define ack where "ack = (if min_safe_ack_wait c (tn_backoff t) \<le> ci_ack_wait i then ci_ack_wait i else tn_ack_wait t)"
  have a: "min_safe_ack_wait c (tn_backoff t) \<le> ack" using t by (simp add: ack_def tuning_safe_def)
  with t show ?thesis
    using clamp_progress [of ack "tn_progress t"] min_safe_bounds(2) [of c "tn_backoff t"]
    by (auto simp: Some align_from_consumer_info_def tuning_safe_def Let_def ack_def simp del: max_less_iff_conj split: if_splits)
qed (simp add: align_from_consumer_info_def)

lemma retry_delay_in: "backoff \<noteq> [] \<Longrightarrow> retry_delay backoff meta \<in> set backoff"
  by (auto simp: retry_delay_def Let_def split: option.split)

definition slots_fine :: "provider_slot list \<Rightarrow> bool" where
  "slots_fine slots \<longleftrightarrow> (\<forall>s\<in>set slots. 1 \<le> sl_concurrency s \<and> (sl_provider s = ProviderApify \<longrightarrow> sl_concurrency s = 1))"

lemma append_slot_fine:
  "slots_fine slots \<Longrightarrow> p = ProviderApify \<longrightarrow> n = 1 \<Longrightarrow> slots_fine (append_provider_slot slots b p n)"
  by (auto simp: slots_fine_def append_provider_slot_def normalize_concurrency_def)

lemma slots_positive: "slots_fine (provider_slots c)"
  unfolding provider_slots_def Let_def by (intro append_slot_fine) (simp_all add: slots_fine_def)


definition sample_worker_config :: worker_config where
  "sample_worker_config =
     \<lparr>wc_quota = \<lparr>qc_local = False, qc_local_browserless = False, qc_local_endpoint = [], qc_browserless_token = [],
        qc_browserless_endpoint = [], qc_browserbase_key = [], qc_ant_token = [], qc_ant_endpoint = [], qc_api_token = [],
        qc_api_endpoint = [], qc_apify_token = ''t'', qc_apify_endpoint = ''e'', qc_apify_actor = ''a'', qc_apify_memory = 0\<rparr>,
      wc_mobile_ssr = 0, wc_local = 0, wc_browserless = 0, wc_max_concurrency = 0, wc_scraper_api = 0,
      wc_local_browserless = 0, wc_browserbase = 0, wc_request_timeout = 0, wc_max_deliver = 0, wc_backoff = [],
      wc_ack_wait = 10 * second, wc_progress = 0\<rparr>"


end
