(* ===== verification/Worker_Rows.thy ===== *)
theory Worker_Rows
  imports Worker_Message_Properties
begin

text \<open>
  The type of a job row: its status is one of the four the tables know, its attempts are no negative
  number, and a row that is processed has a start, a finished row an end. Every operation of the
  worker keeps the rows of both tables in it, whatever fails on the way.
\<close>

definition row_typed :: "('a scrape_row_scheme) \<Rightarrow> bool" where
  "row_typed r \<longleftrightarrow> sr_status r \<in> {st_queued, st_processing, st_succeeded, st_failed} \<and> 0 \<le> sr_attempts r
     \<and> (sr_status r = st_processing \<longrightarrow> sr_started r \<noteq> None)
     \<and> (sr_status r \<in> {st_succeeded, st_failed} \<longrightarrow> sr_finished r \<noteq> None)"

definition rows_typed :: "'s jobs_world \<Rightarrow> bool" where
  "rows_typed w \<longleftrightarrow> (\<forall>r\<in>set (jw_rows w). row_typed r)
     \<and> (case jw_pb w of None \<Rightarrow> True | Some pb \<Rightarrow> \<forall>r\<in>set (pb_jobs pb). row_typed r)"

definition same_rows :: "'s jobs_world \<Rightarrow> 's jobs_world \<Rightarrow> bool" where
  "same_rows w w' \<longleftrightarrow> jw_rows w' = jw_rows w \<and> map_option pb_jobs (jw_pb w') = map_option pb_jobs (jw_pb w)"

named_theorems same_rules "operations that leave the rows alone"

lemma same_typed: "same_rows w w' \<Longrightarrow> rows_typed w \<Longrightarrow> rows_typed w'"
  by (auto simp: same_rows_def rows_typed_def split: option.splits)

lemma same_refl [simp]: "same_rows w w"
  by (simp add: same_rows_def)

lemma same_trans: "same_rows w w1 \<Longrightarrow> same_rows w1 w2 \<Longrightarrow> same_rows w w2"
  by (simp add: same_rows_def)

lemma same_fields [simp]:
  "same_rows w (w'\<lparr>jw_store := s\<rparr>) = same_rows w w'" "same_rows w (w'\<lparr>jw_reads := n\<rparr>) = same_rows w w'"
  "same_rows w (w'\<lparr>jw_models := m\<rparr>) = same_rows w w'" "same_rows w (w'\<lparr>jw_faults := fs\<rparr>) = same_rows w w'"
  "same_rows w (w'\<lparr>jw_cache := c\<rparr>) = same_rows w w'" "same_rows w (w'\<lparr>jw_cursor := k\<rparr>) = same_rows w w'"
  "same_rows w (w'\<lparr>jw_purged := t\<rparr>) = same_rows w w'"
  by (simp_all add: same_rows_def)

lemma typed_fields [simp]:
  "rows_typed (w\<lparr>jw_store := s\<rparr>) = rows_typed w" "rows_typed (w\<lparr>jw_reads := n\<rparr>) = rows_typed w"
  "rows_typed (w\<lparr>jw_models := m\<rparr>) = rows_typed w" "rows_typed (w\<lparr>jw_faults := fs\<rparr>) = rows_typed w"
  "rows_typed (w\<lparr>jw_cache := c\<rparr>) = rows_typed w" "rows_typed (w\<lparr>jw_cursor := k\<rparr>) = rows_typed w"
  "rows_typed (w\<lparr>jw_purged := t\<rparr>) = rows_typed w"
  by (simp_all add: rows_typed_def)

lemma same_turn [same_rules]: "same_rows w (snd (turn w))"
  by (simp add: turn_def split: list.split)

lemma same_result: "same_rows w (snd x) \<Longrightarrow> x = (r, w') \<Longrightarrow> same_rows w w'"
  by simp

lemmas turn_rows = same_turn [THEN same_result]

lemma same_clock [same_rules]: "same_rows w (snd (next_stamp env w))" "same_rows w (snd (clock_now env w))"
  by (simp_all add: clock_now_def next_stamp_def)

lemma same_project [same_rules]: "same_rows w (project_models env es w)"
  using same_turn [of w] by (simp add: project_models_def Let_def case_prod_beta)

lemma same_record_job [same_rules]: "same_rows w (snd (record_job_event env rid i rec w))"
  "same_rows w (record_job_event_warn env rid i rec w)"
proof -
  show "same_rows w (snd (record_job_event env rid i rec w))"
    by (simp add: record_job_event_def next_stamp_def Let_def split: prod.split sum.split)
  then show "same_rows w (record_job_event_warn env rid i rec w)" by (simp add: record_job_event_warn_def)
qed

lemma same_fetch_status [same_rules]: "same_rows w (record_artist_fetch_status_warn env i st rid w)"
  by (auto simp: record_artist_fetch_status_warn_def clock_now_def next_stamp_def Let_def case_prod_beta
      intro: same_trans [OF _ same_project] split: prod.split sum.split)

lemma same_pb_query [same_rules]: "same_rows w (snd (pb_query q none w))"
  by (auto simp: pb_query_def dest: turn_rows split: prod.split option.split)

lemma same_find [same_rules]: "same_rows w (snd (find_pb_job rid w))"
  by (auto simp: find_pb_job_def dest: turn_rows split: prod.split option.split)

lemma same_save_artist [same_rules]: "same_rows w (snd (save_pb_artist a w))"
  by (auto simp: save_pb_artist_def same_rows_def option.map_comp comp_def dest!: turn_rows split: prod.split option.split)

lemma same_mark_succeeded [same_rules]: "same_rows w (mark_request_succeeded env rid w)"
  by (simp add: mark_request_succeeded_def clock_now_def next_stamp_def Let_def)

lemmas find_rows = same_find [THEN same_result]
lemmas query_rows = same_pb_query [THEN same_result]

lemma same_row_verdict [same_rules]: "same_rows w (snd (row_verdict env rid t0 w))"
  by (auto simp: row_verdict_def dest: find_rows intro: same_trans [OF _ same_mark_succeeded]
      split: prod.split sum.split option.split)

lemma same_verdict [same_rules]: "same_rows w (snd (request_stream_verdict env rid w))"
proof -
  have r: "same_rows w (snd (row_verdict env x t0 w'))" if "same_rows w w'" for x t0 w'
    using same_trans [OF that same_row_verdict] .
  have m: "same_rows w (mark_request_succeeded env x w')" if "same_rows w w'" for x w'
    using same_trans [OF that same_mark_succeeded] .
  show ?thesis
    by (auto simp: request_stream_verdict_def clock_now_def next_stamp_def Let_def intro!: r m split: prod.split sum.split)
qed

lemma same_done [same_rules]: "same_rows w (snd (is_request_already_succeeded env rid w))"
  using same_verdict [of w env rid] by (simp add: is_request_already_succeeded_def Let_def case_prod_beta)

lemmas done_rows = same_done [THEN same_result]
lemmas verdict_rows = same_verdict [THEN same_result]

section \<open>Writing rows\<close>

lemma typed_update_rows:
  assumes "rows_typed w" and "\<And>r. row_typed r \<Longrightarrow> P r \<Longrightarrow> row_typed (f r)"
  shows "rows_typed (snd (update_rows P f w))"
proof -
  obtain flt w1 where t: "turn w = (flt, w1)" by (rule prod.exhaust)
  have "rows_typed w1" using same_typed [OF turn_rows [OF t] assms(1)] .
  with assms(2) show ?thesis by (auto simp: update_rows_def t rows_typed_def split: option.split)
qed

lemma typed_save_job:
  assumes "rows_typed w" and "row_typed job"
  shows "rows_typed (snd (save_pb_job job w))"
proof -
  obtain flt w1 where t: "turn w = (flt, w1)" by (rule prod.exhaust)
  have "rows_typed w1" using same_typed [OF turn_rows [OF t] assms(1)] .
  with assms(2) show ?thesis by (auto simp: save_pb_job_def t rows_typed_def split: option.splits)
qed

lemma find_pb_typed:
  "find_pb_job rid w = (Ok (Some job), w1) \<Longrightarrow> rows_typed w \<Longrightarrow> row_typed job"
  by (auto simp: find_pb_job_def rows_typed_def find_Some_iff dest: nth_mem split: option.splits prod.splits if_splits)

lemma typed_clock [simp]: "rows_typed (snd (clock_now env w)) = rows_typed w"
  by (simp add: clock_now_def next_stamp_def)

lemma row_typed_ends:
  "row_typed r \<Longrightarrow> row_typed (r\<lparr>sr_status := st_processing, sr_attempts := sr_attempts r + 1, sr_started := Some t, sr_error := e\<rparr>)"
  "row_typed r \<Longrightarrow> st \<in> {st_succeeded, st_failed} \<Longrightarrow> row_typed (r\<lparr>sr_status := st, sr_finished := Some t, sr_error := e\<rparr>)"
  by (auto simp: row_typed_def job_statuses)

lemma typed_processing: "rows_typed w \<Longrightarrow> rows_typed (set_scrape_job_processing env rid w)"
proof (cases "rid = []")
  case False
  assume w: "rows_typed w"
  let ?now = "stamp_millis (fst (clock_now env w))"
  let ?w2 = "snd (update_rows (\<lambda>r. sr_request r = rid)
    (\<lambda>r. r\<lparr>sr_status := st_processing, sr_attempts := sr_attempts r + 1, sr_started := Some ?now, sr_error := []\<rparr>) (snd (clock_now env w)))"
  have t2: "rows_typed ?w2" by (rule typed_update_rows) (simp_all add: w row_typed_ends)
  obtain q w3 where f: "find_pb_job rid ?w2 = (q, w3)" by (rule prod.exhaust)
  have t3: "rows_typed w3" using same_typed [OF find_rows [OF f] t2] .
  show ?thesis
  proof (cases "\<exists>job. q = Ok (Some job)")
    case True
    then obtain job where q: "q = Ok (Some job)" by blast
    with find_pb_typed [of rid ?w2 job w3] f t2 have "row_typed job" by simp
    then have "row_typed (job\<lparr>sr_status := st_processing, sr_attempts := sr_attempts job + 1, sr_started := Some t, sr_error := []\<rparr>)" for t
      by (rule row_typed_ends)
    with t3 show ?thesis
      using False f q by (simp add: set_scrape_job_processing_def Let_def case_prod_beta typed_save_job)
  next
    case no: False
    with t3 f False show ?thesis
      by (auto simp: set_scrape_job_processing_def Let_def case_prod_beta split: sum.splits option.splits)
  qed
qed (simp add: set_scrape_job_processing_def)

lemma typed_finish:
  assumes "rows_typed w" and "status \<in> {st_succeeded, st_failed}"
  shows "rows_typed (snd (finish_scrape_job env rid status err w))"
proof (cases "rid = []")
  case False
  let ?now = "stamp_millis (fst (clock_now env w))"
  let ?w2 = "snd (update_rows (\<lambda>r. sr_request r = rid)
    (\<lambda>r. r\<lparr>sr_status := status, sr_finished := Some ?now, sr_error := err\<rparr>) (snd (clock_now env w)))"
  have t2: "rows_typed ?w2" by (rule typed_update_rows) (use assms row_typed_ends(2) in auto)
  obtain q w3 where f: "find_pb_job rid ?w2 = (q, w3)" by (rule prod.exhaust)
  have t3: "rows_typed w3" using same_typed [OF find_rows [OF f] t2] .
  show ?thesis
  proof (cases "\<exists>job. q = Ok (Some job)")
    case True
    then obtain job where q: "q = Ok (Some job)" by blast
    with find_pb_typed [of rid ?w2 job w3] f t2 have "row_typed job" by simp
    then have "row_typed (job\<lparr>sr_status := status, sr_finished := Some t, sr_error := err\<rparr>)" for t
      using assms(2) by (rule row_typed_ends)
    then have "rows_typed (snd (save_pb_job (job\<lparr>sr_status := status, sr_finished := Some t, sr_error := err\<rparr>) (snd (clock_now env w3))))" for t
      using t3 by (simp add: typed_save_job)
    then show ?thesis
      using False f q by (simp add: finish_scrape_job_def Let_def case_prod_beta split: sum.split)
  next
    case no: False
    with t3 f False show ?thesis
      by (auto simp: finish_scrape_job_def Let_def case_prod_beta split: sum.splits option.splits)
  qed
qed (simp add: finish_scrape_job_def assms)

section \<open>The sweeps\<close>

lemma typed_row_updates:
  assumes "rows_typed w"
  shows "rows_typed (converge_stale_row env rid w)" and "rows_typed (mark_stale_row_failed env rid cutoff w)"
    and "rows_typed (snd (mark_orphaned_row_failed env rid cutoff w))"
proof -
  have u: "rows_typed (snd (update_rows P (\<lambda>r. r\<lparr>sr_status := st, sr_finished := Some t, sr_error := e\<rparr>) (snd (clock_now env w))))"
    if "st \<in> {st_succeeded, st_failed}" for P st t e
    by (rule typed_update_rows) (use assms that row_typed_ends(2) in auto)
  show "rows_typed (converge_stale_row env rid w)"
    using assms u by (simp add: converge_stale_row_def Let_def case_prod_beta)
  show "rows_typed (mark_stale_row_failed env rid cutoff w)"
    using assms u by (simp add: mark_stale_row_failed_def Let_def case_prod_beta)
  show "rows_typed (snd (mark_orphaned_row_failed env rid cutoff w))"
    using assms u [of st_failed] unfolding mark_orphaned_row_failed_def Let_def case_prod_beta
    by (auto split: sum.split prod.split)
qed

lemma typed_stale_loop: "rows_typed w \<Longrightarrow> rows_typed (stale_loop env cutoff jobs w)"
proof (induction env cutoff jobs w rule: stale_loop.induct)
  case (2 env cutoff rid i jobs w)
  obtain fin w1 where d: "is_request_already_succeeded env rid w = (fin, w1)" by (rule prod.exhaust)
  obtain r w2 where e: "record_job_event env rid i (fail_with ''stale_timeout'' rid) w1 = (r, w2)" by (rule prod.exhaust)
  obtain fin' w3 where d': "is_request_already_succeeded env rid w2 = (fin', w3)" by (rule prod.exhaust)
  have t1: "rows_typed w1" using same_typed [OF done_rows [OF d] 2(4)] .
  have t2: "rows_typed w2" using same_typed [OF same_result [OF same_record_job(1) e] t1] .
  have t3: "rows_typed w3" using same_typed [OF done_rows [OF d'] t2] .
  have t4: "rows_typed (record_artist_fetch_status_warn env i ''failed'' rid (mark_stale_row_failed env rid cutoff w2))"
    using same_typed [OF same_fetch_status typed_row_updates(2) [OF t2]] .
  show ?case
    using 2 t1 t2 t3 t4 d e d' typed_row_updates(1) [OF t1] typed_row_updates(1) [OF t3]
    by (cases r) (simp_all add: Let_def)
qed simp

lemma typed_stale_sqlite: "rows_typed w \<Longrightarrow> rows_typed (mark_stale_jobs_sqlite env cutoff w)"
  by (auto simp: mark_stale_jobs_sqlite_def split: prod.split option.split intro!: typed_stale_loop
      dest: turn_rows intro: same_typed)

text \<open>A transaction over PocketBase puts its tables back or keeps what it did.\<close>

lemma typed_tx:
  assumes "rows_typed w" and "rows_typed (snd (f w))"
  shows "rows_typed (snd (pb_tx f w))"
  using assms by (auto simp: pb_tx_def rows_typed_def split: prod.split sum.split)

lemma same_artist_failed [same_rules]: "same_rows w (snd (mark_stale_job_artist_failed env i w))"
proof -
  have sv: "same_rows w (snd (save_pb_artist a w1))" if "same_rows w w1" for a w1
    using same_trans [OF that same_save_artist] .
  have sv': "same_rows w w2" if "save_pb_artist a w1 = (r, w2)" "same_rows w w1" for a w1 r w2
    using sv [OF that(2)] that(1) by (metis snd_conv)
  show ?thesis
    by (auto simp: mark_stale_job_artist_failed_def dest: query_rows intro: sv'
        split: prod.split sum.split option.split)
qed

lemma queried_job_typed:
  assumes "fst (pb_query (\<lambda>pb. find P (pb_jobs pb)) None w) = Ok (Some job)" and "rows_typed w"
  shows "row_typed job"
proof -
  obtain flt w1 where t: "turn w = (flt, w1)" by (rule prod.exhaust)
  have "rows_typed w1" using same_typed [OF turn_rows [OF t] assms(2)] .
  with assms(1) t show ?thesis
    by (auto simp: pb_query_def rows_typed_def find_Some_iff dest: nth_mem split: option.splits)
qed

lemma typed_failed_save:
  assumes "rows_typed w" and "row_typed job"
  shows "rows_typed (snd (save_pb_job (job\<lparr>sr_status := st_failed, sr_finished := Some t, sr_error := e\<rparr>) w))"
  by (rule typed_save_job [OF assms(1) row_typed_ends(2) [OF assms(2)]]) simp

lemma typed_results:
  "rows_typed w \<Longrightarrow> rows_typed (snd (pb_query q none w))"
  "rows_typed w \<Longrightarrow> rows_typed (snd (find_pb_job rid w))"
  "rows_typed w \<Longrightarrow> rows_typed (snd (mark_stale_job_artist_failed env i w))"
  "rows_typed w \<Longrightarrow> rows_typed (snd (save_pb_artist a w))"
  "rows_typed w \<Longrightarrow> rows_typed (snd (is_request_already_succeeded env rid w))"
  "rows_typed w \<Longrightarrow> rows_typed (snd (request_stream_verdict env rid w))"
  "rows_typed w \<Longrightarrow> rows_typed (record_job_event_warn env rid i rec w)"
  "rows_typed w \<Longrightarrow> rows_typed (record_artist_fetch_status_warn env i st rid w)"
  "rows_typed w \<Longrightarrow> rows_typed (mark_request_succeeded env rid w)"
  "rows_typed w \<Longrightarrow> rows_typed (project_models env es w)"
  "rows_typed w \<Longrightarrow> rows_typed (snd (turn w))"
  by (rule same_typed, rule same_rules, assumption)+

lemma typed_single_stale:
  assumes "rows_typed w"
  shows "rows_typed (snd (mark_single_stale_job env cutoff job w))"
  unfolding mark_single_stale_job_def
  by (rule typed_tx [OF assms])
    (use assms in \<open>auto simp: Let_def case_prod_beta split: sum.split option.split bool.split
      intro!: typed_results typed_failed_save intro: queried_job_typed\<close>)

lemma typed_stale_pb_loop: "rows_typed w \<Longrightarrow> rows_typed (stale_pb_loop env cutoff jobs w)"
proof (induction jobs arbitrary: w)
  case (Cons job jobs)
  let ?w1 = "snd (is_request_already_succeeded env (sr_request job) w)"
  have t1: "rows_typed ?w1" using Cons.prems by (rule typed_results)
  then have t2: "rows_typed (snd (mark_single_stale_job env cutoff job ?w1))" by (rule typed_single_stale)
  then have t3: "rows_typed (record_artist_fetch_status_warn env (sr_artist job) ''failed'' (sr_request job) (snd (mark_single_stale_job env cutoff job ?w1)))"
    by (rule typed_results)
  show ?case
    using Cons.prems Cons.IH [OF t1] Cons.IH [OF t2] Cons.IH [OF t3]
    by (auto simp: Let_def case_prod_beta split: sum.split bool.split)
qed simp

lemma typed_artist_failed_sqlite: "rows_typed w \<Longrightarrow> rows_typed (snd (mark_artist_failed_sqlite i w))"
  by (auto simp: mark_artist_failed_sqlite_def case_prod_beta split: option.split intro!: typed_results)

lemma typed_orphaned_pb:
  assumes "rows_typed w"
  shows "rows_typed (snd (mark_orphaned_job_failed_pb env rid cutoff w))"
proof -
  have if_cases_typed: "rows_typed (if c then x else y)" if "rows_typed x" "rows_typed y" for c and x y :: "'a jobs_world"
    using that by simp
  have fold: "snd (case x of (Inl err, w') \<Rightarrow> (r0, w') | (Inr r, w') \<Rightarrow> (r, w')) = snd x" for x and r0 :: "bool \<times> bool"
    by (simp split: prod.split sum.split)
  show ?thesis
    unfolding mark_orphaned_job_failed_pb_def fold if_distrib [of snd]
    by (rule if_cases_typed, simp add: assms, rule typed_tx [OF assms])
      (use assms in \<open>auto simp: Let_def case_prod_beta split: sum.split option.split bool.split
        intro!: typed_results typed_failed_save intro: queried_job_typed\<close>)
qed

lemma typed_check_orphan: "rows_typed w \<Longrightarrow> rows_typed (check_orphan env cutoff job w)"
proof -
  have r: "rows_typed (repair_orphan env cutoff job v)" if "rows_typed v" for v
    using that by (auto simp: repair_orphan_def Let_def case_prod_beta
        intro!: typed_results typed_orphaned_pb typed_artist_failed_sqlite typed_row_updates)
  have e: "rows_typed (snd (record_job_event env x i rec v))" if "rows_typed v" for x i rec v
    using same_typed [OF same_record_job(1) that] .
  assume "rows_typed w"
  then show ?thesis
    using r e by (simp add: check_orphan_def Let_def case_prod_beta split: sum.split)
qed

lemma typed_orphan_loop: "rows_typed w \<Longrightarrow> rows_typed (orphan_loop env cutoff jobs w)"
  by (induction jobs arbitrary: w) (simp_all add: typed_check_orphan)

lemma typed_orphaned_queued: "rows_typed w \<Longrightarrow> rows_typed (mark_orphaned_queued_jobs env cutoff w)"
  using typed_results(11) [of w]
  by (simp add: mark_orphaned_queued_jobs_def case_prod_beta Let_def typed_orphan_loop split: option.split)

lemma typed_mark_stale: "rows_typed w \<Longrightarrow> rows_typed (mark_stale_jobs env w)"
  by (simp add: mark_stale_jobs_def Let_def case_prod_beta typed_stale_sqlite typed_orphaned_queued
      typed_stale_pb_loop typed_results split: sum.split)

section \<open>Reconciled and purged rows\<close>

lemma typed_recovered:
  "row_typed r \<Longrightarrow> row_typed (r\<lparr>sr_status := st_succeeded, sr_finished := Some t, sr_error := e\<rparr>)"
  by (rule row_typed_ends(2)) simp_all

lemma typed_flip: "rows_typed w \<Longrightarrow> rows_typed (snd (flip_failed env now note jobs changed w))"
proof (induction jobs arbitrary: changed w)
  case (Cons job jobs)
  let ?w1 = "snd (update_rows (\<lambda>r. sr_request r = fst job \<and> sr_status r = st_failed)
    (\<lambda>r. r\<lparr>sr_status := st_succeeded, sr_finished := Some now, sr_error := note\<rparr>) w)"
  have "rows_typed ?w1" by (rule typed_update_rows [OF Cons.prems]) (rule typed_recovered)
  with Cons show ?case by (simp add: case_prod_beta split: sum.split)
qed simp

lemma typed_reconcile_sqlite: "rows_typed w \<Longrightarrow> rows_typed (reconcile_failed_jobs_sqlite env jobs note w)"
proof -
  assume w: "rows_typed w"
  have each: "rows_typed (foldl (\<lambda>w (rid, i). record_job_event_warn env' rid i (recover_with rid) w) v xs)"
    if "rows_typed v" for env' v xs
    using that by (induction xs arbitrary: v) (simp_all add: case_prod_beta typed_results)
  have flip: "rows_typed (snd (flip_failed env now note jobs [] (snd (clock_now env w))))" for now
    using w by (simp add: typed_flip)
  have "rows_typed (v\<lparr>jw_rows := jw_rows w\<rparr>)" if "rows_typed v" for v :: "'a jobs_world"
    using w that by (auto simp: rows_typed_def)
  then show ?thesis
    using w by (simp add: reconcile_failed_jobs_sqlite_def Let_def case_prod_beta each flip split: sum.split)
qed

lemma typed_reconcile:
  "rows_typed w \<Longrightarrow> \<forall>r\<in>set rs. row_typed r \<Longrightarrow> rows_typed (reconcile_failed_jobs env rs note w)"
  by (induction rs arbitrary: w)
    (simp_all add: Let_def case_prod_beta typed_save_job typed_recovered typed_results)

lemma queried_rows_typed:
  assumes "fst (pb_query (\<lambda>pb. take n (filter P (pb_jobs pb))) [] w) = Ok rs" and "rows_typed w"
  shows "\<forall>r\<in>set rs. row_typed r"
proof -
  obtain flt w1 where t: "turn w = (flt, w1)" by (rule prod.exhaust)
  have "rows_typed w1" using same_typed [OF turn_rows [OF t] assms(2)] .
  with assms(1) t show ?thesis
    by (auto simp: pb_query_def rows_typed_def dest!: in_set_takeD split: option.splits)
qed

lemma typed_clear_failed: "rows_typed w \<Longrightarrow> rows_typed (clear_failed_jobs_for_artist env i rid w)"
  using typed_results(11) [of w]
  by (auto simp: clear_failed_jobs_for_artist_def Let_def case_prod_beta typed_reconcile_sqlite typed_results
      intro!: typed_reconcile elim!: queried_rows_typed split: option.split sum.split)

lemma typed_purge: "rows_typed w \<Longrightarrow> rows_typed (snd (purge_old_succeeded_jobs env w))"
proof -
  have keep: "rows_typed (v\<lparr>jw_rows := filter P (jw_rows v)\<rparr>)" if "rows_typed v" for v :: "'b jobs_world" and P
    using that by (simp add: rows_typed_def)
  have keep_pb: "rows_typed (v\<lparr>jw_pb := Some (pb\<lparr>pb_jobs := filter P (pb_jobs pb)\<rparr>)\<rparr>)"
    if "rows_typed v" "jw_pb v = Some pb" for v :: "'b jobs_world" and P pb
    using that by (simp add: rows_typed_def)
  assume w: "rows_typed w"
  have t1: "rows_typed (snd (turn (snd (clock_now env w))))"
    by (rule typed_results(11)) (simp add: w)
  have t2: "rows_typed (snd (turn ((snd (turn (snd (clock_now env w))))\<lparr>jw_rows := filter P (jw_rows (snd (turn (snd (clock_now env w)))))\<rparr>)))" for P
    by (rule typed_results(11) [OF keep [OF t1]])
  have pb_kept: "jw_pb (snd (turn v)) = jw_pb v" for v :: "'a jobs_world" by (simp add: turn_def split: list.split)
  show ?thesis
    using w t1 t2 by (simp add: purge_old_succeeded_jobs_def Let_def case_prod_beta keep keep_pb pb_kept split: option.split)
qed

lemma typed_sweep_tick: "rows_typed w \<Longrightarrow> rows_typed (sweep_tick env w)"
  using typed_purge [of "snd (clock_now env (mark_stale_jobs env w))" env]
  by (simp add: sweep_tick_def maybe_purge_old_jobs_def Let_def case_prod_beta typed_mark_stale split: sum.split)


section \<open>Handling a message\<close>

lemma same_load_artist [same_rules]: "same_rows w (snd (load_artist_at env i w))"
  by (simp add: load_artist_at_def clock_now_def next_stamp_def Let_def case_prod_beta)

lemma same_save_and_project [same_rules]: "same_rows w (snd (save_and_project env now agg w))"
  by (auto simp: save_and_project_def Let_def case_prod_beta intro: same_trans [OF _ same_project] split: sum.split)

lemma typed_artist [simp]: "rows_typed (snd (next_stamp env w)) = rows_typed w"
  by (simp add: next_stamp_def)

lemma typed_artist_results:
  "rows_typed w \<Longrightarrow> rows_typed (snd (load_artist_at env i w))"
  "rows_typed w \<Longrightarrow> rows_typed (snd (save_and_project env now agg w))"
  by (rule same_typed, rule same_rules, assumption)+

lemma typed_status_event: "rows_typed w \<Longrightarrow> rows_typed (update_status_event env i status rid w)"
  by (simp add: update_status_event_def case_prod_beta Let_def typed_artist_results split: sum.split)

lemma typed_artist_status: "rows_typed w \<Longrightarrow> rows_typed (snd (update_artist_status env i status rid w))"
  by (simp add: update_artist_status_def case_prod_beta Let_def typed_status_event typed_results
      split: sum.split option.split)

lemma typed_listeners_pb: "rows_typed w \<Longrightarrow> rows_typed (snd (update_listeners_pb env i listeners w))"
  by (simp add: update_listeners_pb_def case_prod_beta Let_def typed_results split: sum.split option.split)

lemma typed_listener_aggregate: "rows_typed w \<Longrightarrow> rows_typed (snd (listener_aggregate env i seed w))"
  by (simp add: listener_aggregate_def case_prod_beta Let_def typed_artist_results split: sum.split option.split)

lemma typed_artist_listeners:
  assumes "rows_typed w"
  shows "rows_typed (snd (update_artist_listeners env i listeners provider duration rid w))"
proof -
  have t: "rows_typed (snd (listener_aggregate env i seed (snd (update_listeners_pb env i listeners w))))" for seed
    using assms by (simp add: typed_listener_aggregate typed_listeners_pb)
  show ?thesis
    using assms by (simp add: update_artist_listeners_def case_prod_beta Let_def typed_listeners_pb t typed_artist_results
        split: sum.split option.split bool.split)
qed

text \<open>The rest of a handler touches the metrics, the message and the fetch log only.\<close>

lemma jobs_kept [simp]:
  "ms_jobs (count_on label f st) = ms_jobs st" "ms_jobs (snd (perform act st)) = ms_jobs st"
  "ms_jobs (queue_rank_refresh i st) = ms_jobs st"
  by (simp_all add: count_on_def perform_def queue_rank_refresh_def split: list.split)

lemmas counts_def = record_attempt_def count_succeeded_def count_dedup_skipped_def count_retryable_def
  count_rate_limited_def count_quota_exhausted_def count_dlq_def count_ack_error_def count_terminal_failure_def

lemma counts_keep [simp]:
  "ms_jobs (record_attempt label n st) = ms_jobs st" "ms_jobs (count_succeeded label d st) = ms_jobs st"
  "ms_jobs (count_dedup_skipped label st) = ms_jobs st" "ms_jobs (count_retryable label err st) = ms_jobs st"
  "ms_jobs (count_rate_limited label st) = ms_jobs st" "ms_jobs (count_quota_exhausted label st) = ms_jobs st"
  "ms_jobs (count_dlq label st) = ms_jobs st" "ms_jobs (count_ack_error label st) = ms_jobs st"
  "ms_jobs (count_terminal_failure label st) = ms_jobs st"
  by (simp_all add: counts_def)

lemma ack_keeps [simp]: "ms_jobs (snd (ack_attempts n st)) = ms_jobs st"
  by (induction n arbitrary: st) (simp_all add: case_prod_beta split: option.split)

lemma ack_or_count_keeps [simp]: "ms_jobs (snd (ack_or_count label st)) = ms_jobs st"
  by (simp add: ack_or_count_def ack_msg_def case_prod_beta split: option.split)

lemma preflight_keeps [simp]: "ms_jobs (snd (run_provider_preflight env p en st)) = ms_jobs st"
  by (simp add: run_provider_preflight_def check_local_provider_health_def check_apify_preflight_def
      case_prod_beta split: option.split)

lemma typed_job_finished: "rows_typed w \<Longrightarrow> rows_typed (set_scrape_job_finished env rid st_failed err w)"
  by (simp add: set_scrape_job_finished_def typed_finish)

lemma typed_fetch_listeners:
  "rows_typed (ms_jobs st) \<Longrightarrow> rows_typed (ms_jobs (snd (fetch_listeners env en p st)))"
  by (simp add: fetch_listeners_def case_prod_beta Let_def typed_results split: sum.split)

lemma typed_persist_listeners:
  assumes "rows_typed (ms_jobs st)"
  shows "rows_typed (ms_jobs (snd (persist_listeners env en listeners started st)))"
  using assms by (simp add: persist_listeners_def on_jobs_def case_prod_beta Let_def typed_artist_listeners
      typed_results typed_finish typed_clear_failed split: sum.split)

lemma typed_fetcher_unavailable: "rows_typed w \<Longrightarrow> rows_typed (snd (handle_fetcher_unavailable env en w))"
  by (simp add: handle_fetcher_unavailable_def case_prod_beta typed_artist_status typed_results
      typed_job_finished split: sum.split)

lemma typed_process_request:
  assumes "rows_typed (ms_jobs st)"
  shows "rows_typed (ms_jobs (snd (process_request env en p st)))"
proof -
  let ?e = "me_jobs env"
  obtain started w0 where c: "clock_now ?e (ms_jobs st) = (started, w0)" by (rule prod.exhaust)
  obtain fin w1 where d: "(if p = ProviderApify then is_request_already_succeeded ?e (req_id en) w0 else (False, w0)) = (fin, w1)"
    by (rule prod.exhaust)
  let ?w3 = "set_scrape_job_processing ?e (req_id en) (record_job_event_warn ?e (req_id en) (req_artist en) (start_with (req_id en)) w1)"
  obtain r w4 where u: "update_artist_status ?e (req_artist en) ''pending'' (req_id en) ?w3 = (r, w4)" by (rule prod.exhaust)
  obtain q st1 where f: "fetch_listeners env en p (st\<lparr>ms_jobs := w4\<rparr>) = (q, st1)" by (rule prod.exhaust)
  have t0: "rows_typed w0" using typed_clock [of ?e "ms_jobs st"] assms c by simp
  have t1: "rows_typed w1" using same_typed [OF done_rows t0] d t0 by (cases "p = ProviderApify") auto
  have t4: "rows_typed w4" using typed_artist_status [OF typed_processing [OF typed_results(7) [OF t1]]] u by (metis snd_conv)
  have t5: "rows_typed (ms_jobs st1)" using typed_fetch_listeners [of "st\<lparr>ms_jobs := w4\<rparr>" env en p] t4 f by simp
  have h: "rows_typed w5" if "handle_fetcher_unavailable ?e en w4 = (err, w5)" for err w5
    using typed_fetcher_unavailable [OF t4, of ?e en] that by simp
  have k: "rows_typed w5" if "is_request_already_succeeded ?e (req_id en) (ms_jobs st1) = (x, w5)" for x w5
    using same_typed [OF done_rows [OF that] t5] .
  have l: "rows_typed (ms_jobs (snd (persist_listeners env en n started (st1\<lparr>ms_jobs := w5\<rparr>))))"
    if "is_request_already_succeeded ?e (req_id en) (ms_jobs st1) = (x, w5)" for x w5 n
    using k [OF that] by (simp add: typed_persist_listeners)
  show ?thesis
    using t1 t4 t5 by (cases r; cases q) (auto simp: process_request_def Let_def c d u f k h l split: prod.split)
qed

lemma typed_dlq:
  assumes "rows_typed (ms_jobs st)"
  shows "rows_typed (ms_jobs (snd (handle_dlq env en err st)))"
proof -
  have "rows_typed (ms_jobs (snd (publish_scrape_dlq env en reason st)))" for reason
    using assms by (simp add: publish_scrape_dlq_def case_prod_beta Let_def split: option.split)
  then show ?thesis
    by (simp add: handle_dlq_def case_prod_beta Let_def typed_artist_status typed_results typed_job_finished
        split: sum.split option.split)
qed

lemma typed_process_error:
  "rows_typed (ms_jobs st) \<Longrightarrow> rows_typed (ms_jobs (snd (handle_process_error env en err st)))"
  by (simp add: handle_process_error_def handle_dedup_skip_def handle_terminal_failure_def handle_quota_exhausted_def
      handle_rate_limited_def handle_retryable_error_def case_prod_beta Let_def typed_dlq split: option.split)

lemma typed_handle_msg:
  assumes "rows_typed (ms_jobs st)"
  shows "rows_typed (ms_jobs (snd (handle_msg env en p st)))"
  using assms unfolding handle_msg_def Let_def case_prod_beta
  by (auto simp: handle_dedup_skip_def handle_orphaned_queued_skip_def typed_process_request typed_process_error
      typed_results split: sum.split option.split)


lemma typed_parse_dispatch:
  "rows_typed (ms_jobs st) \<Longrightarrow> rows_typed (ms_jobs (snd (parse_dispatch_request env subject data meta st)))"
  by (simp add: parse_dispatch_request_def publish_scrape_dlq_def case_prod_beta Let_def split: sum.split option.split)

lemma typed_dispatch:
  "rows_typed (ms_jobs st) \<Longrightarrow> rows_typed (ms_jobs (snd (dispatch_to_channel env outcome label subject data meta st)))"
  using typed_parse_dispatch [of st env subject data meta]
  by (simp add: dispatch_to_channel_def case_prod_beta split: option.split dispatch_outcome.split)

lemma reject_keeps [simp]: "ms_jobs (reject_queued_work queue st) = ms_jobs st"
  by (induction queue arbitrary: st) simp_all

lemma typed_rank_genres: "rows_typed w \<Longrightarrow> rows_typed (snd (rank_genres_for_artists env is genres w))"
  by (induction "is" arbitrary: genres w)
    (simp_all add: case_prod_beta typed_results split: option.split sum.split)

lemma typed_flush: "rows_typed (ms_jobs st) \<Longrightarrow> rows_typed (ms_jobs (snd (flush_rank_refresh env st)))"
  by (simp add: flush_rank_refresh_def Let_def case_prod_beta typed_rank_genres split: sum.split)

text \<open>
  What the goroutines of a worker do, as whole steps in any order: a dispatch callback, a slot that
  handles a message with any provider, the ticks of the sweeps and of the ranks, the rejection of the
  queue at shutdown.
\<close>

inductive worker_reaches :: "'s msg_env \<Rightarrow> 's msg_state \<Rightarrow> 's msg_state \<Rightarrow> bool"
  for env :: "'s msg_env" and st :: "'s msg_state" where
  worker_starts: "worker_reaches env st st"
| worker_dispatches: "worker_reaches env st st1 \<Longrightarrow>
     worker_reaches env st (snd (dispatch_to_channel env outcome label subject data meta st1))"
| worker_handles: "worker_reaches env st st1 \<Longrightarrow> worker_reaches env st (snd (handle_msg env en p st1))"
| worker_sweeps: "worker_reaches env st st1 \<Longrightarrow> worker_reaches env st (on_jobs (sweep_tick (me_jobs env)) st1)"
| worker_flushes: "worker_reaches env st st1 \<Longrightarrow> worker_reaches env st (snd (flush_rank_refresh env st1))"
| worker_rejects: "worker_reaches env st st1 \<Longrightarrow> worker_reaches env st (reject_queued_work queue st1)"

text \<open>
  C10. Rows stay typed: whatever order a worker dispatches, handles, sweeps, ranks and shuts down in,
  and whatever fails on the way, both job tables hold only rows of the four statuses with no negative
  attempts, every row being processed has a start and every finished row an end.
\<close>

theorem rows_stay_typed:
  assumes "worker_reaches env st st'" and "rows_typed (ms_jobs st)"
  shows "rows_typed (ms_jobs st')"
  using assms
  by (induction rule: worker_reaches.induct)
    (simp_all add: typed_dispatch typed_handle_msg typed_flush on_jobs_def typed_sweep_tick)

text \<open>A worker that takes the queued request to its dead letter, and then sweeps.\<close>

theorem rows_stay_typed_witness:
  "rows_typed (ms_jobs (on_jobs (sweep_tick (me_jobs (sample_msg_env (Errorf ''reset'' []))))
     (snd (handle_msg (sample_msg_env (Errorf ''reset'' [])) (sample_message 3) ProviderMobileSSR
        (on_jobs (\<lambda>w. w\<lparr>jw_rows := [\<lparr>sr_request = ''rq'', sr_artist = ''ar_1'', sr_status = st_queued, sr_error = [],
           sr_attempts = 0, sr_queued = 0, sr_started = None, sr_finished = None\<rparr>]\<rparr>) sample_msg_state)))))"
  by (rule rows_stay_typed [OF worker_sweeps [OF worker_handles [OF worker_starts]]])
    (simp add: on_jobs_def sample_msg_state_def rows_typed_def row_typed_def job_statuses)

end
