(* ===== verification/Text_Keys.thy ===== *)
theory Text_Keys
  imports Messaging_Subjects Song_Aggregate
begin

text \<open>
  The keys names are compared by (\<^verbatim>\<open>internal/songbackfill/normalize.go\<close>). The tables of Unicode (lower
  case, letters, capitals, digits, marks) and the decomposition \<^verbatim>\<open>norm.NFD\<close> are arguments, one function on a
  rune for each; white space is that of \<open>LL_Prelude\<close>.
\<close>

record unicode =
  uc_lower :: "string \<Rightarrow> string"
  uc_nfd :: "string \<Rightarrow> string"
  uc_letter :: "string \<Rightarrow> bool"
  uc_digit :: "string \<Rightarrow> bool"
  uc_upper :: "string \<Rightarrow> bool"
  uc_mark :: "string \<Rightarrow> bool"

section \<open>Strings of the standard library\<close>

text \<open>The runes of a string; a byte that is no rune stands for itself, and is decoded as U+FFFD.\<close>

function runes :: "string \<Rightarrow> string list" where
  "runes [] = []"
| "runes (c # s) = (let w = max 1 (rune_width (c # s)) in take w (c # s) # runes (drop (w - 1) s))"
  by pat_completeness auto
termination by (relation "measure length") auto

definition decoded :: "string \<Rightarrow> string" where
  "decoded r = (if rune_width r = 0 then replacement_rune else r)"

definition space_rune :: "string \<Rightarrow> bool" where "space_rune r \<longleftrightarrow> space_width r \<noteq> 0"

fun words_of :: "string \<Rightarrow> string list \<Rightarrow> string list" where
  "words_of word [] = (if word = [] then [] else [word])"
| "words_of word (r # rs) =
     (if space_rune r then (if word = [] then [] else [word]) @ words_of [] rs else words_of (word @ r) rs)"

definition words :: "string \<Rightarrow> string list" where "words s = words_of [] (runes s)"

fun join_with :: "string \<Rightarrow> string list \<Rightarrow> string" where
  "join_with sep [] = []"
| "join_with sep [w] = w"
| "join_with sep (w # v # ws) = w @ sep @ join_with sep (v # ws)"

function replace_all :: "string \<Rightarrow> string \<Rightarrow> string \<Rightarrow> string" where
  "replace_all old new [] = []"
| "replace_all old new (c # s) =
     (if old \<noteq> [] \<and> has_prefix old (c # s) then new @ replace_all old new (drop (length old - 1) s)
      else c # replace_all old new s)"
  by pat_completeness auto
termination by (relation "measure (\<lambda>(old, new, s). length s)") auto

text \<open>\<^verbatim>\<open>strings.Contains\<close>, and \<^verbatim>\<open>strings.Index\<close> as an option.\<close>

fun index_of :: "string \<Rightarrow> string \<Rightarrow> nat option" where
  "index_of t [] = (if t = [] then Some 0 else None)"
| "index_of t (c # s) = (if has_prefix t (c # s) then Some 0 else map_option Suc (index_of t s))"

definition contains :: "string \<Rightarrow> string \<Rightarrow> bool" where "contains s t \<longleftrightarrow> index_of t s \<noteq> None"

fun split_on :: "char \<Rightarrow> string \<Rightarrow> string list" where
  "split_on d [] = [[]]"
| "split_on d (c # s) =
     (if c = d then [] # split_on d s else (case split_on d s of [] \<Rightarrow> [[c]] | w # ws \<Rightarrow> (c # w) # ws))"

definition trim_chars :: "string \<Rightarrow> string \<Rightarrow> string" where
  "trim_chars cutset s = rev (dropWhile (\<lambda>c. c \<in> set cutset) (rev (dropWhile (\<lambda>c. c \<in> set cutset) s)))"

definition lower :: "unicode \<Rightarrow> string \<Rightarrow> string" where
  "lower u s = concat (map (\<lambda>r. uc_lower u (decoded r)) (runes s))"

section \<open>Keys\<close>

definition ellipsis_rune :: string where "ellipsis_rune = [char_of (0xE2::nat), char_of (0x80::nat), char_of (0xA6::nat)]"

definition normalize_ellipsis :: "string \<Rightarrow> string" where
  "normalize_ellipsis s = join_with '' '' (words (trim_space (replace_all ellipsis_rune ''...'' s)))"

fun key_runes :: "unicode \<Rightarrow> bool \<Rightarrow> string list \<Rightarrow> string" where
  "key_runes u last_space [] = []"
| "key_runes u last_space (r # rs) =
     (if uc_mark u r then key_runes u last_space rs
      else if uc_letter u r \<or> uc_digit u r then r @ key_runes u False rs
      else if space_rune r then (if last_space then key_runes u True rs else '' '' @ key_runes u True rs)
      else r @ key_runes u False rs)"

definition normalize_key :: "unicode \<Rightarrow> string \<Rightarrow> string" where
  "normalize_key u s =
     (let v = uc_nfd u (lower u (normalize_ellipsis s))
      in trim_space (join_with '' '' (words (key_runes u False (map decoded (runes v))))))"

fun loose_runes :: "unicode \<Rightarrow> bool \<Rightarrow> string list \<Rightarrow> string" where
  "loose_runes u last_space [] = []"
| "loose_runes u last_space (r # rs) =
     (if uc_letter u r \<or> uc_digit u r then r @ loose_runes u False rs
      else if space_rune r then (if last_space then loose_runes u True rs else '' '' @ loose_runes u True rs)
      else loose_runes u last_space rs)"

definition normalize_loose_key :: "unicode \<Rightarrow> string \<Rightarrow> string" where
  "normalize_loose_key u s =
     trim_space (join_with '' '' (words (loose_runes u False (map decoded (runes (normalize_key u s))))))"

definition normalize_flat_key :: "unicode \<Rightarrow> string \<Rightarrow> string" where
  "normalize_flat_key u s =
     (let v = normalize_loose_key u s in if v = [] then [] else replace_all '' '' [] v)"

text \<open>A sign leaves at most three digits, which is no year.\<close>

definition parse_release_year :: "string \<Rightarrow> int" where "parse_release_year s = release_year_of (trim_space s)"

text \<open>A table of the letters, digits and lower cases of ASCII, for examples.\<close>

definition ascii_table :: unicode where
  "ascii_table =
     \<lparr>uc_lower = map lower_byte, uc_nfd = (\<lambda>s. s),
      uc_letter = (\<lambda>r. case r of [c] \<Rightarrow> (65 \<le> byte c \<and> byte c \<le> 90) \<or> (97 \<le> byte c \<and> byte c \<le> 122) | _ \<Rightarrow> False),
      uc_digit = (\<lambda>r. case r of [c] \<Rightarrow> 48 \<le> byte c \<and> byte c \<le> 57 | _ \<Rightarrow> False),
      uc_upper = (\<lambda>r. case r of [c] \<Rightarrow> 65 \<le> byte c \<and> byte c \<le> 90 | _ \<Rightarrow> False), uc_mark = (\<lambda>r. False)\<rparr>"

end
