(* ===== verification/Edit_Distance.thy ===== *)
theory Edit_Distance
  imports LL_Prelude
begin

text \<open>
  The edit distance of \<^verbatim>\<open>internal/songbackfill/artistindex.go\<close>, which keeps one column of the table and
  overwrites it, and that it is the least number of single edits between the two texts.
\<close>

section \<open>The column\<close>

text \<open>One cell: \<open>prev\<close> is the value the cell to the left of it had in the previous column.\<close>

definition distance_cell :: "'a \<Rightarrow> nat \<times> nat list \<Rightarrow> nat \<times> 'a \<Rightarrow> nat \<times> nat list" where
  "distance_cell l st jr =
     (case st of (prev, column) \<Rightarrow> case jr of (j, r) \<Rightarrow>
        (let insert_cost = column ! (j + 1) + 1; delete_cost = column ! j + 1;
             replace_cost = (if l \<noteq> r then prev + 1 else prev)
         in (column ! (j + 1), column[j + 1 := min insert_cost (min delete_cost replace_cost)])))"

definition distance_column :: "'a list \<Rightarrow> nat list \<Rightarrow> nat \<times> 'a \<Rightarrow> nat list" where
  "distance_column right column il =
     (case il of (i, l) \<Rightarrow>
        snd (foldl (distance_cell l) (column ! 0, column[0 := i + 1]) (enumerate 0 right)))"

definition levenshtein_distance :: "'a list \<Rightarrow> 'a list \<Rightarrow> nat" where
  "levenshtein_distance left right =
     (if left = [] then length right else if right = [] then length left
      else foldl (distance_column right) [0..<length right + 1] (enumerate 0 left) ! length right)"

section \<open>The recursive distance\<close>

fun edit_distance :: "'a list \<Rightarrow> 'a list \<Rightarrow> nat" where
  "edit_distance [] ys = length ys"
| "edit_distance xs [] = length xs"
| "edit_distance (x # xs) (y # ys) =
     min (edit_distance (x # xs) ys + 1)
       (min (edit_distance xs (y # ys) + 1) (edit_distance xs ys + (if x = y then 0 else 1)))"

lemma edit_distance_Nil [simp]: "edit_distance xs [] = length xs"
  by (cases xs) simp_all

text \<open>The distance of two prefixes, by their last elements.\<close>

definition prefix_distance :: "'a list \<Rightarrow> 'a list \<Rightarrow> nat" where
  "prefix_distance xs ys = edit_distance (rev xs) (rev ys)"

lemma prefix_distance_simps [simp]:
  "prefix_distance [] ys = length ys" "prefix_distance xs [] = length xs"
  "prefix_distance (xs @ [x]) (ys @ [y]) =
     min (prefix_distance (xs @ [x]) ys + 1)
       (min (prefix_distance xs (ys @ [y]) + 1) (prefix_distance xs ys + (if x = y then 0 else 1)))"
  by (simp_all add: prefix_distance_def)

text \<open>The column after a prefix of the left text, part of which is already overwritten for one element more.\<close>

lemma cells_prefix:
  assumes "length column = length ys + 1" and "k \<le> length ys"
    and "\<And>j. j \<le> length ys \<Longrightarrow> column ! j = prefix_distance xs (take j ys)"
  shows "foldl (distance_cell l) (column ! 0, column[0 := length xs + 1]) (enumerate 0 (take k ys)) =
    (prefix_distance xs (take k ys),
     map (\<lambda>j. if j \<le> k then prefix_distance (xs @ [l]) (take j ys) else column ! j) [0..<length ys + 1])"
  using assms(2)
proof (induction k)
  case 0
  have "column[0 := length xs + 1] = map (\<lambda>j. if j \<le> 0 then prefix_distance (xs @ [l]) (take j ys) else column ! j) [0..<length ys + 1]"
    using assms(1) by (intro nth_equalityI) (auto simp: nth_list_update simp del: upt_Suc)
  then show ?case using assms(3) [of 0] by simp
next
  case (Suc k)
  define c where "c = map (\<lambda>j. if j \<le> k then prefix_distance (xs @ [l]) (take j ys) else column ! j) [0..<length ys + 1]"
  have k: "k < length ys" using Suc.prems by simp
  have split: "enumerate 0 (take (Suc k) ys) = enumerate 0 (take k ys) @ [(k, ys ! k)]"
    using k by (simp add: take_Suc_conv_app_nth enumerate_append_eq)
  have at: "c ! k = prefix_distance (xs @ [l]) (take k ys)" "c ! Suc k = prefix_distance xs (take (Suc k) ys)"
    using k assms(3) [of "Suc k"] by (simp_all add: c_def del: upt_Suc)
  have "distance_cell l (prefix_distance xs (take k ys), c) (k, ys ! k) =
      (prefix_distance xs (take (Suc k) ys), c[Suc k := prefix_distance (xs @ [l]) (take (Suc k) ys)])"
    using k by (auto simp: distance_cell_def Let_def at take_Suc_conv_app_nth min.left_commute)
  moreover have "c[Suc k := prefix_distance (xs @ [l]) (take (Suc k) ys)] =
      map (\<lambda>j. if j \<le> Suc k then prefix_distance (xs @ [l]) (take j ys) else column ! j) [0..<length ys + 1]"
    using k unfolding c_def by (intro nth_equalityI) (auto simp: nth_list_update le_Suc_eq simp del: upt_Suc)
  ultimately show ?case
    unfolding split foldl_append Suc.IH [OF less_imp_le [OF k]] c_def [symmetric] by simp
qed

lemma column_step:
  assumes "column = map (\<lambda>j. prefix_distance xs (take j ys)) [0..<length ys + 1]"
  shows "distance_column ys column (length xs, l) = map (\<lambda>j. prefix_distance (xs @ [l]) (take j ys)) [0..<length ys + 1]"
proof -
  have "column ! j = prefix_distance xs (take j ys)" if "j \<le> length ys" for j
    using that by (simp add: assms del: upt_Suc)
  from cells_prefix [of column ys "length ys" xs l] this show ?thesis
    by (simp add: distance_column_def assms del: upt_Suc)
qed

lemma columns_prefix:
  "foldl (distance_column ys) [0..<length ys + 1] (enumerate 0 xs) =
     map (\<lambda>j. prefix_distance xs (take j ys)) [0..<length ys + 1]"
proof (induction xs rule: rev_induct)
  case Nil
  show ?case by (intro nth_equalityI) (simp_all del: upt_Suc)
next
  case (snoc x xs)
  then show ?case using column_step [OF refl, of ys xs x] by (simp add: enumerate_append_eq del: upt_Suc)
qed

lemma levenshtein_prefix: "levenshtein_distance xs ys = prefix_distance xs ys"
  unfolding levenshtein_distance_def columns_prefix by (simp del: upt_Suc)

section \<open>Single edits\<close>

inductive edit_step :: "'a list \<Rightarrow> 'a list \<Rightarrow> bool" where
  edit_insert: "edit_step (p @ q) (p @ c # q)"
| edit_delete: "edit_step (p @ c # q) (p @ q)"
| edit_replace: "edit_step (p @ c # q) (p @ d # q)"

lemma edit_step_rev: "edit_step xs ys \<Longrightarrow> edit_step (rev xs) (rev ys)"
  by (induction rule: edit_step.induct) (auto intro: edit_step.intros)

lemma edit_steps_rev: "(edit_step ^^ n) xs ys \<Longrightarrow> (edit_step ^^ n) (rev xs) (rev ys)"
proof (induction n arbitrary: ys)
  case (Suc n)
  then show ?case by (auto dest: edit_step_rev)
qed simp

lemma edit_step_Cons: "edit_step xs ys \<Longrightarrow> edit_step (a # xs) (a # ys)"
  by (induction rule: edit_step.induct) (metis append_Cons edit_step.intros)+

lemma edit_steps_Cons: "(edit_step ^^ n) xs ys \<Longrightarrow> (edit_step ^^ n) (a # xs) (a # ys)"
proof (induction n arbitrary: ys)
  case (Suc n)
  then show ?case by (auto dest: edit_step_Cons)
qed simp

lemma min_is_one: "min a (min b c) = a \<or> min a (min b c) = b \<or> min a (min b c) = (c :: nat)"
  by (simp add: min_def)

text \<open>So many edits do.\<close>

lemma edit_distance_enough: "(edit_step ^^ edit_distance xs ys) xs ys"
proof (induction xs ys rule: edit_distance.induct)
  case (1 ys)
  show ?case
  proof (induction ys)
    case (Cons y ys)
    have "edit_step ys (y # ys)" using edit_insert [of "[]" ys y] by simp
    with Cons show ?case by auto
  qed simp
next
  case (2 x xs)
  show ?case
  proof (induction xs arbitrary: x)
    case (Cons y ys)
    have "edit_step (x # y # ys) (y # ys)" using edit_delete [of "[]" x "y # ys"] by simp
    from relpowp_Suc_I2 [of edit_step, OF this Cons [of y]] show ?case by simp
  next
    case Nil
    have "edit_step [x] []" using edit_delete [of "[]" x "[]"] by simp
    then show ?case by auto
  qed
next
  case (3 x xs y ys)
  consider (i) "edit_distance (x # xs) (y # ys) = Suc (edit_distance (x # xs) ys)"
    | (d) "edit_distance (x # xs) (y # ys) = Suc (edit_distance xs (y # ys))"
    | (r) "edit_distance (x # xs) (y # ys) = edit_distance xs ys + (if x = y then 0 else 1)"
    using min_is_one [of "edit_distance (x # xs) ys + 1" "edit_distance xs (y # ys) + 1"] by (metis Suc_eq_plus1 edit_distance.simps(3))
  then show ?case
  proof cases
    case i
    moreover have "edit_step ys (y # ys)" using edit_insert [of "[]" ys y] by simp
    ultimately show ?thesis using 3(1) by auto
  next
    case d
    have "edit_step (x # xs) xs" using edit_delete [of "[]" x xs] by simp
    from relpowp_Suc_I2 [of edit_step, OF this 3(2)]
    have "(edit_step ^^ Suc (edit_distance xs (y # ys))) (x # xs) (y # ys)" .
    with d show ?thesis by simp
  next
    case r
    have c: "(edit_step ^^ edit_distance xs ys) (x # xs) (x # ys)" using 3(3) by (rule edit_steps_Cons)
    moreover have "edit_step (x # ys) (y # ys)" using edit_replace [of "[]" x ys y] by simp
    ultimately have "(edit_step ^^ Suc (edit_distance xs ys)) (x # xs) (y # ys)" by auto
    with r c show ?thesis by (cases "x = y") auto
  qed
qed

text \<open>No single edit takes a text farther away by more than one.\<close>

lemma edit_distance_Cons_left: "edit_distance (x # xs) ys \<le> edit_distance xs ys + 1"
  by (cases ys) simp_all

lemma near_insert: "edit_distance xs (c # q) \<le> edit_distance xs q + 1"
  by (cases xs) simp_all

lemma near_delete: "edit_distance xs q \<le> edit_distance xs (c # q) + 1"
proof (induction xs)
  case (Cons x xs)
  with edit_distance_Cons_left [of x xs q] show ?case by auto
qed simp

lemma near_replace: "edit_distance xs (d # q) \<le> edit_distance xs (c # q) + 1"
  by (induction xs) auto

lemma near_Cons:
  assumes "\<And>xs. edit_distance xs ys' \<le> edit_distance xs ys + 1"
  shows "edit_distance xs (a # ys') \<le> edit_distance xs (a # ys) + 1"
proof (induction xs)
  case Nil
  then show ?case using assms [of "[]"] by simp
next
  case (Cons x xs)
  with assms [of "x # xs"] assms [of xs] show ?case by auto
qed

lemma near_prefix:
  assumes "\<And>xs. edit_distance xs ys' \<le> edit_distance xs ys + 1"
  shows "edit_distance xs (p @ ys') \<le> edit_distance xs (p @ ys) + 1"
proof (induction p arbitrary: xs)
  case Nil
  show ?case using assms by simp
next
  case (Cons a p)
  from near_Cons [of "p @ ys'" "p @ ys", OF Cons] show ?case by simp
qed

lemma edit_step_near: "edit_step ys ys' \<Longrightarrow> edit_distance xs ys' \<le> edit_distance xs ys + 1"
  by (induction rule: edit_step.induct) (rule near_prefix, rule near_insert near_delete near_replace)+

lemma edit_distance_least: "(edit_step ^^ n) xs ys \<Longrightarrow> edit_distance xs ys \<le> n"
proof (induction n arbitrary: ys)
  case 0
  have "edit_distance xs xs = 0" by (induction xs) simp_all
  with 0 show ?case by simp
next
  case (Suc n)
  from Suc.prems obtain zs where "(edit_step ^^ n) xs zs" "edit_step zs ys" by auto
  with Suc.IH [of zs] edit_step_near [of zs ys xs] show ?case by simp
qed

text \<open>
  C18. The edit distance of the artist index is right: the column that is overwritten in place ends in
  the recursive distance of the two names, one can be turned into the other by that many insertions,
  deletions and replacements of a single character, and by no fewer.
\<close>

theorem levenshtein_least_edits:
  "levenshtein_distance left right = edit_distance (rev left) (rev right)
   \<and> (edit_step ^^ levenshtein_distance left right) left right
   \<and> ((edit_step ^^ n) left right \<longrightarrow> levenshtein_distance left right \<le> n)"
proof -
  have d: "levenshtein_distance left right = edit_distance (rev left) (rev right)"
    by (simp add: levenshtein_prefix prefix_distance_def)
  show ?thesis
    using edit_steps_rev [OF edit_distance_enough [of "rev left" "rev right"]]
      edit_distance_least [OF edit_steps_rev, of n left right] by (simp add: d)
qed

theorem levenshtein_least_edits_witness:
  "levenshtein_distance ''nine'' ''nin'' = 1 \<and> (edit_step ^^ 1) ''nine'' ''nin''
   \<and> \<not> (edit_step ^^ 0) ''nine'' ''nin''"
proof -
  have "levenshtein_distance ''nine'' ''nin'' = 1" by code_simp
  with levenshtein_least_edits [of "''nine''" "''nin''" 0] show ?thesis by simp
qed

end
