(* ===== verification/Artist_Index.thy ===== *)
theory Artist_Index
  imports Text_Keys Edit_Distance "HOL-Library.List_Lexorder" "HOL-Library.Char_ord"
begin

text \<open>
  The index of known artists (\<^verbatim>\<open>internal/songbackfill/artistindex.go\<close>): a name is looked up by three
  keys, each coarser than the one before, and at last among the names that differ by a slip or two.
  \<^verbatim>\<open>sort.Slice\<close> may put artists of equal key in any order and is an argument. Similarities are exact
  fractions.
\<close>

section \<open>Data\<close>

record artist_input =
  ai_record :: string
  ai_name :: string
  ai_spotify :: string

datatype match_type = MatchExact | MatchLoose | MatchFlat | MatchTypo

record artist_match =
  ma_record :: string
  ma_name :: string
  ma_spotify :: string
  ma_type :: match_type

datatype remark =
    NoteMatched string string match_type
  | NoteSeveral string match_type "artist_input list"
  | NotePlaceholder string
  | NoteEmptyCandidate
  | NoteNoMatch string
  | NoteTypoSeveral string "artist_input list"
  | NoteTypo string string int rat
  | NoteSelected string string rat string
  | NoteConfidence rat rat
  | NotePartial nat nat
  | NotePrefix string string
  | NoteFailed gerr
  | NoteText string

record artist_index =
  ix_artists :: "artist_input list"
  ix_key :: "(string \<times> artist_input list) list"
  ix_loose :: "(string \<times> artist_input list) list"
  ix_flat :: "(string \<times> artist_input list) list"

type_synonym artist_sorter = "(artist_input \<Rightarrow> string) \<Rightarrow> artist_input list \<Rightarrow> artist_input list"

definition to_match :: "match_type \<Rightarrow> artist_input \<Rightarrow> artist_match" where
  "to_match t a = \<lparr>ma_record = ai_record a, ma_name = ai_name a, ma_spotify = ai_spotify a, ma_type = t\<rparr>"

section \<open>Building the index\<close>

definition listed :: "(string \<times> 'a list) list \<Rightarrow> string \<Rightarrow> 'a list" where
  "listed m k = (case map_of m k of None \<Rightarrow> [] | Some xs \<Rightarrow> xs)"

definition add_listed :: "string \<Rightarrow> 'a \<Rightarrow> (string \<times> 'a list) list \<Rightarrow> (string \<times> 'a list) list" where
  "add_listed k x m = (if k = [] then m else kv_put k (listed m k @ [x]) m)"

definition cleaned :: "artist_input \<Rightarrow> artist_input" where
  "cleaned a = \<lparr>ai_record = trim_space (ai_record a), ai_name = trim_space (ai_name a), ai_spotify = trim_space (ai_spotify a)\<rparr>"

definition index_artist :: "unicode \<Rightarrow> artist_index \<Rightarrow> artist_input \<Rightarrow> artist_index" where
  "index_artist u ix artist =
     (let a = cleaned artist
      in if ai_name a = [] \<or> ai_spotify a = [] then ix
         else \<lparr>ix_artists = ix_artists ix @ [a],
               ix_key = add_listed (normalize_key u (ai_name a)) a (ix_key ix),
               ix_loose = add_listed (normalize_loose_key u (ai_name a)) a (ix_loose ix),
               ix_flat = add_listed (normalize_flat_key u (ai_name a)) a (ix_flat ix)\<rparr>)"

definition new_artist_index :: "unicode \<Rightarrow> artist_sorter \<Rightarrow> artist_input list \<Rightarrow> artist_index" where
  "new_artist_index u sorter artists =
     (let ix = foldl (index_artist u) \<lparr>ix_artists = [], ix_key = [], ix_loose = [], ix_flat = []\<rparr> artists
      in ix\<lparr>ix_artists := sorter (\<lambda>a. normalize_key u (ai_name a)) (ix_artists ix)\<rparr>)"

section \<open>Looking a name up\<close>

definition dedupe_key :: "unicode \<Rightarrow> artist_input \<Rightarrow> string" where
  "dedupe_key u a = (if ai_spotify a = [] then ai_record a @ ''|'' @ normalize_key u (ai_name a) else ai_spotify a)"

fun dedupe_from :: "unicode \<Rightarrow> string list \<Rightarrow> artist_input list \<Rightarrow> artist_input list" where
  "dedupe_from u seen [] = []"
| "dedupe_from u seen (a # as) =
     (if dedupe_key u a \<in> set seen then dedupe_from u seen as
      else a # dedupe_from u (dedupe_key u a # seen) as)"

definition dedupe_artists :: "unicode \<Rightarrow> artist_input list \<Rightarrow> artist_input list" where
  "dedupe_artists u = dedupe_from u []"

text \<open>A result: the match if there is one, whether the name is ambiguous, and what is noted.\<close>

type_synonym match_result = "artist_match option \<times> bool \<times> remark list"

definition lookup_candidates ::
    "unicode \<Rightarrow> (string \<times> artist_input list) list \<Rightarrow> string \<Rightarrow> string \<Rightarrow> match_type \<Rightarrow> match_result" where
  "lookup_candidates u m name key t =
     (case dedupe_artists u (listed m key) of
        [] \<Rightarrow> (None, False, [])
      | [a] \<Rightarrow> (Some (to_match t a), False, if t = MatchExact then [] else [NoteMatched name (ai_name a) t])
      | as \<Rightarrow> (None, True, [NoteSeveral name t as]))"

definition artist_alias_overrides :: "(string \<times> string) list" where
  "artist_alias_overrides = [(''slaves'', ''SOFT PLAY'')]"

definition sentinel_artist_names :: "string list" where "sentinel_artist_names = [''various artists'']"

definition apply_artist_aliases :: "unicode \<Rightarrow> string \<Rightarrow> string option" where
  "apply_artist_aliases u name =
     (if normalize_loose_key u name \<in> set sentinel_artist_names then None
      else (case map_of artist_alias_overrides (normalize_loose_key u name) of
              Some override \<Rightarrow> Some override | None \<Rightarrow> Some name))"

section \<open>Slips\<close>

record typo_ranking =
  tr_distance :: int
  tr_similarity :: rat
  tr_candidates :: "artist_input list"

definition eligible_typo_distance :: "string \<Rightarrow> string \<Rightarrow> nat \<Rightarrow> bool" where
  "eligible_typo_distance left right d =
     (let most = max (length (runes left)) (length (runes right))
      in if most = 0 then False else if most \<le> 4 then d = 1 else if most \<le> 8 then d \<le> 1 else d \<le> 2)"

definition typo_similarity :: "string \<Rightarrow> string \<Rightarrow> nat \<Rightarrow> rat" where
  "typo_similarity left right d =
     (let most = max (length (runes left)) (length (runes right))
      in if most = 0 then 0 else 1 - of_nat d / of_nat most)"

definition eligible_typo_similarity :: "string \<Rightarrow> string \<Rightarrow> rat \<Rightarrow> bool" where
  "eligible_typo_similarity left right similarity =
     (if 1 < \<bar>int (length (words left)) - int (length (words right))\<bar> then False
      else if 10 \<le> length (runes left) \<or> 10 \<le> length (runes right) then 82 / 100 \<le> similarity
      else 88 / 100 \<le> similarity)"

definition nearly_equal :: "rat \<Rightarrow> rat \<Rightarrow> bool" where
  "nearly_equal left right \<longleftrightarrow> (if right < left then left - right else right - left) < 1 / 10 ^ 9"

definition is_better_typo :: "typo_ranking \<Rightarrow> int \<Rightarrow> rat \<Rightarrow> bool" where
  "is_better_typo best d s \<longleftrightarrow>
     tr_distance best = - 1 \<or> d < tr_distance best \<or> d = tr_distance best \<and> tr_similarity best < s"

definition update_typo_ranking :: "typo_ranking \<Rightarrow> artist_input \<Rightarrow> int \<Rightarrow> rat \<Rightarrow> typo_ranking" where
  "update_typo_ranking best a d s =
     (if is_better_typo best d s then \<lparr>tr_distance = d, tr_similarity = s, tr_candidates = [a]\<rparr>
      else if d = tr_distance best \<and> nearly_equal s (tr_similarity best)
      then best\<lparr>tr_candidates := tr_candidates best @ [a]\<rparr> else best)"

definition rank_typo :: "unicode \<Rightarrow> string \<Rightarrow> typo_ranking \<Rightarrow> artist_input \<Rightarrow> typo_ranking" where
  "rank_typo u input best a =
     (let key = normalize_loose_key u (ai_name a)
      in if key = [] \<or> key = input then best
         else (let d = levenshtein_distance (map decoded (runes input)) (map decoded (runes key)); s = typo_similarity input key d
               in if \<not> eligible_typo_distance input key d \<or> \<not> eligible_typo_similarity input key s then best
                  else update_typo_ranking best a (int d) s))"

definition rank_typo_candidates :: "unicode \<Rightarrow> string \<Rightarrow> artist_input list \<Rightarrow> typo_ranking" where
  "rank_typo_candidates u input artists =
     (let best = foldl (rank_typo u input) \<lparr>tr_distance = - 1, tr_similarity = 0, tr_candidates = []\<rparr> artists
      in best\<lparr>tr_candidates := dedupe_artists u (tr_candidates best)\<rparr>)"

definition resolve_typo :: "unicode \<Rightarrow> artist_index \<Rightarrow> string \<Rightarrow> match_result" where
  "resolve_typo u ix name =
     (let input = normalize_loose_key u name
      in if input = [] then (None, False, [])
         else (let best = rank_typo_candidates u input (ix_artists ix)
               in case tr_candidates best of
                    [] \<Rightarrow> (None, False, [])
                  | [a] \<Rightarrow> (Some (to_match MatchTypo a), False, [NoteTypo name (ai_name a) (tr_distance best) (tr_similarity best)])
                  | as \<Rightarrow> (None, True, [NoteTypoSeveral name as])))"

text \<open>The keys in turn; an empty key ends the search.\<close>

fun resolve_keys ::
    "unicode \<Rightarrow> artist_index \<Rightarrow> string \<Rightarrow> (string \<times> match_type \<times> (string \<times> artist_input list) list) list \<Rightarrow> match_result" where
  "resolve_keys u ix name [] =
     (case resolve_typo u ix name of
        (Some m, b, ns) \<Rightarrow> (Some m, b, ns)
      | (None, True, ns) \<Rightarrow> (None, True, ns)
      | (None, False, ns) \<Rightarrow> (None, False, [NoteNoMatch name]))"
| "resolve_keys u ix name ((key, t, m) # rest) =
     (if key = [] then (None, False, [if t = MatchExact then NoteEmptyCandidate else NoteNoMatch name])
      else (case lookup_candidates u m name key t of
              (None, False, ns) \<Rightarrow> resolve_keys u ix name rest
            | r \<Rightarrow> r))"

definition resolve_exact :: "unicode \<Rightarrow> artist_index \<Rightarrow> string \<Rightarrow> match_result" where
  "resolve_exact u ix name0 =
     (case apply_artist_aliases u name0 of
        None \<Rightarrow> (None, False, [NotePlaceholder name0])
      | Some name \<Rightarrow>
          resolve_keys u ix name
            [(normalize_key u name, MatchExact, ix_key ix), (normalize_loose_key u name, MatchLoose, ix_loose ix),
             (normalize_flat_key u name, MatchFlat, ix_flat ix)])"

definition artist_matches_prefix :: "unicode \<Rightarrow> string \<Rightarrow> string \<Rightarrow> string \<Rightarrow> bool" where
  "artist_matches_prefix u name key loose \<longleftrightarrow>
     key \<noteq> [] \<and> has_prefix key (normalize_key u name) \<or> loose \<noteq> [] \<and> has_prefix loose (normalize_loose_key u name)"

definition resolve_prefix :: "unicode \<Rightarrow> artist_index \<Rightarrow> string \<Rightarrow> artist_input option" where
  "resolve_prefix u ix start =
     (let key = normalize_key u start; loose = normalize_loose_key u start
      in if key = [] \<and> loose = [] then None
         else (case dedupe_artists u (filter (\<lambda>a. artist_matches_prefix u (ai_name a) key loose) (ix_artists ix)) of
                 [a] \<Rightarrow> Some a | _ \<Rightarrow> None))"

section \<open>What the index holds\<close>

definition indexable :: "artist_input \<Rightarrow> bool" where
  "indexable a \<longleftrightarrow> ai_name (cleaned a) \<noteq> [] \<and> ai_spotify (cleaned a) \<noteq> []"

definition known :: "artist_input list \<Rightarrow> artist_input list" where "known artists = map cleaned (filter indexable artists)"

definition key_of :: "unicode \<Rightarrow> match_type \<Rightarrow> string \<Rightarrow> string" where
  "key_of u t = (case t of MatchExact \<Rightarrow> normalize_key u | MatchFlat \<Rightarrow> normalize_flat_key u | _ \<Rightarrow> normalize_loose_key u)"

lemma listed_add: "k \<noteq> [] \<Longrightarrow> listed (add_listed k' x m) k = (if k' = k then listed m k @ [x] else listed m k)"
  by (simp add: listed_def add_listed_def)

lemma index_fold:
  assumes "k \<noteq> []"
  shows "listed (ix_key (foldl (index_artist u) ix artists)) k = listed (ix_key ix) k @ filter (\<lambda>a. normalize_key u (ai_name a) = k) (known artists)"
    and "listed (ix_loose (foldl (index_artist u) ix artists)) k = listed (ix_loose ix) k @ filter (\<lambda>a. normalize_loose_key u (ai_name a) = k) (known artists)"
    and "listed (ix_flat (foldl (index_artist u) ix artists)) k = listed (ix_flat ix) k @ filter (\<lambda>a. normalize_flat_key u (ai_name a) = k) (known artists)"
    and "ix_artists (foldl (index_artist u) ix artists) = ix_artists ix @ known artists"
  by (induction artists arbitrary: ix)
    (use assms in \<open>simp_all add: index_artist_def Let_def known_def indexable_def listed_add\<close>)

lemma index_holds:
  assumes "ix = new_artist_index u sorter artists" and "k \<noteq> []"
  shows "listed (ix_key ix) k = filter (\<lambda>a. normalize_key u (ai_name a) = k) (known artists)"
    and "listed (ix_loose ix) k = filter (\<lambda>a. normalize_loose_key u (ai_name a) = k) (known artists)"
    and "listed (ix_flat ix) k = filter (\<lambda>a. normalize_flat_key u (ai_name a) = k) (known artists)"
    and "ix_artists ix = sorter (\<lambda>a. normalize_key u (ai_name a)) (known artists)"
  using index_fold [OF assms(2)] by (simp_all add: assms(1) new_artist_index_def Let_def listed_def)

lemma dedupe_from_set: "set (dedupe_from u seen as) \<subseteq> set as"
  by (induction as arbitrary: seen) auto

lemma dedupe_from_covers: "a \<in> set as \<Longrightarrow> dedupe_key u a \<in> set seen \<or> dedupe_key u a \<in> dedupe_key u ` set (dedupe_from u seen as)"
proof (induction as arbitrary: seen)
  case (Cons x as)
  then show ?case
  proof (cases "a = x")
    case False
    with Cons.prems have "a \<in> set as" by simp
    from Cons.IH [OF this, of seen] Cons.IH [OF this, of "dedupe_key u x # seen"] show ?thesis by auto
  qed auto
qed simp

lemma deduped_single:
  assumes "dedupe_artists u as = [a]" and "\<And>b. b \<in> set as \<Longrightarrow> ai_spotify b \<noteq> []"
  shows "a \<in> set as" and "b \<in> set as \<Longrightarrow> ai_spotify b = ai_spotify a"
proof -
  show a: "a \<in> set as" using dedupe_from_set [of u "[]" as] assms(1) by (auto simp: dedupe_artists_def)
  show "ai_spotify b = ai_spotify a" if "b \<in> set as"
    using dedupe_from_covers [OF that, of u "[]"] assms that a by (auto simp: dedupe_artists_def dedupe_key_def)
qed

lemma known_spotify: "a \<in> set (known artists) \<Longrightarrow> ai_spotify a \<noteq> []"
  by (auto simp: known_def indexable_def)

lemma lookup_found:
  assumes "lookup_candidates u m name key t = (Some r, b, ns)"
  obtains a where "dedupe_artists u (listed m key) = [a]" "r = to_match t a" "\<not> b"
  using assms by (auto simp: lookup_candidates_def split: list.splits)

section \<open>Slips\<close>

definition slip_distance :: "unicode \<Rightarrow> string \<Rightarrow> artist_input \<Rightarrow> nat" where
  "slip_distance u name a =
     levenshtein_distance (map decoded (runes (normalize_loose_key u name))) (map decoded (runes (normalize_loose_key u (ai_name a))))"

definition slip :: "unicode \<Rightarrow> string \<Rightarrow> artist_input \<Rightarrow> bool" where
  "slip u name a \<longleftrightarrow>
     (let input = normalize_loose_key u name; key = normalize_loose_key u (ai_name a); d = slip_distance u name a
      in key \<noteq> [] \<and> key \<noteq> input \<and> eligible_typo_distance input key d
         \<and> eligible_typo_similarity input key (typo_similarity input key d))"

lemma slip_near: "slip u name a \<Longrightarrow> slip_distance u name a \<le> 2"
  by (auto simp: slip_def Let_def eligible_typo_distance_def split: if_splits)

text \<open>The ranking of the artists seen so far holds the nearest slips among them.\<close>

definition ranked :: "unicode \<Rightarrow> string \<Rightarrow> typo_ranking \<Rightarrow> artist_input list \<Rightarrow> bool" where
  "ranked u name best as \<longleftrightarrow>
     (tr_distance best = - 1 \<longrightarrow> tr_candidates best = [])
   \<and> (\<forall>a\<in>set (tr_candidates best). a \<in> set as \<and> slip u name a \<and> int (slip_distance u name a) = tr_distance best)
   \<and> (\<forall>a\<in>set as. slip u name a \<longrightarrow> tr_distance best \<noteq> - 1 \<and> tr_distance best \<le> int (slip_distance u name a))"

lemma rank_typo_slip:
  "rank_typo u (normalize_loose_key u name) best a =
     (if slip u name a
      then update_typo_ranking best a (int (slip_distance u name a))
        (typo_similarity (normalize_loose_key u name) (normalize_loose_key u (ai_name a)) (slip_distance u name a))
      else best)"
  unfolding rank_typo_def slip_def slip_distance_def Let_def by (simp only: de_Morgan_conj not_not if_not_P if_P simp_thms split: if_split) blast

lemma ranked_step:
  assumes "ranked u name best as"
  shows "ranked u name (rank_typo u (normalize_loose_key u name) best a) (as @ [a])"
proof (cases "slip u name a")
  case True
  note step = rank_typo_slip [of u name best a, unfolded if_P [OF True]]
  let ?d = "int (slip_distance u name a)"
  let ?s = "typo_similarity (normalize_loose_key u name) (normalize_loose_key u (ai_name a)) (slip_distance u name a)"
  consider (better) "is_better_typo best ?d ?s" | (tie) "\<not> is_better_typo best ?d ?s" "?d = tr_distance best" "nearly_equal ?s (tr_similarity best)"
    | (worse) "\<not> is_better_typo best ?d ?s" "\<not> (?d = tr_distance best \<and> nearly_equal ?s (tr_similarity best))" by blast
  then show ?thesis
  proof cases
    case better
    have near: "?d \<le> int (slip_distance u name x)" if "x \<in> set as" "slip u name x" for x
    proof -
      have "tr_distance best \<noteq> - 1" "tr_distance best \<le> int (slip_distance u name x)" using assms that unfolding ranked_def by blast+
      with better show ?thesis unfolding is_better_typo_def by linarith
    qed
    have "rank_typo u (normalize_loose_key u name) best a = \<lparr>tr_distance = ?d, tr_similarity = ?s, tr_candidates = [a]\<rparr>"
      using step better by (simp add: update_typo_ranking_def)
    then show ?thesis using near True by (auto simp: ranked_def)
  next
    case tie
    have "rank_typo u (normalize_loose_key u name) best a = best\<lparr>tr_candidates := tr_candidates best @ [a]\<rparr>"
      using step tie by (simp add: update_typo_ranking_def)
    then show ?thesis using assms True tie by (auto simp: ranked_def is_better_typo_def)
  next
    case worse
    have "rank_typo u (normalize_loose_key u name) best a = best"
      using step worse by (simp add: update_typo_ranking_def)
    moreover have "tr_distance best \<noteq> - 1" "tr_distance best \<le> ?d" using worse(1) by (auto simp: is_better_typo_def)
    ultimately show ?thesis using assms by (auto simp: ranked_def)
  qed
next
  case False
  with assms show ?thesis unfolding rank_typo_slip by (auto simp: ranked_def)
qed

lemma ranked_fold:
  "ranked u name best seen \<Longrightarrow> ranked u name (foldl (rank_typo u (normalize_loose_key u name)) best as) (seen @ as)"
proof (induction as arbitrary: best seen)
  case (Cons a as)
  from Cons.IH [OF ranked_step [OF Cons.prems, of a]] show ?case by simp
qed simp

lemma resolve_typo_found:
  assumes "resolve_typo u ix name = (Some r, b, ns)"
    and "set (ix_artists ix) = set (known artists)"
  obtains a where "a \<in> set (known artists)" "r = to_match MatchTypo a" "\<not> b" "slip u name a"
    "\<And>a'. a' \<in> set (known artists) \<Longrightarrow> slip u name a' \<Longrightarrow> slip_distance u name a \<le> slip_distance u name a'"
proof -
  let ?best = "foldl (rank_typo u (normalize_loose_key u name)) \<lparr>tr_distance = - 1, tr_similarity = 0, tr_candidates = []\<rparr> (ix_artists ix)"
  have r: "ranked u name ?best (ix_artists ix)"
    using ranked_fold [of u name "\<lparr>tr_distance = - 1, tr_similarity = 0, tr_candidates = []\<rparr>" "[]" "ix_artists ix"]
    by (simp add: ranked_def)
  from assms(1) obtain a where a: "dedupe_artists u (tr_candidates ?best) = [a]" "r = to_match MatchTypo a" "\<not> b"
    by (auto simp: resolve_typo_def rank_typo_candidates_def Let_def split: if_splits list.splits)
  have "a \<in> set (tr_candidates ?best)" using dedupe_from_set [of u "[]" "tr_candidates ?best"] a(1) by (auto simp: dedupe_artists_def)
  with r assms(2) a(2,3) that [of a] show ?thesis unfolding ranked_def by (metis of_nat_le_iff)
qed


text \<open>An artist found in spite of case and punctuation.\<close>

definition sample_artists :: "artist_input list" where
  "sample_artists = [\<lparr>ai_record = ''r'', ai_name = ''A-b'', ai_spotify = ''s''\<rparr>]"


end
