(* ===== verification/Name_Parser.thy ===== *)
theory Name_Parser
  imports Artist_Index
begin

text \<open>
  Stored artist credits (\<^verbatim>\<open>internal/songbackfill/nameparser.go\<close>): a comma may separate artists or be part
  of a name, and an ellipsis stands for artists that were cut off.
\<close>

record parsed_artists =
  pn_prefix :: string
  pn_mode :: string
  pn_names :: "string list"
  pn_ellipsis :: bool
  pn_whole :: bool

definition known_single_artists :: "string list" where
  "known_single_artists = [''Earth, Wind & Fire'', ''Crosby, Stills & Nash'', ''Crosby, Stills, Nash & Young'']"

definition capitalised :: "unicode \<Rightarrow> string \<Rightarrow> bool" where
  "capitalised u s \<longleftrightarrow>
     (case runes s of [] \<Rightarrow> False | r # _ \<Rightarrow> decoded r \<noteq> replacement_rune \<and> uc_upper u r)"

definition stylized_segment :: "unicode \<Rightarrow> string \<Rightarrow> bool" where
  "stylized_segment u seg \<longleftrightarrow>
     \<not> contains seg ''('' \<and> \<not> contains seg '')'' \<and> \<not> contains (lower u seg) ''feat'' \<and> \<not> contains (lower u seg) ''ft.''
     \<and> \<not> contains seg '' '' \<and> 2 \<le> length seg \<and> length seg \<le> 20 \<and> capitalised u seg"

definition is_stylized_single_artist :: "unicode \<Rightarrow> string \<Rightarrow> bool" where
  "is_stylized_single_artist u name =
     (let normalized = replace_all '' and '' '','' (replace_all '' & '' '','' name);
          segments = filter (\<lambda>s. s \<noteq> []) (map trim_space (split_on (CHR '','') normalized))
      in if length segments < 2 \<or> 5 < length segments then False else list_all (stylized_segment u) segments)"

definition is_single_artist_name :: "unicode \<Rightarrow> string \<Rightarrow> bool" where
  "is_single_artist_name u name =
     (let before = trim_space (takeWhile (\<lambda>c. c \<noteq> CHR '','') name);
          after = trim_space (drop 1 (dropWhile (\<lambda>c. c \<noteq> CHR '','') name))
      in if \<not> contains name '','' then False
         else if lower u name \<in> set (map (lower u) known_single_artists) then True
         else if contains name '' & '' \<or> contains name '' and '' then is_stylized_single_artist u name
         else if 1 < length (filter (\<lambda>c. c = CHR '','') name) then False
         else if after = [] then False
         else if \<not> contains name '', ''
         then (if length before \<le> 2 \<or> length after \<le> 2 then False else CHR ''.'' \<in> set (before @ after))
         else (\<exists>article\<in>set [''the '', ''a '', ''an '']. has_prefix article (lower u after)))"

definition split_comma_list :: "string \<Rightarrow> string list" where
  "split_comma_list raw = filter (\<lambda>n. n \<noteq> [] \<and> n \<noteq> ''...'') (map trim_space (split_on (CHR '','') raw))"

definition first_artist_fragment :: "string list \<Rightarrow> string \<Rightarrow> string" where
  "first_artist_fragment parts raw =
     (if parts \<noteq> [] then hd parts
      else if CHR '','' \<in> set raw then trim_space (takeWhile (\<lambda>c. c \<noteq> CHR '','') raw)
      else trim_space (replace_all ''...'' [] raw))"

definition detect_ellipsis_mode :: "string \<Rightarrow> string" where
  "detect_ellipsis_mode value =
     (let v = trim_space value
      in if has_prefix ''...'' v then ''leading'' else if contains v ''...'' then ''trailing'' else [])"

definition parse_stored_artists :: "unicode \<Rightarrow> string \<Rightarrow> parsed_artists" where
  "parse_stored_artists u raw =
     (let clean = normalize_ellipsis (trim_space raw)
      in if clean = [] then \<lparr>pn_prefix = [], pn_mode = [], pn_names = [], pn_ellipsis = False, pn_whole = False\<rparr>
         else if is_single_artist_name u clean
         then \<lparr>pn_prefix = clean, pn_mode = [], pn_names = [clean], pn_ellipsis = False, pn_whole = True\<rparr>
         else (let parts = split_comma_list clean; first = first_artist_fragment parts clean; dots = contains clean ''...''
               in \<lparr>pn_prefix = (if dots then trim_chars '', '' (trim_space (replace_all ''...'' [] first)) else first),
                   pn_mode = detect_ellipsis_mode clean, pn_names = (if dots then [] else parts),
                   pn_ellipsis = dots, pn_whole = False\<rparr>))"

definition primary_artist_prefix :: "unicode \<Rightarrow> string \<Rightarrow> string" where
  "primary_artist_prefix u raw = pn_prefix (parse_stored_artists u raw)"

definition requires_multi_artist_prefill :: "unicode \<Rightarrow> string \<Rightarrow> bool" where
  "requires_multi_artist_prefill u raw =
     (let clean = normalize_ellipsis (trim_space raw)
      in if clean = [] \<or> is_single_artist_name u clean then False
         else if contains clean ''...'' then True else 1 < length (split_comma_list clean))"

definition stored_artist_multiplicity :: "unicode \<Rightarrow> string \<Rightarrow> nat" where
  "stored_artist_multiplicity u raw =
     (let clean = normalize_ellipsis (trim_space raw); n = length (split_comma_list clean)
      in if clean = [] then 0 else if is_single_artist_name u clean then 1
         else if contains clean ''...'' then (if n < 2 then 2 else n) else n)"

fun distinct_keys :: "unicode \<Rightarrow> string list \<Rightarrow> string list \<Rightarrow> string list" where
  "distinct_keys u seen [] = []"
| "distinct_keys u seen (n # ns) =
     (let k = normalize_loose_key u n
      in if k = [] \<or> k \<in> set seen then distinct_keys u seen ns else k # distinct_keys u (k # seen) ns)"

definition distinct_artist_count :: "unicode \<Rightarrow> string list \<Rightarrow> nat" where
  "distinct_artist_count u names = length (distinct_keys u [] names)"

definition preserves_stored_multiplicity :: "unicode \<Rightarrow> string \<Rightarrow> string list \<Rightarrow> bool" where
  "preserves_stored_multiplicity u raw names =
     (let required = stored_artist_multiplicity u raw
      in if required \<le> 1 then True else required \<le> distinct_artist_count u names)"

fun dedupe_names_from :: "unicode \<Rightarrow> string list \<Rightarrow> string list \<Rightarrow> string list" where
  "dedupe_names_from u seen [] = []"
| "dedupe_names_from u seen (n # ns) =
     (let t = trim_space n; k = normalize_loose_key u t
      in if t = [] \<or> k = [] \<or> k \<in> set seen then dedupe_names_from u seen ns else t # dedupe_names_from u (k # seen) ns)"

definition dedupe_artist_names :: "unicode \<Rightarrow> string list \<Rightarrow> string list" where
  "dedupe_artist_names u = dedupe_names_from u []"

end
