(* ===== verification/Track_Candidates.thy ===== *)
theory Track_Candidates
  imports Name_Parser "HOL-Library.Product_Lexorder"
begin

text \<open>
  Choosing among the tracks that outside catalogues offer for a song
  (\<^verbatim>\<open>internal/songbackfill/candidate.go\<close>). The catalogues are arguments; a confidence is an exact
  fraction. A Go map of groups is an association list: no result depends on the order it is walked in.
\<close>

record track_candidate =
  tc_source :: string
  tc_title :: string
  tc_names :: "string list"
  tc_album :: string
  tc_date :: string
  tc_type :: string
  tc_year :: int
  tc_conf :: rat

record song_input =
  si_id :: string
  si_title :: string
  si_artist :: string
  si_date :: string
  si_spotify :: string

section \<open>Keys and order\<close>

definition normalized_artist_list_key :: "unicode \<Rightarrow> string list \<Rightarrow> string" where
  "normalized_artist_list_key u names = join_with ''|'' (sort (distinct_keys u [] names))"

text \<open>\<^verbatim>\<open>sortTrackCandidates\<close> is a stable sort by confidence and number of names, both falling, source and title.\<close>

definition candidate_key :: "track_candidate \<Rightarrow> rat \<times> int \<times> string \<times> string" where
  "candidate_key c = (- tc_conf c, - int (length (tc_names c)), tc_source c, tc_title c)"

definition sort_track_candidates :: "track_candidate list \<Rightarrow> track_candidate list" where
  "sort_track_candidates = sort_key candidate_key"

definition candidate_identity :: "unicode \<Rightarrow> track_candidate \<Rightarrow> string" where
  "candidate_identity u c =
     tc_source c @ ''|'' @ normalize_loose_key u (tc_title c) @ ''|'' @ normalized_artist_list_key u (tc_names c)"

fun first_of_each :: "('a \<Rightarrow> string) \<Rightarrow> string list \<Rightarrow> 'a list \<Rightarrow> 'a list" where
  "first_of_each k seen [] = []"
| "first_of_each k seen (x # xs) =
     (if k x \<in> set seen then first_of_each k seen xs else x # first_of_each k (k x # seen) xs)"

definition dedupe_track_candidates :: "unicode \<Rightarrow> track_candidate list \<Rightarrow> track_candidate list" where
  "dedupe_track_candidates u cs = first_of_each (candidate_identity u) [] (sort_track_candidates cs)"

section \<open>Titles\<close>

definition canonical_penalty_keywords :: "string list" where
  "canonical_penalty_keywords =
     ['' remix'', '' mix'', '' edit'', '' acappella'', '' live'', '' extended'', '' radio edit'', '' club'', '' instrumental'']"

definition has_canonical_penalty :: "unicode \<Rightarrow> string \<Rightarrow> bool" where
  "has_canonical_penalty u title \<longleftrightarrow> (\<exists>m\<in>set canonical_penalty_keywords. contains (normalize_loose_key u title) m)"

definition canonical_track_title :: "unicode \<Rightarrow> string \<Rightarrow> string" where
  "canonical_track_title u title =
     (let normalized = normalize_loose_key u title;
          end_at = foldl (\<lambda>n m. case index_of m normalized of None \<Rightarrow> n | Some i \<Rightarrow> min i n) (length normalized)
                     canonical_penalty_keywords
      in if end_at < length normalized then trim_space (take end_at normalized) else normalized)"

definition featured_title :: "unicode \<Rightarrow> track_candidate \<Rightarrow> bool" where
  "featured_title u c \<longleftrightarrow> contains (normalize_loose_key u (tc_title c)) ''feat ''"

section \<open>Preferring canonical tracks\<close>

definition find_min_artist_count :: "unicode \<Rightarrow> track_candidate list \<Rightarrow> nat" where
  "find_min_artist_count u cs =
     foldl (\<lambda>m c. let n = distinct_artist_count u (tc_names c) in if n = 0 then m else if m = 0 \<or> n < m then n else m) 0 cs"

definition filter_by_artist_count :: "unicode \<Rightarrow> nat \<Rightarrow> track_candidate list \<Rightarrow> track_candidate list" where
  "filter_by_artist_count u n = filter (\<lambda>c. distinct_artist_count u (tc_names c) = n)"

definition filter_fewest_artists :: "unicode \<Rightarrow> track_candidate list \<Rightarrow> track_candidate list" where
  "filter_fewest_artists u cs =
     (if cs = [] \<or> (\<exists>c\<in>set cs. featured_title u c) then []
      else (let n = find_min_artist_count u cs in if n = 0 then [] else filter_by_artist_count u n cs))"

definition or_else :: "'a list \<Rightarrow> 'a list \<Rightarrow> 'a list" where "or_else xs ys = (if xs = [] then ys else xs)"

definition filter_canonical_titles :: "unicode \<Rightarrow> track_candidate list \<Rightarrow> track_candidate list" where
  "filter_canonical_titles u = filter (\<lambda>c. canonical_track_title u (tc_title c) = normalize_loose_key u (tc_title c))"

definition filter_without_version :: "unicode \<Rightarrow> track_candidate list \<Rightarrow> track_candidate list" where
  "filter_without_version u = filter (\<lambda>c. \<not> has_canonical_penalty u (tc_title c))"

definition prefer_canonical :: "unicode \<Rightarrow> track_candidate list \<Rightarrow> track_candidate list" where
  "prefer_canonical u cs =
     (let f1 = or_else (filter_canonical_titles u cs) cs;
          f2 = or_else (filter_without_version u f1) f1;
          f3 = or_else (filter_fewest_artists u f2) f2
      in sort_track_candidates f3)"

definition filter_additional_artists :: "unicode \<Rightarrow> track_candidate list \<Rightarrow> track_candidate list" where
  "filter_additional_artists u = filter (\<lambda>c. 1 < distinct_artist_count u (tc_names c))"

definition filter_for_multiplicity :: "unicode \<Rightarrow> string \<Rightarrow> track_candidate list \<Rightarrow> track_candidate list" where
  "filter_for_multiplicity u raw = filter (\<lambda>c. preserves_stored_multiplicity u raw (tc_names c))"

section \<open>Selecting\<close>

definition group_by :: "('a \<Rightarrow> string) \<Rightarrow> 'a list \<Rightarrow> (string \<times> 'a list) list" where
  "group_by k xs = foldl (\<lambda>m x. kv_put (k x) (listed m (k x) @ [x]) m) [] xs"

definition artist_list_of :: "unicode \<Rightarrow> track_candidate \<Rightarrow> string" where
  "artist_list_of u c = normalized_artist_list_key u (tc_names c)"

definition base_track_of :: "unicode \<Rightarrow> track_candidate \<Rightarrow> string" where
  "base_track_of u c = canonical_track_title u (tc_title c) @ ''|'' @ artist_list_of u c"

definition selected_note :: "track_candidate \<Rightarrow> string \<Rightarrow> remark list" where
  "selected_note c how = [NoteSelected (tc_title c) (tc_source c) (tc_conf c) how]"

type_synonym selection = "track_candidate option \<times> bool \<times> remark list"

definition no_candidate :: selection where
  "no_candidate = (None, False, [NoteText ''external lookup did not find a confident full artist credit''])"

definition filter_near_top :: "track_candidate list \<Rightarrow> track_candidate list" where
  "filter_near_top cs = filter (\<lambda>c. tc_conf (hd cs) \<le> tc_conf c + 2 / 100) cs"

definition select_canonical_single :: "unicode \<Rightarrow> track_candidate list \<Rightarrow> track_candidate option" where
  "select_canonical_single u cs =
     (case cs of [] \<Rightarrow> None | [c] \<Rightarrow> Some c
      | _ \<Rightarrow> if length (group_by (base_track_of u) cs) \<noteq> 1 then None else Some (hd (sort_track_candidates cs)))"

definition select_featured :: "unicode \<Rightarrow> track_candidate list \<Rightarrow> track_candidate option" where
  "select_featured u cs =
     (let featured = filter (featured_title u) cs; plain = or_else (filter_without_version u featured) featured
      in if featured = [] then None
         else if length (group_by (base_track_of u) plain) \<noteq> 1 then None
         else Some (hd (sort_track_candidates plain)))"

definition source_count :: "track_candidate list \<Rightarrow> nat" where "source_count cs = card (set (map tc_source cs))"

definition select_corroborated :: "(string \<times> track_candidate list) list \<Rightarrow> (string \<times> nat) option" where
  "select_corroborated groups =
     (case sort_key (\<lambda>(k, n). (- int n, k)) (map (\<lambda>(k, cs). (k, source_count cs)) groups) of
        [] \<Rightarrow> None
      | (k, n) # rest \<Rightarrow>
          if n \<le> 1 \<or> (case rest of [] \<Rightarrow> False | (_, n') # _ \<Rightarrow> n' = n) then None else Some (k, n))"

definition select_from_multiple :: "unicode \<Rightarrow> track_candidate list \<Rightarrow> rat \<Rightarrow> selection" where
  "select_from_multiple u near_top best =
     (let groups = group_by (artist_list_of u) near_top
      in case select_featured u near_top of
           Some c \<Rightarrow> (Some c, False, selected_note c ''featured-track canonical filtering'')
         | None \<Rightarrow>
             (case select_corroborated groups of
                Some (k, n) \<Rightarrow>
                  (let c = hd (sort_track_candidates (listed groups k))
                   in (Some c, False, selected_note c ''corroboration''))
              | None \<Rightarrow> (None, True, [NoteText ''external lookup returned multiple competing artist lists''])))"

definition select_track_candidate :: "unicode \<Rightarrow> track_candidate list \<Rightarrow> selection" where
  "select_track_candidate u cs =
     (if cs = [] then no_candidate
      else (let preferred = prefer_canonical u cs
            in if preferred = [] then no_candidate
               else (case select_canonical_single u preferred of
                       Some c \<Rightarrow> (Some c, False, selected_note c ''canonical variant filtering'')
                     | None \<Rightarrow>
                         (let near_top = filter_near_top preferred
                          in case group_by (artist_list_of u) near_top of
                               [(k, members)] \<Rightarrow>
                                 (let c = hd (sort_track_candidates members) in (Some c, False, selected_note c []))
                             | _ \<Rightarrow> select_from_multiple u near_top (tc_conf (hd preferred))))))"

section \<open>Asking several catalogues\<close>

text \<open>
  A catalogue, \<open>None\<close> when it is not configured. The context is asked again and again; \<open>ctx k\<close> is its
  error at the time of the \<open>k\<close>-th question.
\<close>

type_synonym track_lookup = "song_input \<Rightarrow> string \<Rightarrow> track_candidate list res"

fun chain_loop ::
    "(nat \<Rightarrow> gerr option) \<Rightarrow> nat \<Rightarrow> track_lookup option list \<Rightarrow> song_input \<Rightarrow> string \<Rightarrow> track_candidate list
     \<Rightarrow> gerr list \<Rightarrow> (track_candidate list \<times> gerr list) res" where
  "chain_loop ctx k [] song start found errs = Ok (found, errs)"
| "chain_loop ctx k (l # ls) song start found errs =
     (case (case ctx k of
              Some e \<Rightarrow> (Fail e, Suc k)
            | None \<Rightarrow>
                (case l of
                   None \<Rightarrow> (Ok [], Suc k)
                 | Some lookup \<Rightarrow>
                     (case lookup song start of
                        Inr cs \<Rightarrow> (Ok cs, Suc k)
                      | Inl e \<Rightarrow>
                          (case ctx (Suc k) of
                             Some e' \<Rightarrow> (Fail e', Suc (Suc k))
                           | None \<Rightarrow> (Fail (Errorf ''lookup failed'' [e]), Suc (Suc k)))))) of
        (Inr cs, k') \<Rightarrow> chain_loop ctx k' ls song start (found @ cs) errs
      | (Inl e, k') \<Rightarrow>
          if errors_is ErrContextDone e then Fail e else chain_loop ctx k' ls song start found (errs @ [e]))"

definition chain_lookup ::
    "unicode \<Rightarrow> (nat \<Rightarrow> gerr option) \<Rightarrow> track_lookup option list \<Rightarrow> song_input \<Rightarrow> string \<Rightarrow> track_candidate list res" where
  "chain_lookup u ctx ls song start =
     (case ctx 0 of
        Some e \<Rightarrow> Fail e
      | None \<Rightarrow>
          bind_res (chain_loop ctx 1 ls song start [] [])
            (\<lambda>(found, errs). let cs = dedupe_track_candidates u found
               in if cs \<noteq> [] then Ok cs else if errs \<noteq> [] then Fail (Errorf [] errs) else Ok []))"

section \<open>Bonuses\<close>

definition title_match_bonus :: "unicode \<Rightarrow> string \<Rightarrow> string \<Rightarrow> rat option" where
  "title_match_bonus u song_title candidate_title =
     (let song = normalize_loose_key u song_title; cand = normalize_loose_key u candidate_title;
          suffix = trim_space (if has_prefix song cand then drop (length song) cand else cand)
      in if song = [] \<or> cand = [] then None
         else if song = cand then Some (6 / 100)
         else if suffix = cand then None
         else if \<exists>m\<in>set [''feat '', ''featuring '', ''with '', ''from '']. has_prefix m suffix then Some (4 / 100) else None)"

fun primary_match_from :: "unicode \<Rightarrow> string \<Rightarrow> bool \<Rightarrow> string list \<Rightarrow> bool \<times> bool" where
  "primary_match_from u key at_front [] = (False, False)"
| "primary_match_from u key at_front (n # ns) =
     (let k = normalize_loose_key u n
      in if k \<noteq> [] \<and> (has_prefix key k \<or> has_prefix k key) then (True, at_front) else primary_match_from u key False ns)"

definition primary_artist_match :: "unicode \<Rightarrow> string \<Rightarrow> string list \<Rightarrow> bool \<times> bool" where
  "primary_artist_match u start names =
     (let key = normalize_loose_key u start in if key = [] then (False, False) else primary_match_from u key True names)"

definition year_match_adjustment :: "int \<Rightarrow> int \<Rightarrow> rat \<Rightarrow> rat \<Rightarrow> rat" where
  "year_match_adjustment recording song bonus penalty =
     (if recording = 0 \<or> song = 0 then 0
      else if recording = song then bonus else if 1 < \<bar>recording - song\<bar> then - penalty else 0)"

end
