(* ===== verification/Song_Resolver.thy ===== *)
theory Song_Resolver
  imports Track_Candidates
begin

text \<open>
  Resolving the artists of a song (\<^verbatim>\<open>internal/songbackfill/resolver.go\<close> and the result type of
  \<^verbatim>\<open>types.go\<close>): from the stored credit, from a prefilled credit, and for a credit that was cut off from
  the tracks that outside catalogues offer. What was noted on the way is part of the result.
\<close>

datatype res_action =
    ActionUpdate | ActionUpdateNameOnly | ActionSkipAmbiguous | ActionSkipLowConfidence | ActionSkipExisting
  | ActionSkipUnresolved | ActionNone

record candidate_summary =
  cs_source :: string
  cs_title :: string
  cs_names :: "string list"
  cs_year :: int
  cs_conf :: rat

record resolution =
  rs_song :: string
  rs_title :: string
  rs_date :: string
  rs_original :: string
  rs_original_ids :: string
  rs_updated :: string
  rs_updated_ids :: string
  rs_action :: res_action
  rs_strategy :: string
  rs_conf :: rat
  rs_matched :: "artist_match list"
  rs_candidates :: "candidate_summary list"
  rs_notes :: "remark list"

text \<open>The zero value of a \<^verbatim>\<open>Resolution\<close>; its action is the empty string.\<close>

definition empty_resolution :: resolution where
  "empty_resolution =
     \<lparr>rs_song = [], rs_title = [], rs_date = [], rs_original = [], rs_original_ids = [], rs_updated = [], rs_updated_ids = [],
      rs_action = ActionNone, rs_strategy = [], rs_conf = 0, rs_matched = [], rs_candidates = [], rs_notes = []\<rparr>"

definition approved :: "rat \<Rightarrow> resolution \<Rightarrow> bool" where
  "approved least r \<longleftrightarrow> rs_action r = ActionUpdate \<and> rs_updated_ids r \<noteq> [] \<and> least \<le> rs_conf r"

definition name_prefill_approved :: "rat \<Rightarrow> resolution \<Rightarrow> bool" where
  "name_prefill_approved least r \<longleftrightarrow>
     rs_action r = ActionUpdateNameOnly \<and> rs_updated r \<noteq> [] \<and> rs_updated r \<noteq> rs_original r \<and> least \<le> rs_conf r"

definition noting :: "remark list \<Rightarrow> resolution \<Rightarrow> resolution" where "noting ns r = r\<lparr>rs_notes := rs_notes r @ ns\<rparr>"

definition with_action :: "res_action \<Rightarrow> resolution \<Rightarrow> resolution" where "with_action a r = r\<lparr>rs_action := a\<rparr>"

definition apply_matches :: "artist_match list \<Rightarrow> string \<Rightarrow> rat \<Rightarrow> resolution \<Rightarrow> resolution" where
  "apply_matches ms strategy conf r =
     (if ms = [] then r
      else r\<lparr>rs_action := ActionUpdate, rs_strategy := strategy, rs_conf := conf, rs_matched := ms,
              rs_updated := join_with '', '' (map ma_name ms), rs_updated_ids := join_with '','' (map ma_spotify ms)\<rparr>)"

definition summarize_candidates :: "track_candidate list \<Rightarrow> candidate_summary list" where
  "summarize_candidates =
     map (\<lambda>c. \<lparr>cs_source = tc_source c, cs_title = tc_title c, cs_names = tc_names c, cs_year = tc_year c, cs_conf = tc_conf c\<rparr>)"

record resolver =
  rv_unicode :: unicode
  rv_index :: artist_index
  rv_prefill :: "track_lookup option"
  rv_track :: "track_lookup option"
  rv_least :: rat

definition new_resolver ::
    "unicode \<Rightarrow> artist_sorter \<Rightarrow> artist_input list \<Rightarrow> track_lookup option \<Rightarrow> track_lookup option \<Rightarrow> rat \<Rightarrow> resolver" where
  "new_resolver u sorter artists prefill track least =
     \<lparr>rv_unicode = u, rv_index = new_artist_index u sorter artists, rv_prefill = prefill, rv_track = track,
      rv_least = (if least \<le> 0 then 90 / 100 else least)\<rparr>"

section \<open>Names against the index\<close>

text \<open>The matches so far, the notes, and whether a name is missing; \<open>partial\<close> tolerates missing names.\<close>

fun resolve_names ::
    "resolver \<Rightarrow> bool \<Rightarrow> string list \<Rightarrow> artist_match list \<Rightarrow> remark list \<Rightarrow> bool \<Rightarrow> artist_match list option \<times> bool \<times> remark list" where
  "resolve_names rv partial [] ms ns missing =
     ((if ms = [] \<or> partial \<and> \<not> missing then None else Some ms), False, ns)"
| "resolve_names rv partial (n # names) ms ns missing =
     (case resolve_exact (rv_unicode rv) (rv_index rv) n of
        (r, True, ns') \<Rightarrow> (None, True, ns @ ns')
      | (None, False, ns') \<Rightarrow>
          if partial then resolve_names rv partial names ms (ns @ ns') True else (None, False, ns @ ns')
      | (Some m, False, ns') \<Rightarrow>
          resolve_names rv partial names (if ma_spotify m \<in> ma_spotify ` set ms then ms else ms @ [m]) (ns @ ns') missing)"

definition match_names :: "resolver \<Rightarrow> string list \<Rightarrow> artist_match list option \<times> bool \<times> remark list" where
  "match_names rv names = resolve_names rv False names [] [] False"

definition match_names_partial :: "resolver \<Rightarrow> string list \<Rightarrow> artist_match list \<times> bool \<times> remark list" where
  "match_names_partial rv names =
     (case resolve_names rv True names [] [] False of
        (r, ambiguous, ns) \<Rightarrow> ((case r of None \<Rightarrow> [] | Some ms \<Rightarrow> ms), ambiguous, ns))"

definition match_confidence :: "match_type \<Rightarrow> rat \<Rightarrow> rat" where
  "match_confidence t c =
     (case t of MatchExact \<Rightarrow> c | MatchLoose \<Rightarrow> (if c < 95 / 100 then c else 95 / 100) | _ \<Rightarrow> (if c < 90 / 100 then c else 90 / 100))"

definition confidence_for_matches :: "artist_match list \<Rightarrow> rat" where
  "confidence_for_matches ms = (if ms = [] then 0 else foldl (\<lambda>c m. match_confidence (ma_type m) c) (98 / 100) ms)"

section \<open>The stored credit\<close>

definition apply_stored_names :: "resolver \<Rightarrow> string list \<Rightarrow> resolution \<Rightarrow> bool \<times> resolution" where
  "apply_stored_names rv names r =
     (case match_names rv names of
        (Some ms, ambiguous, ns) \<Rightarrow> (True, apply_matches ms ''stored_artist_name'' (confidence_for_matches ms) (noting ns r))
      | (None, True, ns) \<Rightarrow> (False, with_action ActionSkipAmbiguous (noting ns r))
      | (None, False, ns) \<Rightarrow> (False, noting ns r))"

section \<open>The prefilled credit\<close>

definition apply_prefill_name_only ::
    "resolver \<Rightarrow> track_candidate \<Rightarrow> string list \<Rightarrow> artist_match list \<Rightarrow> resolution \<Rightarrow> resolution" where
  "apply_prefill_name_only rv c names partial r =
     (if partial \<noteq> [] \<and> rv_least rv \<le> tc_conf c
      then noting [NotePartial (length partial) (length names)]
             (r\<lparr>rs_action := ActionUpdateNameOnly, rs_updated_ids := [], rs_matched := partial\<rparr>)
      else if rv_least rv \<le> tc_conf c
      then noting [NoteText ''prefill candidate did not match any known artists; manual review required before updating artist_name''] r
      else noting [NoteText ''prefill candidate requires manual review before updating artist_name'']
             (with_action ActionSkipLowConfidence r))"

definition apply_prefill_matches ::
    "resolver \<Rightarrow> track_candidate \<Rightarrow> string list \<Rightarrow> resolution \<Rightarrow> resolution \<times> bool" where
  "apply_prefill_matches rv c names r =
     (case match_names rv names of
        (ms, True, ns) \<Rightarrow> (with_action ActionSkipAmbiguous (noting ns r), True)
      | (Some ms, False, ns) \<Rightarrow>
          (let conf = (if tc_conf c < confidence_for_matches ms then tc_conf c else confidence_for_matches ms); r1 = noting ns r
           in if conf < rv_least rv then (noting [NoteConfidence conf (rv_least rv)] (with_action ActionSkipLowConfidence r1), True)
              else (apply_matches ms (tc_source c @ ''_prefill'') conf r1, True))
      | (None, False, ns) \<Rightarrow>
          (case match_names_partial rv names of
             (partial, ambiguous, ns') \<Rightarrow>
               (let r1 = noting ns' (noting ns r)
                in if ambiguous then (with_action ActionSkipAmbiguous r1, True)
                   else (apply_prefill_name_only rv c names partial r1, True))))"

definition apply_prefill_candidate ::
    "resolver \<Rightarrow> song_input \<Rightarrow> track_candidate list \<Rightarrow> resolution \<Rightarrow> resolution \<times> bool" where
  "apply_prefill_candidate rv song cs r =
     (let u = rv_unicode rv; r0 = r\<lparr>rs_candidates := summarize_candidates cs\<rparr>
      in case select_track_candidate u cs of
           (sel, ambiguous, ns) \<Rightarrow>
             (let r1 = noting ns r0
              in if ambiguous then (with_action ActionSkipAmbiguous r1, True)
                 else (case sel of
                         None \<Rightarrow> (r1, False)
                       | Some c \<Rightarrow>
                           (let names = dedupe_artist_names u (tc_names c)
                            in if \<not> preserves_stored_multiplicity u (si_artist song) names
                               then (noting [NoteText ''prefill candidate would collapse a known multi-artist credit''] r1, False)
                               else apply_prefill_matches rv c names
                                      (noting [NoteSelected (tc_title c) (tc_source c) (tc_conf c) ''prefill'']
                                        (r1\<lparr>rs_updated := join_with '', '' names, rs_strategy := tc_source c @ ''_prefill'',
                                            rs_conf := tc_conf c\<rparr>))))))"

definition resolve_via_prefill ::
    "resolver \<Rightarrow> gerr option \<Rightarrow> song_input \<Rightarrow> parsed_artists \<Rightarrow> resolution \<Rightarrow> resolution \<times> bool" where
  "resolve_via_prefill rv ctx song parsed r =
     (case rv_prefill rv of
        None \<Rightarrow> (empty_resolution, False)
      | Some lookup \<Rightarrow>
          if \<not> requires_multi_artist_prefill (rv_unicode rv) (si_artist song) then (empty_resolution, False)
          else (let start = (if pn_prefix parsed = [] \<and> pn_names parsed \<noteq> [] then hd (pn_names parsed) else pn_prefix parsed)
                in if ctx \<noteq> None then (r, False)
                   else (case lookup song start of
                           Inl e \<Rightarrow> (noting [NoteFailed e] r, False)
                         | Inr cs \<Rightarrow>
                             if cs = [] then (empty_resolution, False)
                             else (let multi = filter_for_multiplicity (rv_unicode rv) (si_artist song) cs
                                   in if multi = []
                                      then (noting [NoteText ''name prefill did not yield a safe multi-artist expansion'']
                                              (r\<lparr>rs_candidates := summarize_candidates cs\<rparr>), False)
                                      else apply_prefill_candidate rv song multi r))))"

section \<open>The cut-off credit\<close>

definition prefix_note :: "resolver \<Rightarrow> string \<Rightarrow> remark list" where
  "prefix_note rv start =
     (case resolve_prefix (rv_unicode rv) (rv_index rv) start of None \<Rightarrow> [] | Some a \<Rightarrow> [NotePrefix (ai_name a) (ai_spotify a)])"

definition note_prefix_match :: "resolver \<Rightarrow> string \<Rightarrow> resolution \<Rightarrow> resolution" where
  "note_prefix_match rv start r = (if start = [] then r else noting (prefix_note rv start) r)"

definition apply_partial_match :: "resolver \<Rightarrow> track_candidate \<Rightarrow> resolution \<Rightarrow> resolution" where
  "apply_partial_match rv c r =
     (case match_names_partial rv (tc_names c) of
        (partial, ambiguous, ns) \<Rightarrow>
          (let r1 = noting ns r; names = dedupe_artist_names (rv_unicode rv) (tc_names c)
           in if ambiguous then with_action ActionSkipAmbiguous r1
              else if partial \<noteq> [] \<and> rv_least rv \<le> tc_conf c
              then noting [NotePartial (length partial) (length names)]
                     (r1\<lparr>rs_action := ActionUpdateNameOnly, rs_strategy := tc_source c, rs_conf := tc_conf c, rs_matched := partial,
                         rs_updated := join_with '', '' names, rs_updated_ids := []\<rparr>)
              else r1))"

definition apply_track_candidate :: "resolver \<Rightarrow> track_candidate list \<Rightarrow> resolution \<Rightarrow> resolution" where
  "apply_track_candidate rv cs r =
     (case select_track_candidate (rv_unicode rv) cs of
        (sel, ambiguous, ns) \<Rightarrow>
          (let r1 = noting ns r; r2 = (if ambiguous then with_action ActionSkipAmbiguous r1 else r1)
           in case sel of
                None \<Rightarrow> r2
              | Some c \<Rightarrow>
                  (case match_names rv (tc_names c) of
                     (ms, True, ns') \<Rightarrow> with_action ActionSkipAmbiguous (noting ns' r2)
                   | (None, False, ns') \<Rightarrow> apply_partial_match rv c (noting ns' r2)
                   | (Some ms, False, ns') \<Rightarrow>
                       if tc_conf c < rv_least rv
                       then noting [NoteConfidence (tc_conf c) (rv_least rv)] (with_action ActionSkipLowConfidence (noting ns' r2))
                       else apply_matches ms (tc_source c) (tc_conf c) (noting ns' r2))))"

definition resolve_ellipsis :: "resolver \<Rightarrow> gerr option \<Rightarrow> song_input \<Rightarrow> parsed_artists \<Rightarrow> resolution \<Rightarrow> resolution" where
  "resolve_ellipsis rv ctx song parsed r =
     (if pn_prefix parsed = [] then noting [NoteText ''ellipsis artist name has no usable primary artist prefix''] r
      else (let r1 = noting (prefix_note rv (pn_prefix parsed)) r
            in case rv_track rv of
                 None \<Rightarrow> noting [NoteText ''no external track metadata lookup configured''] r1
               | Some lookup \<Rightarrow>
                   if ctx \<noteq> None then r1
                   else (case lookup song (pn_prefix parsed) of
                           Inl e \<Rightarrow> noting [NoteFailed e] r1
                         | Inr found \<Rightarrow>
                             (let cs = (if pn_ellipsis parsed then filter_additional_artists (rv_unicode rv) found else found)
                              in if pn_ellipsis parsed \<and> cs = []
                                 then noting [NoteText ''external lookup did not find a confident multi-artist credit for an ellipsis-based song''] r1
                                 else apply_track_candidate rv cs (r1\<lparr>rs_candidates := summarize_candidates cs\<rparr>)))))"

section \<open>Resolving\<close>

text \<open>The context is asked before each of the two lookups.\<close>

definition resolve_song :: "resolver \<Rightarrow> gerr option \<Rightarrow> gerr option \<Rightarrow> song_input \<Rightarrow> resolution" where
  "resolve_song rv ctx ctx' song =
     (let r0 = empty_resolution\<lparr>rs_song := si_id song, rs_title := trim_space (si_title song), rs_date := trim_space (si_date song),
                 rs_original := trim_space (si_artist song), rs_original_ids := trim_space (si_spotify song),
                 rs_action := ActionSkipUnresolved\<rparr>
      in if rs_original_ids r0 \<noteq> []
         then noting [NoteText ''artist_spotify_ids already populated''] (r0\<lparr>rs_action := ActionSkipExisting, rs_conf := 1\<rparr>)
         else (let parsed = parse_stored_artists (rv_unicode rv) (si_artist song)
               in if pn_names parsed = [] \<and> pn_prefix parsed = []
                  then noting [NoteText ''artist_name is empty after normalization''] r0
                  else (case apply_stored_names rv (pn_names parsed) r0 of
                          (True, r1) \<Rightarrow> r1
                        | (False, r1) \<Rightarrow>
                            (case resolve_via_prefill rv ctx song parsed r1 of
                               (r2, True) \<Rightarrow> r2
                             | (r2, False) \<Rightarrow>
                                 (let r3 = (if rs_action r2 \<noteq> ActionNone \<or> rs_notes r2 \<noteq> [] \<or> rs_candidates r2 \<noteq> [] then r2 else r1)
                                  in if \<not> pn_ellipsis parsed then note_prefix_match rv (pn_prefix parsed) r3
                                     else resolve_ellipsis rv ctx' song parsed r3)))))"

end
