(* ===== verification/Song_Resolver_Properties.thy ===== *)
theory Song_Resolver_Properties
  imports Song_Resolver
begin

text \<open>What a resolution that updates a song rests on.\<close>

section \<open>A selected track is one that was offered\<close>

lemma set_or_else: "set (or_else xs ys) \<subseteq> set xs \<union> set ys"
  by (simp add: or_else_def)

lemma set_sort_track [simp]: "set (sort_track_candidates cs) = set cs"
  by (simp add: sort_track_candidates_def)

lemma sort_track_Nil [simp]: "sort_track_candidates cs = [] \<longleftrightarrow> cs = []"
  by (metis set_empty set_sort_track)

lemma hd_sort_track: "cs \<noteq> [] \<Longrightarrow> hd (sort_track_candidates cs) \<in> set cs"
  by (metis hd_in_set set_sort_track sort_track_Nil)

lemma prefer_canonical_subset: "set (prefer_canonical u cs) \<subseteq> set cs"
  by (auto simp: prefer_canonical_def Let_def or_else_def filter_canonical_titles_def filter_without_version_def
      filter_fewest_artists_def filter_by_artist_count_def split: if_splits)

lemma group_by_holds:
  "listed (foldl (\<lambda>m x. kv_put (k x) (listed m (k x) @ [x]) m) m xs) key = listed m key @ filter (\<lambda>x. k x = key) xs"
  by (induction xs arbitrary: m) (simp_all add: listed_def)

lemma listed_group_by [simp]: "listed (group_by k xs) key = filter (\<lambda>x. k x = key) xs"
  using group_by_holds [of k "[]" xs key] by (simp add: group_by_def listed_def)

lemma group_by_keys: "fst ` set (foldl (\<lambda>m x. kv_put (k x) (listed m (k x) @ [x]) m) m xs) = fst ` set m \<union> k ` set xs"
proof (induction xs arbitrary: m)
  case (Cons x xs)
  then show ?case using keys_kv_put [of "k x" "listed m (k x) @ [x]" m] by auto
qed simp

lemma group_key: "key \<in> fst ` set (group_by k xs) \<longleftrightarrow> key \<in> k ` set xs"
  using group_by_keys [of k "[]" xs] by (simp add: group_by_def)

lemma group_distinct: "distinct (map fst (group_by k xs))"
proof -
  have "distinct (map fst (foldl (\<lambda>m x. kv_put (k x) (listed m (k x) @ [x]) m) m xs))" if "distinct (map fst m)" for m
    using that by (induction xs arbitrary: m) (simp_all add: distinct_kv_put)
  then show ?thesis by (simp add: group_by_def)
qed

lemma group_member:
  assumes "(key, members) \<in> set (group_by k xs)"
  shows "members = filter (\<lambda>x. k x = key) xs" and "members \<noteq> []"
proof -
  have "map_of (group_by k xs) key = Some members" using assms group_distinct [of k xs] by (simp add: map_of_eq_Some_iff)
  then show m: "members = filter (\<lambda>x. k x = key) xs" using listed_group_by [of k xs key] by (simp add: listed_def)
  have "key \<in> k ` set xs" using assms group_key [of key k xs] by force
  then show "members \<noteq> []" unfolding m by (auto simp: filter_empty_conv)
qed

lemma select_single_member:
  assumes "select_canonical_single u cs = Some c"
  shows "c \<in> set cs"
proof (cases cs)
  case (Cons x xs)
  with assms have "c = x \<or> c = hd (sort_track_candidates cs)"
    by (auto simp: select_canonical_single_def split: list.splits if_splits)
  with hd_sort_track [of cs] Cons show ?thesis by auto
qed (use assms in \<open>simp add: select_canonical_single_def\<close>)

lemma select_featured_member:
  assumes "select_featured u cs = Some c"
  shows "c \<in> set cs"
proof -
  let ?plain = "or_else (filter_without_version u (filter (featured_title u) cs)) (filter (featured_title u) cs)"
  from assms have "c = hd (sort_track_candidates ?plain)" "?plain \<noteq> []"
    by (auto simp: select_featured_def Let_def or_else_def split: if_splits)
  then have "c \<in> set ?plain" using hd_sort_track by metis
  then show ?thesis by (auto simp: or_else_def filter_without_version_def split: if_splits)
qed

lemma corroborated_key: "select_corroborated groups = Some (k, n) \<Longrightarrow> k \<in> fst ` set groups"
proof -
  let ?sorted = "sort_key (\<lambda>(k, n). (- int n, k)) (map (\<lambda>(k, cs). (k, source_count cs)) groups)"
  assume "select_corroborated groups = Some (k, n)"
  then have "\<exists>rest. ?sorted = (k, n) # rest"
    by (simp add: select_corroborated_def split: list.splits prod.splits if_splits del: set_sort)
  then have "(k, n) \<in> set ?sorted" by (metis list.set_intros(1))
  then show ?thesis by force
qed

lemma select_multiple_member:
  assumes "select_from_multiple u near_top best = (Some c, b, ns)"
  shows "c \<in> set near_top \<and> \<not> b"
proof (cases "select_featured u near_top")
  case None
  with assms obtain k n where k: "select_corroborated (group_by (artist_list_of u) near_top) = Some (k, n)"
    and c: "c = hd (sort_track_candidates (filter (\<lambda>c. artist_list_of u c = k) near_top))" "\<not> b"
    by (auto simp: select_from_multiple_def Let_def split: option.splits prod.splits)
  have "filter (\<lambda>c. artist_list_of u c = k) near_top \<noteq> []"
    using corroborated_key [OF k] by (auto simp: group_key filter_empty_conv)
  with hd_sort_track c show ?thesis by fastforce
next
  case (Some d)
  with assms select_featured_member [OF Some] show ?thesis by (simp add: select_from_multiple_def Let_def)
qed

lemma selected_member:
  assumes "select_track_candidate u cs = (Some c, b, ns)"
  shows "c \<in> set cs" and "\<not> b"
proof -
  let ?p = "prefer_canonical u cs"
  let ?near = "filter_near_top ?p"
  have sub: "set ?near \<subseteq> set cs" using prefer_canonical_subset [of u cs] by (auto simp: filter_near_top_def)
  have "c \<in> set cs \<and> \<not> b"
  proof (cases "select_canonical_single u ?p")
    case (Some d)
    with assms select_single_member [OF Some] prefer_canonical_subset [of u cs] show ?thesis
      by (auto simp: select_track_candidate_def no_candidate_def Let_def split: if_splits)
  next
    case None
    show ?thesis
    proof (cases "\<exists>k members. group_by (artist_list_of u) ?near = [(k, members)]")
      case True
      then obtain k members where g: "group_by (artist_list_of u) ?near = [(k, members)]" by blast
      with group_member [of k members "artist_list_of u" ?near] have "members \<noteq> []" "set members \<subseteq> set ?near" by auto
      with hd_sort_track [of members] sub assms None g show ?thesis
        by (auto simp: select_track_candidate_def no_candidate_def Let_def split: if_splits)
    next
      case False
      then have "select_from_multiple u ?near (tc_conf (hd ?p)) = (Some c, b, ns)"
        using assms None by (auto simp: select_track_candidate_def no_candidate_def Let_def split: if_splits list.splits)
      from select_multiple_member [OF this] sub show ?thesis by auto
    qed
  qed
  then show "c \<in> set cs" "\<not> b" by auto
qed

section \<open>Names\<close>

text \<open>The matches of a list of names: each name has one, and each comes from a name.\<close>

definition matched_names :: "unicode \<Rightarrow> artist_index \<Rightarrow> string list \<Rightarrow> artist_match list \<Rightarrow> bool" where
  "matched_names u ix names ms \<longleftrightarrow>
     ms \<noteq> [] \<and> distinct (map ma_spotify ms)
   \<and> (\<forall>n\<in>set names. \<exists>m ns. resolve_exact u ix n = (Some m, False, ns) \<and> ma_spotify m \<in> ma_spotify ` set ms)
   \<and> (\<forall>m\<in>set ms. \<exists>n\<in>set names. \<exists>ns. resolve_exact u ix n = (Some m, False, ns))"

lemma resolve_names_all:
  assumes "resolve_names rv False names ms ns missing = (Some ms', b, ns')" and "distinct (map ma_spotify ms)"
  shows "ms' \<noteq> [] \<and> \<not> b \<and> distinct (map ma_spotify ms') \<and> set ms \<subseteq> set ms'
   \<and> (\<forall>n\<in>set names. \<exists>m ns. resolve_exact (rv_unicode rv) (rv_index rv) n = (Some m, False, ns) \<and> ma_spotify m \<in> ma_spotify ` set ms')
   \<and> (\<forall>m\<in>set ms'. m \<in> set ms \<or> (\<exists>n\<in>set names. \<exists>ns. resolve_exact (rv_unicode rv) (rv_index rv) n = (Some m, False, ns)))"
  using assms
proof (induction names arbitrary: ms ns)
  case (Cons n names)
  obtain r b1 ns1 where e: "resolve_exact (rv_unicode rv) (rv_index rv) n = (r, b1, ns1)" by (metis prod_cases3)
  from Cons.prems(1) e obtain m where m: "r = Some m" "\<not> b1" by (cases b1; cases r) auto
  let ?ms = "if ma_spotify m \<in> ma_spotify ` set ms then ms else ms @ [m]"
  have run: "resolve_names rv False names ?ms (ns @ ns1) missing = (Some ms', b, ns')" using Cons.prems(1) e m by simp
  have d: "distinct (map ma_spotify ?ms)" using Cons.prems(2) by auto
  have "ma_spotify m \<in> ma_spotify ` set ?ms" by auto
  with Cons.IH [OF run d] e m show ?case by (auto split: if_splits)
qed (auto split: if_splits)

lemma match_names_ok:
  "match_names rv names = (Some ms, b, ns) \<Longrightarrow> \<not> b \<and> matched_names (rv_unicode rv) (rv_index rv) names ms"
  using resolve_names_all [of rv names "[]" "[]" False ms b ns] by (simp add: match_names_def matched_names_def)

section \<open>What an update rests on\<close>

text \<open>The result credits the artists that the names resolve to.\<close>

definition credits :: "resolver \<Rightarrow> string list \<Rightarrow> resolution \<Rightarrow> bool" where
  "credits rv names r \<longleftrightarrow>
     matched_names (rv_unicode rv) (rv_index rv) names (rs_matched r)
   \<and> rs_updated r = join_with '', '' (map ma_name (rs_matched r))
   \<and> rs_updated_ids r = join_with '','' (map ma_spotify (rs_matched r))"

definition confident :: "resolver \<Rightarrow> track_candidate \<Rightarrow> resolution \<Rightarrow> bool" where
  "confident rv c r \<longleftrightarrow> rv_least rv \<le> rs_conf r \<and> rs_conf r \<le> tc_conf c"

text \<open>The names are those of one of the candidates, as the prefill or the track lookup reads them.\<close>

definition offered :: "resolver \<Rightarrow> track_candidate list \<Rightarrow> resolution \<Rightarrow> bool" where
  "offered rv cs r \<longleftrightarrow>
     (\<exists>c\<in>set cs. confident rv c r \<and> (credits rv (tc_names c) r \<or> credits rv (dedupe_artist_names (rv_unicode rv) (tc_names c)) r))"

definition looked_up :: "resolver \<Rightarrow> song_input \<Rightarrow> resolution \<Rightarrow> bool" where
  "looked_up rv song r \<longleftrightarrow>
     (\<exists>lookup start found. (rv_prefill rv = Some lookup \<or> rv_track rv = Some lookup)
        \<and> lookup song start = Inr found \<and> offered rv found r)"

lemma action_noting [simp]: "rs_action (noting ns r) = rs_action r"
  by (simp add: noting_def)

lemma action_with_action [simp]: "rs_action (with_action a r) = a"
  by (simp add: with_action_def)

lemma action_empty [simp]: "rs_action empty_resolution = ActionNone"
  by (simp add: empty_resolution_def)

lemma applied_credits:
  "matched_names (rv_unicode rv) (rv_index rv) names ms \<Longrightarrow> credits rv names (apply_matches ms strategy conf r)"
  by (auto simp: credits_def apply_matches_def matched_names_def)

lemma applied_conf: "matched_names u ix names ms \<Longrightarrow> rs_conf (apply_matches ms strategy conf r) = conf"
  by (auto simp: apply_matches_def matched_names_def)

lemma stored_names_update:
  assumes "apply_stored_names rv names r = (ok, r')"
  shows "ok \<Longrightarrow> credits rv names r'" and "\<not> ok \<Longrightarrow> rs_action r' = ActionUpdate \<Longrightarrow> rs_action r = ActionUpdate"
proof -
  obtain ms b ns where m: "match_names rv names = (ms, b, ns)" by (metis prod_cases3)
  show "credits rv names r'" if "ok"
    using assms that m match_names_ok [of rv names _ b ns] applied_credits
    by (cases ms; cases b) (auto simp: apply_stored_names_def)
  show "rs_action r = ActionUpdate" if "\<not> ok" "rs_action r' = ActionUpdate"
    using assms that m by (cases ms; cases b) (auto simp: apply_stored_names_def)
qed

lemma name_only_update:
  "rs_action (apply_prefill_name_only rv c names partial r) = ActionUpdate \<Longrightarrow> rs_action r = ActionUpdate"
  by (auto simp: apply_prefill_name_only_def split: if_splits)

lemma prefill_matches_update:
  assumes "apply_prefill_matches rv c names r = (r', b)" and "rs_action r' = ActionUpdate" and "rs_action r \<noteq> ActionUpdate"
  shows "credits rv names r' \<and> confident rv c r'"
proof -
  obtain ms amb ns where m: "match_names rv names = (ms, amb, ns)" by (metis prod_cases3)
  obtain partial amb' ns' where p: "match_names_partial rv names = (partial, amb', ns')" by (metis prod_cases3)
  let ?r = "noting ns' (noting ns r)"
  have never: "rs_action (apply_prefill_name_only rv c names partial ?r) \<noteq> ActionUpdate"
    using name_only_update [of rv c names partial ?r] assms(3) by auto
  show ?thesis
  proof (cases ms)
    case None
    with assms m p never show ?thesis by (cases amb) (auto simp: apply_prefill_matches_def Let_def split: if_splits)
  next
    case (Some matched)
    let ?conf = "if tc_conf c < confidence_for_matches matched then tc_conf c else confidence_for_matches matched"
    from Some assms m have r: "r' = apply_matches matched (tc_source c @ ''_prefill'') ?conf (noting ns r)"
        "\<not> ?conf < rv_least rv" "\<not> amb"
      by (cases amb; auto simp: apply_prefill_matches_def Let_def split: if_splits)+
    from match_names_ok m Some have k: "matched_names (rv_unicode rv) (rv_index rv) names matched" by blast
    with r show ?thesis using applied_credits [OF k] applied_conf [OF k] by (simp add: confident_def)
  qed
qed

lemma prefill_candidate_update:
  assumes "apply_prefill_candidate rv song cs r = (r', b)" and "rs_action r' = ActionUpdate" and "rs_action r \<noteq> ActionUpdate"
  shows "offered rv cs r'"
proof -
  obtain sel amb ns where s: "select_track_candidate (rv_unicode rv) cs = (sel, amb, ns)" by (metis prod_cases3)
  show ?thesis
  proof (cases sel)
    case None
    with assms s show ?thesis by (cases amb) (auto simp: apply_prefill_candidate_def Let_def)
  next
    case (Some c)
    with s have c: "c \<in> set cs" "\<not> amb" using selected_member [of "rv_unicode rv" cs c amb ns] by auto
    let ?names = "dedupe_artist_names (rv_unicode rv) (tc_names c)"
    have "\<exists>r0. apply_prefill_matches rv c ?names r0 = (r', b) \<and> rs_action r0 \<noteq> ActionUpdate"
      using assms s Some c by (auto simp: apply_prefill_candidate_def Let_def split: if_splits)
    with prefill_matches_update [of rv c ?names _ r' b] assms(2) c show ?thesis unfolding offered_def by blast
  qed
qed

lemma offered_subset: "offered rv cs r \<Longrightarrow> set cs \<subseteq> set found \<Longrightarrow> offered rv found r"
  by (auto simp: offered_def)

lemma via_prefill_update:
  assumes "resolve_via_prefill rv ctx song parsed r = (r', b)" and "rs_action r' = ActionUpdate" and "rs_action r \<noteq> ActionUpdate"
  shows "looked_up rv song r'"
proof (cases "rv_prefill rv")
  case None
  with assms show ?thesis by (auto simp: resolve_via_prefill_def)
next
  case (Some lookup)
  let ?start = "if pn_prefix parsed = [] \<and> pn_names parsed \<noteq> [] then hd (pn_names parsed) else pn_prefix parsed"
  from assms Some obtain found where f: "lookup song ?start = Inr found"
    and a: "apply_prefill_candidate rv song (filter_for_multiplicity (rv_unicode rv) (si_artist song) found) r = (r', b)"
    by (auto simp: resolve_via_prefill_def Let_def split: if_splits sum.splits)
  have "offered rv (filter_for_multiplicity (rv_unicode rv) (si_artist song) found) r'"
    by (rule prefill_candidate_update [OF a assms(2,3)])
  then have "offered rv found r'" by (rule offered_subset) (auto simp: filter_for_multiplicity_def)
  with Some f show ?thesis unfolding looked_up_def by blast
qed

lemma partial_match_update: "rs_action (apply_partial_match rv c r) = ActionUpdate \<Longrightarrow> rs_action r = ActionUpdate"
  by (auto simp: apply_partial_match_def Let_def split: prod.splits if_splits)

lemma track_candidate_update:
  assumes "rs_action (apply_track_candidate rv cs r) = ActionUpdate" and "rs_action r \<noteq> ActionUpdate"
  shows "offered rv cs (apply_track_candidate rv cs r)"
proof -
  obtain sel amb ns where s: "select_track_candidate (rv_unicode rv) cs = (sel, amb, ns)" by (metis prod_cases3)
  show ?thesis
  proof (cases sel)
    case None
    with assms s show ?thesis by (cases amb) (auto simp: apply_track_candidate_def Let_def)
  next
    case (Some c)
    with s have c: "c \<in> set cs" "\<not> amb" using selected_member [of "rv_unicode rv" cs c amb ns] by auto
    obtain ms amb' ns' where m: "match_names rv (tc_names c) = (ms, amb', ns')" by (metis prod_cases3)
    have never: "rs_action (apply_partial_match rv c (noting ns' (noting ns r))) \<noteq> ActionUpdate"
      using partial_match_update [of rv c "noting ns' (noting ns r)"] assms(2) by auto
    from assms s Some c m never obtain matched where k: "ms = Some matched" "\<not> amb'" "\<not> tc_conf c < rv_least rv"
      and r: "apply_track_candidate rv cs r = apply_matches matched (tc_source c) (tc_conf c) (noting ns' (noting ns r))"
      by (cases ms; cases amb') (auto simp: apply_track_candidate_def Let_def split: if_splits)
    from match_names_ok m k have "matched_names (rv_unicode rv) (rv_index rv) (tc_names c) matched" by blast
    from applied_credits [OF this] applied_conf [OF this] k c show ?thesis
      unfolding r offered_def confident_def by auto
  qed
qed

lemma ellipsis_update:
  assumes "rs_action (resolve_ellipsis rv ctx song parsed r) = ActionUpdate" and "rs_action r \<noteq> ActionUpdate"
  shows "looked_up rv song (resolve_ellipsis rv ctx song parsed r)"
proof -
  from assms obtain lookup found where l: "rv_track rv = Some lookup" "lookup song (pn_prefix parsed) = Inr found"
    by (auto simp: resolve_ellipsis_def Let_def split: if_splits option.splits sum.splits)
  let ?cs = "if pn_ellipsis parsed then filter_additional_artists (rv_unicode rv) found else found"
  let ?r = "(noting (prefix_note rv (pn_prefix parsed)) r)\<lparr>rs_candidates := summarize_candidates ?cs\<rparr>"
  have run: "resolve_ellipsis rv ctx song parsed r = apply_track_candidate rv ?cs ?r"
    using assms l by (auto simp: resolve_ellipsis_def Let_def split: if_splits)
  have "offered rv ?cs (apply_track_candidate rv ?cs ?r)"
    by (rule track_candidate_update) (use assms run in auto)
  then have "offered rv found (resolve_ellipsis rv ctx song parsed r)"
    unfolding run by (rule offered_subset) (auto simp: filter_additional_artists_def)
  with l show ?thesis unfolding looked_up_def by blast
qed

lemma prefill_not_done:
  assumes "resolve_via_prefill rv ctx song parsed r = (r', False)" and "rs_action r \<noteq> ActionUpdate"
  shows "rs_action r' \<noteq> ActionUpdate"
proof -
  have candidate: "rs_action r1 = rs_action r" if "apply_prefill_candidate rv song cs r = (r1, False)" for cs r1
  proof -
    have "snd (apply_prefill_matches rv c names r2)" for c names r2
      by (auto simp: apply_prefill_matches_def Let_def split: prod.splits bool.splits option.splits)
    then have none: "apply_prefill_matches rv c names r2 \<noteq> (r1, False)" for c names r2 by (metis snd_conv)
    from that none show ?thesis
      by (auto simp: apply_prefill_candidate_def Let_def noting_def split: prod.splits if_splits option.splits)
  qed
  from assms show ?thesis
    by (auto simp: resolve_via_prefill_def Let_def noting_def dest!: candidate split: option.splits if_splits sum.splits)
qed

text \<open>
  C15. A song is updated only if it had no Spotify identifiers, and then with exactly one account for each artist its credit
  names, none twice and none that the credit does not name, every name matching the catalogue without ambiguity. The credit is
  the stored one, or that of a track which a lookup returned for this song; then the update is no less confident than the
  resolver asks for and no more than the lookup was.
\<close>

theorem update_credits_resolved_artists:
  assumes update: "rs_action (resolve_song rv ctx ctx' song) = ActionUpdate"
  shows "trim_space (si_spotify song) = []
     \<and> (credits rv (pn_names (parse_stored_artists (rv_unicode rv) (si_artist song))) (resolve_song rv ctx ctx' song)
        \<or> looked_up rv song (resolve_song rv ctx ctx' song))"
proof -
  let ?parsed = "parse_stored_artists (rv_unicode rv) (si_artist song)"
  let ?r0 = "empty_resolution\<lparr>rs_song := si_id song, rs_title := trim_space (si_title song), rs_date := trim_space (si_date song),
                 rs_original := trim_space (si_artist song), rs_original_ids := trim_space (si_spotify song),
                 rs_action := ActionSkipUnresolved\<rparr>"
  have free: "trim_space (si_spotify song) = []" and given: "\<not> (pn_names ?parsed = [] \<and> pn_prefix ?parsed = [])"
    using update by (auto simp: resolve_song_def Let_def split: if_splits)
  obtain ok r1 where s: "apply_stored_names rv (pn_names ?parsed) ?r0 = (ok, r1)" by (metis prod.exhaust)
  show ?thesis
  proof (cases ok)
    case True
    with s free given have "resolve_song rv ctx ctx' song = r1" by (auto simp: resolve_song_def Let_def)
    with stored_names_update(1) [OF s] True free show ?thesis by simp
  next
    case False
    with stored_names_update(2) [OF s] have r1: "rs_action r1 \<noteq> ActionUpdate" by auto
    obtain r2 found where p: "resolve_via_prefill rv ctx song ?parsed r1 = (r2, found)" by (metis prod.exhaust)
    let ?r3 = "if rs_action r2 \<noteq> ActionNone \<or> rs_notes r2 \<noteq> [] \<or> rs_candidates r2 \<noteq> [] then r2 else r1"
    show ?thesis
    proof (cases found)
      case True
      with s False p free given have "resolve_song rv ctx ctx' song = r2" by (auto simp: resolve_song_def Let_def)
      with via_prefill_update [OF p _ r1] update free show ?thesis by simp
    next
      case not: False
      have run: "resolve_song rv ctx ctx' song =
          (if \<not> pn_ellipsis ?parsed then note_prefix_match rv (pn_prefix ?parsed) ?r3 else resolve_ellipsis rv ctx' song ?parsed ?r3)"
        using s False p not free given by (auto simp: resolve_song_def Let_def)
      have r3: "rs_action ?r3 \<noteq> ActionUpdate" using prefill_not_done [of rv ctx song ?parsed r1 r2] p not r1 by auto
      then have "rs_action (note_prefix_match rv (pn_prefix ?parsed) ?r3) \<noteq> ActionUpdate" by (auto simp: note_prefix_match_def)
      with run update have "resolve_song rv ctx ctx' song = resolve_ellipsis rv ctx' song ?parsed ?r3" by (auto split: if_splits)
      with ellipsis_update [of rv ctx' song ?parsed ?r3] r3 update free show ?thesis by simp
    qed
  qed
qed

text \<open>A lone candidate is always selected.\<close>

lemma prefer_lone [simp]: "prefer_canonical u [c] = [c]"
  by (simp add: prefer_canonical_def Let_def or_else_def filter_canonical_titles_def filter_without_version_def
      filter_fewest_artists_def filter_by_artist_count_def sort_track_candidates_def)

lemma select_lone: "\<exists>ns. select_track_candidate u [c] = (Some c, False, ns)"
  by (simp add: select_track_candidate_def Let_def select_canonical_single_def)

text \<open>A credit that was cut off, and a track that supplies the missing artist.\<close>

definition sample_track :: track_candidate where
  "sample_track = \<lparr>tc_source = ''m'', tc_title = ''T'', tc_names = [''a'', ''c''], tc_album = [], tc_date = [], tc_type = [],
     tc_year = 0, tc_conf = 19 / 20\<rparr>"

definition sample_resolver :: resolver where
  "sample_resolver =
     new_resolver ascii_table sort_key
       [\<lparr>ai_record = ''r'', ai_name = ''A'', ai_spotify = ''s''\<rparr>, \<lparr>ai_record = ''q'', ai_name = ''C'', ai_spotify = ''t''\<rparr>] None
       (Some (\<lambda>song start. Inr [sample_track])) 0"

definition cut_off_song :: song_input where
  "cut_off_song = \<lparr>si_id = ''1'', si_title = ''T'', si_artist = ''A...'', si_date = [], si_spotify = []\<rparr>"

lemma sample_matches: "\<exists>ms ns. match_names sample_resolver [''a'', ''c''] = (Some ms, False, ns) \<and> map ma_spotify ms = [''s'', ''t'']"
proof -
  have "(case match_names sample_resolver [''a'', ''c''] of (Some ms, b, _) \<Rightarrow> \<not> b \<and> map ma_spotify ms = [''s'', ''t''] | _ \<Rightarrow> False)"
    by code_simp
  then show ?thesis by (auto split: prod.splits option.splits)
qed

lemma sample_parse:
  "pn_names (parse_stored_artists ascii_table ''A...'') = [] \<and> pn_prefix (parse_stored_artists ascii_table ''A...'') = ''A''
 \<and> pn_ellipsis (parse_stored_artists ascii_table ''A...'')"
  by code_simp

lemma sample_additional: "filter_additional_artists ascii_table [sample_track] = [sample_track]"
  by code_simp

theorem update_credits_resolved_artists_witness:
  "rs_updated_ids (resolve_song sample_resolver None None cut_off_song) = ''s,t''
 \<and> looked_up sample_resolver cut_off_song (resolve_song sample_resolver None None cut_off_song)"
proof -
  let ?r = "resolve_song sample_resolver None None cut_off_song"
  have song: "trim_space (si_spotify cut_off_song) = []" "si_artist cut_off_song = ''A...''" by code_simp+
  have u: "rv_unicode sample_resolver = ascii_table" "rv_prefill sample_resolver = None" "rv_least sample_resolver = 90 / 100"
    "rv_track sample_resolver = Some (\<lambda>song start. Inr [sample_track])"
    by (simp_all add: sample_resolver_def new_resolver_def)
  have c: "tc_names sample_track = [''a'', ''c'']" "tc_conf sample_track = 19 / 20" by (simp_all add: sample_track_def)
  obtain ms ns where m: "match_names sample_resolver [''a'', ''c''] = (Some ms, False, ns)" "map ma_spotify ms = [''s'', ''t'']"
    using sample_matches by (elim exE conjE)
  obtain ns' where s: "select_track_candidate ascii_table [sample_track] = (Some sample_track, False, ns')"
    using select_lone [of ascii_table sample_track] by (elim exE)
  have stored: "apply_stored_names sample_resolver [] r = (False, r)" for r
    by (simp add: apply_stored_names_def match_names_def noting_def)
  from m(2) have some: "ms \<noteq> []" by auto
  have track: "rs_action (apply_track_candidate sample_resolver [sample_track] r) = ActionUpdate
      \<and> rs_updated_ids (apply_track_candidate sample_resolver [sample_track] r) = ''s,t''" for r
    using some by (simp add: apply_track_candidate_def Let_def u c m s apply_matches_def)
  have prefill: "resolve_via_prefill sample_resolver None cut_off_song p r = (empty_resolution, False)" for p r
    by (simp add: resolve_via_prefill_def u)
  have run: "rs_action ?r = ActionUpdate \<and> rs_updated_ids ?r = ''s,t''"
    using track by (simp add: resolve_song_def Let_def song stored prefill u sample_parse sample_additional resolve_ellipsis_def)
  then have "\<not> credits sample_resolver [] ?r" by (auto simp: credits_def matched_names_def)
  with update_credits_resolved_artists [of sample_resolver None None cut_off_song] run show ?thesis
    by (simp add: song u sample_parse)
qed

end
