(* ===== verification/Title_Patterns.thy ===== *)
theory Title_Patterns
  imports Text_Keys
begin

text \<open>
  The regular expressions of titles (\<^verbatim>\<open>songbackfill/lookup_tidal.go\<close>, \<^verbatim>\<open>tidalsync/reconcile.go\<close>). All of them are
  anchored at the end of the text, so the leftmost match of Go is the longest suffix that the pattern matches; it is found
  with derivatives. The patterns ignore case, for which Go folds \<^verbatim>\<open>k\<close> with the Kelvin sign and \<^verbatim>\<open>s\<close> with the long s.
\<close>

section \<open>Patterns\<close>

datatype rx = NoWord | EmptyWord | OneOf "char list" | Then rx rx | Either rx rx | Many rx

fun nullable :: "rx \<Rightarrow> bool" where
  "nullable NoWord = False"
| "nullable EmptyWord = True"
| "nullable (OneOf cs) = False"
| "nullable (Then r s) = (nullable r \<and> nullable s)"
| "nullable (Either r s) = (nullable r \<or> nullable s)"
| "nullable (Many r) = True"

definition then_rx :: "rx \<Rightarrow> rx \<Rightarrow> rx" where
  "then_rx r s = (case r of NoWord \<Rightarrow> NoWord | EmptyWord \<Rightarrow> s | _ \<Rightarrow> Then r s)"

definition either_rx :: "rx \<Rightarrow> rx \<Rightarrow> rx" where
  "either_rx r s = (case r of NoWord \<Rightarrow> s | _ \<Rightarrow> (case s of NoWord \<Rightarrow> r | _ \<Rightarrow> Either r s))"

fun deriv :: "char \<Rightarrow> rx \<Rightarrow> rx" where
  "deriv c NoWord = NoWord"
| "deriv c EmptyWord = NoWord"
| "deriv c (OneOf cs) = (if c \<in> set cs then EmptyWord else NoWord)"
| "deriv c (Then r s) =
     (if nullable r then either_rx (then_rx (deriv c r) s) (deriv c s) else then_rx (deriv c r) s)"
| "deriv c (Either r s) = either_rx (deriv c r) (deriv c s)"
| "deriv c (Many r) = then_rx (deriv c r) (Many r)"

fun rx_matches :: "rx \<Rightarrow> string \<Rightarrow> bool" where
  "rx_matches r [] = nullable r"
| "rx_matches r (c # s) = rx_matches (deriv c r) s"

text \<open>The words of a pattern.\<close>

inductive word_of :: "rx \<Rightarrow> string \<Rightarrow> bool" where
  empty: "word_of EmptyWord []"
| one: "c \<in> set cs \<Longrightarrow> word_of (OneOf cs) [c]"
| seq: "word_of r s \<Longrightarrow> word_of r' s' \<Longrightarrow> word_of (Then r r') (s @ s')"
| left: "word_of r s \<Longrightarrow> word_of (Either r r') s"
| right: "word_of r' s \<Longrightarrow> word_of (Either r r') s"
| stop: "word_of (Many r) []"
| more: "word_of r s \<Longrightarrow> word_of (Many r) s' \<Longrightarrow> word_of (Many r) (s @ s')"

inductive_cases word_of_elims: "word_of NoWord s" "word_of EmptyWord s" "word_of (OneOf cs) s" "word_of (Then r r') s"
  "word_of (Either r r') s" "word_of (Many r) s"

lemma word_simps [simp]:
  "\<not> word_of NoWord s"
  "word_of EmptyWord s \<longleftrightarrow> s = []"
  "word_of (OneOf cs) s \<longleftrightarrow> (\<exists>c\<in>set cs. s = [c])"
  "word_of (Then r r') s \<longleftrightarrow> (\<exists>a b. s = a @ b \<and> word_of r a \<and> word_of r' b)"
  "word_of (Either r r') s \<longleftrightarrow> word_of r s \<or> word_of r' s"
proof -
  show "word_of (Then r r') s \<longleftrightarrow> (\<exists>a b. s = a @ b \<and> word_of r a \<and> word_of r' b)"
    by (blast elim: word_of_elims(4) intro: seq)
qed (auto elim: word_of_elims intro: word_of.intros)

lemma word_nullable: "nullable r \<longleftrightarrow> word_of r []"
  by (induction r) (auto intro: word_of.intros)

lemma word_then [simp]: "word_of (then_rx r s) x \<longleftrightarrow> word_of (Then r s) x"
  by (cases r) (auto simp: then_rx_def)

lemma word_either [simp]: "word_of (either_rx r s) x \<longleftrightarrow> word_of (Either r s) x"
  by (cases r; cases s) (auto simp: either_rx_def)

lemma word_many_Cons:
  "word_of (Many r) (c # x) \<longleftrightarrow> (\<exists>a b. x = a @ b \<and> word_of r (c # a) \<and> word_of (Many r) b)"
proof
  have "word_of q y \<Longrightarrow> q = Many r \<Longrightarrow> y = c # x \<Longrightarrow> \<exists>a b. x = a @ b \<and> word_of r (c # a) \<and> word_of (Many r) b" for q y
  proof (induction arbitrary: x rule: word_of.induct)
    case (more p a b)
    show ?case
    proof (cases a)
      case Nil
      with more show ?thesis by simp
    next
      case (Cons d a')
      with more show ?thesis by auto
    qed
  qed auto
  then show "word_of (Many r) (c # x) \<Longrightarrow> \<exists>a b. x = a @ b \<and> word_of r (c # a) \<and> word_of (Many r) b" by blast
next
  show "\<exists>a b. x = a @ b \<and> word_of r (c # a) \<and> word_of (Many r) b \<Longrightarrow> word_of (Many r) (c # x)"
    using word_of.more [of r "c # _"] by fastforce
qed

lemma word_deriv: "word_of (deriv c r) x \<longleftrightarrow> word_of r (c # x)"
  by (induction r arbitrary: x) (auto simp: word_nullable word_many_Cons Cons_eq_append_conv)

text \<open>The matcher accepts the words of the pattern.\<close>

lemma rx_matches_word: "rx_matches r s \<longleftrightarrow> word_of r s"
  by (induction s arbitrary: r) (simp_all add: word_nullable word_deriv)

text \<open>The start of the longest suffix that is a word: \<^verbatim>\<open>FindStringIndex\<close> for a pattern with \<^verbatim>\<open>$\<close>.\<close>

fun find_suffix :: "rx \<Rightarrow> string \<Rightarrow> nat option" where
  "find_suffix r [] = (if nullable r then Some 0 else None)"
| "find_suffix r (c # s) = (if rx_matches r (c # s) then Some 0 else map_option Suc (find_suffix r s))"

lemma find_suffix_Some:
  "find_suffix r s = Some i \<Longrightarrow> i \<le> length s \<and> word_of r (drop i s) \<and> (\<forall>j<i. \<not> word_of r (drop j s))"
proof (induction s arbitrary: i)
  case (Cons c s)
  show ?case
  proof (cases "rx_matches r (c # s)")
    case False
    with Cons.prems obtain k where k: "find_suffix r s = Some k" "i = Suc k" by auto
    then show ?thesis using Cons.IH [OF k(1)] False
      by (auto simp: rx_matches_word less_Suc_eq_0_disj simp del: rx_matches.simps)
  qed (use Cons.prems in \<open>auto simp: rx_matches_word simp del: rx_matches.simps\<close>)
qed (auto simp: word_nullable split: if_splits)

lemma find_suffix_None: "find_suffix r s = None \<longleftrightarrow> (\<forall>i\<le>length s. \<not> word_of r (drop i s))"
proof (induction s)
  case (Cons c s)
  show ?case
  proof
    assume n: "find_suffix r (c # s) = None"
    show "\<forall>i\<le>length (c # s). \<not> word_of r (drop i (c # s))"
    proof (intro allI impI)
      fix i assume "i \<le> length (c # s)"
      then show "\<not> word_of r (drop i (c # s))"
        using n Cons.IH by (cases i) (auto simp: rx_matches_word simp del: rx_matches.simps split: if_splits)
    qed
  next
    assume all: "\<forall>i\<le>length (c # s). \<not> word_of r (drop i (c # s))"
    then have "\<not> rx_matches r (c # s)" by (auto simp: rx_matches_word simp del: rx_matches.simps dest: spec [of _ 0])
    moreover have "\<not> word_of r (drop i s)" if "i \<le> length s" for i
      using all [rule_format, of "Suc i"] that by simp
    ultimately show "find_suffix r (c # s) = None" using Cons.IH by simp
  qed
qed (simp add: word_nullable)

section \<open>Building blocks\<close>

text \<open>A letter in either case, with what Go folds it with.\<close>

definition kelvin_sign :: string where "kelvin_sign = [char_of (0xE2::nat), char_of (0x84::nat), char_of (0xAA::nat)]"

definition long_s :: string where "long_s = [char_of (0xC5::nat), char_of (0xBF::nat)]"

fun exactly :: "string \<Rightarrow> rx" where
  "exactly [] = EmptyWord"
| "exactly [c] = OneOf [c]"
| "exactly (c # s) = Then (OneOf [c]) (exactly s)"

definition lower_letters :: string where "lower_letters = ''abcdefghijklmnopqrstuvwxyz''"

definition capital :: "char \<Rightarrow> char" where
  "capital c = (case c of Char b0 b1 b2 b3 b4 b5 b6 b7 \<Rightarrow> Char b0 b1 b2 b3 b4 False b6 b7)"

definition fold_char :: "char \<Rightarrow> rx" where
  "fold_char c =
     (if c = CHR ''k'' then Either (OneOf [c, capital c]) (exactly kelvin_sign)
      else if c = CHR ''s'' then Either (OneOf [c, capital c]) (exactly long_s)
      else if c \<in> set lower_letters then OneOf [c, capital c] else OneOf [c])"

lemma capital_letters: "map capital lower_letters = ''ABCDEFGHIJKLMNOPQRSTUVWXYZ''"
  by (simp add: lower_letters_def capital_def)

text \<open>A word of the pattern, where a blank stands for \<^verbatim>\<open>\s+\<close>.\<close>

definition rx_space :: rx where "rx_space = OneOf (map char_of [9::nat, 10, 12, 13, 32])"

definition blanks :: rx where "blanks = Many rx_space"

fun lit :: "string \<Rightarrow> rx" where
  "lit [] = EmptyWord"
| "lit (c # s) = Then (if c = CHR '' '' then Then rx_space blanks else fold_char c) (lit s)"

definition rx_digit :: rx where "rx_digit = OneOf ''0123456789''"

definition optional :: "rx \<Rightarrow> rx" where "optional r = Either r EmptyWord"

fun one_of :: "rx list \<Rightarrow> rx" where
  "one_of [] = NoWord"
| "one_of [r] = r"
| "one_of (r # rs) = Either r (one_of rs)"

fun in_turn :: "rx list \<Rightarrow> rx" where
  "in_turn [] = EmptyWord"
| "in_turn [r] = r"
| "in_turn (r # rs) = Then r (in_turn rs)"

end
