(* ===== verification/Album_Titles.thy ===== *)
theory Album_Titles
  imports Title_Patterns
begin

text \<open>
  Titles of albums (\<^verbatim>\<open>CleanAlbumTitle\<close> of \<^verbatim>\<open>tidalsync/reconcile.go\<close> and \<^verbatim>\<open>SplitReleaseTypeSuffix\<close> of
  \<^verbatim>\<open>songbackfill/lookup_tidal.go\<close>): the suffixes that name an edition or a release type come off, one after the other.
\<close>

section \<open>The patterns of the code\<close>

definition release_type_suffix :: rx where
  "release_type_suffix = in_turn [exactly '' - '', one_of [lit ''single'', lit ''ep'']]"

definition four_digits :: rx where "four_digits = in_turn [rx_digit, rx_digit, rx_digit, rx_digit]"

definition remaster :: rx where "remaster = Then (lit ''remaster'') (optional (lit ''ed''))"

definition edition_names :: "rx list" where
  "edition_names =
     [in_turn [optional (in_turn [rx_digit, Many rx_digit, optional (one_of [lit ''th'', lit ''st'', lit ''nd'', lit ''rd'']), lit '' '']),
        lit ''anniversary'', optional (Then (lit '' '') (one_of [lit ''edition'', lit ''remaster'', lit ''mix'', lit ''release'']))],
      in_turn [lit ''deluxe'', optional (Then (lit '' '') (one_of [lit ''edition'', lit ''version'', lit ''reissue'']))],
      in_turn [lit ''expanded'', optional (Then (lit '' '') (one_of [lit ''edition'', lit ''version'']))],
      Then (lit ''special '') (one_of [lit ''edition'', lit ''version'']),
      in_turn [lit ''bonus'', optional (one_of [Then (lit '' track'') (optional (fold_char CHR ''s'')), lit '' version''])],
      Then (lit ''international '') (one_of [lit ''version'', lit ''edition'']),
      in_turn [lit ''reissue'', optional (in_turn [blanks, OneOf ''-/'', blanks, lit ''deluxe'', optional (lit '' edition'')])],
      in_turn [remaster, optional (Then (lit '' '') four_digits)],
      in_turn [optional (Then four_digits (lit '' '')), remaster, optional (lit '' version'')],
      in_turn [optional (OneOf ''[''), remaster, optional (OneOf '']'')],
      in_turn [lit ''deluxe edition'', blanks, OneOf ''/'', blanks, remaster, optional (Then (lit '' '') four_digits)],
      in_turn [lit ''steven wilson'', optional (one_of [lit '' mix and master'', lit '' stereo remix''])]]"

definition album_edition_pattern :: rx where
  "album_edition_pattern = in_turn [blanks, OneOf ''(['', one_of edition_names, OneOf '')]'', blanks]"

definition album_hyphen_pattern :: rx where
  "album_hyphen_pattern =
     in_turn [blanks, OneOf ''-'', blanks,
       one_of [in_turn [lit ''deluxe'', optional (Then (lit '' '') (one_of [lit ''edition'', lit ''version'']))],
               in_turn [lit ''expanded'', optional (lit '' edition'')],
               lit ''special edition'',
               in_turn [remaster, optional (Then (lit '' '') four_digits)],
               lit ''reissue''], blanks]"

section \<open>Cleaning a title\<close>

definition split_release_type :: "unicode \<Rightarrow> string \<Rightarrow> string \<times> string" where
  "split_release_type u title0 =
     (let title = trim_space title0
      in case find_suffix release_type_suffix title of
           None \<Rightarrow> (title, [])
         | Some i \<Rightarrow> (trim_space (take i title), lower u (drop (i + 3) title)))"

text \<open>One suffix comes off if something is left of the title; \<open>tag\<close> reads what came off.\<close>

definition strip_suffix :: "rx \<Rightarrow> (string \<Rightarrow> string) \<Rightarrow> string \<times> string list \<Rightarrow> string \<times> string list" where
  "strip_suffix pattern tag st =
     (case st of (title, tags) \<Rightarrow>
        (case find_suffix pattern title of
           None \<Rightarrow> (title, tags)
         | Some i \<Rightarrow>
             (let trimmed = trim_space (take i title)
              in (if trimmed \<noteq> [] then trimmed else title, tags @ [tag (drop i title)]))))"

definition edition_tag :: "string \<Rightarrow> string" where "edition_tag found = trim_chars ''()[]'' (trim_space found)"

definition hyphen_tag :: "string \<Rightarrow> string" where
  "hyphen_tag found = trim_space (if has_prefix ''-'' found then drop 1 found else found)"

definition clean_round :: "unicode \<Rightarrow> string \<times> string \<times> string list \<Rightarrow> string \<times> string \<times> string list" where
  "clean_round u st =
     (case st of (title, rt, tags) \<Rightarrow>
        (let (t, r) = split_release_type u title;
             (title1, rt1) = (if r \<noteq> [] then (t, if rt = [] then r else rt) else (title, rt));
             (title2, tags2) =
               strip_suffix album_hyphen_pattern hyphen_tag (strip_suffix album_edition_pattern edition_tag (title1, tags))
         in (title2, rt1, tags2)))"

section \<open>Every round shortens the title or leaves it\<close>

lemma trim_space_part: "\<exists>p q. s = p @ trim_space s @ q"
proof -
  obtain p where "s = p @ cut_space space_width s" using cut_space_suffix by blast
  moreover obtain q where "rev (cut_space space_width s) = q @ cut_space rspace_width (rev (cut_space space_width s))"
    using cut_space_suffix by blast
  then have "cut_space space_width s = trim_space s @ rev q"
    unfolding trim_space_def by (metis rev_append rev_rev_ident)
  ultimately show ?thesis by metis
qed

lemma trim_space_length: "length (trim_space s) \<le> length s"
proof -
  obtain p q where "s = p @ trim_space s @ q" using trim_space_part by blast
  then have "length s = length p + length (trim_space s) + length q" by (metis add.assoc length_append)
  then show ?thesis by simp
qed

lemma word_length_pos:
  "word_of release_type_suffix s \<Longrightarrow> s \<noteq> []" "word_of album_edition_pattern s \<Longrightarrow> s \<noteq> []"
  "word_of album_hyphen_pattern s \<Longrightarrow> s \<noteq> []"
  by (auto simp: release_type_suffix_def album_edition_pattern_def album_hyphen_pattern_def)

lemma shortened:
  assumes "find_suffix r s = Some i" and "\<And>x. word_of r x \<Longrightarrow> x \<noteq> []"
  shows "length (trim_space (take i s)) < length s"
proof -
  from find_suffix_Some [OF assms(1)] assms(2) have "drop i s \<noteq> []" by blast
  with trim_space_length [of "take i s"] show ?thesis by auto
qed

lemma split_shortens: "snd (split_release_type u s) \<noteq> [] \<Longrightarrow> length (fst (split_release_type u s)) < length s"
  using shortened [of release_type_suffix "trim_space s"] word_length_pos(1) trim_space_length [of s]
  by (fastforce simp: split_release_type_def Let_def split: option.splits)

lemma strip_shortens:
  assumes "\<And>x. word_of r x \<Longrightarrow> x \<noteq> []"
  shows "fst (strip_suffix r tag (s, tags)) = s \<or> length (fst (strip_suffix r tag (s, tags))) < length s"
  using shortened [of r s] assms by (auto simp: strip_suffix_def Let_def split: option.splits)

lemma clean_round_shortens:
  assumes "clean_round u (title, rt, tags) = (title', rt', tags')" and "title' \<noteq> title"
  shows "length title' < length title"
proof -
  obtain t r where split: "split_release_type u title = (t, r)" by (metis prod.exhaust)
  let ?s = "if r \<noteq> [] then t else title"
  obtain s1 tags1 where one: "strip_suffix album_edition_pattern edition_tag (?s, tags) = (s1, tags1)" by (metis prod.exhaust)
  have title': "title' = fst (strip_suffix album_hyphen_pattern hyphen_tag (s1, tags1))"
    using assms(1) split one by (auto simp: clean_round_def Let_def split: prod.splits if_splits)
  have "?s = title \<or> length ?s < length title" using split_shortens [of u title] split by auto
  moreover have "s1 = ?s \<or> length s1 < length ?s"
    using strip_shortens [of album_edition_pattern edition_tag ?s tags] word_length_pos(2) one by simp
  moreover have "title' = s1 \<or> length title' < length s1"
    unfolding title' using strip_shortens [of album_hyphen_pattern hyphen_tag s1 tags1] word_length_pos(3) by simp
  ultimately show ?thesis using assms(2) by (elim disjE) auto
qed

section \<open>The loop\<close>

function clean_loop :: "unicode \<Rightarrow> string \<times> string \<times> string list \<Rightarrow> string \<times> string \<times> string list" where
  "clean_loop u (title, rt, tags) =
     (case clean_round u (title, rt, tags) of (title', rt', tags') \<Rightarrow>
        if title' = title then (title', rt', tags') else clean_loop u (title', rt', tags'))"
  by pat_completeness auto
termination
  by (relation "measure (\<lambda>(u, st). length (fst st))") (auto, metis clean_round_shortens fst_conv)

declare clean_loop.simps [simp del]

text \<open>\<^verbatim>\<open>norm.NFC\<close> is an argument.\<close>

definition clean_album_title :: "unicode \<Rightarrow> (string \<Rightarrow> string) \<Rightarrow> string \<Rightarrow> string \<times> string \<times> string" where
  "clean_album_title u nfc raw =
     (let title = nfc (trim_space raw)
      in if title = [] then ([], [], [])
         else (case clean_loop u (title, [], []) of (clean, rt, tags) \<Rightarrow> (clean, rt, join_with '', '' tags)))"

section \<open>What is left\<close>

text \<open>A title that no pattern shortens any more.\<close>

definition bare :: "unicode \<Rightarrow> string \<Rightarrow> bool" where
  "bare u title \<longleftrightarrow>
     snd (split_release_type u title) = []
   \<and> (\<forall>pattern\<in>{album_edition_pattern, album_hyphen_pattern}.
        case find_suffix pattern title of None \<Rightarrow> True | Some i \<Rightarrow> trim_space (take i title) = [])"

lemma strip_same:
  assumes "fst (strip_suffix r tag (s, tags)) = s" and "\<And>x. word_of r x \<Longrightarrow> x \<noteq> []"
  shows "case find_suffix r s of None \<Rightarrow> True | Some i \<Rightarrow> trim_space (take i s) = []"
  using assms shortened [of r s] by (auto simp: strip_suffix_def Let_def split: option.splits if_splits)

lemma clean_round_same:
  assumes "clean_round u (title, rt, tags) = (title, rt', tags')"
  shows "bare u title"
proof -
  obtain t r where split: "split_release_type u title = (t, r)" by (metis prod.exhaust)
  let ?s = "if r \<noteq> [] then t else title"
  obtain s1 tags1 where one: "strip_suffix album_edition_pattern edition_tag (?s, tags) = (s1, tags1)" by (metis prod.exhaust)
  have title: "title = fst (strip_suffix album_hyphen_pattern hyphen_tag (s1, tags1))"
    using assms split one by (auto simp: clean_round_def Let_def split: prod.splits if_splits)
  have a: "s1 = ?s \<or> length s1 < length ?s"
    using strip_shortens [of album_edition_pattern edition_tag ?s tags] word_length_pos(2) one by simp
  have b: "title = s1 \<or> length title < length s1"
    using strip_shortens [of album_hyphen_pattern hyphen_tag s1 tags1] word_length_pos(3) title by simp
  have c: "r \<noteq> [] \<Longrightarrow> length t < length title" using split_shortens [of u title] split by simp
  from a b c have r: "r = []" by (auto split: if_splits)
  with a b have s1: "s1 = title" by (auto split: if_splits)
  have "case find_suffix album_edition_pattern title of None \<Rightarrow> True | Some i \<Rightarrow> trim_space (take i title) = []"
    by (rule strip_same [of _ edition_tag title tags]) (use one r s1 word_length_pos(2) in auto)
  moreover have "case find_suffix album_hyphen_pattern title of None \<Rightarrow> True | Some i \<Rightarrow> trim_space (take i title) = []"
    by (rule strip_same [of _ hyphen_tag title tags1]) (use title s1 word_length_pos(3) in auto)
  ultimately show ?thesis using split r by (simp add: bare_def)
qed

text \<open>Each step cuts a part out of the title, and never all of it.\<close>

definition part :: "string \<Rightarrow> string \<Rightarrow> bool" where "part s t \<longleftrightarrow> (\<exists>p q. t = p @ s @ q)"

lemma part_trans: "part a b \<Longrightarrow> part b c \<Longrightarrow> part a c"
  by (auto simp: part_def) (metis append.assoc)

lemma part_refl [simp]: "part s s"
  unfolding part_def by (metis append_Nil append_Nil2)

lemma part_trim_take: "part (trim_space (take i s)) s"
proof -
  obtain p q where "take i s = p @ trim_space (take i s) @ q" using trim_space_part by blast
  then have "s = p @ trim_space (take i s) @ (q @ drop i s)" by (metis append.assoc append_take_drop_id)
  then show ?thesis unfolding part_def by blast
qed

lemma part_trim: "part (trim_space s) s"
  using trim_space_part [of s] by (auto simp: part_def)

lemma strip_part: "part (fst (strip_suffix r tag (s, tags))) s \<and> (s \<noteq> [] \<longrightarrow> fst (strip_suffix r tag (s, tags)) \<noteq> [])"
  by (auto simp: strip_suffix_def Let_def part_trim_take split: option.splits)

lemma rev_blank:
  "cut_space rspace_width y = [] \<Longrightarrow> y \<noteq> [] \<Longrightarrow> space_width (rev y) \<noteq> 0"
proof (induction y rule: length_induct)
  case (1 y)
  let ?w = "rspace_width y"
  let ?rest = "drop ?w y"
  from "1.prems" have w: "?w \<noteq> 0" and cut: "cut_space rspace_width ?rest = []"
    by (cases y; simp add: drop_Cons' split: if_splits)+
  show ?case
  proof (cases "?rest = []")
    case True
    with w "1.prems"(2) show ?thesis by (cases y rule: rspace_width.cases) (auto split: if_splits)
  next
    case False
    with w have "length ?rest < length y" by (simp add: "1.prems"(2))
    with "1.IH" cut False have "space_width (rev ?rest) \<noteq> 0" by blast
    then have "space_width (rev ?rest @ rev (take ?w y)) \<noteq> 0" by (rule space_width_append)
    then show ?thesis by (metis append_take_drop_id rev_append)
  qed
qed

lemma trim_start:
  assumes "trim_space s \<noteq> []"
  shows "space_width (trim_space s) = 0"
proof -
  let ?l = "cut_space space_width s"
  obtain q where "rev ?l = q @ cut_space rspace_width (rev ?l)" using cut_space_suffix by blast
  then have l: "?l = trim_space s @ rev q" unfolding trim_space_def by (metis rev_append rev_rev_ident)
  with assms have "?l \<noteq> []" by auto
  then have "space_width ?l = 0" using cut_space_no_space [of space_width s] by blast
  with l space_width_append [of "trim_space s" "rev q"] show ?thesis by (cases "space_width (trim_space s) = 0") auto
qed


text \<open>A release type never is the whole title: the pattern starts with a blank, a trimmed title does not.\<close>

lemma split_part:
  "part (fst (split_release_type u s)) s \<and> (snd (split_release_type u s) \<noteq> [] \<longrightarrow> fst (split_release_type u s) \<noteq> [])"
proof (cases "find_suffix release_type_suffix (trim_space s)")
  case None
  then show ?thesis by (simp add: split_release_type_def Let_def part_trim)
next
  case (Some i)
  let ?t = "trim_space s"
  from find_suffix_Some [OF Some] have w: "word_of release_type_suffix (drop i ?t)" and i: "i \<le> length ?t" by auto
  from w obtain x where x: "drop i ?t = CHR '' '' # x" by (auto simp: release_type_suffix_def)
  then have t: "?t \<noteq> []" by auto
  then have start: "space_width ?t = 0" by (rule trim_start)
  have "i \<noteq> 0"
  proof
    assume "i = 0"
    with x have "?t = CHR '' '' # x" by simp
    with start show False by (cases x rule: space_width.cases) (auto simp: ascii_space_def)
  qed
  then have "take i ?t \<noteq> []" and pre: "?t = take i ?t @ drop i ?t" using t by auto
  have sw: "space_width (take i ?t) = 0"
    using start space_width_append [of "take i ?t" "drop i ?t"] pre by (metis)
  have "trim_space (take i ?t) \<noteq> []"
  proof
    assume blank: "trim_space (take i ?t) = []"
    then have "cut_space rspace_width (rev (cut_space space_width (take i ?t))) = []" by (simp add: trim_space_def)
    then have "cut_space rspace_width (rev (take i ?t)) = []" by (simp only: cut_space_id [of space_width, OF sw])
    with rev_blank [of "rev (take i ?t)"] \<open>take i ?t \<noteq> []\<close> sw show False by simp
  qed
  moreover have "part (trim_space (take i ?t)) s" using part_trim_take part_trim part_trans by blast
  ultimately show ?thesis using Some by (simp add: split_release_type_def Let_def)
qed

lemma clean_round_part:
  assumes "clean_round u (title, rt, tags) = (title', rt', tags')"
  shows "part title' title \<and> (title \<noteq> [] \<longrightarrow> title' \<noteq> [])"
proof -
  obtain t r where split: "split_release_type u title = (t, r)" by (metis prod.exhaust)
  let ?s = "if r \<noteq> [] then t else title"
  obtain s1 tags1 where one: "strip_suffix album_edition_pattern edition_tag (?s, tags) = (s1, tags1)" by (metis prod.exhaust)
  have title': "title' = fst (strip_suffix album_hyphen_pattern hyphen_tag (s1, tags1))"
    using assms split one by (auto simp: clean_round_def Let_def split: prod.splits if_splits)
  have "part ?s title \<and> (title \<noteq> [] \<longrightarrow> ?s \<noteq> [])" using split_part [of u title] split by auto
  moreover have "part s1 ?s \<and> (?s \<noteq> [] \<longrightarrow> s1 \<noteq> [])"
    using strip_part [of album_edition_pattern edition_tag ?s tags] one by simp
  moreover have "part title' s1 \<and> (s1 \<noteq> [] \<longrightarrow> title' \<noteq> [])"
    using strip_part [of album_hyphen_pattern hyphen_tag s1 tags1] title' by simp
  ultimately show ?thesis using part_trans by blast
qed

lemma clean_loop_settles:
  assumes "clean_loop u (title, rt, tags) = (c, rt', tags')"
  shows "bare u c \<and> part c title \<and> (title \<noteq> [] \<longrightarrow> c \<noteq> [])
     \<and> (\<exists>n\<le>length title. (clean_round u ^^ Suc n) (title, rt, tags) = (c, rt', tags'))"
  using assms
proof (induction u "(title, rt, tags)" arbitrary: title rt tags rule: clean_loop.induct)
  case (1 u title rt tags)
  obtain t1 rt1 tags1 where round: "clean_round u (title, rt, tags) = (t1, rt1, tags1)" by (metis prod_cases3)
  show ?case
  proof (cases "t1 = title")
    case True
    with 1 round have out: "c = title" "rt' = rt1" "tags' = tags1" by (auto simp: clean_loop.simps)
    have "(clean_round u ^^ Suc 0) (title, rt, tags) = (c, rt', tags')" using round True out by simp
    moreover have "bare u title" using round True clean_round_same by blast
    ultimately show ?thesis using out(1) by (metis le0 part_refl)
  next
    case False
    from 1(2) round False have rest: "clean_loop u (t1, rt1, tags1) = (c, rt', tags')" by (simp add: clean_loop.simps [of u title])
    from "1.hyps" [OF round [symmetric] refl False rest] obtain n where
      ih: "bare u c" "part c t1" "t1 \<noteq> [] \<longrightarrow> c \<noteq> []" "n \<le> length t1"
        "(clean_round u ^^ Suc n) (t1, rt1, tags1) = (c, rt', tags')" by blast
    have "(clean_round u ^^ Suc (Suc n)) (title, rt, tags) = (c, rt', tags')"
      using ih(5) round by (simp only: funpow_Suc_right o_apply)
    moreover have "Suc n \<le> length title" using ih(4) clean_round_shortens [OF round False] by simp
    ultimately show ?thesis using ih clean_round_part [OF round] part_trans by blast
  qed
qed

lemma bare_loop:
  assumes "bare u title"
  shows "fst (clean_loop u (title, rt, tags)) = title \<and> fst (snd (clean_loop u (title, rt, tags))) = rt"
proof -
  have keep: "fst (strip_suffix r tag (title, ts)) = title" if "r \<in> {album_edition_pattern, album_hyphen_pattern}" for r tag ts
    using assms that by (auto simp: bare_def strip_suffix_def Let_def split: option.splits)
  obtain ts where "strip_suffix album_edition_pattern edition_tag (title, tags) = (title, ts)"
    using keep [of album_edition_pattern edition_tag tags] by (metis insertI1 prod.collapse)
  moreover obtain ts' where "strip_suffix album_hyphen_pattern hyphen_tag (title, ts) = (title, ts')"
    using keep [of album_hyphen_pattern hyphen_tag ts] by (metis insertI1 insertI2 prod.collapse)
  ultimately have "clean_round u (title, rt, tags) = (title, rt, ts')"
    using assms by (auto simp: bare_def clean_round_def Let_def split: prod.splits)
  then show ?thesis by (simp add: clean_loop.simps [of u title])
qed

text \<open>
  C16. Cleaning an album title ends after at most one round per byte and one more. What is left is a part of the title, is
  empty only if the title was, and carries no further suffix: no release type, and no edition unless the whole of it
  is one. Cleaning it again changes nothing.
\<close>

theorem album_title_settles:
  assumes title: "nfc (trim_space raw) \<noteq> []" and clean: "clean_album_title u nfc raw = (c, rt, edition)"
  shows "c \<noteq> [] \<and> part c (nfc (trim_space raw)) \<and> bare u c
     \<and> (\<exists>n\<le>length (nfc (trim_space raw)). \<exists>tags. edition = join_with '', '' tags
          \<and> (clean_round u ^^ Suc n) (nfc (trim_space raw), [], []) = (c, rt, tags))
     \<and> (nfc (trim_space c) = c \<longrightarrow> (\<exists>again. clean_album_title u nfc c = (c, [], again)))"
proof -
  let ?t = "nfc (trim_space raw)"
  obtain tags where loop: "clean_loop u (?t, [], []) = (c, rt, tags)" and e: "edition = join_with '', '' tags"
    using clean title by (auto simp: clean_album_title_def Let_def split: prod.splits)
  from clean_loop_settles [OF loop] title have settled: "c \<noteq> []" "part c ?t" "bare u c"
    "\<exists>n\<le>length ?t. (clean_round u ^^ Suc n) (?t, [], []) = (c, rt, tags)" by auto
  have "\<exists>again. clean_album_title u nfc c = (c, [], again)" if "nfc (trim_space c) = c"
    using bare_loop [OF settled(3), of "[]" "[]"] settled(1) that
    by (cases "clean_loop u (c, [], [])") (auto simp: clean_album_title_def Let_def)
  with settled e show ?thesis by blast
qed

theorem album_title_settles_witness:
  "clean_album_title ascii_table (\<lambda>s. s) ''A - EP'' = (''A'', ''ep'', []) \<and> bare ascii_table ''A''"
proof -
  let ?u = ascii_table
  have split: "split_release_type ?u ''A - EP'' = (''A'', ''ep'')" "split_release_type ?u ''A'' = (''A'', [])"
    by code_simp+
  have none: "find_suffix album_edition_pattern ''A'' = None" "find_suffix album_hyphen_pattern ''A'' = None"
    by (simp_all add: album_edition_pattern_def album_hyphen_pattern_def blanks_def rx_space_def then_rx_def either_rx_def)
  have rounds: "clean_round ?u (''A - EP'', [], []) = (''A'', ''ep'', [])" "clean_round ?u (''A'', ''ep'', []) = (''A'', ''ep'', [])"
    by (simp_all add: clean_round_def strip_suffix_def split none del: find_suffix.simps)
  have trimmed: "trim_space ''A - EP'' = ''A - EP''" by code_simp
  have clean: "clean_album_title ?u (\<lambda>s. s) ''A - EP'' = (''A'', ''ep'', [])"
    by (simp add: clean_album_title_def clean_loop.simps rounds trimmed)
  from album_title_settles [OF _ clean] trimmed clean show ?thesis by simp
qed

end
