(* ===== verification/Tidal_Reconcile.thy ===== *)
theory Tidal_Reconcile
  imports Album_Titles Tidal_Sync_Run
begin

text \<open>
  Reconciling the tracks observed on TIDAL with the catalogue (\<^verbatim>\<open>internal/tidalsync/reconcile.go\<close>). A score is an exact
  fraction; the sums the code forms are at least a hundredth apart, so comparing them agrees with comparing its floats.
  \<^verbatim>\<open>norm.NFC\<close> and SHA-256 (as hexadecimal digits) are arguments. A \<^verbatim>\<open>map[string]any\<close> of a plan is the list of its entries.
\<close>

record catalog_song =
  ct_id :: string
  ct_title :: string
  ct_artist :: string
  ct_album :: string
  ct_date :: string
  ct_year :: int
  ct_type :: string
  ct_spotify :: string
  ct_tidal :: string
  ct_duplicate :: string

record proposal_plan =
  pl_kind :: string
  pl_target_type :: string
  pl_target :: string
  pl_title :: string
  pl_artist :: string
  pl_before :: "(string \<times> string) list option"
  pl_after :: "(string \<times> string) list"
  pl_evidence :: string
  pl_conf :: rat
  pl_track :: string
  pl_auto :: bool
  pl_review :: bool

record reconcile_options =
  ro_least :: rat
  ro_auto :: rat
  ro_fill :: bool

definition default_reconcile_options :: reconcile_options where
  "default_reconcile_options = \<lparr>ro_least = 85 / 100, ro_auto = 90 / 100, ro_fill = False\<rparr>"

record reconcile_env =
  re_unicode :: unicode
  re_nfc :: "string \<Rightarrow> string"
  re_sha :: "string \<Rightarrow> string"

definition has_suffix :: "string \<Rightarrow> string \<Rightarrow> bool" where
  "has_suffix t s \<longleftrightarrow> length t \<le> length s \<and> drop (length s - length t) s = t"

definition is_imprecise_release_date :: "string \<Rightarrow> bool" where
  "is_imprecise_release_date date0 =
     (let date = trim_space date0
      in if date = [] then True
         else if length date = 10 \<and> has_suffix ''-01-01'' date then True
         else if length date = 10 \<and> has_suffix ''-01'' date then True
         else length date \<le> 7)"

section \<open>Matching\<close>

record song_match =
  mt_song :: catalog_song
  mt_score :: rat
  mt_method :: string
  mt_artist :: bool

definition key :: "reconcile_env \<Rightarrow> string \<Rightarrow> string" where "key env s = normalize_key (re_unicode env) s"

text \<open>The last song that carries a TIDAL identifier.\<close>

definition by_tidal_id :: "catalog_song list \<Rightarrow> string \<Rightarrow> catalog_song option" where
  "by_tidal_id catalog i = (if i = [] then None else find (\<lambda>s. ct_tidal s = i) (rev catalog))"

text \<open>\<^verbatim>\<open>Sscanf\<close> with \<open>%d\<close>: white space but no newline, a sign, digits; 0 when there is no number.\<close>

definition scan_year :: "string \<Rightarrow> int" where
  "scan_year s =
     (let t = cut_space space_width s; spaces = take (length s - length t) s;
          signed = (t \<noteq> [] \<and> (hd t = CHR ''+'' \<or> hd t = CHR ''-''));
          ds = takeWhile is_digit (if signed then tl t else t);
          n = foldl (\<lambda>n c. 10 * n + digit_value c) 0 ds
      in if CHR 0x0A \<in> set spaces \<or> ds = [] then 0 else if signed \<and> hd t = CHR ''-'' then - n else n)"

definition artists_overlap :: "reconcile_env \<Rightarrow> observed_track \<Rightarrow> catalog_song \<Rightarrow> bool" where
  "artists_overlap env tr cat \<longleftrightarrow>
     (let c = key env (ct_artist cat)
      in c \<noteq> [] \<and> (\<exists>n\<in>set (ot_artists tr). let a = key env n in a \<noteq> [] \<and> (contains c a \<or> contains a c)))"

definition match_song :: "reconcile_env \<Rightarrow> observed_track \<Rightarrow> catalog_song \<Rightarrow> song_match option" where
  "match_song env tr cat =
     (let c = key env (ct_title cat); t = key env (ot_title tr); artist = artists_overlap env tr cat;
          base = (if c = t then 90 / 100 else 80 / 100);
          credit = (if artist then 5 / 100 else if ct_artist cat \<noteq> [] \<and> ot_artists tr \<noteq> [] then - 20 / 100 else 0);
          year = (if 0 < ct_year cat \<and> 4 \<le> length (ot_date tr) \<and> scan_year (take 4 (ot_date tr)) = ct_year cat then 4 / 100 else 0);
          score = base + credit + year
      in if c = [] \<or> t = [] then None
         else if c \<noteq> t \<and> \<not> contains c t \<and> \<not> contains t c then None
         else Some \<lparr>mt_song = cat, mt_score = (if 99 / 100 < score then 99 / 100 else score), mt_method = ''fuzzy_title_artist'',
                    mt_artist = artist\<rparr>)"

fun match_loop :: "reconcile_env \<Rightarrow> observed_track \<Rightarrow> rat \<Rightarrow> string list \<Rightarrow> catalog_song list \<Rightarrow> song_match list" where
  "match_loop env tr least seen [] = []"
| "match_loop env tr least seen (cat # cats) =
     (if ct_id cat \<in> set seen then match_loop env tr least seen cats
      else (case match_song env tr cat of
              None \<Rightarrow> match_loop env tr least seen cats
            | Some m \<Rightarrow>
                if least \<le> mt_score m then m # match_loop env tr least (ct_id cat # seen) cats
                else match_loop env tr least seen cats))"

definition find_all_matches :: "reconcile_env \<Rightarrow> observed_track \<Rightarrow> catalog_song list \<Rightarrow> rat \<Rightarrow> song_match list" where
  "find_all_matches env tr catalog least =
     (case by_tidal_id catalog (ot_id tr) of
        Some s \<Rightarrow>
          \<lparr>mt_song = s, mt_score = 1, mt_method = ''exact_tidal_id'', mt_artist = True\<rparr> # match_loop env tr least [ct_id s] catalog
      | None \<Rightarrow> match_loop env tr least [] catalog)"

definition metadata_completeness :: "catalog_song \<Rightarrow> nat" where
  "metadata_completeness s = length (filter (\<lambda>f. f \<noteq> []) [ct_album s, ct_date s, ct_type s])"

definition select_canonical_duplicate :: "catalog_song \<Rightarrow> catalog_song \<Rightarrow> catalog_song \<times> catalog_song" where
  "select_canonical_duplicate s1 s2 =
     (if ct_spotify s1 \<noteq> [] \<and> ct_spotify s2 = [] then (s1, s2)
      else if ct_spotify s2 \<noteq> [] \<and> ct_spotify s1 = [] then (s2, s1)
      else if metadata_completeness s2 \<le> metadata_completeness s1 then (s1, s2) else (s2, s1))"

definition better_match :: "song_match \<Rightarrow> song_match \<Rightarrow> song_match" where
  "better_match best m =
     (if mt_score best < mt_score m then m
      else if mt_score m = mt_score best \<and> fst (select_canonical_duplicate (mt_song best) (mt_song m)) = mt_song m then m
      else best)"

definition pick_canonical :: "song_match \<Rightarrow> song_match list \<Rightarrow> song_match" where
  "pick_canonical m ms = foldl better_match m ms"

section \<open>Plans\<close>

definition quote :: string where "quote = [CHR 0x27]"

definition synthetic_song_id :: "reconcile_env \<Rightarrow> string \<Rightarrow> string \<Rightarrow> string" where
  "synthetic_song_id env tid title = take 15 (re_sha env (tid @ ''|'' @ title))"

definition addition_plan :: "reconcile_env \<Rightarrow> observed_track \<Rightarrow> proposal_plan" where
  "addition_plan env tr =
     (case clean_album_title (re_unicode env) (re_nfc env) (ot_album tr) of
        (album, rt, edition) \<Rightarrow>
          (let artist = re_nfc env (join_with '', '' (ot_artists tr)); title = re_nfc env (ot_title tr)
           in \<lparr>pl_kind = ''addition'', pl_target_type = ''song'', pl_target = synthetic_song_id env (ot_id tr) (ot_title tr),
               pl_title = title, pl_artist = artist, pl_before = None,
               pl_after = [(''title'', title), (''artist_name'', artist), (''album'', album), (''release_date'', ot_date tr),
                 (''release_type'', rt), (''tidal_id'', ot_id tr)],
               pl_evidence = ''Favorited on TIDAL but absent in ListenLedger''
                 @ (if is_imprecise_release_date (ot_date tr) then '' [Date is imprecise (day/month defaulted to 01)]'' else [])
                 @ (if edition \<noteq> [] then '' [Album edition: '' @ edition @ '']'' else []),
               pl_conf = 1, pl_track = ot_id tr, pl_auto = False, pl_review = False\<rparr>))"

text \<open>A plan about a song of the catalogue.\<close>

definition song_plan ::
    "string \<Rightarrow> observed_track \<Rightarrow> catalog_song \<Rightarrow> (string \<times> string) list \<Rightarrow> (string \<times> string) list \<Rightarrow> string \<Rightarrow> rat \<Rightarrow> bool \<Rightarrow> bool
     \<Rightarrow> proposal_plan" where
  "song_plan kind tr s before after evidence conf auto review =
     \<lparr>pl_kind = kind, pl_target_type = ''song'', pl_target = ct_id s, pl_title = ct_title s, pl_artist = ct_artist s,
      pl_before = Some before, pl_after = after, pl_evidence = evidence, pl_conf = conf, pl_track = ot_id tr, pl_auto = auto,
      pl_review = review\<rparr>"

definition duplicate_plans :: "observed_track \<Rightarrow> song_match \<Rightarrow> song_match list \<Rightarrow> proposal_plan list" where
  "duplicate_plans tr best ms =
     map (\<lambda>m. song_plan ''duplicate'' tr (mt_song m) [(''duplicate_of'', ct_duplicate (mt_song m))]
            [(''duplicate_of'', ct_id (mt_song best))]
            (''Matches TIDAL track '' @ ot_id tr @ '' alongside canonical song '' @ ct_id (mt_song best) @ '' ('' @ ct_title (mt_song best)
             @ '')'')
            (mt_score m) False False)
       (filter (\<lambda>m. ct_id (mt_song m) \<noteq> ct_id (mt_song best) \<and> mt_score m = mt_score best) ms)"

type_synonym claims = "(string \<times> string) list"

definition claimed_elsewhere :: "claims \<Rightarrow> catalog_song \<Rightarrow> observed_track \<Rightarrow> string option" where
  "claimed_elsewhere claimed s tr =
     (case map_of claimed (ct_id s) of Some prev \<Rightarrow> if prev \<noteq> ot_id tr then Some prev else None | None \<Rightarrow> None)"

definition link_plans :: "rat \<Rightarrow> claims \<Rightarrow> observed_track \<Rightarrow> song_match \<Rightarrow> proposal_plan list \<times> claims" where
  "link_plans least_auto claimed tr m =
     (let s = mt_song m; wanted = ct_tidal s = [] \<and> least_auto \<le> mt_score m \<and> mt_artist m;
          evidence = ''Matched via '' @ mt_method m;
          plan = (\<lambda>evidence auto. song_plan ''link'' tr s [(''tidal_id'', ct_tidal s)] [(''tidal_id'', ot_id tr)] evidence (mt_score m) auto
                    (\<not> auto \<and> least_auto \<le> mt_score m))
      in if ct_tidal s = ot_id tr then ([], claimed)
         else (case claimed_elsewhere claimed s tr of
                 Some prev \<Rightarrow> ([plan (evidence @ '' [also matched TIDAL track '' @ prev @ '' in this run]'') False], claimed)
               | None \<Rightarrow> ([plan evidence wanted], if wanted then kv_put (ct_id s) (ot_id tr) claimed else claimed)))"

definition fill_album :: "catalog_song \<Rightarrow> string \<Rightarrow> (string \<times> string) list" where
  "fill_album s album = (if ct_album s = [] \<and> album \<noteq> [] then [(''album'', album)] else [])"

definition fill_date :: "reconcile_options \<Rightarrow> observed_track \<Rightarrow> catalog_song \<Rightarrow> (string \<times> string) list" where
  "fill_date opts tr s =
     (if ct_date s = [] \<and> ot_date tr \<noteq> [] \<and> \<not> (is_imprecise_release_date (ot_date tr) \<and> \<not> ro_fill opts)
      then [(''release_date'', ot_date tr)] else [])"

definition fill_type :: "catalog_song \<Rightarrow> string \<Rightarrow> (string \<times> string) list" where
  "fill_type s rt = (if ct_type s = [] \<and> rt \<noteq> [] then [(''release_type'', rt)] else [])"

definition date_evidence :: "observed_track \<Rightarrow> string \<Rightarrow> string" where
  "date_evidence tr edition =
     (if edition \<noteq> [] then ''release date (from '' @ edition @ '' album, requires review)''
      else if is_imprecise_release_date (ot_date tr) then ''imprecise release date (day defaulted to 01, requires review)''
      else ''release date'')"

definition fill_plans ::
    "reconcile_env \<Rightarrow> reconcile_options \<Rightarrow> rat \<Rightarrow> claims \<Rightarrow> observed_track \<Rightarrow> song_match \<Rightarrow> proposal_plan list" where
  "fill_plans env opts least_auto claimed tr m =
     (case clean_album_title (re_unicode env) (re_nfc env) (ot_album tr) of
        (album, rt, edition) \<Rightarrow>
          (let s = mt_song m; dates = fill_date opts tr s;
               elsewhere = ct_tidal s \<noteq> [] \<and> ct_tidal s \<noteq> ot_id tr;
               auto = (least_auto \<le> mt_score m \<and> mt_artist m \<and> \<not> elsewhere \<and> claimed_elsewhere claimed s tr = None
                       \<and> \<not> (dates \<noteq> [] \<and> (edition \<noteq> [] \<or> is_imprecise_release_date (ot_date tr))));
               after = fill_album s album @ dates @ fill_type s rt;
               evidence = (if fill_album s album \<noteq> [] then [''album''] else []) @ (if dates \<noteq> [] then [date_evidence tr edition] else [])
                          @ (if fill_type s rt \<noteq> [] then [''release type''] else [])
           in if after = [] then []
              else [song_plan ''fill'' tr s (map (\<lambda>(k, v). (k, [])) after) after
                      (''Filling missing catalog metadata from TIDAL: '' @ join_with '', '' evidence) (mt_score m) auto
                      (\<not> auto \<and> least_auto \<le> mt_score m)]))"

definition correction_plans :: "reconcile_env \<Rightarrow> observed_track \<Rightarrow> song_match \<Rightarrow> proposal_plan list" where
  "correction_plans env tr m =
     (case clean_album_title (re_unicode env) (re_nfc env) (ot_album tr) of
        (album, rt, edition) \<Rightarrow>
          (case clean_album_title (re_unicode env) (re_nfc env) (ct_album (mt_song m)) of
             (cat_album, cat_rt, cat_edition) \<Rightarrow>
               (let s = mt_song m; target = (if rt \<noteq> [] then rt else cat_rt);
                    stripped = (\<lambda>dash t. if t \<noteq> [] then '' (stripped '' @ quote @ dash @ t @ quote @ '')'' else []);
                    plan = (\<lambda>kind field before after evidence.
                              song_plan kind tr s [(field, before)] [(field, after)] evidence (mt_score m) False False)
                in (if (cat_rt \<noteq> [] \<or> cat_edition \<noteq> []) \<and> album \<noteq> [] \<and> cat_album = album
                    then [plan ''album_name'' ''album'' (ct_album s) album
                            (''Cleaned catalog album title'' @ stripped ''-'' cat_rt @ stripped [] cat_edition)] else [])
                 @ (if target \<noteq> [] \<and> ct_type s \<noteq> [] \<and> lower (re_unicode env) (ct_type s) \<noteq> lower (re_unicode env) target
                    then [plan ''release_type'' ''release_type'' (ct_type s) target ''Correcting release type based on TIDAL''] else [])
                 @ (if contains (ct_artist s) ''...'' \<and> 1 < length (ot_artists tr)
                    then [plan ''credit'' ''artist_name'' (ct_artist s) (join_with '', '' (ot_artists tr))
                            ''Expanded ellipsis credit to full contributor list''] else []))))"

section \<open>The run\<close>

definition reconcile_track ::
    "reconcile_env \<Rightarrow> reconcile_options \<Rightarrow> rat \<Rightarrow> rat \<Rightarrow> catalog_song list \<Rightarrow> proposal_plan list \<times> claims \<Rightarrow> observed_track
     \<Rightarrow> proposal_plan list \<times> claims" where
  "reconcile_track env opts least least_auto catalog st tr =
     (case st of (plans, claimed) \<Rightarrow>
        if trim_space (ot_title tr) = [] then (plans, claimed)
        else (case find_all_matches env tr catalog least of
                [] \<Rightarrow> (plans @ [addition_plan env tr], claimed)
              | m # ms \<Rightarrow>
                  (let best = pick_canonical m ms
                   in case link_plans least_auto claimed tr best of
                        (links, claimed') \<Rightarrow>
                          (plans @ duplicate_plans tr best (m # ms) @ links @ fill_plans env opts least_auto claimed' tr best
                             @ correction_plans env tr best, claimed'))))"

definition reconcile_tracks ::
    "reconcile_env \<Rightarrow> observed_track list \<Rightarrow> catalog_song list \<Rightarrow> reconcile_options \<Rightarrow> proposal_plan list" where
  "reconcile_tracks env tracks catalog opts =
     (let least = (if ro_least opts \<le> 0 then 85 / 100 else ro_least opts);
          least_auto = (if ro_auto opts \<le> 0 then 90 / 100 else ro_auto opts)
      in fst (foldl (reconcile_track env opts least least_auto catalog) ([], []) tracks))"

end
