(* ===== verification/Tidal_Reconcile_Properties.thy ===== *)
theory Tidal_Reconcile_Properties
  imports Tidal_Reconcile
begin

text \<open>What the plans of a reconciliation may change without a person looking at them.\<close>

section \<open>Evidence\<close>

text \<open>
  The song carries the identifier of the track, or they have the same title (up to case, marks and spacing) and
  name an artist in common.
\<close>

definition same_recording :: "reconcile_env \<Rightarrow> observed_track \<Rightarrow> catalog_song \<Rightarrow> bool" where
  "same_recording env tr s \<longleftrightarrow>
     ot_id tr \<noteq> [] \<and> ct_tidal s = ot_id tr
   \<or> key env (ct_title s) \<noteq> [] \<and> key env (ct_title s) = key env (ot_title tr) \<and> artists_overlap env tr s"

lemma match_loop_member:
  "m \<in> set (match_loop env tr least seen cats) \<Longrightarrow> mt_song m \<in> set cats \<and> match_song env tr (mt_song m) = Some m"
proof (induction cats arbitrary: seen)
  case (Cons cat cats)
  have "mt_song m' = cat" if "match_song env tr cat = Some m'" for m'
    using that by (auto simp: match_song_def Let_def split: if_splits)
  with Cons show ?case by (auto split: if_splits option.splits)
qed simp

lemma by_tidal_id_Some:
  assumes "by_tidal_id catalog i = Some s"
  shows "s \<in> set catalog \<and> ct_tidal s = i \<and> i \<noteq> []"
proof -
  have found: "find (\<lambda>s. ct_tidal s = i) (rev catalog) = Some s" and i: "i \<noteq> []"
    using assms by (auto simp: by_tidal_id_def split: if_splits)
  from found obtain k where "k < length catalog" "ct_tidal (rev catalog ! k) = i" "s = rev catalog ! k"
    by (auto simp: find_Some_iff)
  with i show ?thesis by (metis length_rev nth_mem set_rev)
qed

lemma found_match:
  assumes "m \<in> set (find_all_matches env tr catalog least)"
  shows "mt_song m \<in> set catalog"
    and "ot_id tr \<noteq> [] \<and> ct_tidal (mt_song m) = ot_id tr \<or> match_song env tr (mt_song m) = Some m"
  using assms match_loop_member [of m env tr least] by_tidal_id_Some [of catalog "ot_id tr"]
  by (auto simp: find_all_matches_def split: option.splits)

lemma pick_member: "pick_canonical m ms \<in> set (m # ms)"
proof -
  have "foldl better_match m ms \<in> insert m (set ms)" for m
  proof (induction ms arbitrary: m)
    case (Cons x xs)
    have "better_match m x = m \<or> better_match m x = x" by (auto simp: better_match_def)
    with Cons [of "better_match m x"] show ?case by auto
  qed simp
  then show ?thesis by (simp add: pick_canonical_def)
qed

text \<open>A title that only contains the other never reaches a threshold above 0.89.\<close>

lemma strong_match:
  assumes "match_song env tr s = Some m" and "mt_artist m" and "least_auto \<le> mt_score m" and "89 / 100 < least_auto"
  shows "same_recording env tr s"
proof -
  have overlap: "artists_overlap env tr s" and title: "key env (ct_title s) \<noteq> []"
    using assms(1,2) by (auto simp: match_song_def Let_def split: if_splits)
  have "key env (ct_title s) = key env (ot_title tr)"
  proof (rule ccontr)
    assume "key env (ct_title s) \<noteq> key env (ot_title tr)"
    with assms(1) overlap have "mt_score m \<le> 89 / 100" by (auto simp: match_song_def Let_def split: if_splits)
    with assms(3,4) show False by simp
  qed
  with overlap title show ?thesis by (simp add: same_recording_def)
qed

section \<open>One track\<close>

definition gap :: "catalog_song \<Rightarrow> string \<Rightarrow> bool" where
  "gap s field \<longleftrightarrow>
     field = ''album'' \<and> ct_album s = [] \<or> field = ''release_date'' \<and> ct_date s = [] \<or> field = ''release_type'' \<and> ct_type s = []"

text \<open>A change that the run approves on its own.\<close>

definition auto_change :: "reconcile_env \<Rightarrow> observed_track \<Rightarrow> catalog_song \<Rightarrow> proposal_plan \<Rightarrow> bool" where
  "auto_change env tr s p \<longleftrightarrow>
     pl_target p = ct_id s \<and> pl_track p = ot_id tr \<and> same_recording env tr s
   \<and> (pl_kind p = ''link'' \<and> ct_tidal s = [] \<and> pl_after p = [(''tidal_id'', ot_id tr)]
    \<or> pl_kind p = ''fill'' \<and> (ct_tidal s = [] \<or> ct_tidal s = ot_id tr)
      \<and> (\<forall>(field, v)\<in>set (pl_after p). gap s field \<and> v \<noteq> []
           \<and> (field = ''release_date'' \<longrightarrow> v = ot_date tr \<and> \<not> is_imprecise_release_date v)))"

lemma song_plan_simps [simp]:
  "pl_kind (song_plan kind tr s b a e c auto r) = kind" "pl_target (song_plan kind tr s b a e c auto r) = ct_id s"
  "pl_track (song_plan kind tr s b a e c auto r) = ot_id tr" "pl_auto (song_plan kind tr s b a e c auto r) = auto"
  "pl_after (song_plan kind tr s b a e c auto r) = a"
  by (simp_all add: song_plan_def)

lemma addition_not_auto: "\<not> pl_auto (addition_plan env tr) \<and> pl_track (addition_plan env tr) = ot_id tr"
  by (simp add: addition_plan_def Let_def split: prod.split)

lemma duplicate_not_auto: "p \<in> set (duplicate_plans tr best ms) \<Longrightarrow> \<not> pl_auto p"
  by (auto simp: duplicate_plans_def)

lemma correction_not_auto:
  assumes "p \<in> set (correction_plans env tr m)"
  shows "\<not> pl_auto p"
proof -
  obtain album rt edition where a: "clean_album_title (re_unicode env) (re_nfc env) (ot_album tr) = (album, rt, edition)"
    by (metis prod_cases3)
  obtain album' rt' edition' where b: "clean_album_title (re_unicode env) (re_nfc env) (ct_album (mt_song m)) = (album', rt', edition')"
    by (metis prod_cases3)
  from assms show ?thesis unfolding correction_plans_def a b Let_def prod.case
    by (simp only: set_append Un_iff) (elim disjE; simp split: if_splits)
qed

lemma link_auto:
  assumes "p \<in> set (fst (link_plans least_auto claimed tr m))" and "pl_auto p"
  shows "pl_kind p = ''link'' \<and> pl_target p = ct_id (mt_song m) \<and> pl_track p = ot_id tr
    \<and> pl_after p = [(''tidal_id'', ot_id tr)] \<and> ct_tidal (mt_song m) = [] \<and> least_auto \<le> mt_score m \<and> mt_artist m
    \<and> map_of (snd (link_plans least_auto claimed tr m)) (ct_id (mt_song m)) = Some (ot_id tr)"
  using assms by (auto simp: link_plans_def Let_def split: if_splits option.splits)

lemma link_claims:
  "snd (link_plans least_auto claimed tr m) = claimed
   \<or> claimed_elsewhere claimed (mt_song m) tr = None \<and> ct_tidal (mt_song m) = []
     \<and> snd (link_plans least_auto claimed tr m) = kv_put (ct_id (mt_song m)) (ot_id tr) claimed"
  by (auto simp: link_plans_def Let_def split: if_splits option.splits)

lemma claims_stay:
  assumes "map_of claimed t = Some v"
  shows "map_of (snd (link_plans least_auto claimed tr m)) t = Some v"
  using link_claims [of least_auto claimed tr m] assms
  by (auto simp: claimed_elsewhere_def split: option.splits if_splits)

lemma fill_entries:
  assumes "(field, v) \<in> set (fill_album s album @ fill_date opts tr s @ fill_type s rt)"
  shows "gap s field \<and> v \<noteq> [] \<and> (field = ''release_date'' \<longrightarrow> v = ot_date tr \<and> fill_date opts tr s \<noteq> [])"
  using assms by (auto simp: fill_album_def fill_date_def fill_type_def gap_def split: if_splits)

lemma fill_auto:
  assumes "p \<in> set (fill_plans env opts least_auto claimed tr m)" and "pl_auto p"
  shows "pl_kind p = ''fill'' \<and> pl_target p = ct_id (mt_song m) \<and> pl_track p = ot_id tr
    \<and> (ct_tidal (mt_song m) = [] \<or> ct_tidal (mt_song m) = ot_id tr) \<and> least_auto \<le> mt_score m \<and> mt_artist m
    \<and> claimed_elsewhere claimed (mt_song m) tr = None
    \<and> (\<forall>(field, v)\<in>set (pl_after p). gap (mt_song m) field \<and> v \<noteq> []
         \<and> (field = ''release_date'' \<longrightarrow> v = ot_date tr \<and> \<not> is_imprecise_release_date v))"
proof -
  obtain album rt edition where clean: "clean_album_title (re_unicode env) (re_nfc env) (ot_album tr) = (album, rt, edition)"
    by (metis prod_cases3)
  let ?s = "mt_song m"
  from assms clean have p: "pl_kind p = ''fill''" "pl_target p = ct_id ?s" "pl_track p = ot_id tr"
    "pl_after p = fill_album ?s album @ fill_date opts tr ?s @ fill_type ?s rt"
    and auto: "least_auto \<le> mt_score m" "mt_artist m" "ct_tidal ?s = [] \<or> ct_tidal ?s = ot_id tr"
    "claimed_elsewhere claimed ?s tr = None" "fill_date opts tr ?s \<noteq> [] \<longrightarrow> \<not> is_imprecise_release_date (ot_date tr)"
    by (auto simp: fill_plans_def Let_def split: if_splits)
  have "gap ?s field \<and> v \<noteq> [] \<and> (field = ''release_date'' \<longrightarrow> v = ot_date tr \<and> \<not> is_imprecise_release_date v)"
    if "(field, v) \<in> set (pl_after p)" for field v
    using fill_entries [of field v ?s album opts tr rt] that p(4) auto(5) by auto
  with p auto show ?thesis by blast
qed

section \<open>The run\<close>

text \<open>The track an automatic change of a song rests on: the one that claimed the song, or the one it is linked to.\<close>

definition owned :: "catalog_song list \<Rightarrow> claims \<Rightarrow> proposal_plan \<Rightarrow> bool" where
  "owned catalog claimed p \<longleftrightarrow>
     map_of claimed (pl_target p) = Some (pl_track p)
   \<or> (\<exists>s\<in>set catalog. ct_id s = pl_target p \<and> ct_tidal s = pl_track p \<and> ct_tidal s \<noteq> [])"

definition run_inv :: "reconcile_env \<Rightarrow> observed_track list \<Rightarrow> catalog_song list \<Rightarrow> proposal_plan list \<times> claims \<Rightarrow> bool" where
  "run_inv env tracks catalog st \<longleftrightarrow>
     (\<forall>p\<in>set (fst st). pl_auto p \<longrightarrow>
        (\<exists>tr\<in>set tracks. \<exists>s\<in>set catalog. auto_change env tr s p) \<and> owned catalog (snd st) p)
   \<and> (\<forall>t v. map_of (snd st) t = Some v \<longrightarrow> (\<exists>s\<in>set catalog. ct_id s = t \<and> ct_tidal s = []))"

lemma best_same_recording:
  assumes "m \<in> set (find_all_matches env tr catalog least)"
    and "mt_artist m" and "least_auto \<le> mt_score m" and "89 / 100 < least_auto"
  shows "same_recording env tr (mt_song m)"
  using found_match(2) [OF assms(1)] strong_match [of env tr "mt_song m" m least_auto] assms(2-4)
  by (auto simp: same_recording_def)

lemma auto_plan:
  assumes member: "m \<in> set (find_all_matches env tr catalog least)" and strong: "89 / 100 < least_auto" and named: "ot_id tr \<noteq> []"
    and links: "link_plans least_auto claimed tr m = (links, claimed')"
    and p: "p \<in> set links \<union> set (fill_plans env opts least_auto claimed' tr m)" "pl_auto p"
  shows "auto_change env tr (mt_song m) p \<and> owned catalog claimed' p"
proof (cases "p \<in> set links")
  case True
  with links p link_auto [of p least_auto claimed tr m]
  have k: "pl_kind p = ''link''" "pl_target p = ct_id (mt_song m)" "pl_track p = ot_id tr" "pl_after p = [(''tidal_id'', ot_id tr)]"
    "ct_tidal (mt_song m) = []" "least_auto \<le> mt_score m" "mt_artist m" "map_of claimed' (ct_id (mt_song m)) = Some (ot_id tr)"
    by auto
  with best_same_recording [OF member k(7,6) strong] show ?thesis by (simp add: auto_change_def owned_def)
next
  case False
  let ?s = "mt_song m"
  from False p have fill: "p \<in> set (fill_plans env opts least_auto claimed' tr m)" by auto
  note k = fill_auto [OF fill p(2)]
  have same: "same_recording env tr ?s" using best_same_recording [OF member _ _ strong] k by blast
  have change: "auto_change env tr ?s p" unfolding auto_change_def
    using k same by (elim conjE, intro conjI) (assumption+, rule disjI2, intro conjI, assumption+)
  have "owned catalog claimed' p"
  proof (cases "ct_tidal ?s = ot_id tr")
    case True
    with found_match(1) [OF member] named k show ?thesis unfolding owned_def by auto
  next
    case unlinked: False
    with k have free: "ct_tidal ?s = []" by blast
    have "map_of claimed' (ct_id ?s) = Some (ot_id tr)"
    proof (cases "claimed_elsewhere claimed ?s tr")
      case None
      with unlinked free k links show ?thesis by (auto simp: link_plans_def Let_def)
    next
      case (Some prev)
      with unlinked links have "claimed' = claimed" by (auto simp: link_plans_def Let_def)
      with Some k show ?thesis by simp
    qed
    with k show ?thesis by (simp add: owned_def)
  qed
  with change show ?thesis ..
qed

lemma run_step:
  assumes inv: "run_inv env tracks catalog st" and tr: "tr \<in> set tracks" "ot_id tr \<noteq> []" and strong: "89 / 100 < least_auto"
  shows "run_inv env tracks catalog (reconcile_track env opts least least_auto catalog st tr)"
proof -
  obtain plans claimed where st: "st = (plans, claimed)" by (cases st)
  show ?thesis
  proof (cases "trim_space (ot_title tr) = [] \<or> find_all_matches env tr catalog least = []")
    case True
    then show ?thesis using inv
      by (auto simp: st reconcile_track_def run_inv_def addition_not_auto)
  next
    case False
    then obtain m ms where found: "find_all_matches env tr catalog least = m # ms" by (meson list.exhaust)
    let ?best = "pick_canonical m ms"
    have member: "?best \<in> set (find_all_matches env tr catalog least)" using pick_member [of m ms] found by simp
    obtain links claimed' where links: "link_plans least_auto claimed tr ?best = (links, claimed')" by (metis prod.exhaust)
    let ?fills = "fill_plans env opts least_auto claimed' tr ?best"
    have run: "reconcile_track env opts least least_auto catalog st tr =
        (plans @ duplicate_plans tr ?best (m # ms) @ links @ ?fills @ correction_plans env tr ?best, claimed')"
      using False found links by (simp add: st reconcile_track_def Let_def)
    have claims: "\<exists>s\<in>set catalog. ct_id s = t \<and> ct_tidal s = []" if "map_of claimed' t = Some v" for t v
      using link_claims [of least_auto claimed tr ?best] links that inv found_match(1) [OF member]
      by (auto simp: st run_inv_def split: if_splits)
    have stays: "owned catalog claimed p \<Longrightarrow> owned catalog claimed' p" for p
      using claims_stay [of claimed "pl_target p" "pl_track p" least_auto tr ?best] links by (auto simp: owned_def)
    have "(\<exists>tr\<in>set tracks. \<exists>s\<in>set catalog. auto_change env tr s p) \<and> owned catalog claimed' p"
      if p: "p \<in> set plans \<union> set (duplicate_plans tr ?best (m # ms)) \<union> (set links \<union> set ?fills) \<union> set (correction_plans env tr ?best)"
        and auto: "pl_auto p" for p
    proof (cases "p \<in> set plans")
      case True
      with inv auto stays show ?thesis by (auto simp: st run_inv_def)
    next
      case False
      with p auto duplicate_not_auto correction_not_auto have "p \<in> set links \<union> set ?fills" by blast
      from auto_plan [OF member strong tr(2) links this auto] tr(1) found_match(1) [OF member] show ?thesis by blast
    qed
    with claims show ?thesis unfolding run run_inv_def by auto
  qed
qed

lemma run_all:
  assumes "run_inv env tracks catalog st" and "set todo \<subseteq> set tracks" and "\<forall>tr\<in>set tracks. ot_id tr \<noteq> []" and "89 / 100 < least_auto"
  shows "run_inv env tracks catalog (foldl (reconcile_track env opts least least_auto catalog) st todo)"
  using assms
proof (induction todo arbitrary: st)
  case (Cons tr todo)
  then have "run_inv env tracks catalog (reconcile_track env opts least least_auto catalog st tr)"
    using run_step [of env tracks catalog st tr least_auto opts least] by simp
  with Cons show ?case by simp
qed simp

lemma owner_unique:
  assumes "run_inv env tracks catalog (plans, claimed)" and "distinct (map ct_id catalog)"
    and "owned catalog claimed p" and "owned catalog claimed q" and "pl_target p = pl_target q"
  shows "pl_track p = pl_track q"
proof -
  have one: "s = s'" if "s \<in> set catalog" "s' \<in> set catalog" "ct_id s = ct_id s'" for s s'
    using assms(2) that by (auto simp: distinct_map inj_on_def)
  have free: "ct_tidal s = []" if "map_of claimed (ct_id s) = Some v" "s \<in> set catalog" for s v
    using assms(1) that one by (force simp: run_inv_def)
  show ?thesis using assms(3-5) one free by (fastforce simp: owned_def)
qed

text \<open>No track with a title is passed over.\<close>

definition answered :: "catalog_song list \<Rightarrow> proposal_plan list \<Rightarrow> observed_track \<Rightarrow> bool" where
  "answered catalog plans tr \<longleftrightarrow>
     trim_space (ot_title tr) = [] \<or> (\<exists>s\<in>set catalog. ct_tidal s = ot_id tr)
   \<or> (\<exists>p\<in>set plans. pl_track p = ot_id tr \<and> (pl_kind p = ''addition'' \<or> pl_kind p = ''link''))"

lemma step_keeps: "set (fst st) \<subseteq> set (fst (reconcile_track env opts least least_auto catalog st tr))"
  by (auto simp: reconcile_track_def Let_def split: prod.splits list.splits)

lemma step_answers: "answered catalog (fst (reconcile_track env opts least least_auto catalog st tr)) tr"
proof -
  obtain plans claimed where st: "st = (plans, claimed)" by (cases st)
  show ?thesis
  proof (cases "find_all_matches env tr catalog least")
    case Nil
    have "pl_kind (addition_plan env tr) = ''addition''" by (simp add: addition_plan_def Let_def split: prod.split)
    with Nil addition_not_auto [of env tr] show ?thesis by (auto simp: st reconcile_track_def answered_def)
  next
    case (Cons m ms)
    let ?best = "pick_canonical m ms"
    obtain links claimed' where links: "link_plans least_auto claimed tr ?best = (links, claimed')" by (metis prod.exhaust)
    have song: "mt_song ?best \<in> set catalog" using found_match(1) [of ?best env tr catalog least] pick_member [of m ms] Cons by simp
    have "ct_tidal (mt_song ?best) = ot_id tr \<or> (\<exists>p\<in>set links. pl_track p = ot_id tr \<and> pl_kind p = ''link'')"
      using links by (auto simp: link_plans_def Let_def split: if_splits option.splits)
    then show ?thesis using song Cons links by (auto simp: st reconcile_track_def answered_def Let_def)
  qed
qed

lemma run_answers:
  "set (fst st) \<subseteq> set (fst (foldl (reconcile_track env opts least least_auto catalog) st tracks))
   \<and> (\<forall>tr\<in>set tracks. answered catalog (fst (foldl (reconcile_track env opts least least_auto catalog) st tracks)) tr)"
proof (induction tracks arbitrary: st)
  case (Cons tr tracks)
  let ?st = "reconcile_track env opts least least_auto catalog st tr"
  have "answered catalog plans tr" if "set (fst ?st) \<subseteq> set plans" for plans
    using step_answers [of catalog env opts least least_auto st tr] that by (auto simp: answered_def)
  with Cons [of ?st] step_keeps [of st env opts least least_auto catalog tr] show ?case by auto
qed simp


text \<open>Two tracks of one name: the first takes the song, the second has to be looked at.\<close>

definition sample_env :: reconcile_env where
  "sample_env = \<lparr>re_unicode = ascii_table, re_nfc = (\<lambda>s. s), re_sha = (\<lambda>s. s)\<rparr>"

definition sample_song :: catalog_song where
  "sample_song = \<lparr>ct_id = ''s'', ct_title = ''T'', ct_artist = ''A'', ct_album = [], ct_date = [], ct_year = 0, ct_type = [],
     ct_spotify = [], ct_tidal = [], ct_duplicate = []\<rparr>"

definition sample_observed :: "string \<Rightarrow> observed_track" where
  "sample_observed i = \<lparr>ot_id = i, ot_title = ''t'', ot_isrc = [], ot_duration = 0, ot_date = [], ot_artists = [''a''], ot_album = [],
     ot_album_date = [], ot_added = 0\<rparr>"


end
