(* ===== verification/Tidal_Apply.thy ===== *)
theory Tidal_Apply
  imports Tidal_Reconcile Domain_Repositories Read_Models
begin

text \<open>
  Applying the plans of a report (the loop of \<^verbatim>\<open>runApply\<close> in \<^verbatim>\<open>cmd/tidal_sync/main.go\<close>): the song is changed through its
  aggregate and saved, its events are projected, and a correction proposal is recorded as applied. The event
  store is a parameter; what comes from outside during an item (clock and identifiers, the failure of the projection, the
  context of a save) is a \<open>turn\<close>. The mirror in PocketBase only logs its failures and is left out.
\<close>

record report_item =
  pi_plan :: proposal_plan
  pi_approved :: bool
  pi_applied :: bool
  pi_note :: "gerr option"

record 's turn =
  tn_create :: stamp
  tn_change :: stamp
  tn_propose :: stamp
  tn_approve :: stamp
  tn_applied :: stamp
  tn_nanos :: string
  tn_fault :: fault
  tn_ctx :: "'s \<Rightarrow> gerr option"

section \<open>One item\<close>

definition should_apply :: "rat \<Rightarrow> report_item \<Rightarrow> bool" where
  "should_apply bulk item \<longleftrightarrow>
     (let p = pi_plan item; bulk_eligible = (pl_kind p \<noteq> ''addition'' \<and> \<not> pl_review p)
      in pi_approved item \<or> bulk_eligible \<and> 0 < bulk \<and> bulk \<le> pl_conf p)"

text \<open>A value of \<^verbatim>\<open>After\<close>; an absent one is the empty string.\<close>

definition after_value :: "proposal_plan \<Rightarrow> string \<Rightarrow> string" where
  "after_value p k = (case map_of (pl_after p) k of None \<Rightarrow> [] | Some v \<Rightarrow> v)"

definition after_string :: "proposal_plan \<Rightarrow> string \<Rightarrow> string \<Rightarrow> string" where
  "after_string p k fallback = (if after_value p k \<noteq> [] then after_value p k else fallback)"

definition open_song :: "'s load_op \<Rightarrow> stamp \<Rightarrow> proposal_plan \<Rightarrow> 's \<Rightarrow> song res \<times> 's" where
  "open_song load st p s =
     (if pl_kind p = ''addition''
      then (new_song st (pl_target p) (after_value p ''title'') (after_value p ''artist_name'') (after_value p ''album'')
              (after_value p ''release_date'') (after_value p ''release_type'') [] (parse_release_year (after_value p ''release_date''))
              0 0 False, s)
      else song_load load s (pl_target p))"

definition change_song :: "stamp \<Rightarrow> proposal_plan \<Rightarrow> song \<Rightarrow> (bool \<times> song) res" where
  "change_song st p a =
     (let kind = pl_kind p;
          album = after_string p ''album'' (so_album a); date = after_string p ''release_date'' (so_date a);
          rtype = after_string p ''release_type'' (so_type a)
      in if kind = ''addition''
         then (if after_value p ''tidal_id'' \<noteq> [] then song_link_tidal st (after_value p ''tidal_id'') ''tidal_sync'' (pl_conf p) a
               else Ok (False, a))
         else if kind = ''link'' then song_link_tidal st (after_value p ''tidal_id'') ''tidal_sync'' (pl_conf p) a
         else if kind = ''fill'' then song_enrich st album date rtype ''tidal'' a
         else if kind = ''album_name'' \<or> kind = ''release_type'' then song_correct st album date rtype ''tidal'' a
         else if kind = ''credit'' then song_correct_credits st (after_value p ''artist_name'') ''tidal'' a
         else if kind = ''duplicate'' then song_mark_duplicate st (after_value p ''duplicate_of'') ''tidal'' a
         else Ok (False, a))"

definition proposal_id :: "'s turn \<Rightarrow> proposal_plan \<Rightarrow> string" where
  "proposal_id turn p = ''prop-'' @ pl_target p @ ''-'' @ tn_nanos turn"

definition json_entries :: "(string \<times> string) list \<Rightarrow> (string \<times> json) list" where
  "json_entries = map (\<lambda>(k, v). (k, JStr v))"

definition applied_proposal :: "string \<Rightarrow> time \<Rightarrow> 's turn \<Rightarrow> proposal_plan \<Rightarrow> proposal res" where
  "applied_proposal run now turn p =
     bind_res (wrap_err ''creating proposal''
         (new_proposal (tn_propose turn) (proposal_id turn p) run (pl_target_type p) (pl_target p) (pl_kind p)
            (map_option json_entries (pl_before p)) (Some (json_entries (pl_after p))) (pl_evidence p) (pl_conf p) (pl_track p) now))
       (\<lambda>a. bind_res (wrap_err ''approving proposal'' (proposal_approve (tn_approve turn) now ''applied via CLI'' a))
       (\<lambda>a. wrap_err ''marking proposal applied'' (proposal_mark_applied (tn_applied turn) now a)))"

definition noted :: "gerr \<Rightarrow> report_item \<Rightarrow> report_item" where "noted e item = item\<lparr>pi_note := Some e\<rparr>"

text \<open>Saving the proposal; only then the item counts as applied.\<close>

definition record_applied ::
    "'s append_op \<Rightarrow> 's load_op \<Rightarrow> string \<Rightarrow> time \<Rightarrow> 's turn \<Rightarrow> report_item \<Rightarrow> 's \<Rightarrow> report_item \<times> 's" where
  "record_applied app load run now turn item s =
     (case applied_proposal run now turn (pi_plan item) of
        Inl e \<Rightarrow> (noted e item, s)
      | Inr a \<Rightarrow>
          (case proposal_save app load (tn_ctx turn) s a of
             (Inl e, _, s') \<Rightarrow> (noted (Errorf ''saving proposal'' [e]) item, s')
           | (Inr _, _, s') \<Rightarrow> (item\<lparr>pi_applied := True\<rparr>, s')))"

definition apply_item ::
    "'s append_op \<Rightarrow> 's load_op \<Rightarrow> string \<Rightarrow> time \<Rightarrow> 's turn \<Rightarrow> report_item \<Rightarrow> 's \<Rightarrow> read_models \<Rightarrow> report_item \<times> 's \<times> read_models" where
  "apply_item app load run now turn item s rm =
     (case open_song load (tn_create turn) (pi_plan item) s of
        (Inl e, s1) \<Rightarrow> (noted e item, s1, rm)
      | (Inr a, s1) \<Rightarrow>
          (case change_song (tn_change turn) (pi_plan item) a of
             Inl e \<Rightarrow> (noted e item, s1, rm)
           | Inr (changed, a') \<Rightarrow>
               (case song_save app load (tn_ctx turn) s1 a' of
                  (Inl e, _, s2) \<Rightarrow> (noted e item, s2, rm)
                | (Inr es, _, s2) \<Rightarrow>
                    if es = [] then (noted (Errorf ''no change: stream already holds the correction'' []) item, s2, rm)
                    else (case project_catalog (tn_fault turn) es rm of
                            (Inl e, rm') \<Rightarrow> (noted (Errorf ''projecting'' [e]) item, s2, rm')
                          | (Inr _, rm') \<Rightarrow>
                              (case record_applied app load run now turn item s2 of (item', s3) \<Rightarrow> (item', s3, rm'))))))"

section \<open>The report\<close>

fun apply_items ::
    "'s append_op \<Rightarrow> 's load_op \<Rightarrow> string \<Rightarrow> time \<Rightarrow> rat \<Rightarrow> int \<Rightarrow> int \<Rightarrow> (report_item \<times> 's turn) list \<Rightarrow> 's \<Rightarrow> read_models
     \<Rightarrow> report_item list \<times> int \<times> 's \<times> read_models" where
  "apply_items app load run now bulk limit count [] s rm = ([], count, s, rm)"
| "apply_items app load run now bulk limit count ((item, turn) # rest) s rm =
     (if pi_applied item \<or> \<not> should_apply bulk item
      then (case apply_items app load run now bulk limit count rest s rm of (items, r) \<Rightarrow> (item # items, r))
      else (case apply_item app load run now turn item s rm of
              (item', s', rm') \<Rightarrow>
                (let count' = (if pi_applied item' then count + 1 else count)
                 in if pi_applied item' \<and> 0 < limit \<and> limit \<le> count' then (item' # map fst rest, count', s', rm')
                    else (case apply_items app load run now bulk limit count' rest s' rm' of (items, r) \<Rightarrow> (item' # items, r)))))"

end
