(* ===== verification/Tidal_Apply_Properties.thy ===== *)
theory Tidal_Apply_Properties
  imports Tidal_Apply
begin

text \<open>What an item of a report that is marked as applied stands for in the log.\<close>

section \<open>The world only grows\<close>

definition grown :: "world \<Rightarrow> world \<Rightarrow> bool" where
  "grown w w' \<longleftrightarrow> world_inv w' \<and> (\<forall>sid. prefix (world_history w sid) (world_history w' sid))"

lemma grown_trans: "grown w w' \<Longrightarrow> grown w' w'' \<Longrightarrow> grown w w''"
  by (auto simp: grown_def intro: prefix_order.trans)

lemma grown_refl: "world_inv w \<Longrightarrow> grown w w"
  by (simp add: grown_def)

lemma grown_inv: "grown w w' \<Longrightarrow> world_inv w'"
  by (simp add: grown_def)

lemma append_grown:
  assumes "world_inv w" and "sqlite_append w sid v es = (r, w')"
  shows "grown w w'"
proof -
  obtain db fault w1 where t: "world_turn w = ((db, fault), w1)" by (metis prod.collapse)
  note db = world_turn_db [OF assms(1) t]
  have "w' = w1\<lparr>wd_db := snd (append_events fault db sid v es)\<rparr>"
    using assms(2) by (auto simp: sqlite_append_def t case_prod_beta)
  with append_events_inv [OF db(1)] prefix_order.trans [OF db(2) history_prefix [OF append_events_extends [OF db(1)]]]
  show ?thesis by (simp add: grown_def world_inv_def world_history_def)
qed

lemma load_grown:
  assumes "world_inv w" and "sqlite_load w sid = (r, w')"
  shows "grown w w'"
proof -
  obtain db fault w1 where t: "world_turn w = ((db, fault), w1)" by (metis prod.collapse)
  note db = world_turn_db [OF assms(1) t]
  have "w' = w1\<lparr>wd_db := db\<rparr>" using assms(2) by (auto simp: sqlite_load_def t)
  with db show ?thesis by (simp add: grown_def world_inv_def world_history_def)
qed

lemma retry_loop_grown:
  "world_inv w \<Longrightarrow> append_retry_loop sqlite_append sqlite_load ctx sid n prev w base remaining = (r, w') \<Longrightarrow> grown w w'"
proof (induction n arbitrary: prev w base remaining)
  case (Suc n)
  obtain r1 w1 where a: "sqlite_append w sid base remaining = (r1, w1)" by (metis prod.exhaust)
  obtain l w2 where l: "sqlite_load w1 sid = (l, w2)" by (metis prod.exhaust)
  have g1: "grown w w1" by (rule append_grown [OF Suc.prems(1) a])
  have g2: "grown w w2" using grown_trans [OF g1 load_grown [OF grown_inv [OF g1] l]] .
  show ?case
  proof (rule append_retry_attempt [of sqlite_append w sid base remaining r1 w1 sqlite_load l w2 ctx n prev r w'])
    show "sqlite_append w sid base remaining = (r1, w1)" "sqlite_load w1 sid = (l, w2)" by (rule a, rule l)
    show "append_retry_loop sqlite_append sqlite_load ctx sid (Suc n) prev w base remaining = (r, w')" by (rule Suc.prems(2))
  next
    fix err assume "append_retry_loop sqlite_append sqlite_load ctx sid n (Some err) w2 base remaining = (r, w')"
    with Suc.IH [OF grown_inv [OF g2]] g2 show "grown w w'" using grown_trans by blast
  next
    fix err loaded
    assume "append_retry_loop sqlite_append sqlite_load ctx sid n (Some err) w2 (max_version loaded)
        (drop (present_prefix loaded remaining) remaining) = (r, w')"
    with Suc.IH [OF grown_inv [OF g2]] g2 show "grown w w'" using grown_trans by blast
  qed (use g1 g2 in auto)
qed (auto intro: grown_refl)

lemma save_grown:
  assumes "world_inv w" and "repo_save sqlite_append sqlite_load ctx w a = (r, a', w')"
  shows "grown w w'"
proof (cases "ba_uncommitted a = []")
  case False
  obtain r1 w1 where run: "append_retry_loop sqlite_append sqlite_load ctx (ba_id a) append_retry_attempts None w
      (expected_version a) (ba_uncommitted a) = (r1, w1)" by (metis prod.exhaust)
  with assms(2) False have "w' = w1" by (auto simp: repo_save_def append_with_retry_def Let_def split: sum.splits)
  with retry_loop_grown [OF assms(1) run] show ?thesis by simp
qed (use assms in \<open>auto simp: repo_save_def intro: grown_refl\<close>)

lemma repo_load_grown:
  assumes "world_inv w" and "repo_load sqlite_load replay w i = (r, w')"
  shows "grown w w'"
proof -
  obtain l w1 where l: "sqlite_load w i = (l, w1)" by (metis prod.exhaust)
  with assms(2) have "w' = w1" by (auto simp: repo_load_def split: sum.splits)
  with load_grown [OF assms(1) l] show ?thesis by simp
qed

section \<open>The events of a change\<close>

definition change_type :: "proposal_plan \<Rightarrow> string" where
  "change_type p =
     (let kind = pl_kind p
      in if kind = ''addition'' \<or> kind = ''link'' then ev_tidal_linked
         else if kind = ''fill'' then ev_song_enriched
         else if kind = ''album_name'' \<or> kind = ''release_type'' then ev_song_corrected
         else if kind = ''credit'' then ev_credits_corrected else ev_marked_duplicate)"

lemma raise_song:
  "raise_event song_apply st et pl md a = Ok a' \<Longrightarrow> ba_id a' = ba_id a
     \<and> map ev_type (ba_uncommitted a') = map ev_type (ba_uncommitted a) @ [et]"
  by (auto simp: song.raise_as_apply dest!: song_apply_frame)

lemma song_record_type:
  "song_record st et pl a = Ok (b, a') \<Longrightarrow> ba_id a' = ba_id a
     \<and> map ev_type (ba_uncommitted a') = map ev_type (ba_uncommitted a) @ [et]"
  using raise_song [of st et pl MetaNil a] by (auto simp: song_record_def bind_res_eq_Inr)

text \<open>A command of the aggregate records nothing or one event of its type.\<close>

definition at_most :: "string \<Rightarrow> song \<Rightarrow> song \<Rightarrow> bool" where
  "at_most et a a' \<longleftrightarrow> ba_id a' = ba_id a
     \<and> (a' = a \<or> map ev_type (ba_uncommitted a') = map ev_type (ba_uncommitted a) @ [et])"

lemma command_types:
  "song_link_tidal st t how c a = Ok (b, a') \<Longrightarrow> at_most ev_tidal_linked a a'"
  "song_enrich st al d ty src a = Ok (b, a') \<Longrightarrow> at_most ev_song_enriched a a'"
  "song_correct st al d ty src a = Ok (b, a') \<Longrightarrow> at_most ev_song_corrected a a'"
  "song_correct_credits st ar src a = Ok (b, a') \<Longrightarrow> at_most ev_credits_corrected a a'"
  "song_mark_duplicate st ca src a = Ok (b, a') \<Longrightarrow> at_most ev_marked_duplicate a a'"
  by (auto simp: song_link_tidal_def song_enrich_def song_correct_def song_correct_credits_def song_mark_duplicate_def
      at_most_def Let_def split: if_splits dest: song_record_type)

lemma change_song_types:
  assumes "change_song st p a = Ok (b, a')"
  shows "at_most (change_type p) a a'"
proof -
  let ?kind = "pl_kind p"
  consider "?kind = ''addition''" | "?kind = ''link''" | "?kind = ''fill''" | "?kind \<in> {''album_name'', ''release_type''}"
    | "?kind = ''credit''" | "?kind = ''duplicate''"
    | "?kind \<notin> {''addition'', ''link'', ''fill'', ''album_name'', ''release_type'', ''credit'', ''duplicate''}" by blast
  then show ?thesis
    by cases (use assms command_types in \<open>auto simp: change_song_def change_type_def at_most_def Let_def split: if_splits\<close>)
qed

lemma open_song_start:
  assumes "open_song sqlite_load st p w = (Ok a, w')" and "world_inv w"
  shows "ba_id a = pl_target p \<and> map ev_type (ba_uncommitted a) = (if pl_kind p = ''addition'' then [ev_song_created] else [])"
proof (cases "pl_kind p = ''addition''")
  case True
  with assms(1) have "new_song st (pl_target p) (after_value p ''title'') (after_value p ''artist_name'') (after_value p ''album'')
      (after_value p ''release_date'') (after_value p ''release_type'') [] (parse_release_year (after_value p ''release_date''))
      0 0 False = Ok a" by (simp add: open_song_def)
  then obtain payload where "raise_event song_apply st ev_song_created payload MetaNil (empty_song (pl_target p)) = Ok a"
    by (auto simp: new_song_def Let_def split: if_splits)
  from raise_song [OF this] True song.init_base [of "pl_target p"] show ?thesis by simp
next
  case False
  with assms(1) obtain es where "song_replay (pl_target p) es = Ok a"
    by (auto simp: open_song_def song_load_def repo_load_def split: prod.splits sum.splits if_splits)
  then have "apply_events song_apply (empty_song (pl_target p)) es = Ok a"
    by (auto simp: song_replay_def replay_stream_def split: if_splits)
  from song.apply_events_frame [OF this] False song.init_base [of "pl_target p"] show ?thesis by simp
qed

lemma open_song_grown: "world_inv w \<Longrightarrow> open_song sqlite_load st p w = (r, w') \<Longrightarrow> grown w w'"
  by (auto simp: open_song_def song_load_def intro: grown_refl repo_load_grown split: if_splits)

section \<open>What is on record\<close>

text \<open>The change of a plan: the creation of an added song, and at most one event of the plan's kind.\<close>

definition change_recorded :: "world \<Rightarrow> proposal_plan \<Rightarrow> bool" where
  "change_recorded w p \<longleftrightarrow>
     (\<exists>es :: event list. es \<noteq> [] \<and> ev_id ` set es \<subseteq> ev_id ` set (world_history w (pl_target p))
       \<and> (map ev_type es = [change_type p]
          \<or> pl_kind p = ''addition'' \<and> map ev_type es \<in> {[ev_song_created], [ev_song_created, change_type p]}))"

text \<open>The decision: a proposal that was proposed, approved and applied.\<close>

definition decision_about :: "world \<Rightarrow> proposal_plan \<Rightarrow> bool" where
  "decision_about w p \<longleftrightarrow>
     (\<exists>nanos (es :: event list). map ev_type es = [ev_proposed, ev_approved, ev_applied]
       \<and> ev_id ` set es \<subseteq> ev_id ` set (world_history w (trim_space (''prop-'' @ pl_target p @ ''-'' @ nanos))))"

lemma ids_grow:
  assumes "grown w w'" and "ids \<subseteq> ev_id ` set (world_history w sid)"
  shows "ids \<subseteq> ev_id ` set (world_history w' sid)"
proof -
  from assms(1) obtain new where "world_history w' sid = world_history w sid @ new" by (auto simp: grown_def elim: prefixE)
  with assms(2) show ?thesis by auto
qed

lemma change_grows:
  assumes "grown w w'" and "change_recorded w p"
  shows "change_recorded w' p"
proof -
  from assms(2) obtain es :: "event list" where es: "es \<noteq> []" "ev_id ` set es \<subseteq> ev_id ` set (world_history w (pl_target p))"
    "map ev_type es = [change_type p] \<or> pl_kind p = ''addition'' \<and> map ev_type es \<in> {[ev_song_created], [ev_song_created, change_type p]}"
    unfolding change_recorded_def by (elim exE conjE)
  from ids_grow [OF assms(1) es(2)] es(1,3) show ?thesis unfolding change_recorded_def by (intro exI [of _ es] conjI)
qed

lemma decision_grows:
  assumes "grown w w'" and "decision_about w p"
  shows "decision_about w' p"
proof -
  from assms(2) obtain nanos and es :: "event list" where es: "map ev_type es = [ev_proposed, ev_approved, ev_applied]"
    "ev_id ` set es \<subseteq> ev_id ` set (world_history w (trim_space (''prop-'' @ pl_target p @ ''-'' @ nanos)))"
    unfolding decision_about_def by (elim exE conjE)
  from ids_grow [OF assms(1) es(2)] es(1) show ?thesis
    unfolding decision_about_def by (intro exI [of _ nanos] exI [of _ es] conjI)
qed

lemma applied_proposal_events:
  assumes "applied_proposal run now turn p = Ok a"
  shows "ba_id a = trim_space (proposal_id turn p) \<and> map ev_type (ba_uncommitted a) = [ev_proposed, ev_approved, ev_applied]"
proof -
  from assms obtain a1 a2 where
    one: "new_proposal (tn_propose turn) (proposal_id turn p) run (pl_target_type p) (pl_target p) (pl_kind p)
            (map_option json_entries (pl_before p)) (Some (json_entries (pl_after p))) (pl_evidence p) (pl_conf p) (pl_track p) now = Ok a1"
    and two: "proposal_approve (tn_approve turn) now ''applied via CLI'' a1 = Ok a2"
    and three: "proposal_mark_applied (tn_applied turn) now a2 = Ok a"
    by (auto simp: applied_proposal_def bind_res_eq_Inr)
  from one obtain payload where "raise_event proposal_apply (tn_propose turn) ev_proposed payload MetaNil
      (empty_proposal (trim_space (proposal_id turn p))) = Ok a1"
    by (auto simp: new_proposal_def Let_def split: if_splits)
  from raise_proposal [OF this] proposal.init_base [of "trim_space (proposal_id turn p)"]
  have "ba_id a1 = trim_space (proposal_id turn p)" "map ev_type (ba_uncommitted a1) = [ev_proposed]" by auto
  with two three show ?thesis
    by (auto simp: proposal_approve_def proposal_mark_applied_def split: if_splits dest!: raise_proposal)
qed

lemma record_applied_recorded:
  assumes "world_inv w" and "record_applied sqlite_append sqlite_load run now turn item w = (item', w')"
  shows "grown w w' \<and> pi_plan item' = pi_plan item \<and> pi_approved item' = pi_approved item
    \<and> (pi_applied item' \<longrightarrow> pi_applied item \<or> decision_about w' (pi_plan item))"
proof (cases "applied_proposal run now turn (pi_plan item)")
  case (Inl e)
  with assms show ?thesis by (auto simp: record_applied_def noted_def intro: grown_refl)
next
  case (Inr a)
  obtain r a' w1 where save: "repo_save sqlite_append sqlite_load (tn_ctx turn) w a = (r, a', w1)" by (metis prod_cases3)
  have g: "grown w w1" by (rule save_grown [OF assms(1) save])
  show ?thesis
  proof (cases r)
    case (Inl e)
    with assms(2) \<open>applied_proposal run now turn (pi_plan item) = Ok a\<close> save g show ?thesis
      by (auto simp: record_applied_def proposal_save_def noted_def)
  next
    case ok: (Inr es)
    have out: "item' = item\<lparr>pi_applied := True\<rparr>" "w' = w1"
      using assms(2) \<open>applied_proposal run now turn (pi_plan item) = Ok a\<close> save ok
      by (auto simp: record_applied_def proposal_save_def)
    note here = repo_save_present [OF assms(1) save [unfolded ok]]
    have "decision_about w1 (pi_plan item)"
      unfolding decision_about_def using here(1,3) applied_proposal_events [OF Inr] by (metis proposal_id_def)
    with out g show ?thesis by simp
  qed
qed

lemma saved_change:
  assumes "world_inv w" and a: "open_song sqlite_load st p w = (Ok a, w1)" and c: "change_song st' p a = Ok (b, a')"
    and s: "song_save sqlite_append sqlite_load ctx w1 a' = (Ok es, a'', w')" and "es \<noteq> []"
  shows "change_recorded w' p"
proof -
  have inv: "world_inv w1" using open_song_grown [OF assms(1) a] by (rule grown_inv)
  note here = repo_save_present [OF inv s [unfolded song_save_def]]
  have start: "ba_id a = pl_target p"
    "map ev_type (ba_uncommitted a) = (if pl_kind p = ''addition'' then [ev_song_created] else [])"
    using open_song_start [OF a assms(1)] by auto
  have change: "ba_id a' = ba_id a"
    "a' = a \<or> map ev_type (ba_uncommitted a') = map ev_type (ba_uncommitted a) @ [change_type p]"
    using change_song_types [OF c] by (auto simp: at_most_def)
  have ids: "ev_id ` set es \<subseteq> ev_id ` set (world_history w' (pl_target p))" using here(3) start(1) change(1) by simp
  have types: "map ev_type es = [change_type p]
      \<or> pl_kind p = ''addition'' \<and> map ev_type es \<in> {[ev_song_created], [ev_song_created, change_type p]}"
    using here(1) assms(5) start(2) change(2) by (auto split: if_splits)
  from ids types assms(5) show ?thesis unfolding change_recorded_def by (intro exI [of _ es] conjI)
qed

lemma apply_item_recorded:
  assumes inv: "world_inv w" and run: "apply_item sqlite_append sqlite_load rid now turn item w rm = (item', w', rm')"
  shows "grown w w' \<and> pi_plan item' = pi_plan item \<and> pi_approved item' = pi_approved item
    \<and> (pi_applied item' \<longrightarrow> pi_applied item \<or> change_recorded w' (pi_plan item) \<and> decision_about w' (pi_plan item))"
proof -
  let ?p = "pi_plan item"
  have kept: "pi_plan (noted e item) = ?p" "pi_approved (noted e item) = pi_approved item" "pi_applied (noted e item) = pi_applied item"
    for e by (simp_all add: noted_def)
  obtain r1 w1 where o: "open_song sqlite_load (tn_create turn) ?p w = (r1, w1)" by (metis prod.exhaust)
  have g1: "grown w w1" by (rule open_song_grown [OF inv o])
  show ?thesis
  proof (cases r1)
    case (Inl e)
    with run o g1 kept show ?thesis by (auto simp: apply_item_def)
  next
    case (Inr a)
    show ?thesis
    proof (cases "change_song (tn_change turn) ?p a")
      case (Inl e)
      with run o g1 \<open>r1 = Ok a\<close> kept show ?thesis by (auto simp: apply_item_def)
    next
      case c: (Inr ba)
      obtain b a' where ba: "ba = (b, a')" by (cases ba)
      obtain r2 a'' w2 where s: "song_save sqlite_append sqlite_load (tn_ctx turn) w1 a' = (r2, a'', w2)" by (metis prod_cases3)
      have g2: "grown w w2" using grown_trans [OF g1 save_grown [OF grown_inv [OF g1] s [unfolded song_save_def]]] .
      show ?thesis
      proof (cases r2)
        case (Inl e)
        with run o g2 \<open>r1 = Ok a\<close> c ba s kept show ?thesis by (auto simp: apply_item_def)
      next
        case es: (Inr es)
        obtain r3 rm3 where pr: "project_catalog (tn_fault turn) es rm = (r3, rm3)" by (metis prod.exhaust)
        show ?thesis
        proof (cases "es = [] \<or> (\<exists>e. r3 = Inl e)")
          case True
          then have "\<exists>e. item' = noted e item \<and> w' = w2"
            using run o Inr c ba s es pr by (cases "es = []") (auto simp: apply_item_def)
          with g2 kept show ?thesis by auto
        next
          case False
          then obtain u where u: "r3 = Inr u" and ne: "es \<noteq> []" by (cases r3) auto
          have rec: "record_applied sqlite_append sqlite_load rid now turn item w2 = (item', w')"
            using run o \<open>r1 = Ok a\<close> c ba s es pr ne u by (auto simp: apply_item_def split: prod.splits)
          note last_step = record_applied_recorded [OF grown_inv [OF g2] rec]
          have "change_recorded w2 ?p"
            by (rule saved_change [OF inv o [unfolded Inr] c [unfolded ba] s [unfolded es] ne])
          with last_step grown_trans [OF g2] change_grows show ?thesis by blast
        qed
      qed
    qed
  qed
qed

section \<open>The report\<close>

definition item_outcome :: "world \<Rightarrow> rat \<Rightarrow> report_item \<Rightarrow> report_item \<Rightarrow> bool" where
  "item_outcome w bulk item item' \<longleftrightarrow>
     pi_plan item' = pi_plan item \<and> pi_approved item' = pi_approved item
   \<and> (item' = item \<or> \<not> pi_applied item \<and> should_apply bulk item)
   \<and> (pi_applied item' \<longrightarrow> pi_applied item \<or> change_recorded w (pi_plan item) \<and> decision_about w (pi_plan item))"

definition newly_applied :: "report_item list \<Rightarrow> report_item list \<Rightarrow> nat" where
  "newly_applied before after = length (filter (\<lambda>(a, b). pi_applied b \<and> \<not> pi_applied a) (zip before after))"

lemma outcome_grows: "grown w w' \<Longrightarrow> item_outcome w bulk a b \<Longrightarrow> item_outcome w' bulk a b"
  using change_grows [of w w'] decision_grows [of w w'] by (auto simp: item_outcome_def)

lemma outcome_same: "item_outcome w bulk a a"
  by (simp add: item_outcome_def)

lemma same_newly [simp]: "newly_applied as as = 0"
  by (induction as) (simp_all add: newly_applied_def)

lemma newly_Cons [simp]:
  "newly_applied (a # as) (b # bs) = (if pi_applied b \<and> \<not> pi_applied a then 1 else 0) + newly_applied as bs"
  by (simp add: newly_applied_def)

lemma apply_items_recorded:
  assumes "world_inv w"
    and "apply_items sqlite_append sqlite_load rid now bulk limit count items w rm = (items', n, w', rm')"
  shows "grown w w' \<and> list_all2 (item_outcome w' bulk) (map fst items) items'
    \<and> n = count + int (newly_applied (map fst items) items') \<and> (0 < limit \<and> count < limit \<longrightarrow> n \<le> limit)"
  using assms
proof (induction items arbitrary: w rm count items')
  case (Cons x rest)
  obtain item turn where x: "x = (item, turn)" by (cases x)
  show ?case
  proof (cases "pi_applied item \<or> \<not> should_apply bulk item")
    case True
    then obtain out where rest: "apply_items sqlite_append sqlite_load rid now bulk limit count rest w rm = (out, n, w', rm')"
      and out: "items' = item # out"
      using Cons.prems(2) by (auto simp: x split: prod.splits)
    from Cons.IH [OF Cons.prems(1) rest] show ?thesis by (auto simp: x out outcome_same)
  next
    case False
    obtain item1 w1 rm1 where one: "apply_item sqlite_append sqlite_load rid now turn item w rm = (item1, w1, rm1)"
      by (metis prod_cases3)
    note step = apply_item_recorded [OF Cons.prems(1) one]
    have first: "item_outcome w1 bulk item item1" using step False by (auto simp: item_outcome_def)
    let ?count = "if pi_applied item1 then count + 1 else count"
    show ?thesis
    proof (cases "pi_applied item1 \<and> 0 < limit \<and> limit \<le> ?count")
      case True
      then have out: "items' = item1 # map fst rest" "n = ?count" "w' = w1"
        using Cons.prems(2) False one by (auto simp: x Let_def)
      with step first True False show ?thesis by (auto simp: x list_all2_same outcome_same)
    next
      case go: False
      obtain c where c: "?count = c" by simp
      obtain out r where rest': "apply_items sqlite_append sqlite_load rid now bulk limit c rest w1 rm1 = (out, r)"
        by (metis prod.exhaust)
      have "apply_items sqlite_append sqlite_load rid now bulk limit count (x # rest) w rm = (item1 # out, r)"
        unfolding x apply_items.simps one prod.case Let_def c rest' using False go [unfolded c] by auto
      then have out: "items' = item1 # out"
        and rest: "apply_items sqlite_append sqlite_load rid now bulk limit ?count rest w1 rm1 = (out, n, w', rm')"
        using Cons.prems(2) rest' c by auto
      from step have "world_inv w1" by (simp add: grown_def)
      note ih = Cons.IH [OF this rest]
      have "item_outcome w' bulk item item1" using outcome_grows [OF _ first] ih by blast
      moreover have "n = count + int (newly_applied (map fst (x # rest)) items')"
        using ih False by (auto simp: x out)
      moreover have "0 < limit \<and> count < limit \<longrightarrow> n \<le> limit"
        using ih go by (auto split: if_splits)
      ultimately show ?thesis using ih step grown_trans by (auto simp: x out)
    qed
  qed
qed (auto intro: grown_refl simp: newly_applied_def)


text \<open>A report with two additions, of which only the first is approved.\<close>

definition addition_of :: "string \<Rightarrow> bool \<Rightarrow> report_item" where
  "addition_of i ok =
     \<lparr>pi_plan = \<lparr>pl_kind = ''addition'', pl_target_type = ''song'', pl_target = i, pl_title = ''T'', pl_artist = [], pl_before = None,
        pl_after = [(''title'', ''T'')], pl_evidence = [], pl_conf = 1, pl_track = [], pl_auto = False, pl_review = False\<rparr>,
      pi_approved = ok, pi_applied = False, pi_note = None\<rparr>"

definition sample_turn :: "world turn" where
  "sample_turn =
     \<lparr>tn_create = \<lparr>st_uuid = ''a'', st_now = 1\<rparr>, tn_change = \<lparr>st_uuid = ''b'', st_now = 1\<rparr>,
      tn_propose = \<lparr>st_uuid = ''c'', st_now = 1\<rparr>, tn_approve = \<lparr>st_uuid = ''d'', st_now = 1\<rparr>,
      tn_applied = \<lparr>st_uuid = ''e'', st_now = 1\<rparr>, tn_nanos = ''1'', tn_fault = None, tn_ctx = (\<lambda>w. None)\<rparr>"

definition blank_models :: read_models where
  "blank_models = \<lparr>rm_artists = [], rm_history = [], rm_job_artists = [], rm_albums = [], rm_songs = []\<rparr>"

definition blank_world :: world where "blank_world = \<lparr>wd_db = empty_sqlite, wd_script = []\<rparr>"


end
