(* ===== verification/Spec2Isabelle.thy ===== *)
theory Spec2Isabelle
  imports Artist_Properties Catalog_Properties Scrape_Job_Lifecycle Batch_Run Domain_Repositories
    Outbox_Relay Wire_Properties Batch_Projection Command_Log Refresh_Selection Correlation_Registry
    Quota_Check Saga_Properties Catalog_Views Worker_Sweep_Properties Worker_Message_Properties
    Worker_Tuning Worker_Rows Fetcher Song_Resolver_Properties
    Tidal_Reconcile_Properties Tidal_Apply_Properties
begin

text \<open>
  ListenLedger keeps a collection of artists, albums and songs and refreshes the monthly listeners of
  its artists by scraping. It is event sourced: what happens is appended to streams of events in
  SQLite (\<^verbatim>\<open>internal/eventsourcing\<close>), the aggregates of \<^verbatim>\<open>internal/domain\<close> are replays of their
  streams, an outbox relay (\<^verbatim>\<open>internal/outbox\<close>) hands every event to NATS JetStream, and read models
  (\<^verbatim>\<open>internal/projections\<close>, \<^verbatim>\<open>internal/batchprogress\<close>, \<^verbatim>\<open>internal/saga\<close>) are tables computed from the
  events. A refresh is a command (\<^verbatim>\<open>internal/commands\<close>) published as a message
  (\<^verbatim>\<open>internal/messaging\<close>) that a worker (\<^verbatim>\<open>internal/worker\<close>) fetches with the providers it has
  (\<^verbatim>\<open>internal/fetcher\<close>); a scrape job follows it to its end, and the batch it belongs to closes when
  every artist was reported.

  \<^bold>\<open>How the code is represented.\<close> A struct is a record, an error value is a term of the type of
  \<open>LL_Prelude\<close> that keeps what \<^verbatim>\<open>errors.Is\<close> can see, and a function that returns a value and an error
  is a result \<open>'a res\<close>. Strings are byte strings. A table is the list of its rows in rowid order, with
  the keys, checks and foreign keys of the schema written out; a transaction is a function on the
  tables whose error gives back the tables it started from. Integers that can wrap do so at 64 bits
  (\<open>wrap64\<close>), and a payload is decoded only if its numbers fit. An operation over a database takes the
  failure of the statement that fails as an argument (\<open>fault\<close>), so that every theorem is about every
  failure. Loops are recursions over what they loop over; a loop that waits for outside answers runs on
  a script of the answers.

  \<^bold>\<open>Theories and code.\<close>
  \<^item> \<open>LL_Prelude\<close>, \<open>Json_Value\<close>: errors, results, the string and time functions of Go that the program
    uses, wrap-around, association lists; the values that payloads encode.
  \<^item> \<open>Event_Envelope\<close> (\<^verbatim>\<open>event.go\<close>, \<^verbatim>\<open>version.go\<close>, \<^verbatim>\<open>correlation.go\<close>, \<^verbatim>\<open>aggregate.go\<close>): events, their
    schema versions, upcasting and correlation metadata.
  \<^item> \<open>Sqlite_Store\<close> (\<^verbatim>\<open>store.go\<close>, \<^verbatim>\<open>snapshot.go\<close>): appending one or many batches, reading, replacing and
    deleting streams, the outbox, checkpoints and snapshots. \<open>Sqlite_Log\<close>: the invariant of the log, the
    refinement of an abstract log of histories, optimistic concurrency.
  \<^item> \<open>Append_Retry\<close> (\<^verbatim>\<open>append_retry.go\<close>): five attempts (\<open>append_retry_attempts\<close>) that reconcile with what
    reached the log, over any provider of the locale \<open>event_store\<close>.
  \<^item> \<open>Aggregate_Contract\<close>: the locale \<open>aggregate\<close>, what every \<^verbatim>\<open>apply\<close> method promises, and what
    follows for replay and save. It is interpreted by \<open>Artist_Aggregate\<close>, \<open>Artist_Facts\<close>,
    \<open>Artist_Snapshots\<close>, \<open>Artist_Repository\<close> (\<^verbatim>\<open>domain/artist\<close>), \<open>Scrape_Job\<close> (\<^verbatim>\<open>domain/scrapejob\<close>),
    \<open>Batch_Run\<close> (\<^verbatim>\<open>domain/batch\<close>), \<open>Catalog_Aggregates\<close> (\<^verbatim>\<open>domain/album\<close>), \<open>Song_Aggregate\<close>
    (\<^verbatim>\<open>domain/song\<close>), \<open>Tidal_Sync_Run\<close> (\<^verbatim>\<open>domain/tidalsync\<close>) and \<open>Correction_Proposal\<close>
    (\<^verbatim>\<open>domain/correctionproposal\<close>); \<open>Aggregate_Repository\<close> and \<open>Domain_Repositories\<close> are their
    \<^verbatim>\<open>repository.go\<close> files. The commands are the inductive relations \<open>artist_command\<close>,
    \<open>album_command\<close>, \<open>song_command\<close> and the like, and the properties hold after any number of them.
  \<^item> \<open>Messaging_Subjects\<close>, \<open>Messaging_Payloads\<close>, \<open>Wire_Properties\<close> (\<^verbatim>\<open>messaging/messages.go\<close>): the
    escaping of subjects, the payloads, and the round trips.
  \<^item> \<open>Outbox_Relay\<close> (\<^verbatim>\<open>outbox/relay.go\<close>): the pass over the outbox in batches of a hundred, the
    checkpoint and the ticks. JetStream is a parameter: an answer for every message.
  \<^item> \<open>Batch_Progress\<close>, \<open>Batch_Projection\<close> (\<^verbatim>\<open>batchprogress/store.go\<close>): the tables of the batches and
    that they follow the batch aggregate.
  \<^item> \<open>Read_Models\<close>, \<open>Projection_Properties\<close>, \<open>Catalog_Views\<close> (\<^verbatim>\<open>internal/projections\<close>): the read models of
    artists, albums and songs. The locales \<open>projector\<close> and \<open>aggregate_view\<close> state what a projection
    owes to the aggregate; the three projections interpret them.
  \<^item> \<open>Command_Log\<close> (\<^verbatim>\<open>commands/commands.go\<close>): logging, listing and redriving accepted requests.
  \<^item> \<open>Refresh_Selection\<close> (\<^verbatim>\<open>priority\<close>, the selection queries of \<^verbatim>\<open>handlers/artist_helpers.go\<close>): the
    tiers, and that the SQL query and the fallback select the same.
  \<^item> \<open>Correlation_Registry\<close> (\<^verbatim>\<open>correlation/registry.go\<close>): the five minute registry.
  \<^item> \<open>Quota_Check\<close> (\<^verbatim>\<open>quota/quota.go\<close>): the verdict on every provider from the reply of its endpoint.
  \<^item> \<open>Saga_Orchestrator\<close>, \<open>Saga_Properties\<close> (\<^verbatim>\<open>saga/orchestrator.go\<close>): the tick that derives an
    instance for every tracked request from its job stream and its row.
  \<^item> \<open>Fetcher\<close> (\<^verbatim>\<open>fetcher/fetcher.go\<close>): the retry loop, the batches and the pool; the client is a
    parameter that answers from everything called before.
  \<^item> \<open>Worker_Jobs\<close>, \<open>Worker_Sweeps\<close> (\<^verbatim>\<open>worker/jobs.go\<close>): the stream, the row and the PocketBase mirror of
    a scrape job, and the sweeps over rows that died. A \<open>jobs_world\<close> holds the tables, the event
    store, the caches of the worker, and the scripts of failures and of clock readings.
    \<open>Calm_Store\<close> is the locale of a store without failures; \<open>Worker_Sweep_Steps\<close> and
    \<open>Worker_Sweep_Properties\<close> show that the orphan sweep settles what was never dispatched.
  \<^item> \<open>Worker_Messages\<close>, \<open>Worker_Message_Properties\<close> (\<^verbatim>\<open>worker/processing.go\<close>, \<^verbatim>\<open>dlq.go\<close>, \<^verbatim>\<open>dispatch.go\<close>,
    \<^verbatim>\<open>artist_updates.go\<close>, \<^verbatim>\<open>metrics.go\<close>): what becomes of a message, with the calls made on it listed.
    \<open>Worker_Rows\<close>: the type of the job rows, kept by every step of the worker.
  \<^item> \<open>Worker_Tuning\<close> (\<^verbatim>\<open>worker/worker.go\<close>): provider pools, timeouts and the redelivery schedule.
  \<^item> \<open>Text_Keys\<close>, \<open>Edit_Distance\<close>, \<open>Artist_Index\<close>, \<open>Name_Parser\<close>, \<open>Track_Candidates\<close>, \<open>Song_Resolver\<close>
    (\<^verbatim>\<open>songbackfill/normalize.go\<close>, \<^verbatim>\<open>artistindex.go\<close>, \<^verbatim>\<open>nameparser.go\<close>, \<^verbatim>\<open>candidate.go\<close>, \<^verbatim>\<open>resolver.go\<close>,
    \<^verbatim>\<open>types.go\<close>): finding the artists of a song from the credit it carries or that a catalogue
    offers. The tables of Unicode are a record of the model and the catalogues are functions;
    confidences and similarities are exact fractions, and the notes of a resolution are terms instead
    of formatted text. \<open>Song_Resolver_Properties\<close> shows what an update rests on.
  \<^item> \<open>Title_Patterns\<close>, \<open>Album_Titles\<close>, \<open>Tidal_Reconcile\<close>, \<open>Tidal_Reconcile_Properties\<close>
    (\<^verbatim>\<open>tidalsync/reconcile.go\<close>): the regular expressions of titles with a matcher proved against
    their words, the cleaning of album titles, and the plans that follow from the tracks of a TIDAL
    collection. The sums that make a score are at least a hundredth apart, so exact fractions compare as
    the floats of the code do.
  \<^item> \<open>Tidal_Apply\<close>, \<open>Tidal_Apply_Properties\<close> (\<^verbatim>\<open>runApply\<close> of \<^verbatim>\<open>cmd/tidal_sync/main.go\<close>): applying those plans
    through the song aggregate, its repository, the projection and the correction proposals.

  \<^bold>\<open>Bounds.\<close> The retry of an append makes at most five attempts, which is the constant of the code and
  not a cut of the model: running out of attempts is the error the code returns. The window of
  recorded requests holds 64 entries, the relay reads 100 events in a pass, the scans of the saga have
  the limits of the code, and the theorems about convergence assume that what they speak of lies
  within them. No definition has fuel of its own; every other recursion is structural or has a proved
  measure.

  \<^bold>\<open>Hypotheses about code outside.\<close> SQLite executes the statements it is given and rolls back a failed
  transaction; JetStream answers a publish with an acknowledgement or an error; HTTP replies are
  arguments. Identifiers generated at random are arguments, and distinct where a theorem says so.

  \<^bold>\<open>Not modelled.\<close> The JetStream event store and the set-up of streams and buckets, whose behaviour is
  the server's; the start and stop of the worker's goroutines, its heartbeats and log output, and a
  worker without SQLite; the HTTP and browser clients of Spotify, TIDAL, the scraping providers and the
  catalogues of the song backfill; handlers
  and templates, which are request handling over PocketBase; the saga history; the other command line tools. The manifest
  lists them with their state.
\<close>

end
